(* ===== verification/Prelude.thy ===== *)
theory Prelude
  imports Main "HOL-Library.Word"
begin

text \<open>
  Shared vocabulary of the development: the machine types of the server (\<open>uint64\<close>,
  \<open>unsigned int\<close>, bytes), \<open>unsigned int\<close> arithmetic with its wrap-around, the byte
  layout of integers in a network frame, and the collections of facts the component
  theories add to.
\<close>

section \<open>Collections of facts\<close>

named_theorems wf_intros \<open>operations that keep a component's invariant\<close>
named_theorems frame_simps \<open>fields an operation leaves alone\<close>

section \<open>Machine types\<close>

text \<open>
  \<open>uint64\<close> of \<open>common.h\<close>; object serial numbers (\<open>sn\<close>) and times are of this type.
  \<open>SOCKET\<close> is \<open>int\<close> on Linux; \<open>INVALID_SOCKET\<close> and \<open>INVALID_ID\<close> are \<open>-1\<close>.
\<close>

type_synonym u64 = "64 word"
type_synonym byte = "8 word"
type_synonym socket = int

abbreviation INVALID_SOCKET :: socket where "INVALID_SOCKET \<equiv> -1"
abbreviation INVALID_ID :: int where "INVALID_ID \<equiv> -1"

section \<open>Arithmetic of \<open>unsigned int\<close> and \<open>unsigned short\<close>\<close>

definition add32 :: "nat \<Rightarrow> nat \<Rightarrow> nat" where
  "add32 a b = (a + b) mod 2 ^ 32"

definition sub32 :: "nat \<Rightarrow> nat \<Rightarrow> nat" where
  "sub32 a b = (a + 2 ^ 32 - b mod 2 ^ 32) mod 2 ^ 32"

definition trunc16 :: "nat \<Rightarrow> nat" where
  "trunc16 a = a mod 2 ^ 16"

lemma add32_exact [simp]: "a + b < 2 ^ 32 \<Longrightarrow> add32 a b = a + b"
  by (simp add: add32_def)

lemma sub32_exact [simp]:
  assumes "b \<le> a" and "a < 2 ^ 32"
  shows "sub32 a b = a - b"
proof -
  have "sub32 a b = (2 ^ 32 + (a - b)) mod 2 ^ 32"
    using assms by (simp add: sub32_def add.commute)
  also have "\<dots> = (a - b) mod 2 ^ 32" by (rule mod_add_self1)
  also have "\<dots> = a - b" using assms by simp
  finally show ?thesis .
qed

lemma sub32_wraps: "a < b \<Longrightarrow> b < 2 ^ 32 \<Longrightarrow> sub32 a b = a + 2 ^ 32 - b"
  by (simp add: sub32_def)

lemma trunc16_exact [simp]: "a < 2 ^ 16 \<Longrightarrow> trunc16 a = a"
  by (simp add: trunc16_def)

lemma trunc16_bound: "trunc16 a < 2 ^ 16"
  by (simp add: trunc16_def)

section \<open>Integers as little-endian bytes\<close>

text \<open>
  A frame is built with \<open>memcpy\<close> from the host's integers; the host is little-endian.
\<close>

fun le_enc :: "nat \<Rightarrow> nat \<Rightarrow> byte list" where
  "le_enc 0 n = []"
| "le_enc (Suc k) n = word_of_nat (n mod 256) # le_enc k (n div 256)"

fun le_dec :: "byte list \<Rightarrow> nat" where
  "le_dec [] = 0"
| "le_dec (b # bs) = unat b + 256 * le_dec bs"

lemma length_le_enc [simp]: "length (le_enc k n) = k"
  by (induction k arbitrary: n) auto

lemma le_enc_numeral:
  "le_enc (numeral k) n = word_of_nat (n mod 256) # le_enc (pred_numeral k) (n div 256)"
  by (subst numeral_eq_Suc) (rule le_enc.simps(2))

lemma le_dec_enc: "le_dec (le_enc k n) = n mod 256 ^ k"
proof (induction k arbitrary: n)
  case 0
  then show ?case by simp
next
  case (Suc k)
  have "unat (word_of_nat (n mod 256) :: byte) = n mod 256"
    by (simp add: unat_of_nat take_bit_eq_mod)
  with Suc show ?case by (simp add: mod_mult2_eq)
qed

lemma le_dec_enc_exact [simp]: "n < 256 ^ k \<Longrightarrow> le_dec (le_enc k n) = n"
  by (simp add: le_dec_enc)

lemma le_dec_bound: "le_dec bs < 256 ^ length bs"
proof (induction bs)
  case Nil
  then show ?case by simp
next
  case (Cons b bs)
  have "unat b < 256" using unsigned_less [where ?w = b] by simp
  moreover have "256 * le_dec bs + 256 \<le> 256 * 256 ^ length bs"
    using Cons by (metis Suc_leI mult_Suc_right add.commute mult_le_mono2)
  ultimately show ?case by simp
qed

section \<open>Lists\<close>

lemma take_eq_append_len [simp]: "take (length xs) (xs @ ys) = xs"
  by simp

lemma drop_replace_front: "length xs \<le> n \<Longrightarrow> drop n (xs @ drop (length xs) ys) = drop n ys"
  by simp

lemma filter_neq_id: "x \<notin> set xs \<Longrightarrow> filter (\<lambda>y. y \<noteq> x) xs = xs"
  by (induction xs) auto

lemma find_Some_set: "find P xs = Some x \<Longrightarrow> x \<in> set xs \<and> P x"
  by (induction xs) (auto split: if_splits)

lemma find_None_all: "find P xs = None \<longleftrightarrow> (\<forall>x\<in>set xs. \<not> P x)"
  by (induction xs) auto

section \<open>Invariants and progress of step relations\<close>

text \<open>
  The contract between a component that is a step relation and what is proved of its runs: a
  predicate that every step keeps holds in every state a run leads to. Each component with a step
  relation is an instance.
\<close>

locale invariant_system =
  fixes step :: "'s \<Rightarrow> 's \<Rightarrow> bool"
    and inv :: "'s \<Rightarrow> bool"
  assumes step_inv: "inv s \<Longrightarrow> step s s' \<Longrightarrow> inv s'"
begin

lemma run_inv: "step\<^sup>*\<^sup>* s s' \<Longrightarrow> inv s \<Longrightarrow> inv s'"
  by (induction rule: rtranclp_induct) (auto intro: step_inv)

end

text \<open>A system in which, as long as the end is not reached, some step comes nearer to it.\<close>

locale progress_system = invariant_system +
  fixes final :: "'s \<Rightarrow> bool"
    and rank :: "'s \<Rightarrow> nat"
  assumes progress: "inv s \<Longrightarrow> \<not> final s \<Longrightarrow> \<exists>s'. step s s' \<and> rank s' < rank s"
begin

lemma reaches_final: "inv s \<Longrightarrow> \<exists>s'. step\<^sup>*\<^sup>* s s' \<and> final s'"
proof (induction "rank s" arbitrary: s rule: less_induct)
  case less
  show ?case
  proof (cases "final s")
    case False
    from progress [OF less.prems False] obtain s1 where s1: "step s s1" "rank s1 < rank s" by blast
    from less.hyps [OF s1(2) step_inv [OF less.prems s1(1)]] obtain s' where "step\<^sup>*\<^sup>* s1 s'" "final s'" by blast
    then show ?thesis using s1(1) by (blast intro: converse_rtranclp_into_rtranclp)
  qed blast
qed

lemma run_reaches_final: "step\<^sup>*\<^sup>* s s' \<Longrightarrow> inv s \<Longrightarrow> \<exists>s''. step\<^sup>*\<^sup>* s' s'' \<and> final s''"
  using run_inv reaches_final by blast

end

end
