(* ===== verification/Std_Map.thy ===== *)
theory Std_Map
  imports Prelude
begin

text \<open>
  The associative containers of the C++ library as the server uses them. A \<open>std::map\<close> is
  a list of key/value pairs in strictly increasing key order, so that iteration
  (\<open>begin()\<close>, \<open>++iter\<close>) has the order the program sees; a \<open>std::set\<close> is a strictly
  increasing list. The locale \<open>ordered_map\<close> is what the components rely on; it is
  interpreted on the list operations at the end of the first section.
\<close>

section \<open>The interface\<close>

locale ordered_map =
  fixes find_in :: "'m \<Rightarrow> 'k::linorder \<Rightarrow> 'v option"
    and assign :: "'k \<Rightarrow> 'v \<Rightarrow> 'm \<Rightarrow> 'm"
    and insert_new :: "'k \<Rightarrow> 'v \<Rightarrow> 'm \<Rightarrow> 'm"
    and erase :: "'k \<Rightarrow> 'm \<Rightarrow> 'm"
    and keys_of :: "'m \<Rightarrow> 'k list"
    and wf :: "'m \<Rightarrow> bool"
  assumes find_assign: "find_in (assign k v m) = (find_in m)(k \<mapsto> v)"
    and find_insert_new:
      "find_in (insert_new k v m) = (if find_in m k = None then (find_in m)(k \<mapsto> v) else find_in m)"
    and find_erase: "find_in (erase k m) = (find_in m)(k := None)"
    and wf_assign: "wf m \<Longrightarrow> wf (assign k v m)"
    and wf_insert_new: "wf m \<Longrightarrow> wf (insert_new k v m)"
    and wf_erase: "wf m \<Longrightarrow> wf (erase k m)"
    and keys_sorted: "wf m \<Longrightarrow> sorted_wrt (<) (keys_of m)"
    and keys_dom: "set (keys_of m) = dom (find_in m)"
begin

lemma keys_assign: "set (keys_of (assign k v m)) = insert k (set (keys_of m))"
  by (auto simp: keys_dom find_assign)

lemma keys_erase: "set (keys_of (erase k m)) = set (keys_of m) - {k}"
  by (auto simp: keys_dom find_erase)

lemma distinct_keys: "wf m \<Longrightarrow> distinct (keys_of m)"
  using keys_sorted strict_sorted_iff by blast

lemma erase_shrinks:
  assumes "wf m" and "find_in m k = Some v"
  shows "length (keys_of (erase k m)) < length (keys_of m)"
proof -
  have "k \<in> set (keys_of m)" using assms(2) by (auto simp: keys_dom)
  then have "card (set (keys_of m) - {k}) < card (set (keys_of m))"
    by (meson List.finite_set card_Diff1_less)
  then show ?thesis
    using distinct_card [OF distinct_keys] assms(1) wf_erase [OF assms(1)]
    by (metis keys_erase)
qed

end

section \<open>\<open>std::map\<close>\<close>

type_synonym ('k, 'v) smap = "('k \<times> 'v) list"

abbreviation sm_find :: "('k, 'v) smap \<Rightarrow> 'k \<Rightarrow> 'v option" where
  "sm_find \<equiv> map_of"

abbreviation sm_keys :: "('k, 'v) smap \<Rightarrow> 'k list" where
  "sm_keys m \<equiv> map fst m"

definition sm_wf :: "('k::linorder, 'v) smap \<Rightarrow> bool" where
  "sm_wf m \<longleftrightarrow> sorted_wrt (<) (map fst m)"

text \<open>\<open>m[k] = v\<close>.\<close>

fun sm_assign :: "'k::linorder \<Rightarrow> 'v \<Rightarrow> ('k, 'v) smap \<Rightarrow> ('k, 'v) smap" where
  "sm_assign k v [] = [(k, v)]"
| "sm_assign k v (p # m) =
     (if k < fst p then (k, v) # p # m
      else if k = fst p then (k, v) # m
      else p # sm_assign k v m)"

text \<open>\<open>m.insert\<close> and \<open>m.emplace\<close>: no effect on a key that is present.\<close>

definition sm_insert :: "'k::linorder \<Rightarrow> 'v \<Rightarrow> ('k, 'v) smap \<Rightarrow> ('k, 'v) smap" where
  "sm_insert k v m = (if sm_find m k = None then sm_assign k v m else m)"

definition sm_erase :: "'k \<Rightarrow> ('k, 'v) smap \<Rightarrow> ('k, 'v) smap" where
  "sm_erase k m = filter (\<lambda>p. fst p \<noteq> k) m"

lemma sm_wf_Nil [simp, wf_intros]: "sm_wf []"
  by (simp add: sm_wf_def)

lemma sm_wf_Cons: "sm_wf (p # m) \<longleftrightarrow> (\<forall>q\<in>set m. fst p < fst q) \<and> sm_wf m"
  by (auto simp: sm_wf_def)

lemma sm_wf_distinct: "sm_wf m \<Longrightarrow> distinct (map fst m)"
  by (simp add: sm_wf_def strict_sorted_iff)

lemma find_sm_assign [simp]: "sm_find (sm_assign k v m) = (sm_find m)(k \<mapsto> v)"
  by (induction m) (auto simp: fun_eq_iff)

lemma find_sm_insert [simp]:
  "sm_find (sm_insert k v m) = (if sm_find m k = None then (sm_find m)(k \<mapsto> v) else sm_find m)"
  by (simp add: sm_insert_def)

lemma find_sm_erase [simp]: "sm_find (sm_erase k m) = (sm_find m)(k := None)"
  by (induction m) (auto simp: sm_erase_def fun_eq_iff)

lemma set_sm_assign_subset: "set (sm_assign k v m) \<subseteq> insert (k, v) (set m)"
  by (induction m) auto

lemma fst_sm_assign: "fst ` set (sm_assign k v m) = insert k (fst ` set m)"
  by (induction m) auto

lemma sm_wf_assign [simp, wf_intros]: "sm_wf m \<Longrightarrow> sm_wf (sm_assign k v m)"
proof (induction m)
  case Nil
  then show ?case by (simp add: sm_wf_def)
next
  case (Cons p m)
  then have "sm_wf (sm_assign k v m)" and lt: "\<forall>q\<in>set m. fst p < fst q"
    by (auto simp: sm_wf_Cons)
  moreover have "\<forall>q\<in>set (sm_assign k v m). fst p < fst q" if "fst p < k"
    using that lt set_sm_assign_subset [of k v m] by auto
  ultimately show ?case using Cons.prems by (auto simp: sm_wf_Cons)
qed

lemma sm_wf_insert [simp, wf_intros]: "sm_wf m \<Longrightarrow> sm_wf (sm_insert k v m)"
  by (simp add: sm_insert_def)

lemma sm_wf_filter [simp, wf_intros]: "sm_wf m \<Longrightarrow> sm_wf (filter P m)"
  by (induction m) (auto simp: sm_wf_Cons)

lemma sm_wf_erase [simp, wf_intros]: "sm_wf m \<Longrightarrow> sm_wf (sm_erase k m)"
  by (simp add: sm_erase_def)

interpretation stdmap: ordered_map sm_find sm_assign sm_insert sm_erase sm_keys sm_wf
  by unfold_locales (simp_all add: dom_map_of_conv_image_fst, simp add: sm_wf_def)

lemma sm_find_in_set: "sm_wf m \<Longrightarrow> (k, v) \<in> set m \<longleftrightarrow> sm_find m k = Some v"
  by (simp add: sm_wf_distinct)

lemma sm_find_filter:
  assumes "sm_wf m"
  shows "sm_find (filter (\<lambda>p. P (fst p) (snd p)) m) k =
           (case sm_find m k of None \<Rightarrow> None | Some v \<Rightarrow> if P k v then Some v else None)"
  using assms
proof (induction m)
  case Nil
  then show ?case by simp
next
  case (Cons p m)
  have "sm_find m (fst p) = None" if "sm_wf (p # m)"
    using that by (force simp: sm_wf_Cons map_of_eq_None_iff)
  then show ?case using Cons by (auto simp: sm_wf_Cons split: option.splits)
qed

lemma sm_assign_not_empty [simp]: "sm_assign k v m \<noteq> []"
  by (cases m) auto

lemma length_sm_assign:
  "length (sm_assign k v m) = (if k \<in> fst ` set m then length m else Suc (length m))"
  if "sm_wf m"
  using that by (induction m) (force simp: sm_wf_Cons)+

text \<open>\<open>find_if(begin, end, p)\<close>: the first pair, in key order, whose value satisfies \<open>p\<close>.\<close>

definition sm_find_if :: "('k \<Rightarrow> 'v \<Rightarrow> bool) \<Rightarrow> ('k, 'v) smap \<Rightarrow> ('k \<times> 'v) option" where
  "sm_find_if P m = find (\<lambda>p. P (fst p) (snd p)) m"

lemma sm_find_if_Some:
  "sm_find_if P m = Some (k, v) \<Longrightarrow> (k, v) \<in> set m \<and> P k v"
  by (auto simp: sm_find_if_def dest: find_Some_set)

lemma sm_find_if_None: "sm_find_if P m = None \<longleftrightarrow> (\<forall>(k, v)\<in>set m. \<not> P k v)"
  by (auto simp: sm_find_if_def find_None_all)

text \<open>Merging a whole map with \<open>insert(first, last)\<close>: keys that are present stay.\<close>

definition sm_insert_all :: "('k::linorder, 'v) smap \<Rightarrow> ('k, 'v) smap \<Rightarrow> ('k, 'v) smap" where
  "sm_insert_all xs m = fold (\<lambda>(k, v). sm_insert k v) xs m"

lemma sm_wf_insert_all [simp, wf_intros]: "sm_wf m \<Longrightarrow> sm_wf (sm_insert_all xs m)"
  by (induction xs arbitrary: m) (auto simp: sm_insert_all_def)

lemma find_sm_insert_all:
  "sm_find (sm_insert_all xs m) k =
     (case sm_find m k of Some v \<Rightarrow> Some v | None \<Rightarrow> sm_find xs k)"
proof (induction xs arbitrary: m)
  case Nil
  then show ?case by (simp add: sm_insert_all_def split: option.splits)
next
  case (Cons p xs)
  obtain a b where p: "p = (a, b)" by (cases p)
  have "sm_insert_all (p # xs) m = sm_insert_all xs (sm_insert a b m)"
    by (simp add: sm_insert_all_def p)
  then show ?case by (simp add: Cons.IH p split: option.splits)
qed

lemma sm_insert_all_Nil [simp]: "sm_insert_all [] m = m"
  by (simp add: sm_insert_all_def)

section \<open>\<open>std::set\<close>\<close>

type_synonym 'a sset = "'a list"

fun ss_insert :: "'a::linorder \<Rightarrow> 'a sset \<Rightarrow> 'a sset" where
  "ss_insert x [] = [x]"
| "ss_insert x (y # ys) =
     (if x < y then x # y # ys else if x = y then y # ys else y # ss_insert x ys)"

definition ss_erase :: "'a \<Rightarrow> 'a sset \<Rightarrow> 'a sset" where
  "ss_erase x s = filter (\<lambda>y. y \<noteq> x) s"

definition ss_wf :: "'a::linorder sset \<Rightarrow> bool" where
  "ss_wf s \<longleftrightarrow> sorted_wrt (<) s"

lemma ss_wf_Nil [simp, wf_intros]: "ss_wf []"
  by (simp add: ss_wf_def)

lemma set_ss_insert [simp]: "set (ss_insert x s) = insert x (set s)"
  by (induction s) auto

lemma set_ss_erase [simp]: "set (ss_erase x s) = set s - {x}"
  by (auto simp: ss_erase_def)

lemma ss_insert_not_empty [simp]: "ss_insert x s \<noteq> []"
  by (cases s) auto

lemma ss_wf_insert [simp, wf_intros]: "ss_wf s \<Longrightarrow> ss_wf (ss_insert x s)"
  by (induction s) (auto simp: ss_wf_def)

lemma ss_wf_erase [simp, wf_intros]: "ss_wf s \<Longrightarrow> ss_wf (ss_erase x s)"
  by (simp add: ss_wf_def ss_erase_def sorted_wrt_filter)

lemma ss_wf_distinct: "ss_wf s \<Longrightarrow> distinct s"
  by (simp add: ss_wf_def strict_sorted_iff)

end
