(* ===== verification/Cache.thy ===== *)
theory Cache
  imports Std_Map "HOL-Library.Multiset"
begin

text \<open>
  \<open>cache_swap.h\<close> and \<open>cache_refresh.h\<close>: the double buffer in which other threads leave work
  for a thread, and the map whose insertions and deletions wait for the next \<open>Swap\<close>.
  Pointers to objects are numbers (\<open>addr\<close>).
\<close>

type_synonym addr = nat

section \<open>\<open>class CacheSwap\<close>\<close>

text \<open>\<open>cs_readerIs1\<close>: whether \<open>_readerCache\<close> points to \<open>_caches1\<close>; the writer is the other.\<close>

record 'a CacheSwap =
  cs_caches1 :: "'a list"
  cs_caches2 :: "'a list"
  cs_readerIs1 :: bool

definition CacheSwap_new :: "'a CacheSwap" where
  "CacheSwap_new = \<lparr>cs_caches1 = [], cs_caches2 = [], cs_readerIs1 = False\<rparr>"

definition GetWriterCache :: "'a CacheSwap \<Rightarrow> 'a list" where
  "GetWriterCache c = (if cs_readerIs1 c then cs_caches2 c else cs_caches1 c)"

definition GetReaderCache :: "'a CacheSwap \<Rightarrow> 'a list" where
  "GetReaderCache c = (if cs_readerIs1 c then cs_caches1 c else cs_caches2 c)"

text \<open>What callers do through the two pointers: append to the writer, clear the reader.\<close>

definition writer_emplace_back :: "'a \<Rightarrow> 'a CacheSwap \<Rightarrow> 'a CacheSwap" where
  "writer_emplace_back x c =
     (if cs_readerIs1 c then c\<lparr>cs_caches2 := cs_caches2 c @ [x]\<rparr>
      else c\<lparr>cs_caches1 := cs_caches1 c @ [x]\<rparr>)"

definition reader_clear :: "'a CacheSwap \<Rightarrow> 'a CacheSwap" where
  "reader_clear c = (if cs_readerIs1 c then c\<lparr>cs_caches1 := []\<rparr> else c\<lparr>cs_caches2 := []\<rparr>)"

definition CacheSwap_Swap :: "'a CacheSwap \<Rightarrow> 'a CacheSwap" where
  "CacheSwap_Swap c = c\<lparr>cs_readerIs1 := \<not> cs_readerIs1 c\<rparr>"

definition CacheSwap_CanSwap :: "'a CacheSwap \<Rightarrow> bool" where
  "CacheSwap_CanSwap c \<longleftrightarrow> length (GetWriterCache c) > 0"

text \<open>Calls \<open>BackToPool\<close> on each element (the list returned, in that order), then clears.\<close>

definition CacheSwap_BackToPool :: "'a CacheSwap \<Rightarrow> 'a list \<times> 'a CacheSwap" where
  "CacheSwap_BackToPool c = (cs_caches1 c @ cs_caches2 c, c\<lparr>cs_caches1 := [], cs_caches2 := []\<rparr>)"

lemma CacheSwap_simps [simp]:
  "GetWriterCache (CacheSwap_Swap c) = GetReaderCache c"
  "GetReaderCache (CacheSwap_Swap c) = GetWriterCache c"
  "GetWriterCache (writer_emplace_back x c) = GetWriterCache c @ [x]"
  "GetReaderCache (writer_emplace_back x c) = GetReaderCache c"
  "GetReaderCache (reader_clear c) = []"
  "GetWriterCache (reader_clear c) = GetWriterCache c"
  "GetWriterCache CacheSwap_new = []" "GetReaderCache CacheSwap_new = []"
  by (simp_all add: GetWriterCache_def GetReaderCache_def CacheSwap_Swap_def
      writer_emplace_back_def reader_clear_def CacheSwap_new_def)

section \<open>\<open>class CacheRefresh\<close>\<close>

record 'a CacheRefresh =
  cr_objs :: "(u64, 'a) smap"
  cr_adds :: "(u64, 'a) smap"
  cr_removes :: "u64 list"

definition CacheRefresh_new :: "'a CacheRefresh" where
  "CacheRefresh_new = \<lparr>cr_objs = [], cr_adds = [], cr_removes = []\<rparr>"

definition AddObj :: "u64 \<Rightarrow> 'a \<Rightarrow> 'a CacheRefresh \<Rightarrow> 'a CacheRefresh" where
  "AddObj sn obj c = c\<lparr>cr_adds := sm_insert sn obj (cr_adds c)\<rparr>"

definition RemoveObj :: "u64 \<Rightarrow> 'a CacheRefresh \<Rightarrow> 'a CacheRefresh" where
  "RemoveObj sn c = c\<lparr>cr_removes := cr_removes c @ [sn]\<rparr>"

definition CacheRefresh_Count :: "'a CacheRefresh \<Rightarrow> nat" where
  "CacheRefresh_Count c = length (cr_objs c) + length (cr_adds c)"

definition CacheRefresh_CanSwap :: "'a CacheRefresh \<Rightarrow> bool" where
  "CacheRefresh_CanSwap c \<longleftrightarrow> cr_adds c \<noteq> [] \<or> cr_removes c \<noteq> []"

text \<open>The removal loop: what is found leaves the map and is recycled (or deleted).\<close>

fun Swap_removes :: "u64 list \<Rightarrow> (u64, 'a) smap \<Rightarrow> (u64, 'a) smap \<times> 'a list" where
  "Swap_removes [] objs = (objs, [])"
| "Swap_removes (one # removes) objs =
     (case sm_find objs one of
        None \<Rightarrow> Swap_removes removes objs
      | Some obj \<Rightarrow>
          (let (objs', recycled) = Swap_removes removes (sm_erase one objs)
           in (objs', obj # recycled)))"

definition CacheRefresh_Swap :: "'a CacheRefresh \<Rightarrow> 'a CacheRefresh \<times> 'a list" where
  "CacheRefresh_Swap c =
     (let objs = (if cr_adds c \<noteq> [] then sm_insert_all (cr_adds c) (cr_objs c) else cr_objs c);
          (objs', recycled) = (if cr_removes c \<noteq> [] then Swap_removes (cr_removes c) objs else (objs, []))
      in (c\<lparr>cr_objs := objs', cr_adds := [], cr_removes := []\<rparr>, recycled))"

text \<open>Both call the objects of \<open>_adds\<close>, then of \<open>_objs\<close>, and empty the cache.\<close>

definition CacheRefresh_BackToPool :: "'a CacheRefresh \<Rightarrow> 'a list \<times> 'a CacheRefresh" where
  "CacheRefresh_BackToPool c =
     (map snd (cr_adds c) @ map snd (cr_objs c), c\<lparr>cr_adds := [], cr_objs := [], cr_removes := []\<rparr>)"

definition CacheRefresh_Dispose :: "'a CacheRefresh \<Rightarrow> 'a list \<times> 'a CacheRefresh" where
  "CacheRefresh_Dispose c =
     (map snd (cr_adds c) @ map snd (cr_objs c), c\<lparr>cr_adds := [], cr_objs := [], cr_removes := []\<rparr>)"

section \<open>Facts\<close>

definition cr_wf :: "'a CacheRefresh \<Rightarrow> bool" where
  "cr_wf c \<longleftrightarrow> sm_wf (cr_objs c) \<and> sm_wf (cr_adds c)"

lemma cr_wf_new [wf_intros]: "cr_wf CacheRefresh_new"
  by (simp add: cr_wf_def CacheRefresh_new_def)

lemma cr_wf_AddObj [wf_intros]: "cr_wf c \<Longrightarrow> cr_wf (AddObj sn obj c)"
  by (simp add: cr_wf_def AddObj_def)

lemma cr_wf_RemoveObj [wf_intros]: "cr_wf c \<Longrightarrow> cr_wf (RemoveObj sn c)"
  by (simp add: cr_wf_def RemoveObj_def)

text \<open>What the loop leaves is the map without the removed keys, each recycled once.\<close>

lemma Swap_removes_objs:
  "fst (Swap_removes removes objs) = filter (\<lambda>p. fst p \<notin> set removes) objs"
proof (induction removes arbitrary: objs)
  case Nil
  then show ?case by simp
next
  case (Cons one removes)
  show ?case
  proof (cases "sm_find objs one")
    case None
    then have "\<forall>p\<in>set objs. fst p \<noteq> one" by (force simp: map_of_eq_None_iff)
    with None Cons show ?thesis by (auto intro: filter_cong)
  next
    case (Some obj)
    with Cons [of "sm_erase one objs"] show ?thesis
      by (auto simp: case_prod_unfold Let_def sm_erase_def intro: filter_cong)
  qed
qed

lemma Swap_removes_recycled:
  "sm_wf objs \<Longrightarrow> distinct removes \<Longrightarrow>
   snd (Swap_removes removes objs) = List.map_filter (sm_find objs) removes"
proof (induction removes arbitrary: objs)
  case Nil
  then show ?case by (simp add: map_filter_simps)
next
  case (Cons one removes)
  show ?case
  proof (cases "sm_find objs one")
    case None
    with Cons show ?thesis by (simp add: map_filter_simps)
  next
    case (Some obj)
    have "snd (Swap_removes removes (sm_erase one objs))
        = List.map_filter (sm_find (sm_erase one objs)) removes"
      using Cons by simp
    also have "\<dots> = List.map_filter (sm_find objs) removes"
      using Cons.prems(2) by (auto simp: List.map_filter_def intro!: map_cong filter_cong)
    finally show ?thesis using Some by (simp add: map_filter_simps case_prod_unfold Let_def)
  qed
qed

lemma CacheRefresh_Swap_fields [simp]:
  "cr_adds (fst (CacheRefresh_Swap c)) = []" "cr_removes (fst (CacheRefresh_Swap c)) = []"
  by (simp_all add: CacheRefresh_Swap_def Let_def case_prod_unfold)

lemma cr_wf_Swap [wf_intros]: "cr_wf c \<Longrightarrow> cr_wf (fst (CacheRefresh_Swap c))"
  by (auto simp: cr_wf_def CacheRefresh_Swap_def Let_def case_prod_unfold Swap_removes_objs)

text \<open>After a swap an object is found exactly when it was in either map and not removed; an
  object already in the map wins over one waiting with the same number.\<close>

lemma find_Swap:
  assumes "cr_wf c"
  shows "sm_find (cr_objs (fst (CacheRefresh_Swap c))) sn =
    (if sn \<in> set (cr_removes c) then None
     else (case sm_find (cr_objs c) sn of Some x \<Rightarrow> Some x | None \<Rightarrow> sm_find (cr_adds c) sn))"
proof -
  let ?m = "if cr_adds c \<noteq> [] then sm_insert_all (cr_adds c) (cr_objs c) else cr_objs c"
  have m: "?m = sm_insert_all (cr_adds c) (cr_objs c)" by simp
  have "cr_objs (fst (CacheRefresh_Swap c)) = filter (\<lambda>p. fst p \<notin> set (cr_removes c)) ?m"
    by (cases "cr_removes c = []")
       (simp_all add: CacheRefresh_Swap_def Let_def case_prod_unfold Swap_removes_objs)
  moreover have "sm_wf ?m" using assms by (simp add: cr_wf_def)
  ultimately show ?thesis
    using sm_find_filter [of ?m "\<lambda>k v. k \<notin> set (cr_removes c)" sn]
    unfolding m find_sm_insert_all by (auto split: option.splits)
qed

text \<open>No object is lost or doubled by a swap: those kept and those recycled are together
  those there were.\<close>

lemma mset_sm_erase:
  "sm_wf m \<Longrightarrow> sm_find m k = Some v \<Longrightarrow> mset m = add_mset (k, v) (mset (sm_erase k m))"
proof (induction m)
  case Nil
  then show ?case by simp
next
  case (Cons p m)
  show ?case
  proof (cases "fst p = k")
    case True
    with Cons.prems have "\<forall>q\<in>set m. fst q \<noteq> k" by (force simp: sm_wf_Cons)
    then have "sm_erase k m = m" by (auto simp: sm_erase_def intro: filter_True)
    with True Cons.prems show ?thesis by (cases p) (simp add: sm_erase_def)
  next
    case False
    with Cons show ?thesis by (cases p) (simp add: sm_erase_def sm_wf_Cons)
  qed
qed

lemma Swap_removes_mset:
  "sm_wf objs \<Longrightarrow> mset (map snd (fst (Swap_removes removes objs)))
     + mset (snd (Swap_removes removes objs)) = mset (map snd objs)"
proof (induction removes arbitrary: objs)
  case Nil
  then show ?case by simp
next
  case (Cons one removes)
  show ?case
  proof (cases "sm_find objs one")
    case None
    with Cons show ?thesis by simp
  next
    case (Some obj)
    have "mset (map snd objs) = add_mset obj (mset (map snd (sm_erase one objs)))"
      using mset_sm_erase [OF Cons.prems Some] by simp
    with Some Cons.IH [of "sm_erase one objs"] Cons.prems show ?thesis
      by (simp add: case_prod_unfold Let_def)
  qed
qed

lemma mset_sm_insert_all:
  assumes "sm_wf m" and "sm_wf xs" and "fst ` set xs \<inter> fst ` set m = {}"
  shows "mset (sm_insert_all xs m) = mset xs + mset m"
  using assms
proof (induction xs arbitrary: m)
  case Nil
  then show ?case by simp
next
  case (Cons p xs)
  obtain a b where p: "p = (a, b)" by (cases p)
  have none: "sm_find m a = None" using Cons.prems(3) by (auto simp: p map_of_eq_None_iff)
  have ins: "mset (sm_insert a b m) = add_mset (a, b) (mset m)"
  proof -
    have "mset (sm_assign a b m) = add_mset (a, b) (mset m)" if "sm_find m a = None" for m :: "('a, 'b) smap"
      using that by (induction m) (auto split: if_splits)
    then show ?thesis using none by (simp add: sm_insert_def)
  qed
  have "sm_insert_all (p # xs) m = sm_insert_all xs (sm_insert a b m)"
    by (simp add: sm_insert_all_def p)
  moreover have "fst ` set xs \<inter> fst ` set (sm_insert a b m) = {}"
  proof -
    have "set (sm_insert a b m) = insert (a, b) (set m)"
      using ins by (metis set_mset_mset set_mset_add_mset_insert)
    then show ?thesis using Cons.prems(2,3) by (force simp: p sm_wf_Cons)
  qed
  ultimately show ?case using Cons.IH [of "sm_insert a b m"] Cons.prems ins
    by (simp add: p sm_wf_Cons)
qed

definition cr_all :: "'a CacheRefresh \<Rightarrow> 'a multiset" where
  "cr_all c = mset (map snd (cr_adds c)) + mset (map snd (cr_objs c))"

lemma CacheRefresh_Swap_mset:
  assumes "cr_wf c" and "fst ` set (cr_adds c) \<inter> fst ` set (cr_objs c) = {}"
  shows "cr_all (fst (CacheRefresh_Swap c)) + mset (snd (CacheRefresh_Swap c)) = cr_all c"
proof -
  let ?m = "sm_insert_all (cr_adds c) (cr_objs c)"
  have m: "(if cr_adds c \<noteq> [] then ?m else cr_objs c) = ?m" by simp
  have r: "(if cr_removes c \<noteq> [] then Swap_removes (cr_removes c) ?m else (?m, [])) = Swap_removes (cr_removes c) ?m"
    by simp
  have "mset ?m = mset (cr_adds c) + mset (cr_objs c)"
    using assms by (simp add: mset_sm_insert_all cr_wf_def)
  moreover have "mset (map snd (fst (Swap_removes (cr_removes c) ?m)))
      + mset (snd (Swap_removes (cr_removes c) ?m)) = mset (map snd ?m)"
    using assms by (intro Swap_removes_mset) (simp add: cr_wf_def)
  ultimately show ?thesis
    unfolding CacheRefresh_Swap_def m r by (simp add: Let_def case_prod_unfold cr_all_def)
qed

end
