(* ===== verification/Sn_Global.thy ===== *)
theory Sn_Global
  imports Prelude
begin

unbundle bit_operations_syntax

text \<open>
  \<open>global.{h,cpp}\<close>, \<open>sn_object.{h,cpp}\<close> and \<open>app_type.h\<close>: serial numbers of objects, the
  types of server processes, and the 64-bit key of a process. A serial number is 38 bits of
  time (in units of 1024 ms), 10 bits of process id and 16 bits of ticket.
\<close>

section \<open>Process types\<close>

type_synonym app_type = int

abbreviation (input) APP_None :: app_type where "APP_None \<equiv> 0"
abbreviation (input) APP_Global :: app_type where "APP_Global \<equiv> 0"
abbreviation (input) APP_DB_MGR :: app_type where "APP_DB_MGR \<equiv> 1"
abbreviation (input) APP_GAME_MGR :: app_type where "APP_GAME_MGR \<equiv> 2"
abbreviation (input) APP_SPACE_MGR :: app_type where "APP_SPACE_MGR \<equiv> 4"
abbreviation (input) APP_LOGIN :: app_type where "APP_LOGIN \<equiv> 8"
abbreviation (input) APP_GAME :: app_type where "APP_GAME \<equiv> 16"
abbreviation (input) APP_SPACE :: app_type where "APP_SPACE \<equiv> 32"
abbreviation (input) APP_ROBOT :: app_type where "APP_ROBOT \<equiv> 64"

definition APP_APPMGR :: app_type where "APP_APPMGR = APP_GAME_MGR OR APP_SPACE_MGR"

definition APP_ALLINONE :: app_type where
  "APP_ALLINONE = APP_DB_MGR OR APP_GAME_MGR OR APP_SPACE_MGR OR APP_LOGIN OR APP_GAME OR APP_SPACE"

lemma APP_values: "APP_APPMGR = 6" "APP_ALLINONE = 63"
  by (simp_all add: APP_APPMGR_def APP_ALLINONE_def)

definition GetAppName :: "app_type \<Rightarrow> string" where
  "GetAppName t =
     (if t = APP_ALLINONE then ''allinone''
      else if t = APP_ROBOT then ''robot''
      else if t = APP_SPACE then ''space''
      else if t = APP_GAME then ''game''
      else if t = APP_LOGIN then ''login''
      else if t = APP_DB_MGR then ''dbmgr''
      else if t = APP_APPMGR then ''appmgr''
      else if t = APP_None then ''none''
      else ''unknown'')"

section \<open>Keys of processes\<close>

definition GetAppKey :: "app_type \<Rightarrow> int \<Rightarrow> u64" where
  "GetAppKey appType appId = push_bit 32 (word_of_int appType) + word_of_int appId"

definition GetTypeFromAppKey :: "u64 \<Rightarrow> app_type" where
  "GetTypeFromAppKey appKey = sint (ucast (drop_bit 32 appKey) :: 32 word)"

definition GetIdFromAppKey :: "u64 \<Rightarrow> int" where
  "GetIdFromAppKey appKey = sint (ucast (appKey AND 0x0000FFFF) :: 32 word)"

section \<open>Serial numbers\<close>

record Global =
  g_TimeTick :: u64
  g_snTicket :: "16 word"
  g_appType :: app_type
  g_appId :: int
  g_IsStop :: bool

definition Global_new :: "app_type \<Rightarrow> int \<Rightarrow> u64 \<Rightarrow> Global" where
  "Global_new appType appId now =
     \<lparr>g_TimeTick = now, g_snTicket = 1, g_appType = appType, g_appId = appId, g_IsStop = False\<rparr>"

definition UpdateTime :: "u64 \<Rightarrow> Global \<Rightarrow> Global" where
  "UpdateTime now g = g\<lparr>g_TimeTick := now\<rparr>"

definition GetAppIdFromSN :: "u64 \<Rightarrow> int" where
  "GetAppIdFromSN sn =
     sint (ucast (drop_bit 16 (drop_bit 38 (push_bit 38 sn))) :: 32 word)"

text \<open>\<open>_appId << 16\<close> is an \<open>int\<close>, sign-extended by the sum.\<close>

definition GenerateSN :: "Global \<Rightarrow> u64 \<times> Global" where
  "GenerateSN g =
     (push_bit 26 (drop_bit 10 (g_TimeTick g))
        + scast (push_bit 16 (word_of_int (g_appId g)) :: 32 word) + ucast (g_snTicket g),
      g\<lparr>g_snTicket := g_snTicket g + 1\<rparr>)"

definition SnObject_new :: "Global \<Rightarrow> u64 \<times> Global" where
  "SnObject_new g = GenerateSN g"

text \<open>Serial numbers of a run of \<open>n\<close> calls between two updates of the clock.\<close>

fun GenerateSNs :: "nat \<Rightarrow> Global \<Rightarrow> u64 list" where
  "GenerateSNs 0 g = []"
| "GenerateSNs (Suc n) g = (let (sn, g') = GenerateSN g in sn # GenerateSNs n g')"

section \<open>Facts\<close>

lemma GetAppKey_value:
  assumes "0 \<le> appType" "appType < 2 ^ 31" "0 \<le> appId" "appId < 2 ^ 31"
  shows "uint (GetAppKey appType appId) = appType * 2 ^ 32 + appId"
proof -
  have "uint (word_of_int appId :: u64) = appId" "uint (word_of_int appType :: u64) = appType"
    using assms by (simp_all add: uint_word_of_int)
  then show ?thesis using assms
    by (simp add: GetAppKey_def uint_word_ariths push_bit_eq_mult)
qed

lemma uint_drop_bit: "uint (drop_bit n (w :: 'a::len word)) = uint w div 2 ^ n"
  by (subst unsigned_drop_bit_eq) (simp add: drop_bit_eq_div bintr_uint)

lemma uint_push_bit: "uint (push_bit n (w :: 'a::len word)) = uint w * 2 ^ n mod 2 ^ LENGTH('a)"
  by (subst unsigned_push_bit_eq) (simp only: push_bit_eq_mult take_bit_eq_mod)

lemma uint_take_bit: "uint (take_bit n (w :: 'a::len word)) = uint w mod 2 ^ n"
  by (subst unsigned_take_bit_eq) (rule take_bit_eq_mod)

lemma sint_small:
  assumes "uint (w :: 32 word) < 2 ^ 31"
  shows "sint w = uint w"
proof -
  have "- (2 ^ 31) \<le> uint w" by (rule order_trans [OF _ uint_ge_0]) simp
  then have "signed_take_bit 31 (uint w) = uint w" using assms by (rule signed_take_bit_int_eq_self)
  then show ?thesis by (simp add: sint_uint)
qed

lemma sint_ucast32:
  assumes "uint (w :: u64) < 2 ^ 31"
  shows "sint (ucast w :: 32 word) = uint w"
proof -
  have "uint (ucast w :: 32 word) = uint w"
    using assms by (simp add: unsigned_ucast_eq take_bit_eq_mod)
  then show ?thesis using sint_small [of "ucast w"] assms by simp
qed

lemma GetTypeFromAppKey:
  assumes "0 \<le> appType" "appType < 2 ^ 31" "0 \<le> appId" "appId < 2 ^ 31"
  shows "GetTypeFromAppKey (GetAppKey appType appId) = appType"
proof -
  have "uint (drop_bit 32 (GetAppKey appType appId)) = appType"
    using assms unfolding uint_drop_bit GetAppKey_value [OF assms] by simp
  then show ?thesis using assms sint_ucast32 by (simp only: GetTypeFromAppKey_def)
qed

lemma GetIdFromAppKey:
  assumes "0 \<le> appType" "appType < 2 ^ 31" "0 \<le> appId" "appId < 2 ^ 31"
  shows "GetIdFromAppKey (GetAppKey appType appId) = appId mod 2 ^ 16"
proof -
  have "(GetAppKey appType appId) AND 0x0000FFFF = take_bit 16 (GetAppKey appType appId)"
    by (simp add: take_bit_eq_mask mask_eq_exp_minus_1)
  moreover have "uint (take_bit 16 (GetAppKey appType appId)) = appId mod 2 ^ 16"
    unfolding uint_take_bit GetAppKey_value [OF assms]
    using mod_mult_self3 [of "appType * 65536" 65536 appId] by (simp add: mult.commute)
  ultimately show ?thesis using sint_ucast32 [of "take_bit 16 (GetAppKey appType appId)"]
    by (simp add: GetIdFromAppKey_def del: take_bit_eq_mod)
qed

lemma GenerateSN_value:
  assumes "0 \<le> g_appId g" "g_appId g < 2 ^ 10" "uint (g_TimeTick g) < 2 ^ 48"
  shows "uint (fst (GenerateSN g)) =
           uint (g_TimeTick g) div 2 ^ 10 * 2 ^ 26 + g_appId g * 2 ^ 16 + uint (g_snTicket g)"
proof -
  have t: "uint (g_snTicket g) < 2 ^ 16" using unsigned_less [where ?w = "g_snTicket g" and ?'a = int] by simp
  have slot: "uint (g_TimeTick g) div 2 ^ 10 < 2 ^ 38" using assms(3) by simp
  have 1: "uint (push_bit 26 (drop_bit 10 (g_TimeTick g))) = uint (g_TimeTick g) div 2 ^ 10 * 2 ^ 26"
    using slot uint_ge_0 [of "g_TimeTick g"] unfolding uint_push_bit uint_drop_bit
    by (intro mod_pos_pos_trivial) (simp_all add: pos_imp_zdiv_nonneg_iff)
  have "uint (push_bit 16 (word_of_int (g_appId g)) :: 32 word) = g_appId g * 2 ^ 16"
    using assms unfolding uint_push_bit by (simp add: uint_word_of_int)
  then have "sint (push_bit 16 (word_of_int (g_appId g)) :: 32 word) = g_appId g * 2 ^ 16"
    using sint_small [of "push_bit 16 (word_of_int (g_appId g))"] assms by simp
  then have 2: "uint (scast (push_bit 16 (word_of_int (g_appId g)) :: 32 word) :: u64) = g_appId g * 2 ^ 16"
    unfolding scast_eq using assms by (simp only: uint_word_of_int) simp
  have 3: "uint (ucast (g_snTicket g) :: u64) = uint (g_snTicket g)"
    using t by (simp add: unsigned_ucast_eq take_bit_eq_mod)
  have "0 \<le> uint (g_TimeTick g) div 2 ^ 10" by (simp add: pos_imp_zdiv_nonneg_iff)
  then have "(uint (g_TimeTick g) div 2 ^ 10 * 2 ^ 26 + g_appId g * 2 ^ 16 + uint (g_snTicket g)) mod 2 ^ 64
      = uint (g_TimeTick g) div 2 ^ 10 * 2 ^ 26 + g_appId g * 2 ^ 16 + uint (g_snTicket g)"
    using slot assms t uint_ge_0 [of "g_snTicket g"] by (intro mod_pos_pos_trivial) simp_all
  then show ?thesis
    using 1 2 3 by (simp add: GenerateSN_def uint_word_ariths mod_simps)
qed

lemma GenerateSN_fields:
  "g_TimeTick (snd (GenerateSN g)) = g_TimeTick g" "g_appId (snd (GenerateSN g)) = g_appId g"
  "g_snTicket (snd (GenerateSN g)) = g_snTicket g + 1"
  by (simp_all add: GenerateSN_def)

definition sn_ok :: "Global \<Rightarrow> bool" where
  "sn_ok g \<longleftrightarrow> 0 \<le> g_appId g \<and> g_appId g < 2 ^ 10 \<and> uint (g_TimeTick g) < 2 ^ 48"

lemma sn_ok_GenerateSN [wf_intros]: "sn_ok g \<Longrightarrow> sn_ok (snd (GenerateSN g))"
  by (simp add: sn_ok_def GenerateSN_fields)

lemma sn_parts:
  fixes a a' b b' c c' :: int
  assumes "a * 2 ^ 26 + b * 2 ^ 16 + c = a' * 2 ^ 26 + b' * 2 ^ 16 + c'"
    and "0 \<le> b" "b < 2 ^ 10" "0 \<le> b'" "b' < 2 ^ 10" "0 \<le> c" "c < 2 ^ 16" "0 \<le> c'" "c' < 2 ^ 16"
  shows "a = a' \<and> b = b' \<and> c = c'"
proof -
  have lt: "x * 2 ^ 26 + y * 2 ^ 16 + z < x' * 2 ^ 26 + y' * 2 ^ 16 + z'"
    if "x < x'" "0 \<le> y'" "y < 2 ^ 10" "0 \<le> z'" "z < 2 ^ 16" for x x' y y' z z' :: int
    using that by simp
  have a: "a = a'" using lt [of a a'] lt [of a' a] assms by (cases rule: linorder_cases [of a a']) auto
  have b: "b = b'" using assms a by (cases rule: linorder_cases [of b b']) simp_all
  show ?thesis using assms a b by simp
qed

lemma ticket_range: "0 \<le> uint (g_snTicket g)" "uint (g_snTicket g) < 2 ^ 16"
  using unsigned_less [where ?w = "g_snTicket g" and ?'a = int] by simp_all

text \<open>Two numbers are equal exactly when time slot, process and ticket are.\<close>

lemma GenerateSN_eq_iff:
  assumes "sn_ok g" and "sn_ok g'"
  shows "fst (GenerateSN g) = fst (GenerateSN g') \<longleftrightarrow>
    uint (g_TimeTick g) div 2 ^ 10 = uint (g_TimeTick g') div 2 ^ 10
    \<and> g_appId g = g_appId g' \<and> g_snTicket g = g_snTicket g'"
proof -
  have "fst (GenerateSN g) = fst (GenerateSN g') \<longleftrightarrow> uint (fst (GenerateSN g)) = uint (fst (GenerateSN g'))"
    by (simp add: word_uint_eq_iff)
  also have "\<dots> \<longleftrightarrow> uint (g_TimeTick g) div 2 ^ 10 = uint (g_TimeTick g') div 2 ^ 10
    \<and> g_appId g = g_appId g' \<and> uint (g_snTicket g) = uint (g_snTicket g')"
    using assms sn_parts [of "uint (g_TimeTick g) div 2 ^ 10" "g_appId g" "uint (g_snTicket g)"
        "uint (g_TimeTick g') div 2 ^ 10" "g_appId g'" "uint (g_snTicket g')"] ticket_range
    by (auto simp only: sn_ok_def GenerateSN_value)
  finally show ?thesis by (simp add: word_uint_eq_iff)
qed

lemma GenerateSNs_nth:
  "k < n \<Longrightarrow> GenerateSNs n g ! k = fst (GenerateSN (g\<lparr>g_snTicket := g_snTicket g + word_of_nat k\<rparr>))"
proof (induction n arbitrary: g k)
  case 0
  then show ?case by simp
next
  case (Suc n)
  show ?case
  proof (cases k)
    case 0
    then show ?thesis by (simp add: case_prod_unfold Let_def)
  next
    case (Suc j)
    have "GenerateSNs (Suc n) g ! k = GenerateSNs n (snd (GenerateSN g)) ! j"
      using Suc by (simp add: case_prod_unfold Let_def)
    also have "\<dots> = fst (GenerateSN ((snd (GenerateSN g))\<lparr>g_snTicket := g_snTicket g + 1 + word_of_nat j\<rparr>))"
      using Suc.IH [of j "snd (GenerateSN g)"] Suc.prems Suc by (simp add: GenerateSN_fields)
    also have "(snd (GenerateSN g))\<lparr>g_snTicket := g_snTicket g + 1 + word_of_nat j\<rparr>
        = g\<lparr>g_snTicket := g_snTicket g + word_of_nat k\<rparr>"
      using Suc by (simp add: GenerateSN_def add.assoc)
    finally show ?thesis .
  qed
qed

lemma length_GenerateSNs [simp]: "length (GenerateSNs n g) = n"
  by (induction n arbitrary: g) (auto simp: case_prod_unfold Let_def)

lemma low_bits:
  assumes "0 \<le> (x :: int)" and "x < 2 ^ 26"
  shows "(t * 2 ^ 26 + x) * 2 ^ 38 mod 2 ^ 64 div 2 ^ 38 = x"
proof -
  have "(t * 2 ^ 26 + x) * 2 ^ 38 mod 2 ^ 64 = (x * 2 ^ 38 + t * 2 ^ 64) mod 2 ^ 64"
    by (simp add: algebra_simps)
  also have "\<dots> = x * 2 ^ 38" unfolding mod_mult_self1 using assms by (intro mod_pos_pos_trivial) simp_all
  finally show ?thesis by simp
qed

section \<open>Properties\<close>

text \<open>C6: of the serial numbers a process hands out between two ticks of its clock, two are
  equal exactly when they are a multiple of 65536 calls apart: up to 65536 objects get distinct
  numbers, the next one repeats the first. The process id can be read back from every one.\<close>

theorem GenerateSNs_distinct_up_to_ticket_wrap:
  assumes "sn_ok g" and "i < n" and "j < n"
  shows "(GenerateSNs n g ! i = GenerateSNs n g ! j \<longleftrightarrow> i mod 2 ^ 16 = j mod 2 ^ 16)
    \<and> GetAppIdFromSN (GenerateSNs n g ! i) = g_appId g"
proof -
  let ?g = "\<lambda>k. g\<lparr>g_snTicket := g_snTicket g + word_of_nat k\<rparr>"
  have ok: "sn_ok (?g k)" for k using assms(1) by (simp add: sn_ok_def)
  have "GenerateSNs n g ! i = GenerateSNs n g ! j \<longleftrightarrow> (word_of_nat i :: 16 word) = word_of_nat j"
    using GenerateSN_eq_iff [OF ok ok, of i j] assms(2,3) by (simp add: GenerateSNs_nth)
  also have "\<dots> \<longleftrightarrow> i mod 2 ^ 16 = j mod 2 ^ 16"
    by (simp add: word_of_nat_eq_iff take_bit_eq_mod)
  moreover have "GetAppIdFromSN (fst (GenerateSN (?g i))) = g_appId g"
  proof -
    let ?sn = "fst (GenerateSN (?g i))" and ?t = "uint (g_TimeTick g) div 2 ^ 10"
      and ?c = "uint (g_snTicket (?g i))"
    have v: "uint ?sn = ?t * 2 ^ 26 + g_appId g * 2 ^ 16 + ?c"
      using GenerateSN_value [of "?g i"] assms(1) by (simp add: sn_ok_def)
    have low: "uint (drop_bit 38 (push_bit 38 ?sn)) = g_appId g * 2 ^ 16 + ?c"
      unfolding uint_drop_bit uint_push_bit v
      using low_bits [of "g_appId g * 2 ^ 16 + ?c" ?t] assms(1) ticket_range [of "?g i"]
      by (simp add: sn_ok_def add.assoc)
    have "uint (drop_bit 16 (drop_bit 38 (push_bit 38 ?sn))) = g_appId g"
      using assms(1) ticket_range [of "?g i"] unfolding uint_drop_bit [of 16] low sn_ok_def by simp
    moreover have "g_appId g < 2 ^ 31" using assms(1) by (simp add: sn_ok_def)
    ultimately show ?thesis using sint_ucast32 [of "drop_bit 16 (drop_bit 38 (push_bit 38 ?sn))"]
      by (simp only: GetAppIdFromSN_def)
  qed
  ultimately show ?thesis using assms(2) by (simp add: GenerateSNs_nth)
qed

theorem GenerateSNs_distinct_up_to_ticket_wrap_witness:
  "GenerateSNs 65540 (Global_new APP_GAME 7 1000000) ! 3
     = GenerateSNs 65540 (Global_new APP_GAME 7 1000000) ! 65539
   \<and> GenerateSNs 65540 (Global_new APP_GAME 7 1000000) ! 3
     \<noteq> GenerateSNs 65540 (Global_new APP_GAME 7 1000000) ! 4"
proof -
  have "sn_ok (Global_new APP_GAME 7 1000000)" by (simp add: sn_ok_def Global_new_def)
  from GenerateSNs_distinct_up_to_ticket_wrap [OF this, of 3 65540 65539]
    GenerateSNs_distinct_up_to_ticket_wrap [OF this, of 3 65540 4]
  show ?thesis by simp
qed

text \<open>C7: the type of a process can always be read back from its key, its id only up to 16
  bits although the key stores 32: \<open>GetIdFromAppKey\<close> masks with \<open>0xFFFF\<close>.\<close>

theorem AppKey_roundtrip:
  assumes "0 \<le> appType" "appType < 2 ^ 31" "0 \<le> appId" "appId < 2 ^ 31"
  shows "GetTypeFromAppKey (GetAppKey appType appId) = appType
    \<and> (GetIdFromAppKey (GetAppKey appType appId) = appId \<longleftrightarrow> appId < 2 ^ 16)"
proof -
  have "appId mod 2 ^ 16 = appId \<longleftrightarrow> appId < 2 ^ 16"
    using assms(3) by (metis mod_pos_pos_trivial pos_mod_bound zero_less_numeral zero_less_power)
  then show ?thesis using GetTypeFromAppKey [OF assms] GetIdFromAppKey [OF assms] by simp
qed

theorem AppKey_roundtrip_witness:
  "GetIdFromAppKey (GetAppKey APP_SPACE 301) = 301 \<and> GetIdFromAppKey (GetAppKey APP_SPACE 65537) \<noteq> 65537"
  using AppKey_roundtrip [of APP_SPACE 301] AppKey_roundtrip [of APP_SPACE 65537] by simp

end
