(* ===== verification/Object_Pool.thy ===== *)
theory Object_Pool
  imports Cache Sn_Global
begin

text \<open>
  \<open>object_pool.h\<close>, \<open>object_pool_collector.{h,cpp}\<close>, \<open>object_pool_packet.{h,cpp}\<close> and the data
  of \<open>component.h\<close> and \<open>entity.h\<close>: every component and packet comes from the pool of its
  class. Objects live in an explicit heap; a pool holds their addresses, those that are free in
  a queue, those in use in a \<open>CacheRefresh\<close> keyed by serial number.
\<close>

section \<open>Components and the heap\<close>

text \<open>
  \<open>class IComponent\<close> and, for entities, \<open>IEntity::_components\<close>. \<open>_pSystemManager\<close> and
  \<open>_pPool\<close> are compared with \<open>nullptr\<close> only: a thread has one manager, a class one pool.
\<close>

record IComponent =
  c_typeHash :: u64
  c_isEntity :: bool
  c_sn :: u64
  c_timers :: "u64 list"
  c_parent :: "addr option"
  c_pSystemManager :: bool
  c_pPool :: bool
  c_components :: "(u64, addr) smap"

record heap =
  h_obj :: "addr \<Rightarrow> IComponent"
  h_next :: addr

definition obj_update :: "addr \<Rightarrow> (IComponent \<Rightarrow> IComponent) \<Rightarrow> heap \<Rightarrow> heap" where
  "obj_update p f h = h\<lparr>h_obj := (h_obj h)(p := f (h_obj h p))\<rparr>"

definition SetSN :: "u64 \<Rightarrow> IComponent \<Rightarrow> IComponent" where
  "SetSN sn c = c\<lparr>c_sn := sn\<rparr>"

definition SetPool :: "bool \<Rightarrow> IComponent \<Rightarrow> IComponent" where
  "SetPool b c = c\<lparr>c_pPool := b\<rparr>"

definition SetParent :: "addr option \<Rightarrow> IComponent \<Rightarrow> IComponent" where
  "SetParent p c = c\<lparr>c_parent := p\<rparr>"

definition SetSystemManager :: "bool \<Rightarrow> IComponent \<Rightarrow> IComponent" where
  "SetSystemManager b c = c\<lparr>c_pSystemManager := b\<rparr>"

section \<open>\<open>class DynamicObjectPool\<close>\<close>

text \<open>The class \<open>T\<close> of a pool: its hash code, whether it is an entity, \<open>T::IsSingle()\<close>.\<close>

record ObjectPool =
  op_typeHash :: u64
  op_isEntity :: bool
  op_isSingle :: bool
  op_free :: "addr list"
  op_objInUse :: "addr CacheRefresh"

definition ObjectPool_new :: "u64 \<Rightarrow> bool \<Rightarrow> bool \<Rightarrow> ObjectPool" where
  "ObjectPool_new typeHash isEntity isSingle =
     \<lparr>op_typeHash = typeHash, op_isEntity = isEntity, op_isSingle = isSingle, op_free = [],
      op_objInUse = CacheRefresh_new\<rparr>"

text \<open>\<open>new T(); SetSN(0); SetPool(this); _free.push(pObj)\<close>, \<open>n\<close> times.\<close>

fun new_objects :: "nat \<Rightarrow> heap \<Rightarrow> ObjectPool \<Rightarrow> heap \<times> ObjectPool" where
  "new_objects 0 h pool = (h, pool)"
| "new_objects (Suc n) h pool =
     (let obj = \<lparr>c_typeHash = op_typeHash pool, c_isEntity = op_isEntity pool, c_sn = 0, c_timers = [],
                 c_parent = None, c_pSystemManager = False, c_pPool = True, c_components = []\<rparr>;
          p = h_next h
      in new_objects n (h\<lparr>h_obj := (h_obj h)(p := obj), h_next := p + 1\<rparr>)
           (pool\<lparr>op_free := op_free pool @ [p]\<rparr>))"

definition POOL_BLOCK :: nat where "POOL_BLOCK = 50"

text \<open>\<open>awake\<close> is the class's own \<open>Awake(args)\<close>, acting on the heap.\<close>

definition MallocObject :: "bool \<Rightarrow> addr option \<Rightarrow> u64 \<Rightarrow> (addr \<Rightarrow> heap \<Rightarrow> heap)
    \<Rightarrow> Global \<Rightarrow> heap \<Rightarrow> ObjectPool \<Rightarrow> addr \<times> Global \<times> heap \<times> ObjectPool" where
  "MallocObject pSys pParent sn awake g h pool =
     (let (h1, pool1) = (if op_free pool = []
              then if op_isSingle pool then new_objects 1 h pool else new_objects POOL_BLOCK h pool
              else (h, pool));
          pObj = hd (op_free pool1);
          pool2 = pool1\<lparr>op_free := tl (op_free pool1)\<rparr>;
          (sn1, g1) = (if sn = 0 then GenerateSN g else (sn, g));
          h2 = obj_update pObj (SetSystemManager pSys \<circ> SetParent pParent \<circ> SetPool True \<circ> SetSN sn1) h1;
          h3 = awake pObj h2
      in (pObj, g1, h3,
          pool2\<lparr>op_objInUse := AddObj (c_sn (h_obj h3 pObj)) pObj (op_objInUse pool2)\<rparr>))"

definition Pool_Update :: "heap \<Rightarrow> ObjectPool \<Rightarrow> heap \<times> ObjectPool" where
  "Pool_Update h pool =
     (if CacheRefresh_CanSwap (op_objInUse pool)
      then let (c, recycled) = CacheRefresh_Swap (op_objInUse pool)
           in (fold (\<lambda>p. obj_update p (SetSN 0)) recycled h,
               pool\<lparr>op_objInUse := c, op_free := op_free pool @ recycled\<rparr>)
      else (h, pool))"

definition FreeObject :: "addr \<Rightarrow> heap \<Rightarrow> ObjectPool \<Rightarrow> ObjectPool" where
  "FreeObject pObj h pool =
     (if c_sn (h_obj h pObj) = 0 then pool
      else pool\<lparr>op_objInUse := RemoveObj (c_sn (h_obj h pObj)) (op_objInUse pool)\<rparr>)"

text \<open>\<open>Dispose\<close>: deletes the free objects (returned); those in use are only counted.\<close>

definition Pool_Dispose :: "ObjectPool \<Rightarrow> addr list \<times> ObjectPool" where
  "Pool_Dispose pool = (op_free pool, pool\<lparr>op_free := []\<rparr>)"

section \<open>\<open>class DynamicObjectPoolCollector\<close>\<close>

type_synonym PoolCollector = "(u64, ObjectPool) smap"

definition GetPool :: "u64 \<Rightarrow> bool \<Rightarrow> bool \<Rightarrow> PoolCollector \<Rightarrow> ObjectPool \<times> PoolCollector" where
  "GetPool typeHashCode isEntity isSingle pools =
     (case sm_find pools typeHashCode of
        Some pool \<Rightarrow> (pool, pools)
      | None \<Rightarrow> (let pPool = ObjectPool_new typeHashCode isEntity isSingle
                in (pPool, sm_insert typeHashCode pPool pools)))"

fun Collector_Update :: "heap \<Rightarrow> PoolCollector \<Rightarrow> heap \<times> PoolCollector" where
  "Collector_Update h [] = (h, [])"
| "Collector_Update h ((k, pool) # pools) =
     (let (h1, pool1) = Pool_Update h pool; (h2, pools2) = Collector_Update h1 pools
      in (h2, (k, pool1) # pools2))"

definition Collector_Dispose :: "PoolCollector \<Rightarrow> addr list \<times> PoolCollector" where
  "Collector_Dispose pools = (concat (map (\<lambda>(k, pool). fst (Pool_Dispose pool)) pools), [])"

section \<open>\<open>class DynamicPacketPool\<close>\<close>

text \<open>
  \<open>canBack\<close> is \<open>Packet::CanBack2Pool\<close> of the packet at an address. Freeing only appends to
  \<open>_removes\<close>, so the iteration over \<open>_objs\<close> is stable.
\<close>

definition PacketPool_Update :: "(addr \<Rightarrow> bool) \<Rightarrow> heap \<Rightarrow> ObjectPool \<Rightarrow> heap \<times> ObjectPool" where
  "PacketPool_Update canBack h pool =
     (let (h1, pool1) = Pool_Update h pool
      in (h1, fold (\<lambda>(sn, pPacket) pl. if canBack pPacket then FreeObject pPacket h1 pl else pl)
                (cr_objs (op_objInUse pool1)) pool1))"

section \<open>The invariant of a pool\<close>

definition pool_objs :: "ObjectPool \<Rightarrow> addr list" where
  "pool_objs pool = op_free pool @ map snd (cr_adds (op_objInUse pool)) @ map snd (cr_objs (op_objInUse pool))"

definition in_use :: "ObjectPool \<Rightarrow> (u64 \<times> addr) set" where
  "in_use pool = set (cr_adds (op_objInUse pool)) \<union> set (cr_objs (op_objInUse pool))"

text \<open>
  Free objects have number 0. An object in use carries the number it is filed under, or 0
  when it has been given back and only waits for the next \<open>Update\<close>.
\<close>

definition pool_inv :: "heap \<Rightarrow> ObjectPool \<Rightarrow> bool" where
  "pool_inv h pool \<longleftrightarrow>
     cr_wf (op_objInUse pool)
   \<and> fst ` set (cr_adds (op_objInUse pool)) \<inter> fst ` set (cr_objs (op_objInUse pool)) = {}
   \<and> distinct (pool_objs pool)
   \<and> (\<forall>p\<in>set (pool_objs pool). p < h_next h \<and> c_typeHash (h_obj h p) = op_typeHash pool)
   \<and> (\<forall>p\<in>set (op_free pool). c_sn (h_obj h p) = 0)
   \<and> (\<forall>(sn, p)\<in>in_use pool. sn \<noteq> 0 \<and>
        (c_sn (h_obj h p) = sn \<or> c_sn (h_obj h p) = 0 \<and> sn \<in> set (cr_removes (op_objInUse pool))))"

lemma pool_inv_new: "pool_inv h (ObjectPool_new t e s)"
  by (simp add: pool_inv_def ObjectPool_new_def pool_objs_def in_use_def CacheRefresh_new_def cr_wf_def)

lemma new_objects_free:
  "new_objects n h pool = (h', pool') \<Longrightarrow>
   pool' = pool\<lparr>op_free := op_free pool @ [h_next h..<h_next h + n]\<rparr> \<and> h_next h' = h_next h + n
   \<and> (\<forall>p<h_next h. h_obj h' p = h_obj h p)
   \<and> (\<forall>p. h_next h \<le> p \<and> p < h_next h + n \<longrightarrow>
        c_sn (h_obj h' p) = 0 \<and> c_typeHash (h_obj h' p) = op_typeHash pool)"
proof (induction n arbitrary: h pool)
  case 0
  then show ?case by auto
next
  case (Suc n)
  note e = Suc.IH [OF Suc.prems [unfolded new_objects.simps Let_def]]
  have "c_sn (h_obj h' p) = 0 \<and> c_typeHash (h_obj h' p) = op_typeHash pool"
    if "h_next h \<le> p" "p < h_next h + Suc n" for p
    using that e by (cases "p = h_next h") auto
  moreover have "\<forall>p<h_next h. h_obj h' p = h_obj h p" using e by simp
  moreover have "pool' = pool\<lparr>op_free := op_free pool @ [h_next h..<h_next h + Suc n]\<rparr>"
    using e by (simp add: upt_conv_Cons del: upt_Suc)
  ultimately show ?case using e by simp
qed

lemma pool_inv_new_objects:
  assumes "pool_inv h pool" and "new_objects n h pool = (h', pool')"
  shows "pool_inv h' pool' \<and> in_use pool' = in_use pool \<and> op_free pool' = op_free pool @ [h_next h..<h_next h + n]"
proof -
  note e = new_objects_free [OF assms(2)]
  have pool': "pool' = pool\<lparr>op_free := op_free pool @ [h_next h..<h_next h + n]\<rparr>" using e by blast
  have old: "\<forall>p\<in>set (pool_objs pool). p < h_next h \<and> c_typeHash (h_obj h p) = op_typeHash pool
      \<and> h_obj h' p = h_obj h p" using assms(1) e by (simp add: pool_inv_def)
  have use: "in_use pool' = in_use pool" by (simp add: pool' in_use_def)
  have sub: "set (op_free pool) \<subseteq> set (pool_objs pool)" "snd ` in_use pool \<subseteq> set (pool_objs pool)"
    by (auto simp: pool_objs_def in_use_def)
  have objs: "set (pool_objs pool') = set (pool_objs pool) \<union> {h_next h..<h_next h + n}"
    "distinct (pool_objs pool')"
  proof -
    show "set (pool_objs pool') = set (pool_objs pool) \<union> {h_next h..<h_next h + n}"
      by (auto simp: pool_objs_def pool')
    have "mset (pool_objs pool') = mset (pool_objs pool @ [h_next h..<h_next h + n])"
      by (simp add: pool_objs_def pool')
    moreover have "distinct (pool_objs pool @ [h_next h..<h_next h + n])"
      using assms(1) old by (auto simp: pool_inv_def)
    ultimately show "distinct (pool_objs pool')" by (metis mset_eq_imp_distinct_iff)
  qed
  have "pool_inv h' pool'"
    unfolding pool_inv_def use
  proof (intro conjI)
    show "\<forall>p\<in>set (op_free pool'). c_sn (h_obj h' p) = 0"
      using assms(1) old sub(1) e by (auto simp: pool_inv_def pool')
    show "\<forall>p\<in>set (pool_objs pool'). p < h_next h' \<and> c_typeHash (h_obj h' p) = op_typeHash pool'"
      using objs old e by (auto simp: pool')
    show "\<forall>(sn, p)\<in>in_use pool. sn \<noteq> 0 \<and> (c_sn (h_obj h' p) = sn
        \<or> c_sn (h_obj h' p) = 0 \<and> sn \<in> set (cr_removes (op_objInUse pool')))"
    proof (intro ballI, clarify)
      fix sn p assume p: "(sn, p) \<in> in_use pool"
      then have "h_obj h' p = h_obj h p" using old sub(2) by force
      then show "sn \<noteq> 0 \<and> (c_sn (h_obj h' p) = sn
        \<or> c_sn (h_obj h' p) = 0 \<and> sn \<in> set (cr_removes (op_objInUse pool')))"
        using p assms(1) unfolding pool_inv_def pool' by auto
    qed
  qed (use assms(1) objs in \<open>simp_all add: pool_inv_def pool'\<close>)
  then show ?thesis using use pool' by simp
qed

text \<open>What \<open>MallocObject\<close> needs of the class's \<open>Awake\<close>: it may allocate, and it leaves the
  serial numbers of its own class alone.\<close>

definition awake_ok :: "u64 \<Rightarrow> (addr \<Rightarrow> heap \<Rightarrow> heap) \<Rightarrow> bool" where
  "awake_ok ty awake \<longleftrightarrow> (\<forall>p h. h_next h \<le> h_next (awake p h)
     \<and> (\<forall>q<h_next h. c_typeHash (h_obj (awake p h) q) = c_typeHash (h_obj h q)
          \<and> (c_typeHash (h_obj h q) = ty \<longrightarrow> c_sn (h_obj (awake p h) q) = c_sn (h_obj h q))))"

lemma obj_update_simps [simp]:
  "h_next (obj_update p f h) = h_next h"
  "h_obj (obj_update p f h) q = (if q = p then f (h_obj h p) else h_obj h q)"
  by (simp_all add: obj_update_def)

lemma mset_sm_assign_new: "sm_find m k = None \<Longrightarrow> mset (sm_assign k v m) = add_mset (k, v) (mset m)"
  by (induction m) (auto split: if_splits)

text \<open>What \<open>MallocObject\<close> writes into the object it takes, and \<open>Awake\<close> leaves alone.\<close>

abbreviation handed_out :: "bool \<Rightarrow> addr option \<Rightarrow> u64 \<Rightarrow> (addr \<Rightarrow> heap \<Rightarrow> heap) \<Rightarrow> addr \<Rightarrow> heap \<Rightarrow> heap" where
  "handed_out s par sn awake p h \<equiv>
     awake p (obj_update p (SetSystemManager s \<circ> SetParent par \<circ> SetPool True \<circ> SetSN sn) h)"

lemma handed_out_frame:
  assumes "pool_inv h pool" and "awake_ok (op_typeHash pool) awake" and "p \<in> set (pool_objs pool)" and "q \<in> set (pool_objs pool)"
  shows "c_sn (h_obj (handed_out s par sn awake p h) q) = (if q = p then sn else c_sn (h_obj h q))
    \<and> c_typeHash (h_obj (handed_out s par sn awake p h) q) = op_typeHash pool
    \<and> q < h_next (handed_out s par sn awake p h)"
  using assms assms(2) [unfolded awake_ok_def, rule_format, where p = p
      and h = "obj_update p (SetSystemManager s \<circ> SetParent par \<circ> SetPool True \<circ> SetSN sn) h"]
  by (auto simp: pool_inv_def SetSystemManager_def SetParent_def SetPool_def SetSN_def)

text \<open>Moving the first free object to the objects in use.\<close>

lemma take_objs:
  assumes "op_free pool = p # rest" and "sn \<notin> fst ` in_use pool" and "distinct (pool_objs pool)"
  defines "pool' \<equiv> pool\<lparr>op_free := rest, op_objInUse := AddObj sn p (op_objInUse pool)\<rparr>"
  shows "set (cr_adds (op_objInUse pool')) = insert (sn, p) (set (cr_adds (op_objInUse pool)))"
    and "distinct (pool_objs pool')" and "set (pool_objs pool') = set (pool_objs pool)"
    and "in_use pool' = insert (sn, p) (in_use pool)" and "p \<notin> snd ` in_use pool" and "p \<notin> set rest"
proof -
  let ?c = "op_objInUse pool"
  have new: "sm_find (cr_adds ?c) sn = None" using assms(2) by (force simp: in_use_def map_of_eq_None_iff)
  then have adds: "cr_adds (AddObj sn p ?c) = sm_assign sn p (cr_adds ?c)" by (simp add: AddObj_def sm_insert_def)
  have "set_mset (mset (sm_assign sn p (cr_adds ?c))) = insert (sn, p) (set (cr_adds ?c))"
    by (simp only: mset_sm_assign_new [OF new] set_mset_add_mset_insert set_mset_mset)
  then show sets: "set (cr_adds (op_objInUse pool')) = insert (sn, p) (set (cr_adds ?c))" by (simp add: pool'_def adds)
  have "mset (pool_objs pool') = mset (pool_objs pool)"
    using mset_sm_assign_new [OF new, of p] assms(1) by (simp add: pool_objs_def pool'_def adds) (simp add: AddObj_def)
  then show "distinct (pool_objs pool')" "set (pool_objs pool') = set (pool_objs pool)"
    using assms(3) by (metis mset_eq_imp_distinct_iff, metis mset_eq_setD)
  show "in_use pool' = insert (sn, p) (in_use pool)"
    using sets by (simp add: in_use_def pool'_def) (simp add: AddObj_def)
  show "p \<notin> snd ` in_use pool" "p \<notin> set rest"
    using assms(1,3) by (auto simp: pool_objs_def in_use_def)
qed

lemma pool_inv_take:
  fixes s par
  assumes inv: "pool_inv h pool" and free: "op_free pool = p # rest" and awake: "awake_ok (op_typeHash pool) awake"
    and sn: "sn \<noteq> 0" "sn \<notin> fst ` in_use pool"
  defines "h' \<equiv> handed_out s par sn awake p h"
  defines "pool' \<equiv> pool\<lparr>op_free := rest, op_objInUse := AddObj (c_sn (h_obj h' p)) p (op_objInUse pool)\<rparr>"
  shows "pool_inv h' pool' \<and> in_use pool' = insert (sn, p) (in_use pool) \<and> p \<notin> snd ` in_use pool
    \<and> c_sn (h_obj h' p) = sn"
proof -
  let ?c = "op_objInUse pool"
  have dist: "distinct (pool_objs pool)" and pin: "p \<in> set (pool_objs pool)"
    using inv free by (auto simp: pool_inv_def pool_objs_def)
  note keep = handed_out_frame [OF inv awake pin, of _ s par sn, folded h'_def]
  have sn': "c_sn (h_obj h' p) = sn" using keep [OF pin] by simp
  note pool' = pool'_def [unfolded sn'] and take = take_objs [OF free sn(2) dist, folded pool'_def [unfolded sn']]
  have "pool_inv h' pool'"
    unfolding pool_inv_def
  proof (intro conjI)
    show "cr_wf (op_objInUse pool')" using inv by (simp add: pool' pool_inv_def cr_wf_AddObj)
    show "fst ` set (cr_adds (op_objInUse pool')) \<inter> fst ` set (cr_objs (op_objInUse pool')) = {}"
      using inv sn(2) unfolding take(1) by (simp add: pool' pool_inv_def in_use_def image_Un) (simp add: AddObj_def)
    show "distinct (pool_objs pool')" by (rule take)
    show "\<forall>q\<in>set (pool_objs pool'). q < h_next h' \<and> c_typeHash (h_obj h' q) = op_typeHash pool'"
      using take(3) keep by (simp add: pool')
    show "\<forall>q\<in>set (op_free pool'). c_sn (h_obj h' q) = 0"
      using keep inv take(6) free by (auto simp: pool' pool_objs_def pool_inv_def)
    have "k \<noteq> 0 \<and> (c_sn (h_obj h' q) = k \<or> c_sn (h_obj h' q) = 0 \<and> k \<in> set (cr_removes ?c))"
      if "(k, q) \<in> in_use pool" for k q
    proof -
      have "q \<noteq> p" "q \<in> set (pool_objs pool)" using that take(5) by (force simp: in_use_def pool_objs_def)+
      then show ?thesis using keep [of q] that inv by (auto simp: pool_inv_def)
    qed
    then show "\<forall>(k, q)\<in>in_use pool'. k \<noteq> 0 \<and> (c_sn (h_obj h' q) = k
        \<or> c_sn (h_obj h' q) = 0 \<and> k \<in> set (cr_removes (op_objInUse pool')))"
      unfolding take(4) using sn(1) sn' by (auto simp: pool' AddObj_def)
  qed
  then show ?thesis using take(4,5) sn' by blast
qed

lemma fold_clear_sn [simp]:
  "h_next (fold (\<lambda>p. obj_update p (SetSN 0)) ps h) = h_next h"
  "h_obj (fold (\<lambda>p. obj_update p (SetSN 0)) ps h) q = (if q \<in> set ps then SetSN 0 (h_obj h q) else h_obj h q)"
  by (induction ps arbitrary: h) (auto simp: SetSN_def)

lemma Pool_Update_CanSwap: "Pool_Update h pool =
    (let (c, recycled) = CacheRefresh_Swap (op_objInUse pool)
     in (fold (\<lambda>p. obj_update p (SetSN 0)) recycled h,
         pool\<lparr>op_objInUse := c, op_free := op_free pool @ recycled\<rparr>))"
proof (cases "CacheRefresh_CanSwap (op_objInUse pool)")
  case True
  then show ?thesis by (simp add: Pool_Update_def)
next
  case False
  then have "cr_adds (op_objInUse pool) = []" "cr_removes (op_objInUse pool) = []"
    by (simp_all add: CacheRefresh_CanSwap_def)
  then have "CacheRefresh_Swap (op_objInUse pool) = (op_objInUse pool, [])"
    by (cases "op_objInUse pool") (simp add: CacheRefresh_Swap_def)
  with False show ?thesis by (simp add: Pool_Update_def)
qed

text \<open>A swap keeps just the pairs of either map that are not removed.\<close>

lemma CacheRefresh_Swap_pairs:
  assumes wf: "cr_wf c" and disj: "fst ` set (cr_adds c) \<inter> fst ` set (cr_objs c) = {}"
  shows "(sn, p) \<in> set (cr_objs (fst (CacheRefresh_Swap c)))
    \<longleftrightarrow> (sn, p) \<in> set (cr_objs c) \<union> set (cr_adds c) \<and> sn \<notin> set (cr_removes c)"
proof -
  have m: "(sn, p) \<in> set (cr_adds c) \<longleftrightarrow> sm_find (cr_adds c) sn = Some p"
    "(sn, p) \<in> set (cr_objs c) \<longleftrightarrow> sm_find (cr_objs c) sn = Some p"
    "(sn, p) \<in> set (cr_objs (fst (CacheRefresh_Swap c))) \<longleftrightarrow> sm_find (cr_objs (fst (CacheRefresh_Swap c))) sn = Some p"
    using wf cr_wf_Swap [OF wf] by (simp_all add: cr_wf_def sm_find_in_set)
  have "sm_find (cr_adds c) sn = Some p \<Longrightarrow> sm_find (cr_objs c) sn = None"
    using disj by (force simp: map_of_eq_None_iff dest: map_of_SomeD)
  then show ?thesis unfolding Un_iff m find_Swap [OF wf] by (cases "sm_find (cr_objs c) sn") auto
qed

lemma pool_inv_Update:
  assumes inv: "pool_inv h pool" and upd: "Pool_Update h pool = (h', pool')"
  shows "pool_inv h' pool' \<and> mset (pool_objs pool') = mset (pool_objs pool)
    \<and> in_use pool' = {(sn, p) \<in> in_use pool. sn \<notin> set (cr_removes (op_objInUse pool))}
    \<and> cr_adds (op_objInUse pool') = [] \<and> cr_removes (op_objInUse pool') = []"
proof -
  let ?c = "op_objInUse pool" and ?rem = "set (cr_removes (op_objInUse pool))"
  obtain c recycled where swap: "CacheRefresh_Swap ?c = (c, recycled)" by fastforce
  have h': "h' = fold (\<lambda>p. obj_update p (SetSN 0)) recycled h"
    and pool': "pool' = pool\<lparr>op_objInUse := c, op_free := op_free pool @ recycled\<rparr>"
    using upd swap by (simp_all add: Pool_Update_CanSwap)
  have wf: "cr_wf ?c" and disj: "fst ` set (cr_adds ?c) \<inter> fst ` set (cr_objs ?c) = {}"
    and dist: "distinct (pool_objs pool)" using inv by (simp_all add: pool_inv_def)
  have c: "cr_adds c = []" "cr_removes c = []" 
    using CacheRefresh_Swap_fields [of ?c] swap by simp_all
  have ms: "mset (pool_objs pool') = mset (pool_objs pool)"
    using CacheRefresh_Swap_mset [OF wf disj] swap c by (simp add: pool_objs_def pool' cr_all_def ac_simps)
  then have objs: "distinct (pool_objs pool')" "set (pool_objs pool') = set (pool_objs pool)"
    using dist by (metis mset_eq_imp_distinct_iff, metis mset_eq_setD)
  have wfc: "cr_wf c" using cr_wf_Swap [OF wf] swap by simp
  have "(sn, p) \<in> set (cr_objs c) \<longleftrightarrow> (sn, p) \<in> in_use pool \<and> sn \<notin> ?rem" for sn p
    using CacheRefresh_Swap_pairs [OF wf disj, of sn p] swap by (auto simp: in_use_def)
  then have use: "in_use pool' = {(sn, p) \<in> in_use pool. sn \<notin> ?rem}"
    by (auto simp: in_use_def pool' c)
  have "pool_inv h' pool'"
    unfolding pool_inv_def
  proof (intro conjI)
    show "\<forall>p\<in>set (pool_objs pool'). p < h_next h' \<and> c_typeHash (h_obj h' p) = op_typeHash pool'"
      using inv objs(2) by (auto simp: pool_inv_def h' pool' SetSN_def)
    show "\<forall>p\<in>set (op_free pool'). c_sn (h_obj h' p) = 0"
      using inv by (auto simp: pool_inv_def h' pool' SetSN_def)
    show "\<forall>(sn, p)\<in>in_use pool'. sn \<noteq> 0 \<and> (c_sn (h_obj h' p) = sn
        \<or> c_sn (h_obj h' p) = 0 \<and> sn \<in> set (cr_removes (op_objInUse pool')))"
    proof (intro ballI, clarify)
      fix sn p assume p: "(sn, p) \<in> in_use pool'"
      then have "p \<in> snd ` set (cr_objs c)" by (force simp: in_use_def pool' c)
      then have "p \<notin> set recycled" using objs(1) by (auto simp: pool_objs_def pool' c)
      moreover have "(sn, p) \<in> in_use pool" "sn \<notin> ?rem" using p use by auto
      ultimately show "sn \<noteq> 0 \<and> (c_sn (h_obj h' p) = sn
        \<or> c_sn (h_obj h' p) = 0 \<and> sn \<in> set (cr_removes (op_objInUse pool')))"
        using inv unfolding pool_inv_def h' by auto
    qed
  qed (use wfc c objs in \<open>simp_all add: pool'\<close>)
  then show ?thesis using ms use c by (simp add: pool')
qed

lemma FreeObject_simps:
  "pool_objs (FreeObject p h pool) = pool_objs pool" "in_use (FreeObject p h pool) = in_use pool"
  "op_free (FreeObject p h pool) = op_free pool" "op_typeHash (FreeObject p h pool) = op_typeHash pool"
  "cr_objs (op_objInUse (FreeObject p h pool)) = cr_objs (op_objInUse pool)"
  "cr_removes (op_objInUse (FreeObject p h pool)) =
     cr_removes (op_objInUse pool) @ (if c_sn (h_obj h p) = 0 then [] else [c_sn (h_obj h p)])"
  by (simp_all add: FreeObject_def RemoveObj_def pool_objs_def in_use_def)

lemma pool_inv_FreeObject [wf_intros]:
  assumes "pool_inv h pool"
  shows "pool_inv h (FreeObject p h pool)"
proof -
  have "cr_wf (op_objInUse (FreeObject p h pool))" "cr_adds (op_objInUse (FreeObject p h pool)) = cr_adds (op_objInUse pool)"
    using assms by (simp_all add: pool_inv_def FreeObject_def RemoveObj_def cr_wf_def)
  with assms show ?thesis by (auto simp: pool_inv_def FreeObject_simps)
qed

text \<open>\<open>ComponentBackToPool\<close>: \<open>FreeObject(this)\<close>, and later \<open>_sn = 0\<close>.\<close>

lemma pool_inv_give_back:
  assumes inv: "pool_inv h pool" and p: "p \<in> snd ` in_use pool"
  shows "pool_inv (obj_update p (SetSN 0) h) (FreeObject p h pool)"
proof -
  have "\<forall>(sn, q)\<in>in_use pool. sn \<noteq> 0 \<and> (c_sn (h_obj (obj_update p (SetSN 0) h) q) = sn
      \<or> c_sn (h_obj (obj_update p (SetSN 0) h) q) = 0 \<and> sn \<in> set (cr_removes (op_objInUse (FreeObject p h pool))))"
  proof (intro ballI, clarify)
    fix sn q assume q: "(sn, q) \<in> in_use pool"
    then have "sn \<noteq> 0 \<and> (c_sn (h_obj h q) = sn \<or> c_sn (h_obj h q) = 0 \<and> sn \<in> set (cr_removes (op_objInUse pool)))"
      using inv unfolding pool_inv_def by blast
    then show "sn \<noteq> 0 \<and> (c_sn (h_obj (obj_update p (SetSN 0) h) q) = sn
      \<or> c_sn (h_obj (obj_update p (SetSN 0) h) q) = 0 \<and> sn \<in> set (cr_removes (op_objInUse (FreeObject p h pool))))"
      by (auto simp: FreeObject_simps SetSN_def)
  qed
  then show ?thesis
    using pool_inv_FreeObject [OF inv, of p] by (auto simp: pool_inv_def FreeObject_simps SetSN_def)
qed

lemma pool_inv_Malloc:
  assumes inv: "pool_inv h pool" and m: "MallocObject s par sn awake g h pool = (p, g', h', pool')"
    and awake: "awake_ok (op_typeHash pool) awake"
    and fresh: "c_sn (h_obj h' p) \<noteq> 0" "c_sn (h_obj h' p) \<notin> fst ` in_use pool"
  shows "pool_inv h' pool' \<and> in_use pool' = insert (c_sn (h_obj h' p), p) (in_use pool) \<and> p \<notin> snd ` in_use pool"
proof -
  obtain h1 pool1 where alloc: "(if op_free pool = [] then if op_isSingle pool then new_objects 1 h pool
      else new_objects POOL_BLOCK h pool else (h, pool)) = (h1, pool1)" by fastforce
  obtain sn1 g1 where sn1: "(if sn = 0 then GenerateSN g else (sn, g)) = (sn1, g1)" by fastforce
  have inv1: "pool_inv h1 pool1" "in_use pool1 = in_use pool" "op_free pool1 \<noteq> []"
      "op_typeHash pool1 = op_typeHash pool"
  proof -
    have "op_free pool \<noteq> [] \<and> h1 = h \<and> pool1 = pool \<or> (\<exists>n>0. new_objects n h pool = (h1, pool1))"
      using alloc by (metis POOL_BLOCK_def prod.inject zero_less_numeral zero_less_one)
    then have "pool_inv h1 pool1 \<and> in_use pool1 = in_use pool \<and> op_free pool1 \<noteq> []
      \<and> op_typeHash pool1 = op_typeHash pool"
    proof (elim disjE exE conjE)
      fix n :: nat assume "0 < n" and n: "new_objects n h pool = (h1, pool1)"
      with pool_inv_new_objects [OF inv n] new_objects_free [OF n] show ?thesis by simp
    qed (simp add: inv)
    then show "pool_inv h1 pool1" "in_use pool1 = in_use pool" "op_free pool1 \<noteq> []"
      "op_typeHash pool1 = op_typeHash pool" by simp_all
  qed
  then obtain rest where free: "op_free pool1 = p # rest"
    using m alloc by (auto simp: MallocObject_def Let_def case_prod_unfold neq_Nil_conv)
  let ?h2 = "obj_update p (SetSystemManager s \<circ> SetParent par \<circ> SetPool True \<circ> SetSN sn1) h1"
  have h': "h' = awake p ?h2"
    and pool': "pool' = pool1\<lparr>op_free := rest, op_objInUse := AddObj (c_sn (h_obj (awake p ?h2) p)) p (op_objInUse pool1)\<rparr>"
    using m alloc sn1 free by (auto simp: MallocObject_def Let_def)
  have "p < h_next h1" "c_typeHash (h_obj h1 p) = op_typeHash pool"
    using inv1 free by (auto simp: pool_inv_def pool_objs_def)
  then have "c_sn (h_obj h' p) = sn1"
    using awake [unfolded awake_ok_def, rule_format, where p = p and h = ?h2]
    by (auto simp: h' SetSystemManager_def SetParent_def SetPool_def SetSN_def)
  with fresh have "sn1 \<noteq> 0" "sn1 \<notin> fst ` in_use pool1" using inv1 by auto
  from pool_inv_take [OF inv1(1) free _ this, of awake s par] awake \<open>c_sn (h_obj h' p) = sn1\<close>
  show ?thesis unfolding h' pool' using inv1(2,4) by auto
qed

section \<open>A pool in use\<close>

text \<open>What happens to a pool: objects are created under numbers that are not in use, given
  back (\<open>FreeObject\<close> alone for packets, with \<open>_sn = 0\<close> for components), and recycled by
  \<open>Update\<close>.\<close>

inductive pool_step :: "heap \<times> ObjectPool \<Rightarrow> heap \<times> ObjectPool \<Rightarrow> bool" where
  malloc: "MallocObject s par sn awake g h pool = (p, g', h', pool') \<Longrightarrow> awake_ok (op_typeHash pool) awake \<Longrightarrow>
     c_sn (h_obj h' p) \<noteq> 0 \<Longrightarrow> c_sn (h_obj h' p) \<notin> fst ` in_use pool \<Longrightarrow> pool_step (h, pool) (h', pool')"
| update: "Pool_Update h pool = (h', pool') \<Longrightarrow> pool_step (h, pool) (h', pool')"
| free: "pool_step (h, pool) (h, FreeObject p h pool)"
| give_back: "p \<in> snd ` in_use pool \<Longrightarrow> pool_step (h, pool) (obj_update p (SetSN 0) h, FreeObject p h pool)"

inductive_cases pool_stepE: "pool_step (h, pool) s'"

lemma pool_inv_step: "pool_step s s' \<Longrightarrow> pool_inv (fst s) (snd s) \<Longrightarrow> pool_inv (fst s') (snd s')"
proof (induction rule: pool_step.induct)
  case (malloc s par sn awake g h pool p g' h' pool')
  then show ?case using pool_inv_Malloc [OF _ malloc(1-4)] by simp
next
  case (update h pool h' pool')
  then show ?case using pool_inv_Update by fastforce
qed (simp_all add: pool_inv_FreeObject pool_inv_give_back)

interpretation pool: invariant_system pool_step "\<lambda>s. pool_inv (fst s) (snd s)"
  by unfold_locales (rule pool_inv_step)

section \<open>Properties\<close>

text \<open>C3: a pool never hands out an object that is in use. However objects were created,
  given back and recycled before, \<open>MallocObject\<close> under an unused number returns an object that
  is not in use, files it under that number and nothing else changes among the objects in use;
  every object of the pool stays exactly once free or in use.\<close>

theorem MallocObject_not_in_use:
  assumes "pool_step\<^sup>*\<^sup>* (h0, ObjectPool_new t e single) (h, pool)"
    and "MallocObject s par sn awake g h pool = (p, g', h', pool')" and "awake_ok (op_typeHash pool) awake"
    and "c_sn (h_obj h' p) \<noteq> 0" and "c_sn (h_obj h' p) \<notin> fst ` in_use pool"
  shows "p \<notin> snd ` in_use pool \<and> in_use pool' = insert (c_sn (h_obj h' p), p) (in_use pool)
    \<and> distinct (pool_objs pool')"
proof -
  have "pool_inv h pool" using pool.run_inv [OF assms(1)] pool_inv_new by simp
  from pool_inv_Malloc [OF this assms(2-5)] show ?thesis by (auto simp: pool_inv_def)
qed

lemma awake_ok_id: "awake_ok t (\<lambda>p h. h)"
  by (simp add: awake_ok_def)

theorem MallocObject_not_in_use_witness:
  "\<exists>p g' h' pool'. MallocObject True None 77 (\<lambda>p h. h) (Global_new APP_GAME 1 0)
       \<lparr>h_obj = (\<lambda>_. undefined), h_next = 1\<rparr> (ObjectPool_new 5 False True) = (p, g', h', pool')
     \<and> in_use pool' = {(77, p)}"
proof -
  let ?h = "\<lparr>h_obj = (\<lambda>_. undefined), h_next = 1\<rparr>" and ?p = "ObjectPool_new 5 False True"
  obtain p g' h' pool' where m: "MallocObject True None 77 (\<lambda>p h. h) (Global_new APP_GAME 1 0) ?h ?p
      = (p, g', h', pool')" by (metis prod_cases4)
  then have sn: "c_sn (h_obj h' p) = 77"
    by (auto simp: MallocObject_def Let_def ObjectPool_new_def SetSystemManager_def SetParent_def SetPool_def SetSN_def)
  have use: "in_use ?p = {}" by (simp add: in_use_def ObjectPool_new_def CacheRefresh_new_def)
  from MallocObject_not_in_use [OF _ m awake_ok_id, of ?h 5 False True] m sn use
  show ?thesis by auto
qed

lemma fold_FreeObject:
  "op_free (fold (\<lambda>(sn, p) pl. if P p then FreeObject p h pl else pl) xs pool) = op_free pool"
  "in_use (fold (\<lambda>(sn, p) pl. if P p then FreeObject p h pl else pl) xs pool) = in_use pool"
  "set (cr_removes (op_objInUse (fold (\<lambda>(sn, p) pl. if P p then FreeObject p h pl else pl) xs pool))) =
     set (cr_removes (op_objInUse pool)) \<union> {c_sn (h_obj h p) |p. p \<in> snd ` set xs \<and> P p \<and> c_sn (h_obj h p) \<noteq> 0}"
  "pool_inv h pool \<Longrightarrow> pool_inv h (fold (\<lambda>(sn, p) pl. if P p then FreeObject p h pl else pl) xs pool)"
  by (induction xs arbitrary: pool) (auto simp: FreeObject_simps pool_inv_FreeObject split: if_splits)

lemma in_use_pool_objs: "(sn, p) \<in> in_use pool \<Longrightarrow> p \<in> set (pool_objs pool)"
  by (force simp: pool_objs_def in_use_def)

lemma pool_inv_carries:
  assumes "pool_inv h pool" and "cr_removes (op_objInUse pool) = []" and "(sn, p) \<in> in_use pool"
  shows "c_sn (h_obj h p) = sn" and "sn \<noteq> 0"
  using assms unfolding pool_inv_def by fastforce+

lemma in_use_unique: "pool_inv h pool \<Longrightarrow> (sn, p) \<in> in_use pool \<Longrightarrow> (sn, q) \<in> in_use pool \<Longrightarrow> p = q"
proof -
  assume inv: "pool_inv h pool" and p: "(sn, p) \<in> in_use pool" and q: "(sn, q) \<in> in_use pool"
  let ?a = "cr_adds (op_objInUse pool)" and ?o = "cr_objs (op_objInUse pool)"
  have wf: "sm_wf ?a" "sm_wf ?o" "fst ` set ?a \<inter> fst ` set ?o = {}"
    using inv by (simp_all add: pool_inv_def cr_wf_def)
  have "(sn, p) \<in> set ?a \<and> (sn, q) \<in> set ?a \<or> (sn, p) \<in> set ?o \<and> (sn, q) \<in> set ?o"
    using p q wf(3) by (force simp: in_use_def)
  then show "p = q" using sm_find_in_set [OF wf(1), of sn] sm_find_in_set [OF wf(2), of sn] by auto
qed

lemma PacketPool_Update_marks:
  assumes "pool_inv h pool" and "(sn, p) \<in> in_use pool" and "sn \<notin> set (cr_removes (op_objInUse pool))"
    and "PacketPool_Update canBack h pool = (h', pool')"
  shows "pool_inv h' pool' \<and> (sn, p) \<in> in_use pool' \<and> c_sn (h_obj h' p) = sn
    \<and> (\<forall>k. (k, p) \<in> in_use pool' \<longrightarrow> k = sn) \<and> (sn \<in> set (cr_removes (op_objInUse pool')) \<longleftrightarrow> canBack p)"
proof -
  obtain h1 pool1 where u1: "Pool_Update h pool = (h1, pool1)" by fastforce
  note inv1 = pool_inv_Update [OF assms(1) u1]
  have h': "h' = h1" and pool': "pool' = fold (\<lambda>(sn, p) pl. if canBack p then FreeObject p h1 pl else pl)
      (cr_objs (op_objInUse pool1)) pool1"
    using assms(4) by (auto simp: PacketPool_Update_def u1)
  have inv': "pool_inv h' pool'" using inv1 by (simp add: h' pool' fold_FreeObject)
  have use': "in_use pool' = in_use pool1" by (simp add: pool' fold_FreeObject)
  have p1: "(sn, p) \<in> in_use pool1" using inv1 assms(2,3) by simp
  note carry = pool_inv_carries [of h1 pool1]
  have sn: "c_sn (h_obj h1 p) = sn" "sn \<noteq> 0" using carry [OF _ _ p1] inv1 by auto
  have uniq: "\<forall>k. (k, p) \<in> in_use pool' \<longrightarrow> k = sn"
    using carry(1) [of _ p] inv1 sn(1) unfolding use' by auto
  have objs1: "set (cr_objs (op_objInUse pool1)) = in_use pool1" using inv1 by (simp add: in_use_def)
  have "sn \<in> set (cr_removes (op_objInUse pool')) \<longleftrightarrow>
      (\<exists>q. sn = c_sn (h_obj h1 q) \<and> q \<in> snd ` in_use pool1 \<and> canBack q \<and> sn \<noteq> 0)"
    using inv1 unfolding pool' fold_FreeObject(3) objs1 by auto
  also have "\<dots> \<longleftrightarrow> canBack p"
  proof
    assume "\<exists>q. sn = c_sn (h_obj h1 q) \<and> q \<in> snd ` in_use pool1 \<and> canBack q \<and> sn \<noteq> 0"
    then obtain k q where q: "(k, q) \<in> in_use pool1" "sn = c_sn (h_obj h1 q)" "canBack q" by force
    then have "k = sn" using carry(1) [OF _ _ q(1)] inv1 by simp
    then show "canBack p" using in_use_unique [OF _ p1] q inv1 by blast
  qed (use sn p1 in force)
  finally have marked: "sn \<in> set (cr_removes (op_objInUse pool')) \<longleftrightarrow> canBack p" .
  have "(sn, p) \<in> in_use pool'" "c_sn (h_obj h' p) = sn" using p1 sn(1) unfolding use' h' by auto
  then show ?thesis using inv' uniq marked by blast
qed

text \<open>What is marked is free after the next update.\<close>

lemma Pool_Update_recycles:
  assumes "pool_inv h pool" and "Pool_Update h pool = (h2, pool2)" and "(sn, p) \<in> in_use pool"
    and "\<forall>k. (k, p) \<in> in_use pool \<longrightarrow> k = sn" and "sn \<in> set (cr_removes (op_objInUse pool))"
  shows "p \<in> set (op_free pool2) \<and> p \<notin> snd ` in_use pool2"
proof
  note inv2 = pool_inv_Update [OF assms(1,2)]
  show no: "p \<notin> snd ` in_use pool2" using inv2 assms(4,5) by auto
  have "p \<in> set (pool_objs pool)" using assms(3) in_use_pool_objs by blast
  moreover have "mset (pool_objs pool2) = mset (pool_objs pool)" using inv2 by blast
  ultimately have "p \<in> set (pool_objs pool2)" using mset_eq_setD by metis
  then show "p \<in> set (op_free pool2)" using no unfolding pool_objs_def in_use_def by auto
qed



end
