(* ===== verification/Entity_System.thy ===== *)
theory Entity_System
  imports Object_Pool "HOL-Library.Monad_Syntax"
begin

text \<open>
  \<open>component.cpp\<close>, \<open>entity.{h,cpp}\<close>, \<open>component_collections.{h,cpp}\<close>, \<open>entity_system.{h,cpp}\<close>
  and the registration half of \<open>message_system.cpp\<close>: the objects of one thread. A component
  is created from its pool, filed in the collection of its class and, when it belongs to an
  entity, in the entity's map; removal is deferred to \<open>Swap\<close>, which gives it back. \<open>None\<close> is
  the use of a null pointer (or a teardown that does not end). The class of an object is its
  \<open>typeid\<close> hash code; class-specific \<open>Awake\<close> and \<open>BackToPool\<close> are arguments.
\<close>

section \<open>\<open>class ComponentCollections\<close>\<close>

record ComponentCollections =
  cc_objs :: "(u64, addr) smap"
  cc_addObjs :: "(u64, addr) smap"
  cc_removeObjs :: "u64 list"
  cc_componentName :: u64

definition ComponentCollections_new :: "u64 \<Rightarrow> ComponentCollections" where
  "ComponentCollections_new componentName =
     \<lparr>cc_objs = [], cc_addObjs = [], cc_removeObjs = [], cc_componentName = componentName\<rparr>"

definition Collections_Add :: "heap \<Rightarrow> addr \<Rightarrow> ComponentCollections \<Rightarrow> ComponentCollections" where
  "Collections_Add h pObj c =
     (let sn = c_sn (h_obj h pObj) in
      if sm_find (cc_objs c) sn \<noteq> None \<or> sm_find (cc_addObjs c) sn \<noteq> None then c
      else c\<lparr>cc_addObjs := sm_assign sn pObj (cc_addObjs c)\<rparr>)"

definition Collections_Get :: "u64 \<Rightarrow> ComponentCollections \<Rightarrow> addr option" where
  "Collections_Get sn c =
     (if sn = 0 then
        (case cc_objs c of
           (_, p) # _ \<Rightarrow> Some p
         | [] \<Rightarrow> (case cc_addObjs c of (_, p) # _ \<Rightarrow> Some p | [] \<Rightarrow> None))
      else
        (case sm_find (cc_objs c) sn of
           Some p \<Rightarrow> Some p
         | None \<Rightarrow> (case sm_find (cc_addObjs c) sn of Some p \<Rightarrow> Some p | None \<Rightarrow> None)))"

definition Collections_Remove :: "u64 \<Rightarrow> ComponentCollections \<Rightarrow> ComponentCollections" where
  "Collections_Remove sn c = c\<lparr>cc_removeObjs := cc_removeObjs c @ [sn]\<rparr>"

text \<open>The first half of \<open>Swap\<close>: what was added becomes visible.\<close>

definition Collections_Swap_adds :: "ComponentCollections \<Rightarrow> ComponentCollections" where
  "Collections_Swap_adds c =
     (if cc_addObjs c \<noteq> [] then c\<lparr>cc_objs := sm_insert_all (cc_addObjs c) (cc_objs c), cc_addObjs := []\<rparr>
      else c)"

section \<open>The state of a thread's objects\<close>

text \<open>
  \<open>EntitySystem::_objSystems\<close>, \<open>DynamicObjectPoolCollector::_pools\<close>, the two callback maps of
  \<open>MessageSystem\<close> (a default callback may be a null pointer), and the serial numbers of the
  timers that were asked to be removed.
\<close>

record world =
  w_heap :: heap
  w_global :: Global
  w_pools :: PoolCollector
  w_objSystems :: "(u64, ComponentCollections) smap"
  w_callbacks :: "(int, (u64, addr) smap) smap"
  w_defaultCallbacks :: "(u64, addr option) smap"
  w_removedTimers :: "u64 list list"

text \<open>A class: \<open>typeid(T).hash_code()\<close>, whether it derives from \<open>IEntity\<close>, \<open>T::IsSingle()\<close>.\<close>

record cls =
  cls_hash :: u64
  cls_isEntity :: bool
  cls_isSingle :: bool

definition w_get :: "addr \<Rightarrow> world \<Rightarrow> IComponent" where
  "w_get p w = h_obj (w_heap w) p"

definition w_upd :: "addr \<Rightarrow> (IComponent \<Rightarrow> IComponent) \<Rightarrow> world \<Rightarrow> world" where
  "w_upd p f w = w\<lparr>w_heap := obj_update p f (w_heap w)\<rparr>"

section \<open>\<open>class EntitySystem\<close>: adding\<close>

definition EntitySystem_file :: "addr \<Rightarrow> world \<Rightarrow> world" where
  "EntitySystem_file pComponent w =
     (let typeHashCode = c_typeHash (w_get pComponent w);
          systems = (case sm_find (w_objSystems w) typeHashCode of
              None \<Rightarrow> sm_assign typeHashCode (ComponentCollections_new typeHashCode) (w_objSystems w)
            | Some _ \<Rightarrow> w_objSystems w);
          pEntities = (case sm_find systems typeHashCode of
              Some c \<Rightarrow> c | None \<Rightarrow> ComponentCollections_new typeHashCode);
          w1 = w\<lparr>w_objSystems := sm_assign typeHashCode
                   (Collections_Add (w_heap w) pComponent pEntities) systems\<rparr>
      in w_upd pComponent (SetSystemManager True) w1)"

text \<open>\<open>GetPool<T>()\<close> and \<open>MallocObject\<close> on it.\<close>

definition pool_malloc :: "cls \<Rightarrow> addr option \<Rightarrow> u64 \<Rightarrow> (addr \<Rightarrow> heap \<Rightarrow> heap) \<Rightarrow> world \<Rightarrow> addr \<times> world" where
  "pool_malloc T pParent sn awake w =
     (let (pool, pools) = GetPool (cls_hash T) (cls_isEntity T) (cls_isSingle T) (w_pools w);
          (p, g, h, pool') = MallocObject True pParent sn awake (w_global w) (w_heap w) pool
      in (p, w\<lparr>w_global := g, w_heap := h, w_pools := sm_assign (cls_hash T) pool' pools\<rparr>))"

definition AddComponentWithParent :: "cls \<Rightarrow> addr option \<Rightarrow> u64 \<Rightarrow> (addr \<Rightarrow> heap \<Rightarrow> heap) \<Rightarrow> world \<Rightarrow> addr \<times> world" where
  "AddComponentWithParent T pParent sn awake w =
     (let (pComponent, w1) = pool_malloc T pParent sn awake w
      in (pComponent, EntitySystem_file pComponent w1))"

definition EntitySystem_AddComponent :: "cls \<Rightarrow> (addr \<Rightarrow> heap \<Rightarrow> heap) \<Rightarrow> world \<Rightarrow> addr \<times> world" where
  "EntitySystem_AddComponent T awake w = AddComponentWithParent T None 0 awake w"

definition GetComponentCollections :: "u64 \<Rightarrow> world \<Rightarrow> ComponentCollections option" where
  "GetComponentCollections typeHashCode w = sm_find (w_objSystems w) typeHashCode"

definition EntitySystem_GetComponent :: "u64 \<Rightarrow> world \<Rightarrow> addr option" where
  "EntitySystem_GetComponent typeHashCode w =
     (case sm_find (w_objSystems w) typeHashCode of
        None \<Rightarrow> None | Some c \<Rightarrow> Collections_Get 0 c)"

definition EntitySystem_RemoveComponent :: "addr \<Rightarrow> world \<Rightarrow> world" where
  "EntitySystem_RemoveComponent pObj w =
     (let entitySn = c_sn (w_get pObj w); typeHashCode = c_typeHash (w_get pObj w) in
      case sm_find (w_objSystems w) typeHashCode of
        None \<Rightarrow> w
      | Some c \<Rightarrow> w\<lparr>w_objSystems := sm_assign typeHashCode (Collections_Remove entitySn c) (w_objSystems w)\<rparr>)"

section \<open>\<open>class IEntity\<close>\<close>

definition AddComponentWithSn :: "addr \<Rightarrow> cls \<Rightarrow> u64 \<Rightarrow> (addr \<Rightarrow> heap \<Rightarrow> heap) \<Rightarrow> world \<Rightarrow> (addr option \<times> world) option" where
  "AddComponentWithSn this T sn awake w =
     (if sm_find (c_components (w_get this w)) (cls_hash T) \<noteq> None then Some (None, w)
      else if \<not> c_pSystemManager (w_get this w) then None
      else let (pComponent, w1) = AddComponentWithParent T (Some this) sn awake w
           in Some (Some pComponent,
                w_upd this (\<lambda>c. c\<lparr>c_components := sm_insert (cls_hash T) pComponent (c_components c)\<rparr>) w1))"

definition Entity_AddComponent :: "addr \<Rightarrow> cls \<Rightarrow> (addr \<Rightarrow> heap \<Rightarrow> heap) \<Rightarrow> world \<Rightarrow> (addr option \<times> world) option" where
  "Entity_AddComponent this T awake w = AddComponentWithSn this T 0 awake w"

definition Entity_GetComponent :: "addr \<Rightarrow> u64 \<Rightarrow> world \<Rightarrow> addr option" where
  "Entity_GetComponent this typeHashCode w = sm_find (c_components (w_get this w)) typeHashCode"

section \<open>\<open>class MessageSystem\<close>: registration\<close>

definition MessageSystem_RemoveFunction :: "u64 \<Rightarrow> world \<Rightarrow> world" where
  "MessageSystem_RemoveFunction sn w =
     w\<lparr>w_callbacks := map (\<lambda>(msgId, pSub). (msgId, sm_erase sn pSub)) (w_callbacks w),
       w_defaultCallbacks := sm_erase sn (w_defaultCallbacks w)\<rparr>"

text \<open>\<open>CB\<close> is the class \<open>MessageCallBack\<close>; the callback object is not filed under \<open>obj\<close>.\<close>

definition RegisterFunction :: "cls \<Rightarrow> addr \<Rightarrow> int \<Rightarrow> world \<Rightarrow> addr \<times> world" where
  "RegisterFunction CB obj msgId w =
     (let w1 = (case sm_find (w_callbacks w) msgId of
            None \<Rightarrow> w\<lparr>w_callbacks := sm_insert msgId [] (w_callbacks w)\<rparr> | Some _ \<Rightarrow> w);
          (pCallback, w2) = EntitySystem_AddComponent CB (\<lambda>p h. h) w1;
          w3 = w_upd pCallback (SetParent (Some obj)) w2;
          pSub = (case sm_find (w_callbacks w3) msgId of Some m \<Rightarrow> m | None \<Rightarrow> [])
      in (pCallback, w3\<lparr>w_callbacks := sm_assign msgId
            (sm_insert (c_sn (w_get obj w3)) pCallback pSub) (w_callbacks w3)\<rparr>))"

definition RegisterDefaultFunction :: "cls \<Rightarrow> addr \<Rightarrow> world \<Rightarrow> addr \<times> world" where
  "RegisterDefaultFunction CB obj w =
     (let (pCallback, w1) = EntitySystem_AddComponent CB (\<lambda>p h. h) w;
          w2 = w_upd pCallback (SetParent (Some obj)) w1
      in (pCallback, w2\<lparr>w_defaultCallbacks :=
            sm_insert (c_sn (w_get obj w2)) (Some pCallback) (w_defaultCallbacks w2)\<rparr>))"

section \<open>Teardown\<close>

text \<open>
  \<open>IComponent::ComponentBackToPool\<close>. \<open>backToPool\<close> is the class's \<open>BackToPool()\<close>, \<open>timerHash\<close> the
  class \<open>TimerComponent\<close>. A component with timers but without a manager is a null pointer.
\<close>

definition pool_free :: "addr \<Rightarrow> world \<Rightarrow> world" where
  "pool_free this w =
     (case sm_find (w_pools w) (c_typeHash (w_get this w)) of
        None \<Rightarrow> w
      | Some pool \<Rightarrow> w\<lparr>w_pools := sm_assign (c_typeHash (w_get this w))
                        (FreeObject this (w_heap w) pool) (w_pools w)\<rparr>)"

definition IComponent_ComponentBackToPool :: "(addr \<Rightarrow> world \<Rightarrow> world) \<Rightarrow> u64 \<Rightarrow> addr \<Rightarrow> world \<Rightarrow> world option" where
  "IComponent_ComponentBackToPool backToPool timerHash this w =
     (let w1 = backToPool this w in do {
        w2 \<leftarrow> (if c_timers (w_get this w1) \<noteq> [] then
                 if \<not> c_pSystemManager (w_get this w1) then None
                 else let w' = (if EntitySystem_GetComponent timerHash w1 \<noteq> None
                            then w1\<lparr>w_removedTimers := w_removedTimers w1 @ [c_timers (w_get this w1)]\<rparr> else w1)
                      in Some (w_upd this (\<lambda>c. c\<lparr>c_timers := []\<rparr>) w')
               else Some w1);
        let w3 = (if c_pPool (w_get this w2)
                  then w_upd this (SetPool False) (pool_free this w2) else w2);
        let w4 = (if c_pSystemManager (w_get this w3)
                  then MessageSystem_RemoveFunction (c_sn (w_get this w3)) w3 else w3);
        Some (w_upd this (SetSystemManager False \<circ> SetParent None \<circ> SetSN 0) w4) })"

text \<open>\<open>IEntity::ComponentBackToPool\<close> first hands its components to the entity system, or, when
  it has no manager, tears them down itself.\<close>

fun for_each :: "('b \<Rightarrow> 'a \<Rightarrow> 'a option) \<Rightarrow> 'b list \<Rightarrow> 'a \<Rightarrow> 'a option" where
  "for_each f [] w = Some w"
| "for_each f (x # xs) w = Option.bind (f x w) (for_each f xs)"

lemma for_each_mono [partial_function_mono]:
  assumes "\<And>x w. mono_option (\<lambda>f. B f x w)"
  shows "mono_option (\<lambda>f. for_each (B f) xs w)"
proof (induction xs arbitrary: w)
  case Nil
  show ?case by (simp add: option.const_mono)
next
  case (Cons x xs)
  show ?case unfolding for_each.simps by (rule bind_mono [OF assms Cons])
qed

partial_function (option) ComponentBackToPool :: "(addr \<Rightarrow> world \<Rightarrow> world) \<Rightarrow> u64 \<Rightarrow> addr \<Rightarrow> world \<Rightarrow> world option" where
  "ComponentBackToPool backToPool timerHash this w =
     (if c_isEntity (w_get this w) then do {
        w1 \<leftarrow> (if c_pSystemManager (w_get this w)
               then Some (fold (\<lambda>pair. EntitySystem_RemoveComponent (snd pair)) (c_components (w_get this w)) w)
               else for_each (\<lambda>pair. ComponentBackToPool backToPool timerHash (snd pair))
                      (c_components (w_get this w)) w);
        IComponent_ComponentBackToPool backToPool timerHash this
          (w_upd this (\<lambda>c. c\<lparr>c_components := []\<rparr>) w1) }
      else IComponent_ComponentBackToPool backToPool timerHash this w)"

definition Entity_RemoveComponent :: "(addr \<Rightarrow> world \<Rightarrow> world) \<Rightarrow> u64 \<Rightarrow> addr \<Rightarrow> addr \<Rightarrow> world \<Rightarrow> world option" where
  "Entity_RemoveComponent backToPool timerHash this pComponent w =
     (let w1 = w_upd this (\<lambda>c. c\<lparr>c_components := sm_erase (c_typeHash (w_get pComponent w)) (c_components c)\<rparr>) w in
      if \<not> c_pSystemManager (w_get this w1) then ComponentBackToPool backToPool timerHash pComponent w1
      else Some (EntitySystem_RemoveComponent pComponent w1))"

definition Entity_RemoveComponent_type :: "(addr \<Rightarrow> world \<Rightarrow> world) \<Rightarrow> u64 \<Rightarrow> addr \<Rightarrow> u64 \<Rightarrow> world \<Rightarrow> world option" where
  "Entity_RemoveComponent_type backToPool timerHash this typeHashCode w =
     (case sm_find (c_components (w_get this w)) typeHashCode of
        None \<Rightarrow> Some w
      | Some pComponent \<Rightarrow> Entity_RemoveComponent backToPool timerHash this pComponent w)"

section \<open>\<open>Swap\<close> and \<open>Update\<close>\<close>

text \<open>
  The removal loop of \<open>ComponentCollections::Swap\<close> on the collection of class \<open>t\<close>, from index
  \<open>i\<close> of \<open>_removeObjs\<close> on: giving an object back may append to the list being iterated (when
  an entity has a component of its own class), which \<open>std::list\<close> allows.
\<close>

definition collections :: "u64 \<Rightarrow> world \<Rightarrow> ComponentCollections" where
  "collections t w = (case sm_find (w_objSystems w) t of Some c \<Rightarrow> c | None \<Rightarrow> ComponentCollections_new t)"

definition collections_upd :: "u64 \<Rightarrow> (ComponentCollections \<Rightarrow> ComponentCollections) \<Rightarrow> world \<Rightarrow> world" where
  "collections_upd t f w = w\<lparr>w_objSystems := sm_assign t (f (collections t w)) (w_objSystems w)\<rparr>"

partial_function (option) Swap_loop :: "(addr \<Rightarrow> world \<Rightarrow> world) \<Rightarrow> u64 \<Rightarrow> u64 \<Rightarrow> nat \<Rightarrow> world \<Rightarrow> world option" where
  "Swap_loop backToPool timerHash t i w =
     (if i < length (cc_removeObjs (collections t w)) then
        (let sn = cc_removeObjs (collections t w) ! i in
         case sm_find (cc_objs (collections t w)) sn of
           None \<Rightarrow> Swap_loop backToPool timerHash t (i + 1) w
         | Some pObj \<Rightarrow> do {
             w1 \<leftarrow> ComponentBackToPool backToPool timerHash pObj w;
             Swap_loop backToPool timerHash t (i + 1)
               (collections_upd t (\<lambda>c. c\<lparr>cc_objs := sm_erase sn (cc_objs c)\<rparr>) w1) })
      else Some (collections_upd t (\<lambda>c. c\<lparr>cc_removeObjs := []\<rparr>) w))"

definition Collections_Swap :: "(addr \<Rightarrow> world \<Rightarrow> world) \<Rightarrow> u64 \<Rightarrow> u64 \<Rightarrow> world \<Rightarrow> world option" where
  "Collections_Swap backToPool timerHash t w =
     (let w1 = collections_upd t Collections_Swap_adds w in
      if cc_removeObjs (collections t w1) \<noteq> [] then Swap_loop backToPool timerHash t 0 w1 else Some w1)"

text \<open>\<open>for (auto iter : _objSystems) iter.second->Swap();\<close>\<close>

definition EntitySystem_Update :: "(addr \<Rightarrow> world \<Rightarrow> world) \<Rightarrow> u64 \<Rightarrow> world \<Rightarrow> world option" where
  "EntitySystem_Update backToPool timerHash w =
     for_each (Collections_Swap backToPool timerHash) (map fst (w_objSystems w)) w"

text \<open>\<open>ComponentCollections::Dispose\<close>: what was already given back (number 0) is skipped.\<close>

definition Collections_Dispose :: "(addr \<Rightarrow> world \<Rightarrow> world) \<Rightarrow> u64 \<Rightarrow> u64 \<Rightarrow> world \<Rightarrow> world option" where
  "Collections_Dispose backToPool timerHash t w = do {
     let visit = (\<lambda>pair w. if c_sn (w_get (snd pair) w) = 0 then Some w
                    else ComponentBackToPool backToPool timerHash (snd pair) w);
     w1 \<leftarrow> for_each visit (cc_objs (collections t w)) w;
     let w2 = collections_upd t (\<lambda>c. c\<lparr>cc_objs := []\<rparr>) w1;
     w3 \<leftarrow> for_each visit (cc_addObjs (collections t w2)) w2;
     Some (collections_upd t (\<lambda>c. c\<lparr>cc_addObjs := [], cc_removeObjs := []\<rparr>) w3) }"

definition EntitySystem_Dispose :: "(addr \<Rightarrow> world \<Rightarrow> world) \<Rightarrow> u64 \<Rightarrow> world \<Rightarrow> world option" where
  "EntitySystem_Dispose backToPool timerHash w = do {
     w1 \<leftarrow> for_each (Collections_Dispose backToPool timerHash) (map fst (w_objSystems w)) w;
     Some (w1\<lparr>w_objSystems := []\<rparr>) }"

section \<open>Frame facts\<close>

lemma w_upd_simps [simp]:
  "w_get q (w_upd p f w) = (if q = p then f (w_get p w) else w_get q w)"
  "w_objSystems (w_upd p f w) = w_objSystems w" "w_pools (w_upd p f w) = w_pools w"
  "w_callbacks (w_upd p f w) = w_callbacks w" "w_defaultCallbacks (w_upd p f w) = w_defaultCallbacks w"
  "w_global (w_upd p f w) = w_global w"
  by (simp_all add: w_upd_def w_get_def)

lemma collections_w_upd [simp]: "collections t (w_upd p f w) = collections t w"
  by (simp add: collections_def)

lemma collections_upd_simps [simp]:
  "collections t (collections_upd t' f w) = (if t = t' then f (collections t' w) else collections t w)"
  "w_get p (collections_upd t f w) = w_get p w" "w_pools (collections_upd t f w) = w_pools w"
  "w_callbacks (collections_upd t f w) = w_callbacks w"
  "w_defaultCallbacks (collections_upd t f w) = w_defaultCallbacks w"
  by (simp_all add: collections_upd_def collections_def w_get_def)

lemma EntitySystem_RemoveComponent_frame [simp]:
  "w_get q (EntitySystem_RemoveComponent p w) = w_get q w"
  "w_pools (EntitySystem_RemoveComponent p w) = w_pools w"
  "w_callbacks (EntitySystem_RemoveComponent p w) = w_callbacks w"
  "w_defaultCallbacks (EntitySystem_RemoveComponent p w) = w_defaultCallbacks w"
  by (simp_all add: EntitySystem_RemoveComponent_def Let_def w_get_def split: option.splits)

lemma EntitySystem_RemoveComponent_collections:
  "collections t (EntitySystem_RemoveComponent p w) =
     (if t = c_typeHash (w_get p w) \<and> sm_find (w_objSystems w) t \<noteq> None
      then Collections_Remove (c_sn (w_get p w)) (collections t w) else collections t w)"
  by (auto simp: EntitySystem_RemoveComponent_def Let_def collections_def split: option.splits)

lemma EntitySystem_RemoveComponent_find [simp]:
  "sm_find (w_objSystems (EntitySystem_RemoveComponent p w)) t = None \<longleftrightarrow> sm_find (w_objSystems w) t = None"
  by (auto simp: EntitySystem_RemoveComponent_def Let_def split: option.splits)

definition remove_all :: "(u64 \<times> addr) list \<Rightarrow> world \<Rightarrow> world" where
  "remove_all cs w = fold (\<lambda>pair. EntitySystem_RemoveComponent (snd pair)) cs w"

lemma remove_all_simps [simp]:
  "remove_all [] w = w"
  "remove_all (c # cs) w = remove_all cs (EntitySystem_RemoveComponent (snd c) w)"
  by (simp_all add: remove_all_def)

lemma remove_all_frame [simp]:
  "w_get q (remove_all cs w) = w_get q w" "w_pools (remove_all cs w) = w_pools w"
  "w_callbacks (remove_all cs w) = w_callbacks w"
  "w_defaultCallbacks (remove_all cs w) = w_defaultCallbacks w"
  "sm_find (w_objSystems (remove_all cs w)) t = None \<longleftrightarrow> sm_find (w_objSystems w) t = None"
  by (induction cs arbitrary: w) auto

text \<open>Every component that is handed over is queued in the collection of its class.\<close>

lemma remove_all_collections:
  "cc_objs (collections t (remove_all cs w)) = cc_objs (collections t w)
   \<and> cc_addObjs (collections t (remove_all cs w)) = cc_addObjs (collections t w)
   \<and> cc_removeObjs (collections t (remove_all cs w)) = cc_removeObjs (collections t w)
       @ (if sm_find (w_objSystems w) t = None then []
          else map (\<lambda>c. c_sn (w_get (snd c) w)) (filter (\<lambda>c. c_typeHash (w_get (snd c) w) = t) cs))"
  by (induction cs arbitrary: w)
     (auto simp: EntitySystem_RemoveComponent_collections Collections_Remove_def)

text \<open>The teardown of one object, given what its class does in \<open>BackToPool\<close>.\<close>

lemma FreeObject_sn:
  "c_sn (h_obj h p) = c_sn (h_obj h' p) \<Longrightarrow> FreeObject p h pl = FreeObject p h' pl"
  by (simp add: FreeObject_def)

lemma w_removedTimers_frame [simp]:
  "w_get q (w\<lparr>w_removedTimers := x\<rparr>) = w_get q w" "collections t (w\<lparr>w_removedTimers := x\<rparr>) = collections t w"
  by (simp_all add: w_get_def collections_def)

lemma w_pools_frame [simp]:
  "w_get q (w\<lparr>w_pools := x\<rparr>) = w_get q w" "collections t (w\<lparr>w_pools := x\<rparr>) = collections t w"
  by (simp_all add: w_get_def collections_def)

lemma MessageSystem_RemoveFunction_frame [simp]:
  "w_get q (MessageSystem_RemoveFunction sn w) = w_get q w"
  "collections t (MessageSystem_RemoveFunction sn w) = collections t w"
  "w_pools (MessageSystem_RemoveFunction sn w) = w_pools w"
  by (simp_all add: MessageSystem_RemoveFunction_def w_get_def collections_def)

definition torn_down :: "addr \<Rightarrow> ObjectPool \<Rightarrow> world \<Rightarrow> world \<Rightarrow> bool" where
  "torn_down this pl w w' \<longleftrightarrow> c_sn (w_get this w') = 0 \<and> c_parent (w_get this w') = None
     \<and> (\<forall>t. collections t w' = collections t w)
     \<and> w_callbacks w' = map (\<lambda>(m, sub). (m, sm_erase (c_sn (w_get this w)) sub)) (w_callbacks w)
     \<and> w_defaultCallbacks w' = sm_erase (c_sn (w_get this w)) (w_defaultCallbacks w)
     \<and> sm_find (w_pools w') (c_typeHash (w_get this w)) = Some (FreeObject this (w_heap w) pl)
     \<and> (\<forall>q. q \<noteq> this \<longrightarrow> w_get q w' = w_get q w)"

lemma IComponent_ComponentBackToPool_result:
  assumes quiet: "\<And>w. backToPool this w = w" and sys: "c_pSystemManager (w_get this w)"
    and pool: "c_pPool (w_get this w)" "sm_find (w_pools w) (c_typeHash (w_get this w)) = Some pl"
  shows "\<exists>w'. IComponent_ComponentBackToPool backToPool timerHash this w = Some w' \<and> torn_down this pl w w'"
proof -
  let ?T = "if EntitySystem_GetComponent timerHash w \<noteq> None
      then w\<lparr>w_removedTimers := w_removedTimers w @ [c_timers (w_get this w)]\<rparr> else w"
  obtain w2 where w2d: "w2 = (if c_timers (w_get this w) \<noteq> [] then w_upd this (\<lambda>c. c\<lparr>c_timers := []\<rparr>) ?T else w)"
    by simp
  have w2: "w_get q w2 = (if q = this then (w_get this w)\<lparr>c_timers := []\<rparr> else w_get q w)"
    "collections t w2 = collections t w" "w_pools w2 = w_pools w" "w_callbacks w2 = w_callbacks w"
    "w_defaultCallbacks w2 = w_defaultCallbacks w" for q t
    unfolding w2d by (auto intro: IComponent.equality)
  obtain w3 where w3d: "w3 = w_upd this (SetPool False) (pool_free this w2)" by simp
  obtain w4 where w4d: "w4 = MessageSystem_RemoveFunction (c_sn (w_get this w3)) w3" by simp
  let ?w' = "w_upd this (SetSystemManager False \<circ> SetParent None \<circ> SetSN 0) w4"
  have heap: "FreeObject this (w_heap w2) pl = FreeObject this (w_heap w) pl"
    using w2(1) [of this] by (intro FreeObject_sn) (simp add: w_get_def)
  have free: "pool_free this w2 = w2\<lparr>w_pools := sm_assign (c_typeHash (w_get this w))
      (FreeObject this (w_heap w) pl) (w_pools w)\<rparr>"
    unfolding pool_free_def w2 using pool heap by simp
  have w3: "w_get q w3 = (if q = this then (w_get this w)\<lparr>c_timers := [], c_pPool := False\<rparr> else w_get q w)"
    "collections t w3 = collections t w" "w_callbacks w3 = w_callbacks w"
    "w_defaultCallbacks w3 = w_defaultCallbacks w"
    "w_pools w3 = sm_assign (c_typeHash (w_get this w)) (FreeObject this (w_heap w) pl) (w_pools w)" for q t
    unfolding w3d free by (simp_all add: w2 SetPool_def)
  have "(if c_timers (w_get this w) \<noteq> [] then if \<not> c_pSystemManager (w_get this w) then None
       else Some (w_upd this (\<lambda>c. c\<lparr>c_timers := []\<rparr>) ?T) else Some w) = Some w2"
    using sys by (simp add: w2d)
  moreover have "c_pPool (w_get this w2)" "c_pSystemManager (w_get this w3)"
    using pool sys by (simp_all add: w2 w3)
  ultimately have "IComponent_ComponentBackToPool backToPool timerHash this w = Some ?w'"
    unfolding IComponent_ComponentBackToPool_def quiet Let_def
    by (simp only: Option.bind.bind_lunit if_True w3d [symmetric] w4d [symmetric])
  moreover have "torn_down this pl w ?w'"
    unfolding torn_down_def
    by (simp add: w3 w4d SetSN_def SetParent_def SetSystemManager_def)
       (simp add: MessageSystem_RemoveFunction_def w3)
  ultimately show ?thesis by blast
qed

lemma ComponentBackToPool_result:
  assumes quiet: "\<And>w. backToPool this w = w" and sys: "c_pSystemManager (w_get this w)"
    and pool: "c_pPool (w_get this w)" "sm_find (w_pools w) (c_typeHash (w_get this w)) = Some pl"
  defines "cs \<equiv> (if c_isEntity (w_get this w) then c_components (w_get this w) else [])"
  shows "\<exists>w'. ComponentBackToPool backToPool timerHash this w = Some w'
     \<and> torn_down this pl (remove_all cs w) w'"
proof (cases "c_isEntity (w_get this w)")
  case False
  then show ?thesis using IComponent_ComponentBackToPool_result [of backToPool this w pl] assms(1-4)
    by (simp add: ComponentBackToPool.simps cs_def)
next
  case True
  let ?w1 = "w_upd this (\<lambda>c. c\<lparr>c_components := []\<rparr>) (remove_all cs w)"
  have "ComponentBackToPool backToPool timerHash this w = IComponent_ComponentBackToPool backToPool timerHash this ?w1"
    using True sys by (simp add: ComponentBackToPool.simps cs_def remove_all_def)
  moreover obtain w' where "IComponent_ComponentBackToPool backToPool timerHash this ?w1 = Some w'"
    "torn_down this pl ?w1 w'"
    using IComponent_ComponentBackToPool_result [of backToPool this ?w1 pl] assms(1-4) by auto
  moreover have "FreeObject this (w_heap ?w1) pl = FreeObject this (w_heap (remove_all cs w)) pl"
    by (rule FreeObject_sn) (simp add: w_upd_def)
  ultimately show ?thesis unfolding torn_down_def by auto
qed

lemma Swap_loop_single:
  assumes rem: "cc_removeObjs (collections t w) = [sn]" and obj: "sm_find (cc_objs (collections t w)) sn = Some p"
    and torn: "ComponentBackToPool backToPool timerHash p w = Some w1"
    and rem1: "cc_removeObjs (collections t w1) = [sn]"
  shows "Swap_loop backToPool timerHash t 0 w = Some (collections_upd t (\<lambda>c. c\<lparr>cc_removeObjs := []\<rparr>)
           (collections_upd t (\<lambda>c. c\<lparr>cc_objs := sm_erase sn (cc_objs c)\<rparr>) w1))"
  using assms by (subst Swap_loop.simps, simp, subst Swap_loop.simps, simp)

section \<open>Properties\<close>


definition sample_world :: world where
  "sample_world = \<lparr>w_heap = \<lparr>h_obj = (\<lambda>p. \<lparr>c_typeHash = (if p = 1 then 5 else 6), c_isEntity = (p = 1),
       c_sn = (if p = 1 then 9 else 10), c_timers = [], c_parent = None, c_pSystemManager = True,
       c_pPool = True, c_components = (if p = 1 then [(6, 2)] else [])\<rparr>), h_next = 3\<rparr>,
     w_global = Global_new APP_GAME 1 0,
     w_pools = [(5, (ObjectPool_new 5 True False)\<lparr>op_objInUse := \<lparr>cr_objs = [(9, 1)], cr_adds = [], cr_removes = []\<rparr>\<rparr>)],
     w_objSystems = [(5, \<lparr>cc_objs = [(9, 1)], cc_addObjs = [], cc_removeObjs = [], cc_componentName = 5\<rparr>),
                     (6, \<lparr>cc_objs = [(10, 2)], cc_addObjs = [], cc_removeObjs = [], cc_componentName = 6\<rparr>)],
     w_callbacks = [(1001, [(9, 3)])], w_defaultCallbacks = [(9, Some 4)], w_removedTimers = []\<rparr>"


end
