(* ===== verification/Socket_Object.thy ===== *)
theory Socket_Object
  imports Std_Map
begin

text \<open>
  Identity of a connection: \<open>network_type.h\<close>, \<open>network_help.h\<close> and
  \<open>socket_object.{h,cpp}\<close> of \<open>libserver\<close>. A \<open>SocketKey\<close> names a socket on one of the
  process's networks, a \<open>TagKey\<close> is the map of tags (account, app, entity, player) that
  travels with a packet, a \<open>NetIdentify\<close> is both.
\<close>

section \<open>Network types\<close>

datatype NetworkType = NT_None | TcpListen | TcpConnector | HttpListen | HttpConnector

text \<open>\<open>None = 0\<close>, the others one bit each.\<close>

fun NetworkType_number :: "NetworkType \<Rightarrow> int" where
  "NetworkType_number NT_None = 0"
| "NetworkType_number TcpListen = 1"
| "NetworkType_number TcpConnector = 2"
| "NetworkType_number HttpListen = 4"
| "NetworkType_number HttpConnector = 8"

instantiation NetworkType :: linorder
begin

definition less_eq_NetworkType :: "NetworkType \<Rightarrow> NetworkType \<Rightarrow> bool" where
  "less_eq_NetworkType a b \<longleftrightarrow> NetworkType_number a \<le> NetworkType_number b"

definition less_NetworkType :: "NetworkType \<Rightarrow> NetworkType \<Rightarrow> bool" where
  "less_NetworkType a b \<longleftrightarrow> NetworkType_number a < NetworkType_number b"

instance
proof
  fix a b :: NetworkType
  show "a \<le> b \<Longrightarrow> b \<le> a \<Longrightarrow> a = b"
    by (cases a; cases b) (simp_all add: less_eq_NetworkType_def)
qed (auto simp: less_eq_NetworkType_def less_NetworkType_def)

end

definition GetNetworkTypeName :: "NetworkType \<Rightarrow> string" where
  "GetNetworkTypeName t =
     (if t = TcpListen then ''TcpListen''
      else if t = TcpConnector then ''TcpConnector''
      else if t = HttpListen then ''HttpListen''
      else ''HttpConnector'')"

definition IsTcp :: "NetworkType \<Rightarrow> bool" where
  "IsTcp t \<longleftrightarrow> t = TcpConnector \<or> t = TcpListen"

text \<open>
  \<open>NetworkHelp::IsError\<close>, Linux branch: \<open>EINTR\<close> = 4, \<open>EAGAIN\<close> = \<open>EWOULDBLOCK\<close> = 11,
  \<open>EINPROGRESS\<close> = 115 only mean "try again".
\<close>

abbreviation EINTR :: int where "EINTR \<equiv> 4"
abbreviation EAGAIN :: int where "EAGAIN \<equiv> 11"
abbreviation EINPROGRESS :: int where "EINPROGRESS \<equiv> 115"

definition IsError :: "int \<Rightarrow> bool" where
  "IsError e = (if e = EINTR \<or> e = EAGAIN \<or> e = EINPROGRESS then False else True)"

section \<open>Socket keys\<close>

record SocketKey =
  sk_Socket :: socket
  sk_NetType :: NetworkType

definition SocketKey_None :: SocketKey where
  "SocketKey_None = \<lparr>sk_Socket = INVALID_SOCKET, sk_NetType = NT_None\<rparr>"

definition SocketKey_Clear :: "SocketKey \<Rightarrow> SocketKey" where
  "SocketKey_Clear k = k\<lparr>sk_Socket := INVALID_SOCKET, sk_NetType := NT_None\<rparr>"

definition SocketKey_CopyFrom :: "SocketKey \<Rightarrow> SocketKey \<Rightarrow> SocketKey" where
  "SocketKey_CopyFrom src k = k\<lparr>sk_Socket := sk_Socket src, sk_NetType := sk_NetType src\<rparr>"

definition SocketKey_ne :: "SocketKey \<Rightarrow> SocketKey \<Rightarrow> bool" where
  "SocketKey_ne a b =
     (if sk_Socket a \<noteq> sk_Socket b then False
      else if sk_NetType a \<noteq> sk_NetType b then False else True)"

definition SocketKey_eq :: "SocketKey \<Rightarrow> SocketKey \<Rightarrow> bool" where
  "SocketKey_eq a b \<longleftrightarrow> sk_Socket a = sk_Socket b \<and> sk_NetType a = sk_NetType b"

lemma SocketKey_CopyFrom [simp]: "SocketKey_CopyFrom src k = src"
  by (simp add: SocketKey_CopyFrom_def)

lemma SocketKey_Clear [simp]: "SocketKey_Clear k = SocketKey_None"
  by (simp add: SocketKey_Clear_def SocketKey_None_def)

lemma SocketKey_eq [simp]: "SocketKey_eq a b \<longleftrightarrow> a = b"
  by (cases a; cases b) (auto simp: SocketKey_eq_def)

section \<open>Tags\<close>

datatype TagType = TagNone | TagAccount | TagApp | TagEntity | TagToWorld | TagPlayer

fun TagType_number :: "TagType \<Rightarrow> nat" where
  "TagType_number TagNone = 0"
| "TagType_number TagAccount = 1"
| "TagType_number TagApp = 2"
| "TagType_number TagEntity = 3"
| "TagType_number TagToWorld = 4"
| "TagType_number TagPlayer = 5"

instantiation TagType :: linorder
begin

definition less_eq_TagType :: "TagType \<Rightarrow> TagType \<Rightarrow> bool" where
  "less_eq_TagType a b \<longleftrightarrow> TagType_number a \<le> TagType_number b"

definition less_TagType :: "TagType \<Rightarrow> TagType \<Rightarrow> bool" where
  "less_TagType a b \<longleftrightarrow> TagType_number a < TagType_number b"

instance
proof
  fix a b :: TagType
  show "a \<le> b \<Longrightarrow> b \<le> a \<Longrightarrow> a = b"
    by (cases a; cases b) (simp_all add: less_eq_TagType_def)
qed (auto simp: less_eq_TagType_def less_TagType_def)

end

definition IsTagTypeStr :: "TagType \<Rightarrow> bool" where
  "IsTagTypeStr t \<longleftrightarrow> t = TagAccount"

definition GetTagTypeName :: "TagType \<Rightarrow> string" where
  "GetTagTypeName t =
     (if t = TagAccount then ''Account''
      else if t = TagApp then ''App''
      else if t = TagEntity then ''world''
      else if t = TagPlayer then ''player''
      else ''None'')"

record TagValue =
  KeyStr :: string
  KeyInt64 :: u64

definition TagValue_ne :: "TagValue \<Rightarrow> TagValue \<Rightarrow> bool" where
  "TagValue_ne a b \<longleftrightarrow> KeyStr a \<noteq> KeyStr b \<or> KeyInt64 a \<noteq> KeyInt64 b"

definition TagValue_eq :: "TagValue \<Rightarrow> TagValue \<Rightarrow> bool" where
  "TagValue_eq a b \<longleftrightarrow> KeyStr a = KeyStr b \<and> KeyInt64 a = KeyInt64 b"

lemma TagValue_ne_iff: "TagValue_ne a b \<longleftrightarrow> \<not> TagValue_eq a b"
  by (simp add: TagValue_ne_def TagValue_eq_def)

type_synonym TagKey = "(TagType, TagValue) smap"

definition TagKey_Clear :: "TagKey \<Rightarrow> TagKey" where
  "TagKey_Clear m = []"

definition AddTag_str :: "TagType \<Rightarrow> string \<Rightarrow> TagKey \<Rightarrow> TagKey" where
  "AddTag_str t v m =
     (case sm_find m t of
        None \<Rightarrow> sm_assign t \<lparr>KeyStr = v, KeyInt64 = 0\<rparr> m
      | Some old \<Rightarrow> sm_assign t (old\<lparr>KeyStr := v, KeyInt64 := 0\<rparr>) m)"

definition AddTag_int :: "TagType \<Rightarrow> u64 \<Rightarrow> TagKey \<Rightarrow> TagKey" where
  "AddTag_int t v m =
     (case sm_find m t of
        None \<Rightarrow> sm_assign t \<lparr>KeyStr = '''', KeyInt64 = v\<rparr> m
      | Some old \<Rightarrow> sm_assign t (old\<lparr>KeyStr := '''', KeyInt64 := v\<rparr>) m)"

definition AddTag :: "TagType \<Rightarrow> TagValue \<Rightarrow> TagKey \<Rightarrow> TagKey" where
  "AddTag t v m =
     (if KeyInt64 v \<noteq> 0 then AddTag_int t (KeyInt64 v) m else AddTag_str t (KeyStr v) m)"

definition GetTagValue :: "TagType \<Rightarrow> TagKey \<Rightarrow> TagValue option" where
  "GetTagValue t m = (case sm_find m t of None \<Rightarrow> None | Some v \<Rightarrow> Some v)"

definition TagKey_CopyFrom :: "TagKey \<Rightarrow> TagKey \<Rightarrow> TagKey" where
  "TagKey_CopyFrom src m = fold (\<lambda>(t, v) m. AddTag t v m) src m"

definition CompareTags_on :: "TagType \<Rightarrow> TagKey \<Rightarrow> TagKey \<Rightarrow> bool" where
  "CompareTags_on t a b =
     (case (GetTagValue t a, GetTagValue t b) of
        (Some va, Some vb) \<Rightarrow>
          if IsTagTypeStr t then KeyStr va = KeyStr vb else KeyInt64 va = KeyInt64 vb
      | _ \<Rightarrow> True)"

definition CompareTags :: "TagKey \<Rightarrow> TagKey \<Rightarrow> bool" where
  "CompareTags a b =
     (if \<not> CompareTags_on TagAccount a b then False
      else if \<not> CompareTags_on TagApp a b then False
      else True)"

record NetIdentify =
  ni_socketKey :: SocketKey
  ni_tagKey :: TagKey

definition NetIdentify_new :: NetIdentify where
  "NetIdentify_new = \<lparr>ni_socketKey = SocketKey_None, ni_tagKey = []\<rparr>"

section \<open>Facts about tags\<close>

text \<open>
  \<open>AddTag\<close> keeps one half of a value: the number where it is not 0, the string otherwise.
\<close>

definition tag_norm :: "TagValue \<Rightarrow> TagValue" where
  "tag_norm v =
     (if KeyInt64 v \<noteq> 0 then \<lparr>KeyStr = '''', KeyInt64 = KeyInt64 v\<rparr>
      else \<lparr>KeyStr = KeyStr v, KeyInt64 = 0\<rparr>)"

definition tags_wf :: "TagKey \<Rightarrow> bool" where
  "tags_wf m \<longleftrightarrow> sm_wf m \<and> (\<forall>(t, v)\<in>set m. tag_norm v = v)"

lemma GetTagValue [simp]: "GetTagValue t m = sm_find m t"
  by (simp add: GetTagValue_def split: option.splits)

lemma TagValue_update [simp]: "(v :: TagValue)\<lparr>KeyStr := s, KeyInt64 := n\<rparr> = \<lparr>KeyStr = s, KeyInt64 = n\<rparr>"
  by (cases v) simp

lemma SocketKey_ne_is_eq: "SocketKey_ne a b \<longleftrightarrow> a = b"
  by (cases a; cases b) (auto simp: SocketKey_ne_def)

lemma AddTag_str_assign [simp]: "AddTag_str t v m = sm_assign t \<lparr>KeyStr = v, KeyInt64 = 0\<rparr> m"
  by (simp add: AddTag_str_def split: option.splits)

lemma AddTag_int_assign [simp]: "AddTag_int t v m = sm_assign t \<lparr>KeyStr = '''', KeyInt64 = v\<rparr> m"
  by (simp add: AddTag_int_def split: option.splits)

lemma AddTag_assign [simp]: "AddTag t v m = sm_assign t (tag_norm v) m"
  by (simp add: AddTag_def tag_norm_def)

lemma tag_norm_idem [simp]: "tag_norm (tag_norm v) = tag_norm v"
  by (simp add: tag_norm_def)

lemma tag_norm_parts [simp]:
  "tag_norm \<lparr>KeyStr = v, KeyInt64 = 0\<rparr> = \<lparr>KeyStr = v, KeyInt64 = 0\<rparr>"
  "tag_norm \<lparr>KeyStr = '''', KeyInt64 = n\<rparr> = \<lparr>KeyStr = '''', KeyInt64 = n\<rparr>"
  by (auto simp: tag_norm_def)

lemma tags_wf_Nil [simp, wf_intros]: "tags_wf []"
  by (simp add: tags_wf_def)

lemma tags_wf_assign: "tags_wf m \<Longrightarrow> tag_norm v = v \<Longrightarrow> tags_wf (sm_assign t v m)"
  using set_sm_assign_subset [of t v m] by (auto simp: tags_wf_def)

lemma tags_wf_AddTag [wf_intros]:
  "tags_wf m \<Longrightarrow> tags_wf (AddTag_str t s m)"
  "tags_wf m \<Longrightarrow> tags_wf (AddTag_int t n m)"
  "tags_wf m \<Longrightarrow> tags_wf (AddTag t v m)"
  by (simp_all add: tags_wf_assign)

lemma TagKey_CopyFrom_Cons:
  "TagKey_CopyFrom ((t, v) # src) m = TagKey_CopyFrom src (AddTag t v m)"
  by (simp add: TagKey_CopyFrom_def)

lemma TagKey_CopyFrom_Nil [simp]: "TagKey_CopyFrom [] m = m"
  by (simp add: TagKey_CopyFrom_def)

lemma tags_wf_CopyFrom [wf_intros]: "tags_wf m \<Longrightarrow> tags_wf (TagKey_CopyFrom src m)"
  by (induction src arbitrary: m) (auto simp: TagKey_CopyFrom_Cons tags_wf_assign)

text \<open>\<open>CopyFrom\<close> merges: the source's tags win, the others stay.\<close>

lemma find_CopyFrom:
  assumes "sm_wf src"
  shows "sm_find (TagKey_CopyFrom src m) t =
           (case sm_find src t of Some v \<Rightarrow> Some (tag_norm v) | None \<Rightarrow> sm_find m t)"
  using assms
proof (induction src arbitrary: m)
  case Nil
  then show ?case by simp
next
  case (Cons p src)
  obtain a v where p: "p = (a, v)" by (cases p)
  have "sm_find src a = None"
    using Cons.prems by (force simp: p sm_wf_Cons map_of_eq_None_iff)
  then show ?case
    using Cons by (auto simp: p TagKey_CopyFrom_Cons sm_wf_Cons split: option.splits)
qed

lemma CompareTags_refl: "CompareTags m m"
  by (simp add: CompareTags_def CompareTags_on_def split: option.splits)

lemma CompareTags_sym: "CompareTags a b = CompareTags b a"
  by (auto simp: CompareTags_def CompareTags_on_def split: option.splits)

lemma CompareTags_account:
  assumes "CompareTags a b" and "sm_find a TagAccount = Some va" and "sm_find b TagAccount = Some vb"
  shows "KeyStr va = KeyStr vb"
  using assms by (auto simp: CompareTags_def CompareTags_on_def IsTagTypeStr_def split: if_splits)

end
