(* ===== verification/Byte_Buffer.thy ===== *)
theory Byte_Buffer
  imports Prelude "HOL-Library.Monad_Syntax"
begin

text \<open>
  \<open>base_buffer.{h,cpp}\<close>: the growable byte buffer under packets and network buffers.
  Indices and sizes are \<open>unsigned int\<close> (\<open>add32\<close>, \<open>sub32\<close> write the wrap-around out). A
  \<open>memcpy\<close> outside the allocated bytes is undefined behaviour and is \<open>None\<close> here. The
  bytes of a fresh \<open>new char[n]\<close> are 0; no operation reads them before writing them.
\<close>

section \<open>\<open>memcpy\<close>\<close>

definition mem_read :: "byte list \<Rightarrow> nat \<Rightarrow> nat \<Rightarrow> byte list option" where
  "mem_read mem off n = (if off + n \<le> length mem then Some (take n (drop off mem)) else None)"

definition mem_write :: "byte list \<Rightarrow> nat \<Rightarrow> byte list \<Rightarrow> byte list option" where
  "mem_write mem off bs =
     (if off + length bs \<le> length mem
      then Some (take off mem @ bs @ drop (off + length bs) mem) else None)"

definition new_bytes :: "nat \<Rightarrow> byte list" where
  "new_bytes n = replicate n 0"

lemma length_new_bytes [simp]: "length (new_bytes n) = n"
  by (simp add: new_bytes_def)

lemma mem_read_length: "mem_read mem off n = Some bs \<Longrightarrow> length bs = n"
  by (auto simp: mem_read_def split: if_splits)

lemma mem_write_length: "mem_write mem off bs = Some mem' \<Longrightarrow> length mem' = length mem"
  by (auto simp: mem_write_def split: if_splits)

section \<open>\<open>class Buffer\<close>\<close>

text \<open>\<open>ADDITIONAL_SIZE\<close> and \<open>MAX_SIZE\<close>, the values of a build without \<open>TestNetwork\<close>.\<close>

definition ADDITIONAL_SIZE :: nat where "ADDITIONAL_SIZE = 1024 * 128"
definition MAX_SIZE :: nat where "MAX_SIZE = 1024 * 1024"

record buffer =
  b_buffer :: "byte list"
  b_beginIndex :: nat
  b_endIndex :: nat
  b_bufferSize :: nat

definition Buffer_GetEmptySize :: "'a buffer_scheme \<Rightarrow> nat" where
  "Buffer_GetEmptySize s = sub32 (b_bufferSize s) (b_endIndex s)"

text \<open>
  \<open>ReAllocBuffer(dataLength)\<close>: allocate \<open>ADDITIONAL_SIZE\<close> more, move the data to the
  front, straightening the ring. At \<open>MAX_SIZE\<close> the code prints a message and goes on.
\<close>

definition ReAlloc_move :: "nat \<Rightarrow> 'a buffer_scheme \<Rightarrow> byte list \<Rightarrow> (byte list \<times> nat) option" where
  "ReAlloc_move dataLength s temp =
     (if b_beginIndex s < b_endIndex s then do {
        d \<leftarrow> mem_read (b_buffer s) (b_beginIndex s) (sub32 (b_endIndex s) (b_beginIndex s));
        t \<leftarrow> mem_write temp 0 d;
        Some (t, sub32 (b_endIndex s) (b_beginIndex s)) }
      else if b_beginIndex s = b_endIndex s \<and> dataLength \<le> 0 then Some (temp, 0)
      else do {
        d \<leftarrow> mem_read (b_buffer s) (b_beginIndex s) (sub32 (b_bufferSize s) (b_beginIndex s));
        t \<leftarrow> mem_write temp 0 d;
        if b_endIndex s > 0 then do {
          h \<leftarrow> mem_read (b_buffer s) 0 (b_endIndex s);
          t' \<leftarrow> mem_write t (sub32 (b_bufferSize s) (b_beginIndex s)) h;
          Some (t', add32 (sub32 (b_bufferSize s) (b_beginIndex s)) (b_endIndex s)) }
        else Some (t, sub32 (b_bufferSize s) (b_beginIndex s)) })"

definition Buffer_ReAllocBuffer :: "nat \<Rightarrow> 'a buffer_scheme \<Rightarrow> 'a buffer_scheme option" where
  "Buffer_ReAllocBuffer dataLength s = do {
     (t, newEnd) \<leftarrow> ReAlloc_move dataLength s (new_bytes (add32 (b_bufferSize s) ADDITIONAL_SIZE));
     Some (s\<lparr>b_buffer := t, b_bufferSize := add32 (b_bufferSize s) ADDITIONAL_SIZE,
             b_beginIndex := 0, b_endIndex := newEnd\<rparr>) }"

text \<open>
  Sizes stay below half the range of \<open>unsigned int\<close>: growing once more cannot wrap.
\<close>

definition size_ok :: "'a buffer_scheme \<Rightarrow> bool" where
  "size_ok s \<longleftrightarrow> length (b_buffer s) = b_bufferSize s \<and> 0 < b_bufferSize s
     \<and> b_bufferSize s < 2 ^ 31"

lemma size_ok_add32 [simp]:
  "size_ok s \<Longrightarrow> add32 (b_bufferSize s) ADDITIONAL_SIZE = b_bufferSize s + ADDITIONAL_SIZE"
  by (simp add: size_ok_def ADDITIONAL_SIZE_def)

text \<open>The live bytes of a ring: \<open>n\<close> bytes from \<open>beginIndex\<close> on, wrapping at the end.\<close>

definition ring_bytes :: "byte list \<Rightarrow> nat \<Rightarrow> nat \<Rightarrow> byte list" where
  "ring_bytes mem b n = take n (drop b mem @ take b mem)"

lemma length_ring_bytes [simp]: "n \<le> length mem \<Longrightarrow> b \<le> length mem \<Longrightarrow> length (ring_bytes mem b n) = n"
  by (simp add: ring_bytes_def)

lemma ring_bytes_linear: "b + n \<le> length mem \<Longrightarrow> ring_bytes mem b n = take n (drop b mem)"
  by (simp add: ring_bytes_def)

lemma ring_bytes_wrapped:
  "length mem \<le> b + n \<Longrightarrow> b \<le> length mem \<Longrightarrow>
   ring_bytes mem b n = drop b mem @ take (b + n - length mem) (take b mem)"
  by (simp add: ring_bytes_def add.commute)

lemma ring_bytes_prefix: "take k (ring_bytes mem b n) = ring_bytes mem b (min k n)"
  unfolding ring_bytes_def by (rule take_take)

text \<open>Writing behind the bytes of a ring, in one piece or around its end, and dropping some of them.\<close>

lemma ring_append_linear:
  assumes "b + k + length v \<le> length m"
  shows "ring_bytes (take (b + k) m @ v @ drop (b + k + length v) m) b (k + length v) = ring_bytes m b k @ v"
proof -
  have "drop b (take (b + k) m) = take k (drop b m)" by (simp add: drop_take)
  then show ?thesis using assms by (simp add: ring_bytes_def)
qed

lemma ring_append_wrapped:
  assumes "length m \<le> b + k" and "b \<le> length m" and "e = b + k - length m" and "e + length v \<le> b"
  shows "ring_bytes (take e m @ v @ drop (e + length v) m) b (k + length v) = ring_bytes m b k @ v"
proof -
  let ?m = "take e m @ v @ drop (e + length v) m"
  have e: "length ?m = length m" "length m \<le> b + (k + length v)" "b + (k + length v) - length m = e + length v"
    using assms by simp_all
  have "drop b ?m = drop b m" using assms(2,4) by simp
  moreover have "take (e + length v) (take b ?m) = take e m @ v" using assms(2,4) by simp
  moreover have "ring_bytes ?m b (k + length v) = drop b ?m @ take (b + (k + length v) - length ?m) (take b ?m)"
    by (rule ring_bytes_wrapped) (simp_all only: e assms(2))
  ultimately have "ring_bytes ?m b (k + length v) = drop b m @ take e m @ v" by (simp only: e)
  moreover have "ring_bytes m b k = drop b m @ take e m"
  proof -
    have "min (b + k - length m) b = e" using assms by linarith
    then show ?thesis using ring_bytes_wrapped [OF assms(1,2)] by (simp only: take_take)
  qed
  ultimately show ?thesis by simp
qed

lemma ring_append_split:
  assumes "b + k < length m" and w: "w = length m - (b + k)" "w < length v" and "length v - w \<le> b"
  shows "ring_bytes (drop w v @ drop (length v - w) (take (b + k) m @ take w v)) b (k + length v) = ring_bytes m b k @ v"
proof -
  let ?r = "length v - w" and ?front = "take (b + k) m @ take w v"
  let ?m = "drop w v @ drop ?r ?front"
  have len: "length ?front = length m" "length ?m = length m" using assms by simp_all
  have "drop b ?m = drop b ?front" using drop_replace_front [of "drop w v" b ?front] assms(4) by simp
  also have "\<dots> = take k (drop b m) @ take w v" using assms(1) by (simp add: drop_take)
  finally have "drop b ?m = ring_bytes m b k @ take w v" using assms(1) by (simp add: ring_bytes_linear)
  moreover have "take ?r (take b ?m) = drop w v" using assms(4) by simp
  moreover have "b + (k + length v) - length m = ?r" using assms by linarith
  moreover have "ring_bytes ?m b (k + length v) = drop b ?m @ take (b + (k + length v) - length ?m) (take b ?m)"
  proof (rule ring_bytes_wrapped)
    show "length ?m \<le> b + (k + length v)" unfolding len(2) using assms by linarith
    show "b \<le> length ?m" unfolding len(2) using assms by linarith
  qed
  ultimately show ?thesis by (simp only: len append_assoc append_take_drop_id)
qed

lemma ring_drop:
  assumes "n \<le> k" and "k \<le> length m" and "b < length m"
  shows "ring_bytes m (if length m \<le> b + n then b + n - length m else b + n) (k - n) = drop n (ring_bytes m b k)"
proof (cases "length m \<le> b + n")
  case True
  let ?c = "b + n - length m"
  have "?c + (k - n) \<le> length m" using assms True by linarith
  then have l: "ring_bytes m ?c (k - n) = take (k - n) (drop ?c m)" by (rule ring_bytes_linear)
  have "ring_bytes m b k = drop b m @ take (b + k - length m) (take b m)"
    using ring_bytes_wrapped [of m b k] assms True by linarith
  then have "drop n (ring_bytes m b k) = drop ?c (take (b + k - length m) m)"
    using assms True by (simp add: min_absorb1 add.commute)
  also have "\<dots> = take (b + k - length m - ?c) (drop ?c m)" by (rule drop_take)
  also have "b + k - length m - ?c = k - n" using assms True by linarith
  finally show ?thesis using l True by simp
next
  case False
  have "drop n (ring_bytes m b k) = take (k - n) (drop n (drop b m @ take b m))" by (simp only: ring_bytes_def drop_take)
  also have "\<dots> = take (k - n) (drop (b + n) m @ take b m)" using False by (simp add: add.commute)
  also have "\<dots> = take (k - n) (drop (b + n) m @ take (b + n) m)"
  proof -
    have "k - n \<le> length (drop (b + n) m) + b" using assms False by simp
    then show ?thesis using False by (auto simp: take_append min_def)
  qed
  finally show ?thesis using False by (simp add: ring_bytes_def)
qed

lemma mem_write_front:
  "length bs \<le> length mem \<Longrightarrow> mem_write mem 0 bs = Some (bs @ drop (length bs) mem)"
  by (simp add: mem_write_def)

lemma mem_write_after:
  "length xs + length bs \<le> length (xs @ ys) \<Longrightarrow>
   mem_write (xs @ ys) (length xs) bs = Some (xs @ bs @ drop (length bs) ys)"
  by (simp add: mem_write_def)

text \<open>The two copies of a move whose live bytes wrap around the end of the memory.\<close>

lemma ReAlloc_move_wrapped:
  assumes ok: "size_ok s" and b: "b_beginIndex s < b_bufferSize s" and e: "b_endIndex s \<le> b_beginIndex s"
    and n: "0 < n" "n = b_bufferSize s - b_beginIndex s + b_endIndex s"
    and temp: "b_bufferSize s \<le> length temp"
  shows "ReAlloc_move n s temp =
    Some (drop (b_beginIndex s) (b_buffer s) @ take (b_endIndex s) (b_buffer s) @ drop n temp, n)"
proof -
  let ?b = "b_beginIndex s" and ?e = "b_endIndex s" and ?z = "b_bufferSize s" and ?m = "b_buffer s"
  have len: "length ?m = ?z" and z: "?z < 2 ^ 31" using ok by (auto simp: size_ok_def)
  have s1: "sub32 ?z ?b = ?z - ?b" using b z by simp
  have s2: "add32 (?z - ?b) ?e = n" using n e z b by (subst add32_exact) auto
  have r1: "mem_read ?m ?b (?z - ?b) = Some (drop ?b ?m)" using b len by (simp add: mem_read_def)
  have "length (drop ?b ?m) \<le> length temp" using temp len by simp
  from mem_write_front [OF this] have w1: "mem_write temp 0 (drop ?b ?m) = Some (drop ?b ?m @ drop (?z - ?b) temp)"
    by (simp add: len)
  have r2: "mem_read ?m 0 ?e = Some (take ?e ?m)"
    using le_trans [OF e less_imp_le [OF b]] by (simp add: mem_read_def len)
  have fits: "length (drop ?b ?m) + length (take ?e ?m) \<le> length (drop ?b ?m @ drop (?z - ?b) temp)"
    using temp len b n e by simp
  have "?e + (?z - ?b) = n" "length (take ?e ?m) = ?e" using e b n len by auto
  then have w2: "mem_write (drop ?b ?m @ drop (?z - ?b) temp) (?z - ?b) (take ?e ?m)
      = Some (drop ?b ?m @ take ?e ?m @ drop n temp)"
    using mem_write_after [OF fits] len by simp
  have "\<not> ?b < ?e" "\<not> (?b = ?e \<and> n \<le> 0)" using e n(1) by auto
  then show ?thesis using r1 w1 r2 w2 s1 s2 n b
    by (cases "?e = 0") (simp_all add: ReAlloc_move_def)
qed

text \<open>
  The move keeps the live bytes: after it they are the first bytes of the new memory.
  \<open>n\<close> is how many there are; the two indices coincide when there are none or all.
\<close>

lemma ReAlloc_move_ring:
  assumes ok: "size_ok s" and b: "b_beginIndex s < b_bufferSize s" and n: "n \<le> b_bufferSize s"
    and e: "b_endIndex s = (b_beginIndex s + n) mod b_bufferSize s"
    and temp: "b_bufferSize s \<le> length temp"
  shows "ReAlloc_move n s temp =
           Some (ring_bytes (b_buffer s) (b_beginIndex s) n @ drop n temp, n)"
proof -
  let ?b = "b_beginIndex s" and ?e = "b_endIndex s" and ?z = "b_bufferSize s" and ?m = "b_buffer s"
  have len: "length ?m = ?z" and z: "?z < 2 ^ 31" using ok by (auto simp: size_ok_def)
  consider (none) "n = 0" | (linear) "0 < n" "?b + n < ?z" | (wrap) "0 < n" "?z \<le> ?b + n"
    by linarith
  then show ?thesis
  proof cases
    case none
    with e b have "?e = ?b" by simp
    then show ?thesis using none by (simp add: ReAlloc_move_def ring_bytes_def)
  next
    case linear
    with e have e': "?e = ?b + n" by simp
    have "?b + n < 2 ^ 32" using linear z by simp
    then have "sub32 ?e ?b = n" by (simp add: e')
    then show ?thesis using linear temp len
      by (simp add: ReAlloc_move_def e' mem_read_def mem_write_def ring_bytes_linear)
  next
    case wrap
    then have e': "?e = ?b + n - ?z" using e b n by (simp add: mod_if)
    then have eb: "?e \<le> ?b" "n = ?z - ?b + ?e" using n wrap b by linarith+
    have "ring_bytes ?m ?b n = drop ?b ?m @ take ?e ?m"
      using wrap b eb(1)
      by (simp add: ring_bytes_wrapped len e' [symmetric] min_absorb1 del: take_take)
         (simp add: min_absorb1)
    then show ?thesis using ReAlloc_move_wrapped [OF ok b eb(1) wrap(1) eb(2) temp] by simp
  qed
qed

lemma Buffer_ReAllocBuffer_ring:
  assumes "size_ok s" and "b_beginIndex s < b_bufferSize s" and "n \<le> b_bufferSize s"
    and "b_endIndex s = (b_beginIndex s + n) mod b_bufferSize s"
  shows "Buffer_ReAllocBuffer n s = Some (s\<lparr>
           b_buffer := ring_bytes (b_buffer s) (b_beginIndex s) n
             @ drop n (new_bytes (b_bufferSize s + ADDITIONAL_SIZE)),
           b_bufferSize := b_bufferSize s + ADDITIONAL_SIZE, b_beginIndex := 0, b_endIndex := n\<rparr>)"
  using assms by (simp add: Buffer_ReAllocBuffer_def ReAlloc_move_ring)

end
