(* ===== verification/Packet_Object.thy ===== *)
theory Packet_Object
  imports Socket_Object Byte_Buffer
begin

text \<open>
  \<open>packet.{h,cpp}\<close>: a packet is a growable buffer with a message number, an identity and a
  reference count. \<open>_ref\<close> counts the message lists that hold the packet; the pool takes it
  back when counting has been opened and no list holds it. Also \<open>proto_id.proto\<close>: the
  message numbers the program branches on, and the set of numbers the protocol knows.
\<close>

section \<open>Message numbers\<close>

abbreviation (input) MI_None :: int where "MI_None \<equiv> 0"
abbreviation (input) MI_NetworkConnect :: int where "MI_NetworkConnect \<equiv> 1"
abbreviation (input) MI_NetworkConnected :: int where "MI_NetworkConnected \<equiv> 2"
abbreviation (input) MI_NetworkListenKey :: int where "MI_NetworkListenKey \<equiv> 4"
abbreviation (input) MI_NetworkDisconnect :: int where "MI_NetworkDisconnect \<equiv> 10"
abbreviation (input) MI_NetworkRequestDisconnect :: int where "MI_NetworkRequestDisconnect \<equiv> 20"
abbreviation (input) MI_CreateComponent :: int where "MI_CreateComponent \<equiv> 51"
abbreviation (input) MI_CreateSystem :: int where "MI_CreateSystem \<equiv> 52"
abbreviation (input) MI_Ping :: int where "MI_Ping \<equiv> 101"
abbreviation (input) MI_AppRegister :: int where "MI_AppRegister \<equiv> 102"
abbreviation (input) MI_HttpBegin :: int where "MI_HttpBegin \<equiv> 10000"
abbreviation (input) MI_HttpInnerResponse :: int where "MI_HttpInnerResponse \<equiv> 10001"
abbreviation (input) MI_HttpRequestBad :: int where "MI_HttpRequestBad \<equiv> 10002"
abbreviation (input) MI_HttpRequestLogin :: int where "MI_HttpRequestLogin \<equiv> 10003"
abbreviation (input) MI_HttpEnd :: int where "MI_HttpEnd \<equiv> 10499"
abbreviation (input) MI_HttpOuterRequest :: int where "MI_HttpOuterRequest \<equiv> 10500"
abbreviation (input) MI_HttpOuterResponse :: int where "MI_HttpOuterResponse \<equiv> 10501"
abbreviation (input) MI_CmdThread :: int where "MI_CmdThread \<equiv> 20001"

text \<open>The numbers of \<open>enum MsgId\<close>: what \<open>MsgId_descriptor()->FindValueByNumber\<close> finds.\<close>

definition MsgId_numbers :: "int list" where
  "MsgId_numbers =
     [0, 1, 2, 3, 4, 10, 11, 20, 50, 51, 52, 101, 102, 103, 104]
     @ [1000, 1001, 1002, 1003, 1010, 1011, 1012, 1014, 1015, 1016, 1017, 1018, 1019, 1022, 1023, 1024]
     @ [1100, 1101, 1102, 1103, 1104, 1105, 1106, 1108, 1109, 1110, 1111, 1112, 1113, 1114, 1115,
        1116, 1117, 1118]
     @ [1501, 1502, 1503, 1504, 1505, 1506] @ [2001, 2002, 3001, 3002, 4001, 4002, 4003, 4004]
     @ [5001, 5002] @ [10000, 10001, 10002, 10003, 10499, 10500, 10501]
     @ [20001, 20002, 20003, 20004, 20005, 20006, 20007]"

definition IsHttpMsg :: "int \<Rightarrow> bool" where
  "IsHttpMsg msgId =
     (if msgId = MI_HttpOuterRequest then True
      else if msgId = MI_HttpOuterResponse then True
      else if msgId = MI_HttpInnerResponse then True
      else False)"

section \<open>\<open>class Packet\<close>\<close>

definition DEFAULT_PACKET_BUFFER_SIZE :: nat where "DEFAULT_PACKET_BUFFER_SIZE = 1024 * 10"

record packet = buffer +
  p_sn :: u64
  p_socketKey :: SocketKey
  p_tagKey :: TagKey
  p_msgId :: int
  p_ref :: int
  p_isRefOpen :: bool

definition Packet_new :: packet where
  "Packet_new = \<lparr>b_buffer = new_bytes DEFAULT_PACKET_BUFFER_SIZE, b_beginIndex = 0, b_endIndex = 0,
     b_bufferSize = DEFAULT_PACKET_BUFFER_SIZE, p_sn = 0, p_socketKey = SocketKey_None,
     p_tagKey = [], p_msgId = 0, p_ref = 0, p_isRefOpen = False\<rparr>"

definition Packet_Awake :: "int \<Rightarrow> NetIdentify option \<Rightarrow> packet \<Rightarrow> packet" where
  "Packet_Awake msgId pIdentify p =
     (let p1 = (case pIdentify of
                  Some i \<Rightarrow> p\<lparr>p_socketKey := SocketKey_CopyFrom (ni_socketKey i) (SocketKey_Clear (p_socketKey p)),
                              p_tagKey := TagKey_CopyFrom (ni_tagKey i) (TagKey_Clear (p_tagKey p))\<rparr>
                | None \<Rightarrow> p\<lparr>p_socketKey := SocketKey_Clear (p_socketKey p),
                            p_tagKey := TagKey_Clear (p_tagKey p)\<rparr>)
      in p1\<lparr>p_msgId := msgId, b_beginIndex := 0, b_endIndex := 0, p_ref := 0, p_isRefOpen := False\<rparr>)"

definition Packet_BackToPool :: "packet \<Rightarrow> packet" where
  "Packet_BackToPool p = p\<lparr>p_msgId := MI_None, p_socketKey := SocketKey_Clear (p_socketKey p),
     p_tagKey := TagKey_Clear (p_tagKey p), b_beginIndex := 0, b_endIndex := 0, p_ref := 0,
     p_isRefOpen := False\<rparr>"

text \<open>\<open>unsigned short GetDataLength()\<close>: the difference is cut to 16 bits.\<close>

definition Packet_GetDataLength :: "packet \<Rightarrow> nat" where
  "Packet_GetDataLength p = trunc16 (sub32 (b_endIndex p) (b_beginIndex p))"

definition Packet_GetMsgId :: "packet \<Rightarrow> int" where
  "Packet_GetMsgId p = p_msgId p"

definition Packet_FillData :: "nat \<Rightarrow> packet \<Rightarrow> packet" where
  "Packet_FillData n p = p\<lparr>b_endIndex := add32 (b_endIndex p) n\<rparr>"

definition Packet_ReAllocBuffer :: "packet \<Rightarrow> packet option" where
  "Packet_ReAllocBuffer p = Buffer_ReAllocBuffer (sub32 (b_endIndex p) (b_beginIndex p)) p"

text \<open>
  \<open>while (GetEmptySize() < len) ReAllocBuffer();\<close> The sizes are \<open>unsigned int\<close>, so the loop
  need not end: \<open>None\<close> is a loop that does not return (or a \<open>memcpy\<close> out of bounds).
\<close>

partial_function (option) Packet_reserve :: "nat \<Rightarrow> packet \<Rightarrow> packet option" where
  "Packet_reserve len p =
     (if Buffer_GetEmptySize p < len
      then Option.bind (Packet_ReAllocBuffer p) (Packet_reserve len) else Some p)"

text \<open>
  \<open>SerializeToBuffer\<close>, raw bytes. The protobuf form writes its bytes at \<open>GetBuffer()\<close>, the
  start of the memory, and advances the end index; on an empty packet the two agree.
\<close>

definition Packet_SerializeToBuffer :: "byte list \<Rightarrow> packet \<Rightarrow> packet option" where
  "Packet_SerializeToBuffer s p = do {
     p1 \<leftarrow> Packet_reserve (length s) p;
     mem \<leftarrow> mem_write (b_buffer p1) (b_endIndex p1) s;
     Some (Packet_FillData (length s) (p1\<lparr>b_buffer := mem\<rparr>)) }"

definition Packet_SerializeProto :: "byte list \<Rightarrow> packet \<Rightarrow> packet option" where
  "Packet_SerializeProto s p = do {
     p1 \<leftarrow> Packet_reserve (length s) p;
     mem \<leftarrow> mem_write (b_buffer p1) 0 s;
     Some (Packet_FillData (length s) (p1\<lparr>b_buffer := mem\<rparr>)) }"

text \<open>What \<open>ParseToProto\<close> hands to protobuf: \<open>GetDataLength()\<close> bytes from \<open>GetBuffer()\<close>.\<close>

definition Packet_payload :: "packet \<Rightarrow> byte list option" where
  "Packet_payload p = mem_read (b_buffer p) 0 (Packet_GetDataLength p)"

definition Packet_CopyFrom :: "packet \<Rightarrow> packet \<Rightarrow> packet option" where
  "Packet_CopyFrom src p = do {
     p1 \<leftarrow> Packet_reserve (Packet_GetDataLength src) p;
     d \<leftarrow> mem_read (b_buffer src) 0 (Packet_GetDataLength src);
     mem \<leftarrow> mem_write (b_buffer p1) 0 d;
     Some (p1\<lparr>b_buffer := mem, b_beginIndex := 0, b_endIndex := Packet_GetDataLength src\<rparr>) }"

section \<open>Reference count\<close>

definition Packet_AddRef :: "packet \<Rightarrow> packet" where
  "Packet_AddRef p = p\<lparr>p_ref := p_ref p + 1\<rparr>"

text \<open>Below 0 the code logs an error.\<close>

definition Packet_RemoveRef :: "packet \<Rightarrow> packet" where
  "Packet_RemoveRef p = p\<lparr>p_ref := p_ref p - 1\<rparr>"

definition Packet_OpenRef :: "packet \<Rightarrow> packet" where
  "Packet_OpenRef p = p\<lparr>p_isRefOpen := True\<rparr>"

definition Packet_CanBack2Pool :: "packet \<Rightarrow> bool" where
  "Packet_CanBack2Pool p =
     (if \<not> p_isRefOpen p then False else if p_ref p = 0 then True else False)"

lemma Packet_CanBack2Pool: "Packet_CanBack2Pool p \<longleftrightarrow> p_isRefOpen p \<and> p_ref p = 0"
  by (simp add: Packet_CanBack2Pool_def)

section \<open>Well-formed packets\<close>

definition packet_wf :: "packet \<Rightarrow> bool" where
  "packet_wf p \<longleftrightarrow> size_ok p \<and> b_beginIndex p = 0 \<and> b_endIndex p \<le> b_bufferSize p"

lemma packet_wf_new: "packet_wf Packet_new"
  by (simp add: packet_wf_def size_ok_def Packet_new_def DEFAULT_PACKET_BUFFER_SIZE_def)

lemma packet_wf_Awake [wf_intros]: "packet_wf p \<Longrightarrow> packet_wf (Packet_Awake m i p)"
  by (cases i) (auto simp: packet_wf_def size_ok_def Packet_Awake_def Let_def)

lemma packet_wf_BackToPool [wf_intros]: "packet_wf p \<Longrightarrow> packet_wf (Packet_BackToPool p)"
  by (simp add: packet_wf_def size_ok_def Packet_BackToPool_def)

lemma packet_wf_ref [wf_intros]:
  "packet_wf p \<Longrightarrow> packet_wf (Packet_AddRef p)"
  "packet_wf p \<Longrightarrow> packet_wf (Packet_RemoveRef p)"
  "packet_wf p \<Longrightarrow> packet_wf (Packet_OpenRef p)"
  by (simp_all add: packet_wf_def size_ok_def Packet_AddRef_def Packet_RemoveRef_def
      Packet_OpenRef_def)

text \<open>The bytes written so far.\<close>

definition packet_data :: "packet \<Rightarrow> byte list" where
  "packet_data p = take (b_endIndex p) (b_buffer p)"

lemma length_packet_data: "packet_wf p \<Longrightarrow> length (packet_data p) = b_endIndex p"
  by (simp add: packet_wf_def size_ok_def packet_data_def)

lemma Packet_GetDataLength_wf:
  "packet_wf p \<Longrightarrow> Packet_GetDataLength p = length (packet_data p) mod 2 ^ 16"
  by (simp add: length_packet_data)
     (simp add: Packet_GetDataLength_def packet_wf_def size_ok_def trunc16_def)

lemma Packet_payload_small:
  assumes "packet_wf p" and "length (packet_data p) < 2 ^ 16"
  shows "Packet_payload p = Some (packet_data p)"
  using assms length_packet_data [OF assms(1)]
  by (simp add: Packet_payload_def Packet_GetDataLength_wf mem_read_def)
     (simp add: packet_data_def packet_wf_def size_ok_def)

lemma Packet_ReAlloc_full_ring:
  assumes wf: "packet_wf p" and full: "b_endIndex p = b_bufferSize p"
  shows "Packet_ReAllocBuffer p = Some (p\<lparr>b_buffer := b_buffer p @ new_bytes ADDITIONAL_SIZE,
           b_bufferSize := b_bufferSize p + ADDITIONAL_SIZE\<rparr>)"
proof -
  let ?z = "b_bufferSize p"
  from wf have ok: "size_ok p" and len: "length (b_buffer p) = ?z" and z: "0 < ?z" "?z < 2 ^ 31"
    and b: "b_beginIndex p = 0" by (auto simp: packet_wf_def size_ok_def)
  have "mem_write (new_bytes (?z + ADDITIONAL_SIZE)) 0 (b_buffer p)
          = Some (b_buffer p @ new_bytes ADDITIONAL_SIZE)"
    using len by (simp add: mem_write_front new_bytes_def)
  then show ?thesis using ok len z b full
    by (simp add: Packet_ReAllocBuffer_def Buffer_ReAllocBuffer_def ReAlloc_move_def mem_read_def)
qed

lemma Packet_ReAlloc_wf:
  assumes wf: "packet_wf p"
  shows "\<exists>mem. Packet_ReAllocBuffer p = Some (p\<lparr>b_buffer := mem,
           b_bufferSize := b_bufferSize p + ADDITIONAL_SIZE\<rparr>)
         \<and> length mem = b_bufferSize p + ADDITIONAL_SIZE
         \<and> take (b_endIndex p) mem = packet_data p"
proof (cases "b_endIndex p = b_bufferSize p")
  case True
  then show ?thesis using Packet_ReAlloc_full_ring [OF wf True] wf
    by (auto simp: packet_data_def packet_wf_def size_ok_def)
next
  case False
  let ?z = "b_bufferSize p" and ?e = "b_endIndex p"
  from wf False have ok: "size_ok p" and len: "length (b_buffer p) = ?z" and z: "0 < ?z" "?z < 2 ^ 31"
    and b: "b_beginIndex p = 0" and e: "?e < ?z" by (auto simp: packet_wf_def size_ok_def)
  have "Buffer_ReAllocBuffer ?e p = Some (p\<lparr>
           b_buffer := ring_bytes (b_buffer p) 0 ?e @ drop ?e (new_bytes (?z + ADDITIONAL_SIZE)),
           b_bufferSize := ?z + ADDITIONAL_SIZE, b_beginIndex := 0, b_endIndex := ?e\<rparr>)"
    using Buffer_ReAllocBuffer_ring [OF ok, of ?e] z b e by simp
  moreover have "sub32 ?e (b_beginIndex p) = ?e" using b e z by simp
  ultimately have "Packet_ReAllocBuffer p = Some (p\<lparr>
           b_buffer := ring_bytes (b_buffer p) 0 ?e @ drop ?e (new_bytes (?z + ADDITIONAL_SIZE)),
           b_bufferSize := ?z + ADDITIONAL_SIZE\<rparr>)"
    using b by (cases p) (simp add: Packet_ReAllocBuffer_def)
  then show ?thesis using e len
    by (intro exI conjI) (assumption, simp_all add: packet_data_def ring_bytes_def)
qed

text \<open>One allocation is enough for any length that fits in 16 bits.\<close>

lemma Packet_reserve_16bit:
  assumes wf: "packet_wf p" and len: "len < 2 ^ 16" and room: "b_bufferSize p + ADDITIONAL_SIZE < 2 ^ 31"
  shows "\<exists>q. Packet_reserve len p = Some q \<and> packet_wf q \<and> packet_data q = packet_data p
           \<and> b_endIndex q = b_endIndex p \<and> b_endIndex q + len \<le> b_bufferSize q"
proof (cases "Buffer_GetEmptySize p < len")
  case False
  then have "Packet_reserve len p = Some p" by (simp add: Packet_reserve.simps)
  with False wf show ?thesis
    by (auto simp: Buffer_GetEmptySize_def packet_wf_def size_ok_def)
next
  case True
  from Packet_ReAlloc_wf [OF wf] obtain mem where
    re: "Packet_ReAllocBuffer p = Some (p\<lparr>b_buffer := mem, b_bufferSize := b_bufferSize p + ADDITIONAL_SIZE\<rparr>)"
    and m: "length mem = b_bufferSize p + ADDITIONAL_SIZE" "take (b_endIndex p) mem = packet_data p"
    by blast
  let ?q = "p\<lparr>b_buffer := mem, b_bufferSize := b_bufferSize p + ADDITIONAL_SIZE\<rparr>"
  have e: "b_endIndex p \<le> b_bufferSize p" using wf by (simp add: packet_wf_def)
  have big: "len \<le> b_bufferSize p + ADDITIONAL_SIZE - b_endIndex p"
    using e len by (simp add: ADDITIONAL_SIZE_def)
  have "Packet_reserve len ?q = Some ?q"
    using big e room by (subst Packet_reserve.simps) (simp add: Buffer_GetEmptySize_def)
  then have "Packet_reserve len p = Some ?q"
    using True re by (subst Packet_reserve.simps) simp
  moreover have "packet_wf ?q" using wf m room by (auto simp: packet_wf_def size_ok_def)
  ultimately show ?thesis using m e big by (auto simp: packet_data_def)
qed

lemma Packet_SerializeToBuffer_ok:
  assumes wf: "packet_wf p" and len: "length s < 2 ^ 16"
    and room: "b_bufferSize p + ADDITIONAL_SIZE < 2 ^ 31"
  shows "\<exists>q. Packet_SerializeToBuffer s p = Some q \<and> packet_wf q \<and> packet_data q = packet_data p @ s"
proof -
  from Packet_reserve_16bit [OF wf len room] obtain q where
    q: "Packet_reserve (length s) p = Some q" "packet_wf q" "packet_data q = packet_data p"
       "b_endIndex q + length s \<le> b_bufferSize q" by blast
  let ?mem = "take (b_endIndex q) (b_buffer q) @ s @ drop (b_endIndex q + length s) (b_buffer q)"
  have lenq: "length (b_buffer q) = b_bufferSize q" and z: "b_bufferSize q < 2 ^ 31"
    using q(2) by (auto simp: packet_wf_def size_ok_def)
  have mw: "mem_write (b_buffer q) (b_endIndex q) s = Some ?mem"
    using q(4) lenq by (simp add: mem_write_def)
  have e: "add32 (b_endIndex q) (length s) = b_endIndex q + length s"
    using q(4) z by simp
  have "Packet_SerializeToBuffer s p = Some (q\<lparr>b_buffer := ?mem, b_endIndex := b_endIndex q + length s\<rparr>)"
    using q(1) mw e by (simp add: Packet_SerializeToBuffer_def Packet_FillData_def)
  moreover have "packet_wf (q\<lparr>b_buffer := ?mem, b_endIndex := b_endIndex q + length s\<rparr>)"
    using q lenq by (auto simp: packet_wf_def size_ok_def)
  moreover have "packet_data (q\<lparr>b_buffer := ?mem, b_endIndex := b_endIndex q + length s\<rparr>) = packet_data p @ s"
    using q(4) lenq by (simp add: q(3) [symmetric]) (simp add: packet_data_def)
  ultimately show ?thesis by blast
qed

lemma Packet_SerializeProto_ok:
  assumes wf: "packet_wf p" and empty: "b_endIndex p = 0" and len: "length s < 2 ^ 16"
    and room: "b_bufferSize p + ADDITIONAL_SIZE < 2 ^ 31"
  shows "\<exists>q. Packet_SerializeProto s p = Some q \<and> packet_wf q \<and> packet_data q = s \<and> Packet_payload q = Some s"
proof -
  from Packet_reserve_16bit [OF wf len room] obtain r where r: "Packet_reserve (length s) p = Some r" "b_endIndex r = 0"
    using empty by auto
  then have "Packet_SerializeProto s p = Packet_SerializeToBuffer s p"
    by (simp add: Packet_SerializeProto_def Packet_SerializeToBuffer_def)
  moreover obtain q where q: "Packet_SerializeToBuffer s p = Some q" "packet_wf q" "packet_data q = packet_data p @ s"
    using Packet_SerializeToBuffer_ok [OF wf len room] by blast
  moreover have "packet_data p = []" using empty by (simp add: packet_data_def)
  ultimately show ?thesis using Packet_payload_small [of q] len by simp
qed

lemma Packet_reserve_msgId: "Packet_reserve len p = Some q \<Longrightarrow> p_msgId q = p_msgId p"
proof (induction rule: Packet_reserve.raw_induct [rotated, consumes 1])
  case (1 f len p q)
  show ?case
  proof (cases "Buffer_GetEmptySize p < len")
    case True
    with 1(2) obtain p1 where "Packet_ReAllocBuffer p = Some p1" "f len p1 = Some q"
      by (auto split: bind_splits)
    with 1(1) [of len p1 q] show ?thesis
      by (auto simp: Packet_ReAllocBuffer_def Buffer_ReAllocBuffer_def split: bind_splits prod.splits)
  next
    case False
    with 1(2) show ?thesis by simp
  qed
qed

lemma Packet_SerializeProto_msgId: "Packet_SerializeProto s p = Some q \<Longrightarrow> p_msgId q = p_msgId p"
  by (auto simp: Packet_SerializeProto_def Packet_FillData_def dest: Packet_reserve_msgId split: bind_splits)

end
