(* ===== verification/Message_System.thy ===== *)
theory Message_System
  imports Entity_System Packet_Object
begin

text \<open>
  \<open>message_system.{h,cpp}\<close> and \<open>message_callback.{h,cpp}\<close>: packets that other threads queue for a
  thread are handed to the callbacks registered for their message number; one that names an
  entity goes to that entity's callback only, or else to its default callback. Callbacks stand
  under the serial number of the component that registered them. The functions bound into the
  callback objects are the argument \<open>cb\<close>; registration is in \<open>Entity_System\<close>.
\<close>

section \<open>Callback objects\<close>

text \<open>\<open>'s\<close> is the state the bound functions act on. A filtered callback first looks up its object.\<close>

datatype 's IMessageCallBack =
    MessageCallBack (mcb_handleFunction: "packet \<Rightarrow> 's \<Rightarrow> 's")
  | MessageCallBackFilter (mcf_GetFilterObj: "packet \<Rightarrow> 's \<Rightarrow> addr option")
      (mcf_HandleFunction: "addr \<Rightarrow> packet \<Rightarrow> 's \<Rightarrow> 's")

fun ProcessPacket :: "'s IMessageCallBack \<Rightarrow> packet \<Rightarrow> 's \<Rightarrow> bool \<times> 's" where
  "ProcessPacket (MessageCallBack f) pPacket s = (True, f pPacket s)"
| "ProcessPacket (MessageCallBackFilter getObj f) pPacket s =
     (case getObj pPacket s of None \<Rightarrow> (False, s) | Some pObj \<Rightarrow> (True, f pObj pPacket s))"

section \<open>State\<close>

text \<open>\<open>_cachePackets\<close> and the packets themselves, by address.\<close>

record msgworld = world +
  mw_cachePackets :: "addr CacheSwap"
  mw_packets :: "addr \<Rightarrow> packet"

definition packet_upd :: "addr \<Rightarrow> (packet \<Rightarrow> packet) \<Rightarrow> msgworld \<Rightarrow> msgworld" where
  "packet_upd p f s = s\<lparr>mw_packets := (mw_packets s)(p := f (mw_packets s p))\<rparr>"

definition AddPacketToList :: "addr \<Rightarrow> msgworld \<Rightarrow> msgworld" where
  "AddPacketToList pPacket s =
     packet_upd pPacket Packet_AddRef (s\<lparr>mw_cachePackets := writer_emplace_back pPacket (mw_cachePackets s)\<rparr>)"

section \<open>\<open>MessageSystem::Update\<close>\<close>

definition entitySn_of :: "packet \<Rightarrow> u64" where
  "entitySn_of pk = (case GetTagValue TagEntity (p_tagKey pk) of None \<Rightarrow> 0 | Some v \<Rightarrow> KeyInt64 v)"

text \<open>
  The handlers of one packet. The loop over all callbacks of a message runs over the map as it
  was when the packet was taken up: callbacks are only removed in \<open>EntitySystem::Update\<close>.
\<close>

definition dispatch_callbacks :: "(addr \<Rightarrow> msgworld IMessageCallBack) \<Rightarrow> packet \<Rightarrow> msgworld \<Rightarrow> bool \<times> msgworld" where
  "dispatch_callbacks cb pk s =
     (case sm_find (w_callbacks s) (p_msgId pk) of
        None \<Rightarrow> (False, s)
      | Some pSub \<Rightarrow>
          if entitySn_of pk > 0 then
            (case sm_find pSub (entitySn_of pk) of
               None \<Rightarrow> (False, s)
             | Some c \<Rightarrow> ProcessPacket (cb c) pk s)
          else fold (\<lambda>(sn, c) (isDo, s). let (r, s') = ProcessPacket (cb c) pk s in (isDo \<or> r, s'))
                 pSub (False, s))"

text \<open>\<open>_defaultCallbacks[entitySn]\<close> inserts a null pointer when there is no entry.\<close>

definition dispatch_default :: "(addr \<Rightarrow> msgworld IMessageCallBack) \<Rightarrow> packet \<Rightarrow> msgworld \<Rightarrow> msgworld" where
  "dispatch_default cb pk s =
     (if entitySn_of pk > 0 \<and> GetTagValue TagToWorld (p_tagKey pk) = None then
        (case sm_find (w_defaultCallbacks s) (entitySn_of pk) of
           None \<Rightarrow> s\<lparr>w_defaultCallbacks := sm_insert (entitySn_of pk) None (w_defaultCallbacks s)\<rparr>
         | Some None \<Rightarrow> s
         | Some (Some c) \<Rightarrow> snd (ProcessPacket (cb c) pk s))
      else s)"

definition dispatch :: "(addr \<Rightarrow> msgworld IMessageCallBack) \<Rightarrow> addr \<Rightarrow> msgworld \<Rightarrow> msgworld" where
  "dispatch cb pPacket s =
     (let pk = mw_packets s pPacket; (isDo, s1) = dispatch_callbacks cb pk s;
          s2 = (if \<not> isDo then dispatch_default cb pk s1 else s1)
      in packet_upd pPacket Packet_RemoveRef s2)"

definition MessageSystem_Update :: "(addr \<Rightarrow> msgworld IMessageCallBack) \<Rightarrow> msgworld \<Rightarrow> msgworld" where
  "MessageSystem_Update cb s =
     (let s1 = (if CacheSwap_CanSwap (mw_cachePackets s)
                then s\<lparr>mw_cachePackets := CacheSwap_Swap (mw_cachePackets s)\<rparr> else s)
      in if GetReaderCache (mw_cachePackets s1) = [] then s1
         else let s2 = fold (dispatch cb) (GetReaderCache (mw_cachePackets s1)) s1
              in s2\<lparr>mw_cachePackets := reader_clear (mw_cachePackets s2)\<rparr>)"

section \<open>What handlers may do\<close>

text \<open>
  A bound function may change anything but it reaches the queue only by \<open>AddPacketToList\<close>, and
  it leaves the reference counts of the packets being dispatched alone, except by queueing
  them again. \<open>queued s s'\<close>: what was appended to the writer between two states.
\<close>

definition only_queues :: "msgworld \<Rightarrow> msgworld \<Rightarrow> bool" where
  "only_queues s s' \<longleftrightarrow> GetReaderCache (mw_cachePackets s') = GetReaderCache (mw_cachePackets s)
     \<and> (\<exists>q. GetWriterCache (mw_cachePackets s') = GetWriterCache (mw_cachePackets s) @ q
          \<and> (\<forall>p. p_ref (mw_packets s' p) = p_ref (mw_packets s p) + int (count_list q p)))"

definition handler_ok :: "msgworld IMessageCallBack \<Rightarrow> bool" where
  "handler_ok c \<longleftrightarrow> (\<forall>pk s. only_queues s (snd (ProcessPacket c pk s)))"

lemma only_queues_refl [simp]: "only_queues s s"
  by (auto simp: only_queues_def)

lemma only_queues_trans: "only_queues s s' \<Longrightarrow> only_queues s' s'' \<Longrightarrow> only_queues s s''"
  unfolding only_queues_def by fastforce

lemma only_queues_AddPacketToList: "only_queues s (AddPacketToList p s)"
  by (auto simp: only_queues_def AddPacketToList_def packet_upd_def Packet_AddRef_def)

lemma only_queues_defaults [simp]: "only_queues s (s\<lparr>w_defaultCallbacks := x\<rparr>)"
  by (auto simp: only_queues_def)

lemma dispatch_callbacks_queues:
  assumes "\<And>c. handler_ok (cb c)"
  shows "only_queues s (snd (dispatch_callbacks cb pk s))"
proof -
  have one: "only_queues s (snd (ProcessPacket (cb c) pk s))" for c s
    using assms by (auto simp: handler_ok_def)
  have "only_queues s (snd (fold (\<lambda>(sn, c) (isDo, s). let (r, s') = ProcessPacket (cb c) pk s in (isDo \<or> r, s'))
      pSub (d, s)))" for pSub d
    by (induction pSub arbitrary: d s)
       (auto simp: case_prod_unfold Let_def intro: only_queues_trans [OF one])
  then show ?thesis by (auto simp: dispatch_callbacks_def one split: option.splits)
qed

lemma dispatch_default_queues:
  assumes "\<And>c. handler_ok (cb c)"
  shows "only_queues s (dispatch_default cb pk s)"
  using assms by (auto simp: dispatch_default_def handler_ok_def split: option.splits)

text \<open>The state after the handlers of a packet, before its reference is given back.\<close>

definition dispatch_run :: "(addr \<Rightarrow> msgworld IMessageCallBack) \<Rightarrow> addr \<Rightarrow> msgworld \<Rightarrow> msgworld" where
  "dispatch_run cb pPacket s =
     (let pk = mw_packets s pPacket; (isDo, s1) = dispatch_callbacks cb pk s
      in if \<not> isDo then dispatch_default cb pk s1 else s1)"

lemma dispatch_dispatch_run: "dispatch cb p s = packet_upd p Packet_RemoveRef (dispatch_run cb p s)"
  by (simp add: dispatch_def dispatch_run_def Let_def case_prod_unfold)

lemma dispatch_run_queues:
  assumes "\<And>c. handler_ok (cb c)"
  shows "only_queues s (dispatch_run cb p s)"
  using dispatch_callbacks_queues [of cb s "mw_packets s p"] dispatch_default_queues [of cb] assms
  by (auto simp: dispatch_run_def Let_def case_prod_unfold intro: only_queues_trans)

lemma fold_dispatch:
  assumes "\<And>c. handler_ok (cb c)"
  shows "GetReaderCache (mw_cachePackets (fold (dispatch cb) ps s)) = GetReaderCache (mw_cachePackets s)
    \<and> (\<exists>q. GetWriterCache (mw_cachePackets (fold (dispatch cb) ps s)) = GetWriterCache (mw_cachePackets s) @ q
         \<and> (\<forall>p. p_ref (mw_packets (fold (dispatch cb) ps s) p)
               = p_ref (mw_packets s p) + int (count_list q p) - int (count_list ps p)))"
proof (induction ps arbitrary: s)
  case Nil
  then show ?case by auto
next
  case (Cons p0 ps)
  let ?s1 = "dispatch cb p0 s"
  obtain q0 where q0: "GetReaderCache (mw_cachePackets ?s1) = GetReaderCache (mw_cachePackets s)"
    "GetWriterCache (mw_cachePackets ?s1) = GetWriterCache (mw_cachePackets s) @ q0"
    "\<forall>p. p_ref (mw_packets ?s1 p) = p_ref (mw_packets s p) + int (count_list q0 p) - (if p = p0 then 1 else 0)"
    using dispatch_run_queues [of cb s p0] assms
    by (auto simp: only_queues_def dispatch_dispatch_run packet_upd_def Packet_RemoveRef_def)
  obtain q where "GetWriterCache (mw_cachePackets (fold (dispatch cb) ps ?s1)) = GetWriterCache (mw_cachePackets ?s1) @ q"
    "\<forall>p. p_ref (mw_packets (fold (dispatch cb) ps ?s1) p)
       = p_ref (mw_packets ?s1 p) + int (count_list q p) - int (count_list ps p)"
    using Cons.IH [of ?s1] by blast
  then show ?case using Cons.IH [of ?s1] q0 by (auto intro!: exI [of _ "q0 @ q"])
qed

text \<open>Between two updates the reader is empty.\<close>

definition msgworld_inv :: "msgworld \<Rightarrow> bool" where
  "msgworld_inv s \<longleftrightarrow> GetReaderCache (mw_cachePackets s) = []"

lemma msgworld_inv_AddPacketToList [wf_intros]: "msgworld_inv s \<Longrightarrow> msgworld_inv (AddPacketToList p s)"
  by (simp add: msgworld_inv_def AddPacketToList_def packet_upd_def)

lemma MessageSystem_Update_inv:
  assumes "msgworld_inv s"
  shows "MessageSystem_Update cb s =
    (if GetWriterCache (mw_cachePackets s) = [] then s
     else let s1 = s\<lparr>mw_cachePackets := CacheSwap_Swap (mw_cachePackets s)\<rparr>;
              s2 = fold (dispatch cb) (GetWriterCache (mw_cachePackets s)) s1
          in s2\<lparr>mw_cachePackets := reader_clear (mw_cachePackets s2)\<rparr>)"
  using assms by (simp add: MessageSystem_Update_def msgworld_inv_def CacheSwap_CanSwap_def Let_def)

section \<open>Properties\<close>

text \<open>C13: \<open>MessageSystem::Update\<close> takes up exactly the packets queued before it, each once and in
  order, and gives back the reference each holds; packets that handlers queue meanwhile wait,
  with their reference, for the next \<open>Update\<close>. So the count of a packet is always what it was
  outside the queue plus its occurrences in the queue.\<close>

theorem MessageSystem_Update_conserves_references:
  assumes "msgworld_inv s" and "\<And>c. handler_ok (cb c)"
  shows "msgworld_inv (MessageSystem_Update cb s)
    \<and> (\<forall>p. p_ref (mw_packets (MessageSystem_Update cb s) p)
           - int (count_list (GetWriterCache (mw_cachePackets (MessageSystem_Update cb s))) p)
         = p_ref (mw_packets s p) - int (count_list (GetWriterCache (mw_cachePackets s)) p))"
proof (cases "GetWriterCache (mw_cachePackets s) = []")
  case True
  then show ?thesis using assms(1) by (simp add: MessageSystem_Update_inv)
next
  case False
  let ?s1 = "s\<lparr>mw_cachePackets := CacheSwap_Swap (mw_cachePackets s)\<rparr>"
  from fold_dispatch [OF assms(2), where ps = "GetWriterCache (mw_cachePackets s)" and s = ?s1] False assms(1)
  show ?thesis by (auto simp: MessageSystem_Update_inv Let_def msgworld_inv_def)
qed

definition sample_msgworld :: msgworld where
  "sample_msgworld = \<lparr>w_heap = \<lparr>h_obj = (\<lambda>_. undefined), h_next = 9\<rparr>, w_global = Global_new APP_GAME 1 0,
     w_pools = [], w_objSystems = [], w_callbacks = [(1001, [(5, 3), (8, 4)])], w_defaultCallbacks = [],
     w_removedTimers = [], mw_cachePackets = CacheSwap_new, mw_packets = (\<lambda>_. Packet_new\<lparr>p_msgId := 1001\<rparr>)\<rparr>"

theorem MessageSystem_Update_conserves_references_witness:
  "let s = AddPacketToList 7 (AddPacketToList 2 (AddPacketToList 7 sample_msgworld));
       s' = MessageSystem_Update (\<lambda>c. MessageCallBack (\<lambda>pk s. AddPacketToList 2 s)) s
   in p_ref (mw_packets s 7) = 2 \<and> msgworld_inv s'
      \<and> p_ref (mw_packets s' 7) - int (count_list (GetWriterCache (mw_cachePackets s')) 7) = 0"
proof -
  let ?s = "AddPacketToList 7 (AddPacketToList 2 (AddPacketToList 7 sample_msgworld))"
  have h: "handler_ok (MessageCallBack (\<lambda>pk s. AddPacketToList 2 s))"
    by (simp add: handler_ok_def only_queues_AddPacketToList)
  have "msgworld_inv sample_msgworld" by (simp add: msgworld_inv_def sample_msgworld_def)
  then have inv: "msgworld_inv ?s" by (intro msgworld_inv_AddPacketToList)
  have "p_ref (mw_packets ?s 7) = 2" "GetWriterCache (mw_cachePackets ?s) = [7, 2, 7]"
    by (simp_all add: AddPacketToList_def packet_upd_def Packet_AddRef_def sample_msgworld_def Packet_new_def)
  with MessageSystem_Update_conserves_references [OF inv h, THEN conjunct2, rule_format, of 7]
    MessageSystem_Update_conserves_references [OF inv h, THEN conjunct1]
  show ?thesis by (simp add: Let_def)
qed



text \<open>A message that arrives before its default handler disables the handler. After one
  packet for an entity without callbacks, \<open>operator[]\<close> has left a null pointer in
  \<open>_defaultCallbacks\<close>; \<open>RegisterDefaultFunction\<close> uses \<open>insert\<close>, so the entity's default
  callback is never entered and later packets are still dropped.\<close>

theorem default_callback_lost_after_early_packet:
  assumes "entitySn_of (mw_packets s p) = e" and "0 < e"
    and "sm_find (w_callbacks s) (p_msgId (mw_packets s p)) = None"
    and "GetTagValue TagToWorld (p_tagKey (mw_packets s p)) = None"
    and "sm_find (w_defaultCallbacks s) e = None"
    and "w_defaultCallbacks w = w_defaultCallbacks (dispatch cb p s)"
    and "RegisterDefaultFunction CB obj w = (c, w')" and "c_sn (w_get obj w') = e"
  shows "sm_find (w_defaultCallbacks w') e = Some None"
proof -
  have "sm_find (w_defaultCallbacks (dispatch cb p s)) e = Some None"
    using assms(1-5) by (simp add: dispatch_dispatch_run dispatch_run_def dispatch_callbacks_def
        dispatch_default_def packet_upd_def Let_def)
  moreover have "w_defaultCallbacks (snd (EntitySystem_AddComponent CB f w)) = w_defaultCallbacks w" for f
    by (simp add: EntitySystem_AddComponent_def AddComponentWithParent_def pool_malloc_def
        EntitySystem_file_def Let_def case_prod_unfold)
  ultimately show ?thesis using assms(6-8)
    by (auto simp: RegisterDefaultFunction_def Let_def case_prod_unfold)
qed

theorem default_callback_lost_after_early_packet_witness:
  "let pk = Packet_new\<lparr>p_msgId := 2001, p_tagKey := AddTag_int TagEntity 8 []\<rparr>;
       s = dispatch (\<lambda>c. MessageCallBack (\<lambda>pk s. s)) 1 (sample_msgworld\<lparr>mw_packets := (\<lambda>_. pk)\<rparr>);
       w = sample_world\<lparr>w_heap := \<lparr>h_obj = (\<lambda>_. (w_get 1 sample_world)\<lparr>c_sn := 8\<rparr>), h_next = 50\<rparr>, w_pools := [],
                        w_defaultCallbacks := w_defaultCallbacks s\<rparr>;
       (c, w') = RegisterDefaultFunction \<lparr>cls_hash = 77, cls_isEntity = False, cls_isSingle = True\<rparr> 1 w
   in sm_find (w_defaultCallbacks w') 8 = Some None"
proof -
  let ?pk = "Packet_new\<lparr>p_msgId := 2001, p_tagKey := AddTag_int TagEntity 8 []\<rparr>"
  let ?s0 = "sample_msgworld\<lparr>mw_packets := (\<lambda>_. ?pk)\<rparr>" and ?cb = "\<lambda>c::addr. MessageCallBack (\<lambda>pk s. s)"
  let ?w = "sample_world\<lparr>w_heap := \<lparr>h_obj = (\<lambda>_. (w_get 1 sample_world)\<lparr>c_sn := 8\<rparr>), h_next = 50\<rparr>, w_pools := [],
                        w_defaultCallbacks := w_defaultCallbacks (dispatch ?cb 1 ?s0)\<rparr>"
  let ?CB = "\<lparr>cls_hash = 77, cls_isEntity = False, cls_isSingle = True\<rparr>"
  obtain c w' where r: "RegisterDefaultFunction ?CB 1 ?w = (c, w')" by fastforce
  have pool: "GetPool 77 False True [] = (ObjectPool_new 77 False True, [(77, ObjectPool_new 77 False True)])"
    by (simp add: GetPool_def sm_insert_def Let_def)
  have "c_sn (w_get 1 (snd (RegisterDefaultFunction ?CB 1 ?w))) = 8"
    by (simp add: RegisterDefaultFunction_def EntitySystem_AddComponent_def AddComponentWithParent_def
        pool_malloc_def pool EntitySystem_file_def Let_def case_prod_unfold)
       (simp add: MallocObject_def ObjectPool_new_def w_get_def w_upd_def Let_def case_prod_unfold)
  then have "c_sn (w_get 1 w') = 8" by (simp only: r snd_conv)
  moreover have "entitySn_of (mw_packets ?s0 1) = 8" "sm_find (w_callbacks ?s0) (p_msgId (mw_packets ?s0 1)) = None"
    "GetTagValue TagToWorld (p_tagKey (mw_packets ?s0 1)) = None" "sm_find (w_defaultCallbacks ?s0) 8 = None"
    by (simp_all add: entitySn_of_def sample_msgworld_def)
  ultimately show ?thesis
    using default_callback_lost_after_early_packet [of ?s0 1 8 ?w ?cb ?CB 1 c w'] r by (simp add: Let_def)
qed

end
