(* ===== verification/Network_Buffer.thy ===== *)
theory Network_Buffer
  imports Packet_Object
begin

text \<open>
  \<open>network_buffer.{h,cpp}\<close>: the ring buffer of a connection and the framing of packets on
  it. A frame is: total length (2 bytes), head length (2 bytes), \<open>PacketHead\<close> (2 bytes) or
  \<open>PacketHeadS2S\<close> (20 bytes), body. \<open>Buffer::_endIndex\<close> and \<open>_beginIndex\<close> coincide on an
  empty and on a full ring; \<open>_dataSize\<close> tells the two apart.
\<close>

section \<open>The interface: a queue of bytes\<close>

text \<open>
  What the framing relies on: \<open>put\<close> appends, \<open>peek\<close> copies the oldest bytes and \<open>skip\<close>
  drops them, as long as there is room, respectively data.
\<close>

fun put_all :: "(byte list \<Rightarrow> 's \<Rightarrow> 's option) \<Rightarrow> byte list list \<Rightarrow> 's \<Rightarrow> 's option" where
  "put_all put [] s = Some s"
| "put_all put (bs # bss) s = Option.bind (put bs s) (put_all put bss)"

locale byte_fifo =
  fixes wf :: "'s \<Rightarrow> bool"
    and data :: "'s \<Rightarrow> byte list"
    and room :: "'s \<Rightarrow> nat"
    and put :: "byte list \<Rightarrow> 's \<Rightarrow> 's option"
    and peek :: "nat \<Rightarrow> 's \<Rightarrow> byte list option"
    and skip :: "nat \<Rightarrow> 's \<Rightarrow> 's"
  assumes put: "wf s \<Longrightarrow> length bs \<le> room s \<Longrightarrow>
      \<exists>s'. put bs s = Some s' \<and> wf s' \<and> data s' = data s @ bs \<and> room s' = room s - length bs"
    and peek: "wf s \<Longrightarrow> n \<le> length (data s) \<Longrightarrow> peek n s = Some (take n (data s))"
    and skip: "wf s \<Longrightarrow> n \<le> length (data s) \<Longrightarrow> wf (skip n s) \<and> data (skip n s) = drop n (data s)"
begin

lemma put_all_data:
  "wf s \<Longrightarrow> length (concat bss) \<le> room s \<Longrightarrow>
   \<exists>s'. put_all put bss s = Some s' \<and> wf s' \<and> data s' = data s @ concat bss"
proof (induction bss arbitrary: s)
  case Nil
  then show ?case by simp
next
  case (Cons bs bss)
  then obtain s1 where s1: "put bs s = Some s1" "wf s1" "data s1 = data s @ bs"
      "room s1 = room s - length bs"
    using put [of s bs] by auto
  with Cons.IH [of s1] Cons.prems show ?case by auto
qed

lemma read_prefix:
  assumes "wf s" and "data s = xs @ ys"
  shows "peek (length xs) s = Some xs" and "wf (skip (length xs) s)" and "data (skip (length xs) s) = ys"
  using peek [OF assms(1), of "length xs"] skip [OF assms(1), of "length xs"] assms(2) by auto

text \<open>First in, first out: what was put first is read first, and the rest stays.\<close>

lemma put_then_read:
  assumes "wf s" and "data s = []" and "length xs + length ys \<le> room s"
  shows "\<exists>s'. put_all put [xs, ys] s = Some s' \<and> peek (length xs) s' = Some xs
           \<and> peek (length ys) (skip (length xs) s') = Some ys"
proof -
  obtain s' where s': "put_all put [xs, ys] s = Some s'" "wf s'" "data s' = xs @ ys"
    using put_all_data [of s "[xs, ys]"] assms by auto
  from read_prefix [OF s'(2,3)] have "wf (skip (length xs) s')" "data (skip (length xs) s') = ys @ []"
    by auto
  from read_prefix(1) [OF this] show ?thesis using s' read_prefix(1) [OF s'(2,3)] by auto
qed

end

section \<open>\<open>class NetworkBuffer\<close>\<close>

record netbuf = buffer +
  nb_dataSize :: nat

definition DEFAULT_SEND_BUFFER_SIZE :: nat where "DEFAULT_SEND_BUFFER_SIZE = 1024 * 128"
definition DEFAULT_RECV_BUFFER_SIZE :: nat where "DEFAULT_RECV_BUFFER_SIZE = 1024 * 128"

text \<open>\<open>sizeof\<close> of \<open>TotalSizeType\<close> and of the two heads (\<open>#pragma pack(4)\<close>).\<close>

abbreviation (input) sizeof_TotalSizeType :: nat where "sizeof_TotalSizeType \<equiv> 2"
abbreviation (input) sizeof_PacketHead :: nat where "sizeof_PacketHead \<equiv> 2"
abbreviation (input) sizeof_PacketHeadS2S :: nat where "sizeof_PacketHeadS2S \<equiv> 20"

definition NetworkBuffer_new :: "nat \<Rightarrow> netbuf" where
  "NetworkBuffer_new n = \<lparr>b_buffer = new_bytes n, b_beginIndex = 0, b_endIndex = 0,
     b_bufferSize = n, nb_dataSize = 0\<rparr>"

definition NetworkBuffer_BackToPool :: "netbuf \<Rightarrow> netbuf" where
  "NetworkBuffer_BackToPool s = s\<lparr>b_beginIndex := 0, b_endIndex := 0, nb_dataSize := 0\<rparr>"

definition HasData :: "netbuf \<Rightarrow> bool" where
  "HasData s =
     (if nb_dataSize s \<le> 0 then False
      else if nb_dataSize s < sizeof_PacketHead then False else True)"

definition NetworkBuffer_GetEmptySize :: "netbuf \<Rightarrow> nat" where
  "NetworkBuffer_GetEmptySize s = sub32 (b_bufferSize s) (nb_dataSize s)"

definition GetWriteSize :: "netbuf \<Rightarrow> nat" where
  "GetWriteSize s =
     (if b_beginIndex s \<le> b_endIndex s then sub32 (b_bufferSize s) (b_endIndex s)
      else sub32 (b_beginIndex s) (b_endIndex s))"

definition GetReadSize :: "netbuf \<Rightarrow> nat" where
  "GetReadSize s =
     (if nb_dataSize s \<le> 0 then 0
      else if b_beginIndex s < b_endIndex s then sub32 (b_endIndex s) (b_beginIndex s)
      else sub32 (b_bufferSize s) (b_beginIndex s))"

definition FillDate :: "nat \<Rightarrow> netbuf \<Rightarrow> netbuf" where
  "FillDate n s =
     (let s1 = s\<lparr>nb_dataSize := add32 (nb_dataSize s) n\<rparr> in
      if sub32 (b_bufferSize s) (b_endIndex s) \<le> n
      then s1\<lparr>b_endIndex := add32 0 (sub32 n (sub32 (b_bufferSize s) (b_endIndex s)))\<rparr>
      else s1\<lparr>b_endIndex := add32 (b_endIndex s) n\<rparr>)"

definition RemoveDate :: "nat \<Rightarrow> netbuf \<Rightarrow> netbuf" where
  "RemoveDate n s =
     (let s1 = s\<lparr>nb_dataSize := sub32 (nb_dataSize s) n\<rparr> in
      if b_bufferSize s \<le> add32 (b_beginIndex s) n
      then s1\<lparr>b_beginIndex := add32 0 (sub32 n (sub32 (b_bufferSize s) (b_beginIndex s)))\<rparr>
      else s1\<lparr>b_beginIndex := add32 (b_beginIndex s) n\<rparr>)"

definition NetworkBuffer_ReAllocBuffer :: "netbuf \<Rightarrow> netbuf option" where
  "NetworkBuffer_ReAllocBuffer s = Buffer_ReAllocBuffer (nb_dataSize s) s"

definition MemcpyFromBuffer :: "nat \<Rightarrow> netbuf \<Rightarrow> byte list option" where
  "MemcpyFromBuffer n s =
     (let readSize = GetReadSize s in
      if readSize < n then do {
        t \<leftarrow> mem_read (b_buffer s) (b_beginIndex s) readSize;
        h \<leftarrow> mem_read (b_buffer s) 0 (sub32 n readSize);
        Some (t @ h) }
      else mem_read (b_buffer s) (b_beginIndex s) n)"

definition MemcpyToBuffer :: "byte list \<Rightarrow> netbuf \<Rightarrow> netbuf option" where
  "MemcpyToBuffer v s =
     (let n = length v; writeSize = GetWriteSize s in
      if writeSize < n then do {
        m1 \<leftarrow> mem_write (b_buffer s) (b_endIndex s) (take writeSize v);
        m2 \<leftarrow> mem_write m1 0 (drop writeSize v);
        Some (FillDate n (s\<lparr>b_buffer := m2\<rparr>)) }
      else do {
        m1 \<leftarrow> mem_write (b_buffer s) (b_endIndex s) v;
        Some (FillDate n (s\<lparr>b_buffer := m1\<rparr>)) })"

text \<open>
  \<open>RecvNetworkBuffer::GetBuffer\<close>: where and how much \<open>recv\<close> may write;
  \<open>SendNetworkBuffer::GetBuffer\<close>: the bytes \<open>send\<close> is given.
\<close>

definition RecvBuffer_GetBuffer :: "netbuf \<Rightarrow> nat \<times> nat" where
  "RecvBuffer_GetBuffer s = (b_endIndex s, GetWriteSize s)"

definition SendBuffer_GetBuffer :: "netbuf \<Rightarrow> nat \<times> nat" where
  "SendBuffer_GetBuffer s =
     (if nb_dataSize s \<le> 0 then (0, 0)
      else if b_beginIndex s < b_endIndex s
           then (b_beginIndex s, sub32 (b_endIndex s) (b_beginIndex s))
           else (b_beginIndex s, sub32 (b_bufferSize s) (b_beginIndex s)))"

section \<open>The ring holds a queue of bytes\<close>

definition netbuf_wf :: "netbuf \<Rightarrow> bool" where
  "netbuf_wf s \<longleftrightarrow> size_ok s \<and> b_beginIndex s < b_bufferSize s \<and> nb_dataSize s \<le> b_bufferSize s
     \<and> b_endIndex s = (b_beginIndex s + nb_dataSize s) mod b_bufferSize s"

definition netbuf_data :: "netbuf \<Rightarrow> byte list" where
  "netbuf_data s = ring_bytes (b_buffer s) (b_beginIndex s) (nb_dataSize s)"

definition netbuf_room :: "netbuf \<Rightarrow> nat" where
  "netbuf_room s = b_bufferSize s - nb_dataSize s"

lemma netbuf_wfD:
  assumes "netbuf_wf s"
  shows "length (b_buffer s) = b_bufferSize s" and "b_bufferSize s < 2 ^ 31"
    and "b_beginIndex s < b_bufferSize s" and "nb_dataSize s \<le> b_bufferSize s"
    and "b_endIndex s < b_bufferSize s" and "b_endIndex s < 2 ^ 32" and "b_bufferSize s < 2 ^ 32"
    and "b_beginIndex s < 2 ^ 32" and "nb_dataSize s < 2 ^ 32"
proof -
  have e: "b_endIndex s < b_bufferSize s" using assms by (simp add: netbuf_wf_def)
  moreover have "b_bufferSize s < 2 ^ 31" using assms by (simp add: netbuf_wf_def size_ok_def)
  ultimately have "b_endIndex s < 2 ^ 32" by simp
  with e show "length (b_buffer s) = b_bufferSize s" and "b_bufferSize s < 2 ^ 31"
    and "b_beginIndex s < b_bufferSize s" and "nb_dataSize s \<le> b_bufferSize s"
    and "b_endIndex s < b_bufferSize s" and "b_endIndex s < 2 ^ 32" and "b_bufferSize s < 2 ^ 32"
    and "b_beginIndex s < 2 ^ 32" and "nb_dataSize s < 2 ^ 32"
    using assms unfolding netbuf_wf_def size_ok_def by simp_all
qed

lemma netbuf_end:
  assumes "netbuf_wf s"
  shows "b_endIndex s = (if b_beginIndex s + nb_dataSize s < b_bufferSize s
           then b_beginIndex s + nb_dataSize s else b_beginIndex s + nb_dataSize s - b_bufferSize s)"
proof -
  have "b_beginIndex s + nb_dataSize s - b_bufferSize s < b_bufferSize s"
    using assms unfolding netbuf_wf_def by linarith
  then show ?thesis using assms by (simp add: netbuf_wf_def mod_if)
qed

lemma netbuf_wfI:
  assumes "size_ok s" and "b_beginIndex s < b_bufferSize s" and "nb_dataSize s \<le> b_bufferSize s"
    and "b_endIndex s = (if b_beginIndex s + nb_dataSize s < b_bufferSize s
           then b_beginIndex s + nb_dataSize s else b_beginIndex s + nb_dataSize s - b_bufferSize s)"
  shows "netbuf_wf s"
proof -
  have "b_beginIndex s + nb_dataSize s - b_bufferSize s < b_bufferSize s"
    using assms by linarith
  then show ?thesis using assms by (simp add: netbuf_wf_def mod_if)
qed

lemma length_netbuf_data [simp]: "netbuf_wf s \<Longrightarrow> length (netbuf_data s) = nb_dataSize s"
  by (simp add: netbuf_data_def netbuf_wfD less_imp_le)

lemma NetworkBuffer_GetEmptySize: "netbuf_wf s \<Longrightarrow> NetworkBuffer_GetEmptySize s = netbuf_room s"
  using netbuf_wfD [of s] by (simp add: NetworkBuffer_GetEmptySize_def netbuf_room_def)

lemma netbuf_wf_new: "0 < n \<Longrightarrow> n < 2 ^ 31 \<Longrightarrow> netbuf_wf (NetworkBuffer_new n)"
  by (simp add: netbuf_wf_def size_ok_def NetworkBuffer_new_def)

lemma netbuf_data_new [simp]: "netbuf_data (NetworkBuffer_new n) = []"
  by (simp add: netbuf_data_def ring_bytes_def NetworkBuffer_new_def)

lemma NetworkBuffer_BackToPool_ok:
  "netbuf_wf s \<Longrightarrow> netbuf_wf (NetworkBuffer_BackToPool s) \<and> netbuf_data (NetworkBuffer_BackToPool s) = []"
  by (simp add: netbuf_wf_def size_ok_def NetworkBuffer_BackToPool_def netbuf_data_def ring_bytes_def)

lemma GetReadSize_exact:
  assumes "netbuf_wf s"
  shows "GetReadSize s = min (nb_dataSize s) (b_bufferSize s - b_beginIndex s)"
  using netbuf_wfD [OF assms] netbuf_end [OF assms]
  by (auto simp: GetReadSize_def min_def split: if_splits)

lemma GetWriteSize_exact:
  assumes "netbuf_wf s"
  shows "GetWriteSize s = (if b_beginIndex s \<le> b_endIndex s then b_bufferSize s - b_endIndex s
           else b_bufferSize s - nb_dataSize s)"
  using netbuf_wfD [OF assms] netbuf_end [OF assms]
  by (auto simp: GetWriteSize_def split: if_splits)

lemma MemcpyFromBuffer_ok:
  assumes wf: "netbuf_wf s" and n: "n \<le> nb_dataSize s"
  shows "MemcpyFromBuffer n s = Some (take n (netbuf_data s))"
proof -
  note d = netbuf_wfD [OF wf]
  show ?thesis
  proof (cases "n \<le> b_bufferSize s - b_beginIndex s")
    case True
    then have "\<not> GetReadSize s < n" using n by (simp add: GetReadSize_exact wf)
    then show ?thesis using True d n
      by (simp add: MemcpyFromBuffer_def Let_def mem_read_def netbuf_data_def ring_bytes_prefix
          ring_bytes_linear min_absorb1)
  next
    case False
    let ?r = "b_bufferSize s - b_beginIndex s"
    from False have r: "GetReadSize s = ?r" and "?r < n" using n by (auto simp: GetReadSize_exact wf)
    moreover have "n - ?r \<le> b_beginIndex s" using d n by linarith
    moreover have "sub32 n ?r = n - ?r" using \<open>?r < n\<close> n d by simp
    moreover have "b_beginIndex s + n - b_bufferSize s = n - ?r" using d by linarith
    ultimately show ?thesis using d n False
      by (simp add: MemcpyFromBuffer_def Let_def mem_read_def netbuf_data_def ring_bytes_prefix
          ring_bytes_wrapped min_absorb1)
  qed
qed

lemma RemoveDate_ok:
  assumes wf: "netbuf_wf s" and n: "n \<le> nb_dataSize s"
  shows "netbuf_wf (RemoveDate n s)" and "netbuf_data (RemoveDate n s) = drop n (netbuf_data s)"
    and "nb_dataSize (RemoveDate n s) = nb_dataSize s - n"
proof -
  note d = netbuf_wfD [OF wf] and e = netbuf_end [OF wf]
  let ?b = "b_beginIndex s" and ?z = "b_bufferSize s" and ?ds = "nb_dataSize s"
  have bn: "add32 ?b n = ?b + n" "sub32 ?ds n = ?ds - n" using d n by auto
  show "nb_dataSize (RemoveDate n s) = nb_dataSize s - n"
    using bn by (simp add: RemoveDate_def Let_def)
  have ok: "size_ok s" using wf by (simp add: netbuf_wf_def)
  show "netbuf_wf (RemoveDate n s)"
    by (rule netbuf_wfI) (use ok d e n bn in \<open>auto simp: RemoveDate_def Let_def size_ok_def\<close>)
  have "b_beginIndex (RemoveDate n s) = (if ?z \<le> ?b + n then ?b + n - ?z else ?b + n)"
    using d n bn by (simp add: RemoveDate_def Let_def) (simp add: add.commute)
  then have "netbuf_data (RemoveDate n s) = ring_bytes (b_buffer s) (if ?z \<le> ?b + n then ?b + n - ?z else ?b + n) (?ds - n)"
    using bn by (simp only: netbuf_data_def) (simp add: RemoveDate_def Let_def)
  also have "\<dots> = drop n (netbuf_data s)"
    using ring_drop [of n ?ds "b_buffer s" ?b] d(1,3,4) n by (simp only: netbuf_data_def)
  finally show "netbuf_data (RemoveDate n s) = drop n (netbuf_data s)" .
qed

text \<open>The indices after \<open>FillDate\<close>, whatever was copied.\<close>

lemma FillDate_ok:
  assumes wf: "netbuf_wf s" and n: "nb_dataSize s + n \<le> b_bufferSize s" and m: "length m = b_bufferSize s"
  shows "netbuf_wf (FillDate n (s\<lparr>b_buffer := m\<rparr>))"
    and "netbuf_data (FillDate n (s\<lparr>b_buffer := m\<rparr>)) = ring_bytes m (b_beginIndex s) (nb_dataSize s + n)"
    and "b_bufferSize (FillDate n (s\<lparr>b_buffer := m\<rparr>)) = b_bufferSize s"
    and "nb_dataSize (FillDate n (s\<lparr>b_buffer := m\<rparr>)) = nb_dataSize s + n"
proof -
  note d = netbuf_wfD [OF wf] and e = netbuf_end [OF wf]
  let ?s = "FillDate n (s\<lparr>b_buffer := m\<rparr>)" and ?b = "b_beginIndex s" and ?z = "b_bufferSize s" and ?ds = "nb_dataSize s"
  have fields: "b_buffer ?s = m" "b_bufferSize ?s = ?z" "b_beginIndex ?s = ?b" "nb_dataSize ?s = ?ds + n"
    using n d by (auto simp: FillDate_def Let_def)
  then show "netbuf_data ?s = ring_bytes m ?b (?ds + n)" "b_bufferSize ?s = ?z" "nb_dataSize ?s = ?ds + n"
    by (simp_all add: netbuf_data_def)
  have "b_endIndex ?s = (if ?b + (?ds + n) < ?z then ?b + (?ds + n) else ?b + (?ds + n) - ?z)"
    using n d e by (auto simp: FillDate_def Let_def split: if_splits)
  then show "netbuf_wf ?s"
    using fields n m d wf by (intro netbuf_wfI) (simp_all add: size_ok_def netbuf_wf_def)
qed

text \<open>What \<open>MemcpyToBuffer\<close> copies, in one piece or in two.\<close>

lemma MemcpyToBuffer_memory:
  assumes wf: "netbuf_wf s" and n: "nb_dataSize s + length v \<le> b_bufferSize s"
  shows "\<exists>m. MemcpyToBuffer v s = Some (FillDate (length v) (s\<lparr>b_buffer := m\<rparr>)) \<and> length m = b_bufferSize s
    \<and> ring_bytes m (b_beginIndex s) (nb_dataSize s + length v) = netbuf_data s @ v"
proof -
  note d = netbuf_wfD [OF wf] and e = netbuf_end [OF wf] and w = GetWriteSize_exact [OF wf]
  let ?b = "b_beginIndex s" and ?e = "b_endIndex s" and ?z = "b_bufferSize s" and ?m = "b_buffer s" and ?ds = "nb_dataSize s"
  consider (linear) "?b + ?ds < ?z" "length v \<le> ?z - ?e" | (split) "?b + ?ds < ?z" "?z - ?e < length v" | (wrapped) "?z \<le> ?b + ?ds"
    by linarith
  then show ?thesis
  proof cases
    case linear
    have e': "?e = ?b + ?ds" using e linear by simp
    show ?thesis
      by (intro exI [of _ "take (?b + ?ds) ?m @ v @ drop (?b + ?ds + length v) ?m"] conjI)
        (use linear d(1,3) e' w ring_append_linear [of ?b ?ds v ?m]
          in \<open>simp_all add: MemcpyToBuffer_def Let_def mem_write_def netbuf_data_def\<close>)
  next
    case split
    have e': "?e = ?b + ?ds" using e split by simp
    let ?w = "?z - (?b + ?ds)"
    let ?mem = "drop ?w v @ drop (length v - ?w) (take (?b + ?ds) ?m @ take ?w v)"
    have "ring_bytes ?mem ?b (?ds + length v) = netbuf_data s @ v"
      using ring_append_split [of ?b ?ds ?m ?w v] split d(1) e' n by (simp add: netbuf_data_def)
    then show ?thesis
      by (intro exI [of _ ?mem] conjI)
        (use split d(1,3) e' w n in \<open>simp_all add: MemcpyToBuffer_def Let_def mem_write_def\<close>)
  next
    case wrapped
    have e': "?e = ?b + ?ds - ?z" using e wrapped by simp
    have le: "?e + length v \<le> ?b" using e' n wrapped by linarith
    then have "length v \<le> GetWriteSize s" using w e' n wrapped d by (auto split: if_splits)
    then show ?thesis
      by (intro exI [of _ "take ?e ?m @ v @ drop (?e + length v) ?m"] conjI)
        (use wrapped le d(1,3) e' ring_append_wrapped [of ?m ?b ?ds ?e v]
          in \<open>simp_all add: MemcpyToBuffer_def Let_def mem_write_def netbuf_data_def\<close>)
  qed
qed

lemma MemcpyToBuffer_ok:
  assumes wf: "netbuf_wf s" and n: "length v \<le> netbuf_room s"
  shows "\<exists>s'. MemcpyToBuffer v s = Some s' \<and> netbuf_wf s' \<and> netbuf_data s' = netbuf_data s @ v
           \<and> b_bufferSize s' = b_bufferSize s \<and> nb_dataSize s' = nb_dataSize s + length v"
proof -
  have n': "nb_dataSize s + length v \<le> b_bufferSize s" using n netbuf_wfD(4) [OF wf] by (simp add: netbuf_room_def)
  obtain m where "MemcpyToBuffer v s = Some (FillDate (length v) (s\<lparr>b_buffer := m\<rparr>))" "length m = b_bufferSize s"
      "ring_bytes m (b_beginIndex s) (nb_dataSize s + length v) = netbuf_data s @ v"
    using MemcpyToBuffer_memory [OF wf n'] by blast
  then show ?thesis using FillDate_ok [OF wf n'] by simp
qed

interpretation ring: byte_fifo netbuf_wf netbuf_data netbuf_room MemcpyToBuffer MemcpyFromBuffer RemoveDate
proof
  fix s :: netbuf and bs :: "byte list"
  assume "netbuf_wf s" and "length bs \<le> netbuf_room s"
  from MemcpyToBuffer_ok [OF this]
  show "\<exists>s'. MemcpyToBuffer bs s = Some s' \<and> netbuf_wf s' \<and> netbuf_data s' = netbuf_data s @ bs
          \<and> netbuf_room s' = netbuf_room s - length bs"
    by (auto simp: netbuf_room_def)
qed (simp_all add: MemcpyFromBuffer_ok RemoveDate_ok)

text \<open>Growing keeps the bytes.\<close>

lemma NetworkBuffer_ReAllocBuffer_ok:
  assumes wf: "netbuf_wf s" and room: "b_bufferSize s + ADDITIONAL_SIZE < 2 ^ 31"
  shows "\<exists>s'. NetworkBuffer_ReAllocBuffer s = Some s' \<and> netbuf_wf s' \<and> netbuf_data s' = netbuf_data s
           \<and> b_bufferSize s' = b_bufferSize s + ADDITIONAL_SIZE \<and> nb_dataSize s' = nb_dataSize s"
proof -
  note d = netbuf_wfD [OF wf]
  let ?m = "netbuf_data s @ drop (nb_dataSize s) (new_bytes (b_bufferSize s + ADDITIONAL_SIZE))"
  let ?s = "s\<lparr>b_buffer := ?m, b_bufferSize := b_bufferSize s + ADDITIONAL_SIZE, b_beginIndex := 0,
              b_endIndex := nb_dataSize s\<rparr>"
  have "NetworkBuffer_ReAllocBuffer s = Some ?s"
    using wf unfolding netbuf_wf_def NetworkBuffer_ReAllocBuffer_def netbuf_data_def
    by (intro Buffer_ReAllocBuffer_ring) auto
  moreover have "netbuf_wf ?s"
    using d wf room by (simp add: netbuf_wf_def size_ok_def ADDITIONAL_SIZE_def)
  moreover have "netbuf_data ?s = netbuf_data s"
    using length_netbuf_data [OF wf] unfolding netbuf_data_def [of ?s] ring_bytes_def by simp
  ultimately show ?thesis by auto
qed

end
