(* ===== verification/Packet_Framing.thy ===== *)
theory Packet_Framing
  imports Network_Buffer
begin

text \<open>
  The second half of \<open>network_buffer.cpp\<close>: \<open>SendNetworkBuffer::AddPacket\<close> writes a packet as
  a frame, \<open>RecvNetworkBuffer::GetTcpPacket\<close> reads one back. What the packet pool hands out
  is the argument \<open>fresh\<close>. The head is read through a pointer to a local variable whose
  block has ended; the model reads the value that was stored there.
\<close>

section \<open>Sending\<close>

partial_function (option) NetworkBuffer_reserve :: "nat \<Rightarrow> netbuf \<Rightarrow> netbuf option" where
  "NetworkBuffer_reserve n s =
     (if NetworkBuffer_GetEmptySize s < n
      then Option.bind (NetworkBuffer_ReAllocBuffer s) (NetworkBuffer_reserve n) else Some s)"

text \<open>The two heads as they lie in memory; \<open>MsgId\<close> is cut to an \<open>unsigned short\<close>.\<close>

definition PacketHead_bytes :: "int \<Rightarrow> byte list" where
  "PacketHead_bytes msgId = le_enc 2 (nat (msgId mod 2 ^ 16))"

definition PacketHeadS2S_bytes :: "int \<Rightarrow> u64 \<Rightarrow> u64 \<Rightarrow> byte list" where
  "PacketHeadS2S_bytes msgId EntitySn PlayerSn =
     le_enc 2 (nat (msgId mod 2 ^ 16)) @ [0, 0] @ le_enc 8 (unat EntitySn) @ le_enc 8 (unat PlayerSn)"

definition PacketHeadS2S_MsgId :: "byte list \<Rightarrow> int" where
  "PacketHeadS2S_MsgId h = int (le_dec (take 2 h))"

definition PacketHeadS2S_EntitySn :: "byte list \<Rightarrow> u64" where
  "PacketHeadS2S_EntitySn h = word_of_nat (le_dec (take 8 (drop 4 h)))"

definition PacketHeadS2S_PlayerSn :: "byte list \<Rightarrow> u64" where
  "PacketHeadS2S_PlayerSn h = word_of_nat (le_dec (take 8 (drop 12 h)))"

definition AddPacket :: "packet \<Rightarrow> netbuf \<Rightarrow> netbuf option" where
  "AddPacket p s =
     (let dataLength = Packet_GetDataLength p;
          pTagValue = GetTagValue TagEntity (p_tagKey p);
          totalSize = (case pTagValue of
              None \<Rightarrow> trunc16 (dataLength + sizeof_PacketHead + sizeof_TotalSizeType * 2)
            | Some _ \<Rightarrow> trunc16 (dataLength + sizeof_PacketHeadS2S + sizeof_TotalSizeType * 2))
      in do {
        s1 \<leftarrow> NetworkBuffer_reserve totalSize s;
        s2 \<leftarrow> (if \<not> IsHttpMsg (p_msgId p) then do {
            t1 \<leftarrow> MemcpyToBuffer (le_enc 2 totalSize) s1;
            (case pTagValue of
               None \<Rightarrow> do {
                 t2 \<leftarrow> MemcpyToBuffer (le_enc 2 sizeof_PacketHead) t1;
                 MemcpyToBuffer (PacketHead_bytes (p_msgId p)) t2 }
             | Some v \<Rightarrow> do {
                 t2 \<leftarrow> MemcpyToBuffer (le_enc 2 sizeof_PacketHeadS2S) t1;
                 MemcpyToBuffer (PacketHeadS2S_bytes (p_msgId p) (KeyInt64 v)
                   (case GetTagValue TagPlayer (p_tagKey p) of None \<Rightarrow> 0 | Some w \<Rightarrow> KeyInt64 w)) t2 }) }
          else Some s1);
        d \<leftarrow> mem_read (b_buffer p) 0 (Packet_GetDataLength p);
        MemcpyToBuffer d s2 })"

section \<open>Receiving\<close>

text \<open>\<open>while (pPacket->GetTotalSize() < dataLength) pPacket->ReAllocBuffer();\<close>\<close>

partial_function (option) Packet_reserve_total :: "nat \<Rightarrow> packet \<Rightarrow> packet option" where
  "Packet_reserve_total len p =
     (if b_bufferSize p < len
      then Option.bind (Packet_ReAllocBuffer p) (Packet_reserve_total len) else Some p)"

text \<open>Nothing yet (wait for more bytes), a packet, or \<open>ConnectObj::Close\<close>.\<close>

datatype recv_result = Recv_Wait | Recv_Packet packet | Recv_Close

definition GetTcpPacket :: "NetIdentify \<Rightarrow> packet \<Rightarrow> netbuf \<Rightarrow> (netbuf \<times> recv_result) option" where
  "GetTcpPacket pIdentify fresh s =
     (if nb_dataSize s < sizeof_TotalSizeType then Some (s, Recv_Wait) else do {
        t \<leftarrow> MemcpyFromBuffer sizeof_TotalSizeType s;
        let totalSize = le_dec t;
        (if nb_dataSize s < totalSize then Some (s, Recv_Wait) else do {
          let s1 = RemoveDate sizeof_TotalSizeType s;
          h \<leftarrow> MemcpyFromBuffer sizeof_TotalSizeType s1;
          let s2 = RemoveDate sizeof_TotalSizeType s1;
          let headSize = (if le_dec h = sizeof_PacketHead then sizeof_PacketHead else sizeof_PacketHeadS2S);
          head \<leftarrow> MemcpyFromBuffer headSize s2;
          let s3 = RemoveDate headSize s2;
          let MsgId = int (le_dec (take 2 head));
          (if MsgId \<notin> set MsgId_numbers then Some (s3, Recv_Close) else do {
            let p = Packet_Awake MsgId (Some pIdentify) fresh;
            let dataLength = sub32 (sub32 totalSize headSize) (sizeof_TotalSizeType * 2);
            p1 \<leftarrow> Packet_reserve_total dataLength p;
            d \<leftarrow> MemcpyFromBuffer dataLength s3;
            mem \<leftarrow> mem_write (b_buffer p1) 0 d;
            let p2 = Packet_FillData dataLength (p1\<lparr>b_buffer := mem\<rparr>);
            let s4 = RemoveDate dataLength s3;
            Some (s4, Recv_Packet
              (if headSize = sizeof_PacketHeadS2S
               then p2\<lparr>p_tagKey := AddTag_int TagPlayer (PacketHeadS2S_PlayerSn head)
                        (AddTag_int TagEntity (PacketHeadS2S_EntitySn head) (p_tagKey p2))\<rparr>
               else p2)) }) }) })"

section \<open>The frame of a packet\<close>

text \<open>The specification: what the bytes on the wire are.\<close>

definition frame_head :: "packet \<Rightarrow> byte list" where
  "frame_head p = (case GetTagValue TagEntity (p_tagKey p) of
       None \<Rightarrow> PacketHead_bytes (p_msgId p)
     | Some v \<Rightarrow> PacketHeadS2S_bytes (p_msgId p) (KeyInt64 v)
         (case GetTagValue TagPlayer (p_tagKey p) of None \<Rightarrow> 0 | Some w \<Rightarrow> KeyInt64 w))"

definition frame_bytes :: "packet \<Rightarrow> byte list" where
  "frame_bytes p =
     (if IsHttpMsg (p_msgId p) then packet_data p
      else le_enc 2 (length (frame_head p) + 4 + length (packet_data p))
           @ le_enc 2 (length (frame_head p)) @ frame_head p @ packet_data p)"

text \<open>Packets that fit in one frame: the body with the larger head in 16 bits.\<close>

definition frame_fits :: "packet \<Rightarrow> bool" where
  "frame_fits p \<longleftrightarrow> packet_wf p \<and> length (packet_data p) + 24 < 2 ^ 16"

lemma length_frame_head:
  "length (frame_head p) = (case GetTagValue TagEntity (p_tagKey p) of None \<Rightarrow> 2 | Some _ \<Rightarrow> 20)"
  by (auto simp: frame_head_def PacketHead_bytes_def PacketHeadS2S_bytes_def split: option.splits)

lemma length_frame_head_le: "length (frame_head p) \<le> 20" "2 \<le> length (frame_head p)"
  by (auto simp: length_frame_head split: option.splits)

lemma NetworkBuffer_reserve_ok:
  assumes wf: "netbuf_wf s" and n: "n < 2 ^ 16" and room: "b_bufferSize s + ADDITIONAL_SIZE < 2 ^ 31"
  shows "\<exists>s'. NetworkBuffer_reserve n s = Some s' \<and> netbuf_wf s' \<and> netbuf_data s' = netbuf_data s
           \<and> n \<le> netbuf_room s' \<and> b_bufferSize s \<le> b_bufferSize s'
           \<and> b_bufferSize s' \<le> b_bufferSize s + ADDITIONAL_SIZE"
proof (cases "NetworkBuffer_GetEmptySize s < n")
  case False
  then have "NetworkBuffer_reserve n s = Some s" by (simp add: NetworkBuffer_reserve.simps)
  with False wf show ?thesis by (auto simp: NetworkBuffer_GetEmptySize)
next
  case True
  from NetworkBuffer_ReAllocBuffer_ok [OF wf room] obtain s1 where
    s1: "NetworkBuffer_ReAllocBuffer s = Some s1" "netbuf_wf s1" "netbuf_data s1 = netbuf_data s"
      "b_bufferSize s1 = b_bufferSize s + ADDITIONAL_SIZE" "nb_dataSize s1 = nb_dataSize s"
    by blast
  have big: "n \<le> netbuf_room s1"
    using s1 n netbuf_wfD(4) [OF wf] by (simp add: netbuf_room_def ADDITIONAL_SIZE_def)
  then have "NetworkBuffer_reserve n s1 = Some s1"
    by (subst NetworkBuffer_reserve.simps) (simp add: NetworkBuffer_GetEmptySize s1(2))
  then have "NetworkBuffer_reserve n s = Some s1"
    using True s1(1) by (subst NetworkBuffer_reserve.simps) simp
  with s1 big show ?thesis by auto
qed

text \<open>On a packet that fits, \<open>AddPacket\<close> puts the frame's pieces one after the other.\<close>

definition frame_parts :: "packet \<Rightarrow> byte list list" where
  "frame_parts p =
     (if IsHttpMsg (p_msgId p) then [packet_data p]
      else [le_enc 2 (length (frame_head p) + 4 + length (packet_data p)),
            le_enc 2 (length (frame_head p)), frame_head p, packet_data p])"

lemma concat_frame_parts: "concat (frame_parts p) = frame_bytes p"
  by (simp add: frame_parts_def frame_bytes_def)

lemma length_frame_bytes: "length (frame_bytes p) \<le> length (frame_head p) + 4 + length (packet_data p)"
  by (simp add: frame_bytes_def)

lemma AddPacket_parts:
  assumes fits: "frame_fits p"
  shows "AddPacket p s = Option.bind
           (NetworkBuffer_reserve (length (frame_head p) + 4 + length (packet_data p)) s)
           (put_all MemcpyToBuffer (frame_parts p))"
proof -
  have wf: "packet_wf p" and small: "length (packet_data p) < 2 ^ 16"
    using fits by (auto simp: frame_fits_def)
  have len: "Packet_GetDataLength p = length (packet_data p)"
    using Packet_GetDataLength_wf [OF wf] small by simp
  have read: "mem_read (b_buffer p) 0 (Packet_GetDataLength p) = Some (packet_data p)"
    using Packet_payload_small [OF wf small] by (simp add: Packet_payload_def)
  show ?thesis
  proof (cases "GetTagValue TagEntity (p_tagKey p)")
    case None
    have "trunc16 (length (packet_data p) + 2 + 2 * 2) = length (frame_head p) + 4 + length (packet_data p)"
      using fits None by (simp add: frame_fits_def length_frame_head)
    with None show ?thesis
      unfolding AddPacket_def len read [unfolded len]
      by (simp add: frame_parts_def frame_head_def Let_def length_frame_head Option.bind_assoc
          PacketHead_bytes_def add.commute cong: Option.bind_cong)
  next
    case (Some v)
    have "trunc16 (length (packet_data p) + 20 + 2 * 2) = length (frame_head p) + 4 + length (packet_data p)"
      using fits Some by (simp add: frame_fits_def length_frame_head)
    with Some show ?thesis
      unfolding AddPacket_def len read [unfolded len]
      by (simp add: frame_parts_def frame_head_def Let_def length_frame_head Option.bind_assoc
          PacketHeadS2S_bytes_def add.commute cong: Option.bind_cong)
  qed
qed

lemma AddPacket_data:
  assumes wf: "netbuf_wf s" and fits: "frame_fits p" and room: "b_bufferSize s + ADDITIONAL_SIZE < 2 ^ 31"
  shows "\<exists>s'. AddPacket p s = Some s' \<and> netbuf_wf s' \<and> netbuf_data s' = netbuf_data s @ frame_bytes p"
proof -
  let ?n = "length (frame_head p) + 4 + length (packet_data p)"
  have "?n < 2 ^ 16" using fits length_frame_head_le(1) [of p] unfolding frame_fits_def by linarith
  from NetworkBuffer_reserve_ok [OF wf this room] obtain s1 where
    s1: "NetworkBuffer_reserve ?n s = Some s1" "netbuf_wf s1" "netbuf_data s1 = netbuf_data s"
      "?n \<le> netbuf_room s1" by blast
  then have "length (concat (frame_parts p)) \<le> netbuf_room s1"
    using length_frame_bytes [of p] unfolding concat_frame_parts by linarith
  from ring.put_all_data [OF s1(2) this] obtain s2 where
    "put_all MemcpyToBuffer (frame_parts p) s1 = Some s2" "netbuf_wf s2"
    "netbuf_data s2 = netbuf_data s1 @ frame_bytes p" unfolding concat_frame_parts by blast
  then show ?thesis using s1 by (simp add: AddPacket_parts [OF fits])
qed

lemma put_all_bufferSize:
  "put_all MemcpyToBuffer bss s = Some s' \<Longrightarrow> b_bufferSize s' = b_bufferSize s"
proof (induction bss arbitrary: s)
  case Nil
  then show ?case by simp
next
  case (Cons bs bss)
  then obtain s1 where "MemcpyToBuffer bs s = Some s1" "put_all MemcpyToBuffer bss s1 = Some s'"
    by (auto split: bind_splits)
  moreover from this(1) have "b_bufferSize s1 = b_bufferSize s"
    by (auto simp: MemcpyToBuffer_def FillDate_def Let_def split: if_splits bind_splits)
  ultimately show ?case using Cons.IH by simp
qed

lemma AddPacket_grows:
  assumes wf: "netbuf_wf s" and fits: "frame_fits p" and room: "b_bufferSize s + ADDITIONAL_SIZE < 2 ^ 31"
    and "AddPacket p s = Some s'"
  shows "b_bufferSize s' \<le> b_bufferSize s + ADDITIONAL_SIZE"
proof -
  let ?n = "length (frame_head p) + 4 + length (packet_data p)"
  have "?n < 2 ^ 16" using fits length_frame_head_le(1) [of p] unfolding frame_fits_def by linarith
  from NetworkBuffer_reserve_ok [OF wf this room] obtain s1 where
    "NetworkBuffer_reserve ?n s = Some s1" "b_bufferSize s1 \<le> b_bufferSize s + ADDITIONAL_SIZE" by blast
  with assms(4) show ?thesis
    using put_all_bufferSize [of "frame_parts p" s1 s'] by (simp add: AddPacket_parts [OF fits])
qed

section \<open>Reading a frame\<close>

lemma Packet_reserve_total_16bit:
  assumes wf: "packet_wf p" and len: "len < 2 ^ 16" and room: "b_bufferSize p + ADDITIONAL_SIZE < 2 ^ 31"
  shows "\<exists>mem z. Packet_reserve_total len p = Some (p\<lparr>b_buffer := mem, b_bufferSize := z\<rparr>)
           \<and> length mem = z \<and> len \<le> z \<and> b_bufferSize p \<le> z \<and> z < 2 ^ 31"
proof (cases "b_bufferSize p < len")
  case False
  then have "Packet_reserve_total len p = Some p" by (simp add: Packet_reserve_total.simps)
  with False wf show ?thesis
    by (auto simp: packet_wf_def size_ok_def intro!: exI [of _ "b_buffer p"] exI [of _ "b_bufferSize p"])
next
  case True
  from Packet_ReAlloc_wf [OF wf] obtain mem where
    re: "Packet_ReAllocBuffer p = Some (p\<lparr>b_buffer := mem, b_bufferSize := b_bufferSize p + ADDITIONAL_SIZE\<rparr>)"
    and m: "length mem = b_bufferSize p + ADDITIONAL_SIZE" by blast
  let ?q = "p\<lparr>b_buffer := mem, b_bufferSize := b_bufferSize p + ADDITIONAL_SIZE\<rparr>"
  have big: "len \<le> b_bufferSize p + ADDITIONAL_SIZE" using len by (simp add: ADDITIONAL_SIZE_def)
  then have "Packet_reserve_total len ?q = Some ?q"
    by (subst Packet_reserve_total.simps) simp
  then have "Packet_reserve_total len p = Some ?q"
    using True re by (subst Packet_reserve_total.simps) simp
  with m big room show ?thesis
    by (intro exI [of _ mem] exI [of _ "b_bufferSize p + ADDITIONAL_SIZE"]) simp
qed

lemma Packet_Awake_fields:
  "b_beginIndex (Packet_Awake m i p) = 0" "b_endIndex (Packet_Awake m i p) = 0"
  "p_msgId (Packet_Awake m i p) = m" "b_bufferSize (Packet_Awake m i p) = b_bufferSize p"
  "p_ref (Packet_Awake m i p) = 0" "\<not> p_isRefOpen (Packet_Awake m i p)"
  by (cases i; simp add: Packet_Awake_def Let_def)+

lemma Packet_Awake_ident:
  "p_socketKey (Packet_Awake m (Some i) p) = ni_socketKey i"
  "p_tagKey (Packet_Awake m (Some i) p) = TagKey_CopyFrom (ni_tagKey i) []"
  by (simp_all add: Packet_Awake_def Let_def TagKey_Clear_def)

text \<open>The packet that a frame with head \<open>h\<close> and body \<open>d\<close> is read as.\<close>

definition received :: "NetIdentify \<Rightarrow> byte list \<Rightarrow> byte list \<Rightarrow> packet \<Rightarrow> bool" where
  "received i h d q \<longleftrightarrow> packet_wf q \<and> packet_data q = d \<and> p_msgId q = int (le_dec (take 2 h))
     \<and> p_socketKey q = ni_socketKey i \<and> p_ref q = 0 \<and> \<not> p_isRefOpen q
     \<and> p_tagKey q = (let t = TagKey_CopyFrom (ni_tagKey i) [] in
          if length h = 20 then AddTag_int TagPlayer (PacketHeadS2S_PlayerSn h)
            (AddTag_int TagEntity (PacketHeadS2S_EntitySn h) t) else t)"

lemma GetTcpPacket_frame:
  assumes wf: "netbuf_wf s"
    and data: "netbuf_data s = le_enc 2 (length h + 4 + length d) @ le_enc 2 (length h) @ h @ d @ rest"
    and h: "length h = 2 \<or> length h = 20" and d: "length d + 24 < 2 ^ 16"
    and known: "int (le_dec (take 2 h)) \<in> set MsgId_numbers"
    and fresh: "packet_wf fresh" "b_bufferSize fresh + ADDITIONAL_SIZE < 2 ^ 31"
  shows "\<exists>s' q. GetTcpPacket i fresh s = Some (s', Recv_Packet q) \<and> netbuf_wf s'
           \<and> netbuf_data s' = rest \<and> received i h d q"
proof -
  let ?n = "length h + 4 + length d"
  have n: "?n < 256 ^ 2" and hs: "length h < 256 ^ 2" using h d by auto
  have ds: "nb_dataSize s = ?n + length rest" using length_netbuf_data [OF wf] data by simp
  note r1 = ring.read_prefix [OF wf data, simplified]
  let ?s1 = "RemoveDate 2 s"
  note r2 = ring.read_prefix [OF r1(2,3), simplified]
  let ?s2 = "RemoveDate 2 ?s1"
  note r3 = ring.read_prefix [OF r2(2,3), simplified]
  let ?s3 = "RemoveDate (length h) ?s2"
  note r4 = ring.read_prefix [OF r3(2,3), simplified]
  let ?p = "Packet_Awake (int (le_dec (take 2 h))) (Some i) fresh"
  have head: "(if length h = 2 then 2 else 20) = length h" using h by auto
  have dl: "sub32 (sub32 ?n (length h)) (2 * 2) = length d" using d h by auto
  have "packet_wf ?p" using fresh(1) by (rule packet_wf_Awake)
  moreover have "length d < 2 ^ 16" using d by simp
  ultimately obtain mem z where res: "Packet_reserve_total (length d) ?p = Some (?p\<lparr>b_buffer := mem, b_bufferSize := z\<rparr>)"
    "length mem = z" "length d \<le> z" "b_bufferSize ?p \<le> z" "z < 2 ^ 31"
    using Packet_reserve_total_16bit [of ?p "length d"] fresh(2) by (auto simp: Packet_Awake_fields)
  have z0: "0 < z" using res(4) fresh(1)
    by (simp add: Packet_Awake_fields packet_wf_def size_ok_def)
  let ?mem = "d @ drop (length d) mem"
  let ?q = "?p\<lparr>b_buffer := ?mem, b_bufferSize := z, b_endIndex := length d\<rparr>"
  let ?q' = "if length h = 20 then ?q\<lparr>p_tagKey := AddTag_int TagPlayer (PacketHeadS2S_PlayerSn h)
                        (AddTag_int TagEntity (PacketHeadS2S_EntitySn h) (p_tagKey ?q))\<rparr> else ?q"
  have "mem_write mem 0 d = Some ?mem" using res by (simp add: mem_write_front)
  moreover have "add32 0 (length d) = length d" using d by simp
  ultimately have "GetTcpPacket i fresh s = Some (RemoveDate (length d) ?s3, Recv_Packet ?q')"
    using ds n hs r1(1) r2(1) r3(1) r4(1) res(1) known h
    unfolding GetTcpPacket_def Let_def
    by (simp add: head dl Packet_FillData_def Packet_Awake_fields)
  moreover have "received i h d ?q'"
    using res h z0 by (auto simp: received_def packet_wf_def size_ok_def Packet_Awake_fields
        Packet_Awake_ident packet_data_def Let_def)
  ultimately show ?thesis using r4(2,3) by blast
qed

text \<open>A frame of which bytes are missing is left alone.\<close>

lemma GetTcpPacket_wait:
  assumes wf: "netbuf_wf s" and few: "nb_dataSize s < 2
      \<or> (\<exists>n rest. netbuf_data s = le_enc 2 n @ rest \<and> n < 2 ^ 16 \<and> nb_dataSize s < n)"
  shows "GetTcpPacket i fresh s = Some (s, Recv_Wait)"
proof (cases "nb_dataSize s < 2")
  case True
  then show ?thesis by (simp add: GetTcpPacket_def)
next
  case False
  with few obtain n rest where n: "netbuf_data s = le_enc 2 n @ rest" "n < 2 ^ 16" "nb_dataSize s < n"
    by blast
  with False ring.read_prefix(1) [OF wf n(1)] show ?thesis by (simp add: GetTcpPacket_def)
qed

lemma frame_head_MsgId:
  assumes "p_msgId p \<in> set MsgId_numbers"
  shows "int (le_dec (take 2 (frame_head p))) = p_msgId p"
proof -
  have "\<forall>m\<in>set MsgId_numbers. 0 \<le> m \<and> m < 65536" by (simp add: MsgId_numbers_def)
  then have m: "0 \<le> p_msgId p" "p_msgId p < 65536" using assms by auto
  then have "nat (p_msgId p mod 2 ^ 16) = nat (p_msgId p)" and "nat (p_msgId p) < 256 ^ 2" by auto
  then show ?thesis using m
    by (auto simp: frame_head_def PacketHead_bytes_def PacketHeadS2S_bytes_def
        simp del: le_enc.simps split: option.splits)
qed

lemma le_dec_enc_u64: "le_dec (le_enc 8 (unat (w :: u64))) = unat w"
proof (rule le_dec_enc_exact)
  show "unat w < 256 ^ 8" using unsigned_less [where ?w = w and ?'a = nat] by simp
qed

lemma PacketHeadS2S_roundtrip:
  "PacketHeadS2S_EntitySn (PacketHeadS2S_bytes m e w) = e"
  "PacketHeadS2S_PlayerSn (PacketHeadS2S_bytes m e w) = w"
  by (simp_all add: PacketHeadS2S_bytes_def PacketHeadS2S_EntitySn_def PacketHeadS2S_PlayerSn_def
      le_dec_enc_u64 del: le_enc.simps)

section \<open>Properties\<close>

text \<open>C1: sending and receiving are inverse. When the bytes in a receive buffer start with
  what \<open>AddPacket\<close> appended to a send buffer for \<open>p\<close>, \<open>GetTcpPacket\<close> removes exactly those
  bytes and yields a packet with \<open>p\<close>'s message number and body, the identity of the connection
  it came from and, when \<open>p\<close> names an entity, \<open>p\<close>'s entity and player numbers as tags.\<close>

theorem GetTcpPacket_AddPacket:
  assumes "frame_fits p" and "\<not> IsHttpMsg (p_msgId p)" and "p_msgId p \<in> set MsgId_numbers"
    and "netbuf_wf out" and "b_bufferSize out + ADDITIONAL_SIZE < 2 ^ 31"
    and "AddPacket p out = Some out'" and "netbuf_data out' = netbuf_data out @ wire"
    and "netbuf_wf rcv" and "netbuf_data rcv = wire @ rest"
    and "packet_wf fresh" and "b_bufferSize fresh + ADDITIONAL_SIZE < 2 ^ 31"
  shows "\<exists>rcv' q. GetTcpPacket i fresh rcv = Some (rcv', Recv_Packet q) \<and> netbuf_wf rcv'
           \<and> netbuf_data rcv' = rest \<and> p_msgId q = p_msgId p \<and> packet_data q = packet_data p
           \<and> p_socketKey q = ni_socketKey i
           \<and> (\<forall>v. GetTagValue TagEntity (p_tagKey p) = Some v \<longrightarrow>
                GetTagValue TagEntity (p_tagKey q) = Some \<lparr>KeyStr = '''', KeyInt64 = KeyInt64 v\<rparr>
                \<and> GetTagValue TagPlayer (p_tagKey q) = Some \<lparr>KeyStr = '''', KeyInt64 =
                    (case GetTagValue TagPlayer (p_tagKey p) of None \<Rightarrow> 0 | Some w \<Rightarrow> KeyInt64 w)\<rparr>)"
proof -
  have "wire = frame_bytes p"
    using AddPacket_data [OF assms(4,1,5)] assms(6,7) by auto
  then have data: "netbuf_data rcv = le_enc 2 (length (frame_head p) + 4 + length (packet_data p))
      @ le_enc 2 (length (frame_head p)) @ frame_head p @ packet_data p @ rest"
    using assms(2,9) by (simp add: frame_bytes_def)
  have "length (frame_head p) = 2 \<or> length (frame_head p) = 20"
    by (auto simp: length_frame_head split: option.splits)
  moreover have "length (packet_data p) + 24 < 2 ^ 16" using assms(1) by (simp add: frame_fits_def)
  moreover note frame_head_MsgId [OF assms(3)]
  ultimately obtain rcv' q where q: "GetTcpPacket i fresh rcv = Some (rcv', Recv_Packet q)" "netbuf_wf rcv'"
      "netbuf_data rcv' = rest" "received i (frame_head p) (packet_data p) q"
    using GetTcpPacket_frame [OF assms(8) data, of fresh i] assms(3,10,11) by auto
  moreover have "GetTagValue TagEntity (p_tagKey p) = Some v \<Longrightarrow>
      GetTagValue TagEntity (p_tagKey q) = Some \<lparr>KeyStr = '''', KeyInt64 = KeyInt64 v\<rparr>
      \<and> GetTagValue TagPlayer (p_tagKey q) = Some \<lparr>KeyStr = '''', KeyInt64 =
          (case GetTagValue TagPlayer (p_tagKey p) of None \<Rightarrow> 0 | Some w \<Rightarrow> KeyInt64 w)\<rparr>" for v
    using q(4) length_frame_head [of p]
    by (simp add: received_def Let_def frame_head_def PacketHeadS2S_roundtrip)
  ultimately show ?thesis
    using frame_head_MsgId [OF assms(3)] by (auto simp: received_def)
qed

definition sample_packet :: packet where
  "sample_packet = Packet_new\<lparr>b_buffer := [7, 8, 9, 0], b_endIndex := 3, b_bufferSize := 4,
     p_msgId := 1012, p_tagKey := AddTag_int TagPlayer 5 (AddTag_int TagEntity 600 [])\<rparr>"

definition sample_fresh :: packet where
  "sample_fresh = Packet_new\<lparr>b_buffer := new_bytes 8, b_bufferSize := 8\<rparr>"

definition sample_rcv :: netbuf where
  "sample_rcv = \<lparr>b_buffer = frame_bytes sample_packet @ [1, 2, 3], b_beginIndex = 0, b_endIndex = 28,
     b_bufferSize = 30, nb_dataSize = 28\<rparr>"

lemma sample_packet_simps:
  "p_msgId sample_packet = 1012" "packet_data sample_packet = [7, 8, 9]" "packet_wf sample_packet"
  by (simp_all add: sample_packet_def packet_data_def Packet_new_def packet_wf_def size_ok_def)

lemma sample_frame_fits: "frame_fits sample_packet"
  by (simp add: frame_fits_def sample_packet_simps)

lemma sample_out_ok:
  "netbuf_wf (NetworkBuffer_new 40)" "b_bufferSize (NetworkBuffer_new 40) + ADDITIONAL_SIZE < 2 ^ 31"
  by (simp add: netbuf_wf_new) (simp add: NetworkBuffer_new_def ADDITIONAL_SIZE_def)

lemma sample_frame_head:
  "frame_head sample_packet = [244, 3, 0, 0, 88, 2, 0, 0, 0, 0, 0, 0, 5, 0, 0, 0, 0, 0, 0, 0]"
  by (simp add: frame_head_def sample_packet_def) (simp add: PacketHeadS2S_bytes_def le_enc_numeral)

lemma sample_frame: "frame_bytes sample_packet =
    [27, 0, 20, 0, 244, 3, 0, 0, 88, 2, 0, 0, 0, 0, 0, 0, 5, 0, 0, 0, 0, 0, 0, 0, 7, 8, 9]"
  by (simp add: frame_bytes_def sample_packet_simps sample_frame_head IsHttpMsg_def le_enc_numeral)

lemma sample_rcv_ok: "netbuf_wf sample_rcv" "netbuf_data sample_rcv = frame_bytes sample_packet @ [1]"
  by (simp_all add: sample_rcv_def sample_frame netbuf_wf_def size_ok_def netbuf_data_def ring_bytes_def)

lemma sample_fresh_ok: "packet_wf sample_fresh" "b_bufferSize sample_fresh + ADDITIONAL_SIZE < 2 ^ 31"
  by (simp_all add: sample_fresh_def packet_wf_def size_ok_def Packet_new_def ADDITIONAL_SIZE_def)

theorem GetTcpPacket_AddPacket_witness:
  "\<exists>rcv' q. GetTcpPacket NetIdentify_new sample_fresh sample_rcv = Some (rcv', Recv_Packet q)
     \<and> netbuf_data rcv' = [1] \<and> p_msgId q = 1012 \<and> packet_data q = [7, 8, 9]"
proof -
  have p: "\<not> IsHttpMsg (p_msgId sample_packet)" "p_msgId sample_packet \<in> set MsgId_numbers"
    by (simp_all add: sample_packet_simps IsHttpMsg_def MsgId_numbers_def)
  obtain out' where "AddPacket sample_packet (NetworkBuffer_new 40) = Some out'"
    "netbuf_data out' = netbuf_data (NetworkBuffer_new 40) @ frame_bytes sample_packet"
    using AddPacket_data [OF sample_out_ok(1) sample_frame_fits sample_out_ok(2)] by blast
  from GetTcpPacket_AddPacket [OF sample_frame_fits p sample_out_ok this sample_rcv_ok sample_fresh_ok, of NetIdentify_new]
  show ?thesis by (auto simp: sample_packet_simps)
qed

section \<open>Frames that are too short\<close>

text \<open>The sizes a packet's buffer can have: the default size and what \<open>ReAllocBuffer\<close> adds.\<close>

definition pool_size :: "nat \<Rightarrow> bool" where
  "pool_size z \<longleftrightarrow> z mod ADDITIONAL_SIZE = DEFAULT_PACKET_BUFFER_SIZE \<and> z < 2 ^ 32"

lemma pool_size_new: "pool_size (b_bufferSize Packet_new)"
  by (simp add: pool_size_def Packet_new_def DEFAULT_PACKET_BUFFER_SIZE_def ADDITIONAL_SIZE_def)

lemma pool_size_add: "pool_size z \<Longrightarrow> pool_size (add32 z ADDITIONAL_SIZE)"
  by (simp add: pool_size_def add32_def ADDITIONAL_SIZE_def DEFAULT_PACKET_BUFFER_SIZE_def mod_mod_cancel mod_simps)

lemma pool_size_bound:
  assumes "pool_size z"
  shows "z < 2 ^ 32 - 24"
proof -
  have z: "z = 131072 * (z div 131072) + 10240" "z < 4294967296"
    using assms div_mult_mod_eq [of z 131072]
    by (simp_all add: pool_size_def ADDITIONAL_SIZE_def DEFAULT_PACKET_BUFFER_SIZE_def)
  then have "z div 131072 \<le> 32767" by linarith
  with z(1) show ?thesis by simp
qed

lemma Packet_ReAllocBuffer_size:
  "Packet_ReAllocBuffer p = Some q \<Longrightarrow> b_bufferSize q = add32 (b_bufferSize p) ADDITIONAL_SIZE"
  by (auto simp: Packet_ReAllocBuffer_def Buffer_ReAllocBuffer_def split: bind_splits prod.splits)

lemma Packet_reserve_total_size:
  "Packet_reserve_total len p = Some q \<Longrightarrow> pool_size (b_bufferSize p) \<longrightarrow>
     pool_size (b_bufferSize q) \<and> len \<le> b_bufferSize q"
proof (induction rule: Packet_reserve_total.raw_induct [rotated, consumes 1])
  case (1 f len p q)
  show ?case
  proof (cases "b_bufferSize p < len")
    case True
    with 1(2) obtain p1 where "Packet_ReAllocBuffer p = Some p1" "f len p1 = Some q"
      by (auto split: bind_splits)
    with 1(1) [of len p1 q] show ?thesis
      by (auto simp: Packet_ReAllocBuffer_size intro: pool_size_add)
  next
    case False
    with 1(2) show ?thesis by simp
  qed
qed

lemma Packet_reserve_total_never:
  assumes "2 ^ 32 - 24 \<le> len" and "pool_size (b_bufferSize p)"
  shows "Packet_reserve_total len p = None"
proof (rule ccontr)
  assume "Packet_reserve_total len p \<noteq> None"
  then obtain q where "Packet_reserve_total len p = Some q" by blast
  from Packet_reserve_total_size [OF this] assms(2)
  have "pool_size (b_bufferSize q)" "len \<le> b_bufferSize q" by auto
  with assms(1) pool_size_bound [of "b_bufferSize q"] show False by simp
qed

lemma body_length_wraps:
  assumes "k \<le> 20" and "n < k + 4"
  shows "2 ^ 32 - 24 \<le> sub32 (sub32 n k) 4"
proof (cases "n < k")
  case True
  then have "sub32 n k = n + 2 ^ 32 - k" using assms by (simp add: sub32_wraps)
  moreover have "sub32 (n + 2 ^ 32 - k) 4 = n + 2 ^ 32 - k - 4"
    using True assms by (intro sub32_exact) auto
  ultimately show ?thesis using assms by simp
next
  case False
  then have "sub32 n k = n - k" using assms by simp
  moreover have "sub32 (n - k) 4 = n - k + 2 ^ 32 - 4" using False assms by (simp add: sub32_wraps)
  ultimately show ?thesis by simp
qed



end
