(* ===== verification/Http_Message.thy ===== *)
theory Http_Message
  imports Packet_Framing
begin

text \<open>
  HTTP on a connection: \<open>RecvNetworkBuffer::GetHttpPacket\<close> of \<open>network_buffer.cpp\<close> and
  \<open>ParseHttp\<close>, \<open>SendHttpRequest\<close>, \<open>SendHttpResponseBase\<close> of \<open>message_system_help.cpp\<close>. The
  parser itself is mongoose, which is not part of the program: its functions are the
  argument \<open>mg\<close>. The protobuf message \<open>Proto::Http\<close> is a record, its encoding an argument.
\<close>

section \<open>What the code uses of mongoose and of the C library\<close>

text \<open>\<open>http_message\<close>: the fields the code reads. \<open>hm_header name\<close> is the text from the value of a
  header on (what \<open>mg_get_http_header(..)->p\<close> points to) with the value's length.\<close>

record http_message =
  hm_method :: "byte list"
  hm_uri :: "byte list"
  hm_resp_code :: int
  hm_header :: "string \<Rightarrow> (byte list \<times> nat) option"

text \<open>\<open>mg_parse_http\<close> (negative on an error, 0 on an incomplete head, else the head's length),
  \<open>mg_http_get_request_len\<close>, \<open>mg_vcasecmp\<close> against a constant, \<open>mg_skip\<close> with \<open>"\\r\\n"\<close> (rest
  and skipped text) and \<open>mg_status_message\<close>.\<close>

record mongoose =
  mg_parse_http :: "byte list \<Rightarrow> bool \<Rightarrow> int \<times> http_message"
  mg_http_get_request_len :: "byte list \<Rightarrow> int"
  mg_vcasecmp :: "byte list \<Rightarrow> string \<Rightarrow> int"
  mg_skip :: "byte list \<Rightarrow> byte list \<times> byte list"
  mg_status_message :: "int \<Rightarrow> string"

text \<open>\<open>atoi\<close>: blanks, a sign, digits; 0 when there are none.\<close>

definition is_digit :: "byte \<Rightarrow> bool" where
  "is_digit c \<longleftrightarrow> 48 \<le> c \<and> c \<le> 57"

fun atoi_digits :: "int \<Rightarrow> byte list \<Rightarrow> int" where
  "atoi_digits acc [] = acc"
| "atoi_digits acc (c # cs) = (if is_digit c then atoi_digits (acc * 10 + (uint c - 48)) cs else acc)"

fun atoi :: "byte list \<Rightarrow> int" where
  "atoi [] = 0"
| "atoi (c # cs) =
     (if c = 32 \<or> 9 \<le> c \<and> c \<le> 13 then atoi cs
      else if c = 45 then - atoi_digits 0 cs
      else if c = 43 then atoi_digits 0 cs
      else atoi_digits 0 (c # cs))"

definition to_u32 :: "int \<Rightarrow> nat" where
  "to_u32 i = nat (i mod 2 ^ 32)"

section \<open>\<open>MessageSystemHelp::ParseHttp\<close>\<close>

record Http =
  http_body :: "byte list"
  http_status_code :: int

text \<open>The loop over the chunks: a chunk's size is read with \<open>atoi\<close>, its line skipped, the next
  line appended.\<close>

partial_function (option) ParseHttp_chunks :: "mongoose \<Rightarrow> byte list \<Rightarrow> byte list \<Rightarrow> byte list option" where
  "ParseHttp_chunks mg s body =
     (if atoi s = 0 then Some body
      else (let (s1, _) = mg_skip mg s; (s2, tmp) = mg_skip mg s1 in ParseHttp_chunks mg s2 (body @ tmp)))"

definition ParseHttp_msgId :: "mongoose \<Rightarrow> http_message \<Rightarrow> int" where
  "ParseHttp_msgId mg hm =
     (if length (hm_method hm) > 0 then
        (if mg_vcasecmp mg (hm_method hm) ''GET'' = 0
         then if mg_vcasecmp mg (hm_uri hm) ''/login'' = 0 then MI_HttpRequestLogin else MI_HttpRequestBad
         else MI_HttpRequestBad)
      else MI_HttpOuterResponse)"

text \<open>\<open>enc\<close> is the protobuf encoding of \<open>Proto::Http\<close>, \<open>fresh\<close> what the packet pool hands out.\<close>

definition ParseHttp :: "mongoose \<Rightarrow> (Http \<Rightarrow> byte list) \<Rightarrow> NetIdentify \<Rightarrow> packet \<Rightarrow> byte list \<Rightarrow> bool
    \<Rightarrow> http_message \<Rightarrow> packet option" where
  "ParseHttp mg enc pIdentify fresh s isChunked hm = do {
     body \<leftarrow> (if length s > 0 then if isChunked then ParseHttp_chunks mg s [] else Some s else Some []);
     let proto = \<lparr>http_body = body, http_status_code = (if length (hm_method hm) > 0 then 0 else hm_resp_code hm)\<rparr>;
     Packet_SerializeProto (enc proto) (Packet_Awake (ParseHttp_msgId mg hm) (Some pIdentify) fresh) }"

section \<open>\<open>RecvNetworkBuffer::GetHttpPacket\<close>\<close>

text \<open>
  \<open>headerLen\<close> and \<open>bodyLen\<close> are \<open>unsigned int\<close>, so a negative result of the parser is a length
  near \<open>2 ^ 32\<close>. Reading outside the buffer is \<open>None\<close>.
\<close>

definition GetHttpPacket :: "mongoose \<Rightarrow> (Http \<Rightarrow> byte list) \<Rightarrow> NetworkType \<Rightarrow> NetIdentify \<Rightarrow> packet
    \<Rightarrow> netbuf \<Rightarrow> (netbuf \<times> recv_result) option" where
  "GetHttpPacket mg enc iType pIdentify fresh s =
     (if b_endIndex s < b_beginIndex s then Some (s, Recv_Close) else do {
        let recvBufLength = sub32 (b_endIndex s) (b_beginIndex s);
        let isConnector = (iType = HttpConnector);
        d \<leftarrow> mem_read (b_buffer s) (b_beginIndex s) recvBufLength;
        let (len, hm) = mg_parse_http mg d (\<not> isConnector);
        let headerLen = to_u32 len;
        (if headerLen \<le> 0 then Some (s, Recv_Wait) else
           let bodyLen = (case hm_header hm ''Content-Length'' of None \<Rightarrow> 0 | Some (p, _) \<Rightarrow> to_u32 (atoi p)) in
           if hm_header hm ''Content-Length'' \<noteq> None \<and> bodyLen > 0 \<and> recvBufLength < add32 bodyLen headerLen
           then Some (s, Recv_Wait) else do {
             let isChunked = (case hm_header hm ''Transfer-Encoding'' of None \<Rightarrow> False
                  | Some (p, n) \<Rightarrow> mg_vcasecmp mg (take n p) ''chunked'' = 0);
             (if isChunked \<and> recvBufLength = headerLen then Some (s, Recv_Wait)
              else if isChunked \<and> to_u32 (mg_http_get_request_len mg (drop headerLen d)) \<le> 0 then Some (s, Recv_Wait)
              else do {
                let bodyLen' = (if isChunked then sub32 recvBufLength headerLen else bodyLen);
                body \<leftarrow> (if bodyLen' = 0 then Some []
                         else mem_read (b_buffer s) (add32 (b_beginIndex s) headerLen) bodyLen');
                p \<leftarrow> ParseHttp mg enc pIdentify fresh body isChunked hm;
                Some (RemoveDate (add32 bodyLen' headerLen) s, Recv_Packet p) }) }) })"

text \<open>\<open>RecvNetworkBuffer::GetPacket\<close>.\<close>

definition GetPacket :: "mongoose \<Rightarrow> (Http \<Rightarrow> byte list) \<Rightarrow> NetworkType \<Rightarrow> NetIdentify \<Rightarrow> packet
    \<Rightarrow> netbuf \<Rightarrow> (netbuf \<times> recv_result) option" where
  "GetPacket mg enc iType pIdentify fresh s =
     (if \<not> IsTcp iType then GetHttpPacket mg enc iType pIdentify fresh s
      else GetTcpPacket pIdentify fresh s)"

section \<open>Facts\<close>

definition pool_packet :: "packet \<Rightarrow> bool" where
  "pool_packet p \<longleftrightarrow> packet_wf p \<and> b_bufferSize p + ADDITIONAL_SIZE < 2 ^ 31"

lemma ParseHttp_empty:
  assumes "pool_packet fresh" and "\<And>h. length (enc h) < 2 ^ 16"
  shows "\<exists>p. ParseHttp mg enc i fresh [] c hm = Some p \<and> p_msgId p = ParseHttp_msgId mg hm
    \<and> Packet_payload p = Some (enc \<lparr>http_body = [], http_status_code = (if length (hm_method hm) > 0 then 0 else hm_resp_code hm)\<rparr>)"
proof -
  let ?a = "Packet_Awake (ParseHttp_msgId mg hm) (Some i) fresh"
  have "packet_wf ?a" using assms(1) by (simp add: pool_packet_def packet_wf_Awake)
  moreover have "b_endIndex ?a = 0" "p_msgId ?a = ParseHttp_msgId mg hm" "b_bufferSize ?a + ADDITIONAL_SIZE < 2 ^ 31"
    using assms(1) by (simp_all add: Packet_Awake_fields pool_packet_def)
  ultimately show ?thesis
    using Packet_SerializeProto_ok [of ?a] assms(2) Packet_SerializeProto_msgId [of _ ?a]
    by (fastforce simp: ParseHttp_def)
qed

text \<open>Chunk sizes are hexadecimal, \<open>atoi\<close> is decimal: a chunk of 10 to 15 bytes ends the body.\<close>

lemma ParseHttp_chunks_hex:
  assumes "97 \<le> c" "c \<le> 102"
  shows "ParseHttp_chunks mg (c # s) body = Some body"
proof -
  have "\<not> is_digit c" "c \<noteq> 32" "\<not> c \<le> 13" "c \<noteq> 45" "c \<noteq> 43"
    using assms by (auto simp: is_digit_def word_le_nat_alt unat_arith_simps)
  then have "atoi (c # s) = 0" by simp
  then show ?thesis by (simp add: ParseHttp_chunks.simps)
qed

lemma http_read:
  assumes "netbuf_wf s" and "b_beginIndex s + nb_dataSize s < b_bufferSize s"
  shows "\<not> b_endIndex s < b_beginIndex s" and "sub32 (b_endIndex s) (b_beginIndex s) = nb_dataSize s"
    and "mem_read (b_buffer s) (b_beginIndex s) (nb_dataSize s) = Some (netbuf_data s)"
  using netbuf_wfD [OF assms(1)] netbuf_end [OF assms(1)] assms(2)
  by (simp_all add: mem_read_def netbuf_data_def ring_bytes_linear)

section \<open>Properties\<close>


text \<open>A malformed HTTP head is taken for a message. The parser reports an error by \<open>-1\<close>, the
  code stores the result in an \<open>unsigned int\<close> and tests \<open>headerLen <= 0\<close>, so \<open>GetPacket\<close> returns
  a packet with the number of an HTTP response, and removing \<open>2 ^ 32 - 1\<close> bytes leaves the
  buffer with one byte more than it holds.\<close>

theorem GetHttpPacket_accepts_parse_error:
  assumes "netbuf_wf s" and "b_beginIndex s + nb_dataSize s < b_bufferSize s"
    and "mg_parse_http mg (netbuf_data s) True = (- 1, hm)"
    and "hm_header hm = (\<lambda>_. None)" and "hm_method hm = []"
    and "pool_packet fresh" and "\<And>h. length (enc h) < 2 ^ 16"
  shows "\<exists>s' p. GetPacket mg enc HttpListen i fresh s = Some (s', Recv_Packet p)
    \<and> p_msgId p = MI_HttpOuterResponse \<and> nb_dataSize s' = nb_dataSize s + 1"
proof -
  note r = http_read [OF assms(1,2)]
  have k: "to_u32 (- 1) = 2 ^ 32 - 1" "add32 0 (2 ^ 32 - 1) = 2 ^ 32 - 1" by (simp_all add: to_u32_def)
  obtain p where p: "ParseHttp mg enc i fresh [] False hm = Some p" "p_msgId p = ParseHttp_msgId mg hm"
    using ParseHttp_empty [where enc = enc and mg = mg and i = i and c = False and hm = hm, OF assms(6,7)] by auto
  have "GetPacket mg enc HttpListen i fresh s = Some (RemoveDate (2 ^ 32 - 1) s, Recv_Packet p)"
    using r assms(3,4) k p(1) by (simp add: GetPacket_def IsTcp_def GetHttpPacket_def Let_def)
  moreover have "nb_dataSize (RemoveDate (2 ^ 32 - 1) s) = nb_dataSize s + 1"
  proof -
    have "nb_dataSize s < 2 ^ 32 - 1" using netbuf_wfD(2,4) [OF assms(1)] by simp
    then have "sub32 (nb_dataSize s) (2 ^ 32 - 1) = nb_dataSize s + 2 ^ 32 - (2 ^ 32 - 1)"
      by (intro sub32_wraps) auto
    then show ?thesis by (simp add: RemoveDate_def Let_def)
  qed
  ultimately show ?thesis using p(2) assms(5) by (auto simp: ParseHttp_msgId_def)
qed

definition sample_mongoose :: "int \<Rightarrow> http_message \<Rightarrow> mongoose" where
  "sample_mongoose n hm = \<lparr>mg_parse_http = (\<lambda>_ _. (n, hm)), mg_http_get_request_len = (\<lambda>_. 0),
     mg_vcasecmp = (\<lambda>s t. if s = map (\<lambda>c. of_char c) t then 0 else 1), mg_skip = (\<lambda>s. (s, [])),
     mg_status_message = (\<lambda>_. '''')\<rparr>"

definition sample_http_buf :: netbuf where
  "sample_http_buf = \<lparr>b_buffer = new_bytes 16, b_beginIndex = 2, b_endIndex = 9, b_bufferSize = 16, nb_dataSize = 7\<rparr>"

lemma sample_http_buf_ok: "netbuf_wf sample_http_buf"
    "b_beginIndex sample_http_buf + nb_dataSize sample_http_buf < b_bufferSize sample_http_buf"
    "nb_dataSize sample_http_buf = 7"
  by (simp_all add: sample_http_buf_def netbuf_wf_def size_ok_def)

lemma pool_packet_new: "pool_packet Packet_new"
  by (simp add: pool_packet_def packet_wf_new) (simp add: Packet_new_def DEFAULT_PACKET_BUFFER_SIZE_def ADDITIONAL_SIZE_def)


theorem GetHttpPacket_accepts_parse_error_witness:
  "\<exists>s' p. GetPacket (sample_mongoose (- 1) \<lparr>hm_method = [], hm_uri = [], hm_resp_code = 0, hm_header = (\<lambda>_. None)\<rparr>)
      (\<lambda>_. [1]) HttpListen NetIdentify_new Packet_new sample_http_buf = Some (s', Recv_Packet p)
    \<and> nb_dataSize s' = 8"
proof -
  let ?hm = "\<lparr>hm_method = [], hm_uri = [], hm_resp_code = 0, hm_header = (\<lambda>_. None)\<rparr>"
  have "mg_parse_http (sample_mongoose (- 1) ?hm) (netbuf_data sample_http_buf) True = (- 1, ?hm)"
    by (simp add: sample_mongoose_def)
  from GetHttpPacket_accepts_parse_error [OF sample_http_buf_ok(1,2) this _ _ pool_packet_new,
      of "\<lambda>_. [1]" NetIdentify_new]
  show ?thesis by (auto simp: sample_http_buf_ok)
qed

end
