(* ===== verification/Network_Locator.thy ===== *)
theory Network_Locator
  imports Packet_Object Sn_Global
begin

text \<open>
  \<open>network_locator.{h,cpp}\<close>, \<open>socket_locator.{h,cpp}\<close> and the sending half of
  \<open>message_system_help.cpp\<close>: which socket leads to which server process, which entity a
  client socket belongs to, and how a message is addressed. Locks are taken for the whole of
  each operation. Networks are given by address; a message body is its serialized bytes, and
  handlers take the decoded message.
\<close>

section \<open>Outgoing packets\<close>

record out_packet =
  out_msgId :: int
  out_socketKey :: SocketKey
  out_tagKey :: TagKey
  out_body :: "byte list"

text \<open>Dispatch to all threads of the process, hand to a network, or lose the packet (it stays in
  use in the pool for ever).\<close>

datatype effect =
    EDispatch out_packet
  | ENetwork nat out_packet
  | ELeak out_packet

text \<open>\<open>CreatePacket(msgId, pIdentify)\<close> and \<open>SerializeToBuffer\<close>.\<close>

definition CreatePacket :: "int \<Rightarrow> NetIdentify option \<Rightarrow> byte list \<Rightarrow> out_packet" where
  "CreatePacket msgId pIdentify body =
     \<lparr>out_msgId = msgId,
      out_socketKey = (case pIdentify of None \<Rightarrow> SocketKey_None | Some i \<Rightarrow> ni_socketKey i),
      out_tagKey = (case pIdentify of None \<Rightarrow> [] | Some i \<Rightarrow> TagKey_CopyFrom (ni_tagKey i) []),
      out_body = body\<rparr>"

section \<open>\<open>class NetworkLocator\<close>: lookups\<close>

record NetworkLocator =
  nl_netIdentify :: "(u64, NetIdentify) smap"
  nl_connectors :: "(NetworkType, nat) smap"
  nl_listens :: "(NetworkType, nat) smap"

definition NetworkLocator_Awake :: "NetworkLocator \<Rightarrow> NetworkLocator" where
  "NetworkLocator_Awake s = s\<lparr>nl_netIdentify := [], nl_connectors := [], nl_listens := []\<rparr>"

definition NetworkLocator_BackToPool :: "NetworkLocator \<Rightarrow> NetworkLocator" where
  "NetworkLocator_BackToPool s = s\<lparr>nl_netIdentify := [], nl_connectors := [], nl_listens := []\<rparr>"

definition AddConnectorLocator :: "nat \<Rightarrow> NetworkType \<Rightarrow> NetworkLocator \<Rightarrow> NetworkLocator" where
  "AddConnectorLocator pNetwork networkType s =
     s\<lparr>nl_connectors := sm_assign networkType pNetwork (nl_connectors s)\<rparr>"

definition AddListenLocator :: "nat \<Rightarrow> NetworkType \<Rightarrow> NetworkLocator \<Rightarrow> NetworkLocator" where
  "AddListenLocator pNetwork networkType s =
     s\<lparr>nl_listens := sm_assign networkType pNetwork (nl_listens s)\<rparr>"

fun GetAppNetworks_from :: "app_type \<Rightarrow> (u64, NetIdentify) smap \<Rightarrow> NetIdentify list" where
  "GetAppNetworks_from appType [] = []"
| "GetAppNetworks_from appType ((appKey, i) # m) =
     (if GetTypeFromAppKey appKey = appType then i # GetAppNetworks_from appType m
      else GetAppNetworks_from appType m)"

definition GetAppNetworks :: "app_type \<Rightarrow> NetworkLocator \<Rightarrow> NetIdentify list" where
  "GetAppNetworks appType s = GetAppNetworks_from appType (nl_netIdentify s)"

definition GetNetworkIdentify :: "app_type \<Rightarrow> int \<Rightarrow> NetworkLocator \<Rightarrow> NetIdentify" where
  "GetNetworkIdentify appType appId s =
     (case sm_find (nl_netIdentify s) (GetAppKey appType appId) of
        None \<Rightarrow> NetIdentify_new | Some i \<Rightarrow> i)"

definition GetNetwork :: "NetworkType \<Rightarrow> NetworkLocator \<Rightarrow> nat option" where
  "GetNetwork networkType s =
     (if networkType = HttpListen \<or> networkType = TcpListen then
        (case sm_find (nl_listens s) networkType of None \<Rightarrow> None | Some n \<Rightarrow> Some n)
      else if networkType = HttpConnector \<or> networkType = TcpConnector then
        (case sm_find (nl_connectors s) networkType of None \<Rightarrow> None | Some n \<Rightarrow> Some n)
      else None)"

section \<open>\<open>class MessageSystemHelp\<close>: sending\<close>

definition SendPacket :: "NetworkLocator \<Rightarrow> out_packet \<Rightarrow> effect list" where
  "SendPacket loc p =
     (if sk_Socket (out_socketKey p) = INVALID_SOCKET \<or> sk_NetType (out_socketKey p) = NT_None
      then [EDispatch p]
      else (case GetNetwork (sk_NetType (out_socketKey p)) loc of
              Some pNetwork \<Rightarrow> [ENetwork pNetwork p]
            | None \<Rightarrow> [ELeak p]))"

definition DispatchPacket_msg :: "int \<Rightarrow> byte list \<Rightarrow> NetIdentify option \<Rightarrow> effect list" where
  "DispatchPacket_msg msgId proto pIdentify = [EDispatch (CreatePacket msgId pIdentify proto)]"

definition SendPacket_identify :: "NetworkLocator \<Rightarrow> int \<Rightarrow> byte list \<Rightarrow> NetIdentify option \<Rightarrow> effect list" where
  "SendPacket_identify loc msgId proto pIdentify = SendPacket loc (CreatePacket msgId pIdentify proto)"

text \<open>\<open>cur\<close> is \<open>Global::GetCurAppType()\<close>: a process that has the target's role itself gets the
  message through its own threads.\<close>

definition has_role :: "app_type \<Rightarrow> app_type \<Rightarrow> bool" where
  "has_role cur appType \<longleftrightarrow> and cur appType \<noteq> 0"

definition SendPacket_app :: "app_type \<Rightarrow> NetworkLocator \<Rightarrow> int \<Rightarrow> byte list \<Rightarrow> app_type \<Rightarrow> int \<Rightarrow> effect list" where
  "SendPacket_app cur loc msgId proto appType appId =
     (if has_role cur appType then DispatchPacket_msg msgId proto None
      else let networkIdentify = GetNetworkIdentify appType appId loc in
        if sk_NetType (ni_socketKey networkIdentify) = NT_None then []
        else SendPacket loc (CreatePacket msgId (Some networkIdentify) proto))"

text \<open>The packet is sent under the socket of the target; when there is none it is dropped
  without being freed.\<close>

definition SendPacket_packet_app :: "app_type \<Rightarrow> NetworkLocator \<Rightarrow> out_packet \<Rightarrow> app_type \<Rightarrow> int \<Rightarrow> effect list" where
  "SendPacket_packet_app cur loc p appType appId =
     (if has_role cur appType then [EDispatch p]
      else let netIdentify = GetNetworkIdentify appType appId loc in
        if sk_NetType (ni_socketKey netIdentify) = NT_None then [ELeak p]
        else SendPacket loc (p\<lparr>out_socketKey := (out_socketKey p)
               \<lparr>sk_Socket := sk_Socket (ni_socketKey netIdentify),
                sk_NetType := sk_NetType (ni_socketKey netIdentify)\<rparr>\<rparr>))"

definition SendPacket_tags_app :: "app_type \<Rightarrow> NetworkLocator \<Rightarrow> int \<Rightarrow> byte list \<Rightarrow> TagKey \<Rightarrow> app_type \<Rightarrow> int \<Rightarrow> effect list" where
  "SendPacket_tags_app cur loc msgId proto pTagKey appType appId =
     (if has_role cur appType then
        DispatchPacket_msg msgId proto
          (Some (NetIdentify_new\<lparr>ni_tagKey := TagKey_CopyFrom pTagKey (ni_tagKey NetIdentify_new)\<rparr>))
      else let netIdentify = GetNetworkIdentify appType appId loc in
        if sk_NetType (ni_socketKey netIdentify) = NT_None then []
        else SendPacket loc (CreatePacket msgId
               (Some (NetIdentify_new\<lparr>ni_socketKey := SocketKey_CopyFrom (ni_socketKey netIdentify) (ni_socketKey NetIdentify_new),
                        ni_tagKey := TagKey_CopyFrom pTagKey (ni_tagKey NetIdentify_new)\<rparr>)) proto))"

definition SendPacketToAllApp :: "app_type \<Rightarrow> NetworkLocator \<Rightarrow> int \<Rightarrow> byte list \<Rightarrow> app_type \<Rightarrow> effect list" where
  "SendPacketToAllApp cur loc msgId proto appType =
     (if has_role cur appType then DispatchPacket_msg msgId proto None
      else concat (map (\<lambda>one.
             let pPacket = CreatePacket msgId (Some one) proto in
             case GetNetwork (sk_NetType (ni_socketKey one)) loc of
               Some pConnector \<Rightarrow> [ENetwork pConnector pPacket]
             | None \<Rightarrow> [ELeak pPacket]) (GetAppNetworks appType loc)))"

text \<open>The request \<open>Proto::NetworkConnect\<close>, before serialization.\<close>

record NetworkConnect =
  nc_network_type :: int
  nc_tag_type :: TagType
  nc_tag_value :: TagValue
  nc_ip :: string
  nc_port :: int

definition CreateConnect :: "NetworkType \<Rightarrow> TagType \<Rightarrow> TagValue \<Rightarrow> string \<Rightarrow> int \<Rightarrow> NetworkConnect" where
  "CreateConnect iType tagType tagValue ip port =
     \<lparr>nc_network_type = NetworkType_number iType, nc_tag_type = tagType, nc_tag_value = tagValue,
      nc_ip = ip, nc_port = port\<rparr>"

section \<open>\<open>class NetworkLocator\<close>: registration\<close>

text \<open>\<open>register_body\<close> is the serialized \<open>AppRegister\<close> of this process.\<close>

definition AddNetworkIdentify :: "app_type \<Rightarrow> byte list \<Rightarrow> SocketKey \<Rightarrow> u64 \<Rightarrow> NetworkLocator \<Rightarrow> NetworkLocator \<times> effect list" where
  "AddNetworkIdentify cur register_body pSocket appKey s =
     (let m = (case sm_find (nl_netIdentify s) appKey of
                 Some _ \<Rightarrow> sm_erase appKey (nl_netIdentify s) | None \<Rightarrow> nl_netIdentify s);
          netIdentify = NetIdentify_new\<lparr>ni_socketKey := SocketKey_CopyFrom pSocket (ni_socketKey NetIdentify_new),
                          ni_tagKey := AddTag_int TagApp appKey (ni_tagKey NetIdentify_new)\<rparr>;
          s1 = s\<lparr>nl_netIdentify := sm_insert appKey netIdentify m\<rparr>;
          appType = GetTypeFromAppKey appKey; appId = GetIdFromAppKey appKey
      in (s1, if \<not> has_role cur APP_APPMGR \<and>
                 (has_role appType APP_APPMGR \<or> has_role appType APP_SPACE \<or> has_role appType APP_GAME)
              then SendPacket_app cur s1 MI_AppRegister register_body appType appId else []))"

definition HandleAppRegister :: "int \<Rightarrow> int \<Rightarrow> SocketKey \<Rightarrow> TagKey \<Rightarrow> NetworkLocator \<Rightarrow> NetworkLocator \<times> effect list" where
  "HandleAppRegister proto_type proto_id pSocketKey pTagKey s =
     (let appKey = GetAppKey proto_type proto_id in
      case sm_find (nl_netIdentify s) appKey of
        None \<Rightarrow>
          (let netIdentify = NetIdentify_new\<lparr>ni_socketKey := SocketKey_CopyFrom pSocketKey (ni_socketKey NetIdentify_new),
                               ni_tagKey := AddTag_int TagApp appKey (ni_tagKey NetIdentify_new)\<rparr>
           in (s\<lparr>nl_netIdentify := sm_insert appKey netIdentify (nl_netIdentify s)\<rparr>,
               DispatchPacket_msg MI_NetworkListenKey [] (Some netIdentify)))
      | Some i \<Rightarrow>
          (s\<lparr>nl_netIdentify := sm_assign appKey (i\<lparr>ni_tagKey := TagKey_CopyFrom pTagKey (ni_tagKey i)\<rparr>)
                (nl_netIdentify s)\<rparr>, []))"

text \<open>\<open>endpoint\<close> is \<open>Yaml::GetIPEndPoint\<close>; a process that is not configured is a null pointer.\<close>

definition Locator_HandleNetworkDisconnect :: "(app_type \<Rightarrow> int \<Rightarrow> (string \<times> int) option) \<Rightarrow> TagKey
    \<Rightarrow> NetworkLocator \<Rightarrow> (NetworkLocator \<times> NetworkConnect list) option" where
  "Locator_HandleNetworkDisconnect endpoint pTags s =
     (case GetTagValue TagApp pTags of
        None \<Rightarrow> Some (s, [])
      | Some pTagApp \<Rightarrow>
          (let appKey = KeyInt64 pTagApp;
               s1 = s\<lparr>nl_netIdentify := sm_erase appKey (nl_netIdentify s)\<rparr>;
               appType = GetTypeFromAppKey appKey; appId = GetIdFromAppKey appKey
           in case endpoint appType appId of
                None \<Rightarrow> None
              | Some (ip, port) \<Rightarrow>
                  Some (s1, [CreateConnect TcpConnector TagApp \<lparr>KeyStr = '''', KeyInt64 = appKey\<rparr> ip port])))"

section \<open>\<open>class SocketLocator\<close>\<close>

type_synonym SocketLocator = "(socket, u64) smap"

definition RegisterToLocator :: "socket \<Rightarrow> u64 \<Rightarrow> SocketLocator \<Rightarrow> SocketLocator" where
  "RegisterToLocator socket sn m =
     (case sm_find m socket of Some _ \<Rightarrow> sm_assign socket sn m | None \<Rightarrow> sm_insert socket sn m)"

definition SocketLocator_Remove :: "socket \<Rightarrow> SocketLocator \<Rightarrow> SocketLocator" where
  "SocketLocator_Remove socket m = sm_erase socket m"

definition GetTargetEntitySn :: "socket \<Rightarrow> SocketLocator \<Rightarrow> u64" where
  "GetTargetEntitySn socket m = (case sm_find m socket of None \<Rightarrow> 0 | Some sn \<Rightarrow> sn)"

definition SocketLocator_HandleNetworkDisconnect :: "SocketKey \<Rightarrow> SocketLocator \<Rightarrow> SocketLocator" where
  "SocketLocator_HandleNetworkDisconnect k m = sm_erase (sk_Socket k) m"

lemma RegisterToLocator_find [simp]: "sm_find (RegisterToLocator socket sn m) = (sm_find m)(socket \<mapsto> sn)"
  by (auto simp: RegisterToLocator_def split: option.splits)

section \<open>Facts\<close>

lemma GetAppNetworks_from_filter:
  "GetAppNetworks_from appType m = map snd (filter (\<lambda>p. GetTypeFromAppKey (fst p) = appType) m)"
  by (induction m rule: GetAppNetworks_from.induct) auto

lemma GetNetwork_AddNetworkIdentify [simp]:
  "GetNetwork t (fst (AddNetworkIdentify cur b sock key s)) = GetNetwork t s"
  by (simp add: AddNetworkIdentify_def GetNetwork_def Let_def)

text \<open>Every entry is tagged with the key it stands under.\<close>

definition locator_inv :: "NetworkLocator \<Rightarrow> bool" where
  "locator_inv s \<longleftrightarrow> sm_wf (nl_netIdentify s)
     \<and> (\<forall>k i. sm_find (nl_netIdentify s) k = Some i \<longrightarrow>
          tags_wf (ni_tagKey i) \<and> (\<exists>v. GetTagValue TagApp (ni_tagKey i) = Some v \<and> KeyInt64 v = k))"

lemma tags_wf_single: "tags_wf [(t, \<lparr>KeyStr = '''', KeyInt64 = n\<rparr>)]"
  by (simp add: tags_wf_def sm_wf_def)

lemma locator_inv_AddNetworkIdentify [wf_intros]:
  "locator_inv s \<Longrightarrow> locator_inv (fst (AddNetworkIdentify cur b sock key s))"
  by (auto simp: locator_inv_def AddNetworkIdentify_def Let_def NetIdentify_new_def tags_wf_single
      split: option.splits if_splits)

lemma locator_inv_HandleAppRegister [wf_intros]:
  assumes "locator_inv s"
    and "\<And>v. sm_wf tags \<and> (GetTagValue TagApp tags = Some v \<longrightarrow> KeyInt64 v = GetAppKey t i)"
  shows "locator_inv (fst (HandleAppRegister t i sock tags s))"
  using assms unfolding locator_inv_def HandleAppRegister_def
  by (auto simp: Let_def find_CopyFrom tag_norm_def NetIdentify_new_def tags_wf_CopyFrom tags_wf_single
      split: option.splits if_splits)

section \<open>Properties\<close>

text \<open>C15: sending to a server process. After the process's connection is registered, a message
  for it goes to the network of that connection, once, addressed to its socket and carrying
  the process's tag; the registration replaces an older socket. A process that has the target's
  role itself dispatches to its own threads instead.\<close>

theorem SendPacket_after_AddNetworkIdentify:
  assumes "s' = fst (AddNetworkIdentify cur b sock (GetAppKey appType appId) s)"
    and "sk_Socket sock \<noteq> INVALID_SOCKET" and "GetNetwork (sk_NetType sock) s = Some net"
  shows "SendPacket_app cur s' msgId proto appType appId =
    (if has_role cur appType then [EDispatch \<lparr>out_msgId = msgId, out_socketKey = SocketKey_None, out_tagKey = [], out_body = proto\<rparr>]
     else [ENetwork net \<lparr>out_msgId = msgId, out_socketKey = sock,
             out_tagKey = [(TagApp, \<lparr>KeyStr = '''', KeyInt64 = GetAppKey appType appId\<rparr>)], out_body = proto\<rparr>])"
proof -
  let ?key = "GetAppKey appType appId"
  let ?i = "NetIdentify_new\<lparr>ni_socketKey := sock, ni_tagKey := [(TagApp, \<lparr>KeyStr = '''', KeyInt64 = ?key\<rparr>)]\<rparr>"
  have find: "sm_find (nl_netIdentify s') ?key = Some ?i"
    by (auto simp: assms(1) AddNetworkIdentify_def Let_def NetIdentify_new_def split: option.splits)
  have net: "GetNetwork (sk_NetType sock) s' = Some net"
    using assms(3) by (simp add: assms(1))
  have "sk_NetType sock \<noteq> NT_None" using assms(3) by (auto simp: GetNetwork_def)
  then show ?thesis
    using assms(2) net by (simp add: SendPacket_app_def GetNetworkIdentify_def find DispatchPacket_msg_def
        CreatePacket_def SendPacket_def TagKey_CopyFrom_Cons)
qed

definition sample_locator :: NetworkLocator where
  "sample_locator = \<lparr>nl_netIdentify = [], nl_connectors = [(TcpConnector, 6)], nl_listens = [(TcpListen, 5)]\<rparr>"

theorem SendPacket_after_AddNetworkIdentify_witness:
  "SendPacket_app APP_LOGIN (fst (AddNetworkIdentify APP_LOGIN [] \<lparr>sk_Socket = 9, sk_NetType = TcpConnector\<rparr>
       (GetAppKey APP_GAME 3) sample_locator)) 1503 [1, 2] APP_GAME 3
   = [ENetwork 6 \<lparr>out_msgId = 1503, out_socketKey = \<lparr>sk_Socket = 9, sk_NetType = TcpConnector\<rparr>,
        out_tagKey = [(TagApp, \<lparr>KeyStr = '''', KeyInt64 = GetAppKey APP_GAME 3\<rparr>)], out_body = [1, 2]\<rparr>]"
  using SendPacket_after_AddNetworkIdentify [OF refl, of "\<lparr>sk_Socket = 9, sk_NetType = TcpConnector\<rparr>" sample_locator 6
      APP_LOGIN "[]" APP_GAME 3 1503 "[1, 2]"]
  by (simp add: sample_locator_def GetNetwork_def has_role_def)

text \<open>\<open>SendPacketToAllApp\<close> addresses every registered process of the type exactly once, in
  the order of their keys, each packet carrying that process's own identity.\<close>

theorem SendPacketToAllApp_each_once:
  assumes "\<not> has_role cur appType" and "locator_inv s"
    and "\<forall>i\<in>set (GetAppNetworks appType s). GetNetwork (sk_NetType (ni_socketKey i)) s \<noteq> None"
  shows "\<exists>ps. SendPacketToAllApp cur s msgId proto appType = map (\<lambda>(n, p). ENetwork n p) ps
    \<and> map (out_socketKey \<circ> snd) ps =
        map (ni_socketKey \<circ> snd) (filter (\<lambda>p. GetTypeFromAppKey (fst p) = appType) (nl_netIdentify s))
    \<and> map (\<lambda>(n, p). map_option KeyInt64 (GetTagValue TagApp (out_tagKey p))) ps =
        map (Some \<circ> fst) (filter (\<lambda>p. GetTypeFromAppKey (fst p) = appType) (nl_netIdentify s))
    \<and> (\<forall>(n, p)\<in>set ps. out_msgId p = msgId \<and> out_body p = proto)"
proof -
  let ?L = "filter (\<lambda>p. GetTypeFromAppKey (fst p) = appType) (nl_netIdentify s)"
  let ?f = "\<lambda>i. (the (GetNetwork (sk_NetType (ni_socketKey i)) s), CreatePacket msgId (Some i) proto)"
  have nets: "GetAppNetworks appType s = map snd ?L"
    by (simp add: GetAppNetworks_def GetAppNetworks_from_filter)
  have "concat (map (\<lambda>one. let pPacket = CreatePacket msgId (Some one) proto in
          case GetNetwork (sk_NetType (ni_socketKey one)) s of
            Some pConnector \<Rightarrow> [ENetwork pConnector pPacket] | None \<Rightarrow> [ELeak pPacket]) is)
      = map (\<lambda>(n, p). ENetwork n p) (map ?f is)"
    if "\<forall>i\<in>set is. GetNetwork (sk_NetType (ni_socketKey i)) s \<noteq> None" for "is"
    using that by (induction "is") (auto simp: Let_def)
  from this [OF assms(3)] have send: "SendPacketToAllApp cur s msgId proto appType
      = map (\<lambda>(n, p). ENetwork n p) (map ?f (map snd ?L))"
    using assms(1) by (simp add: SendPacketToAllApp_def nets)
  have tag: "map_option KeyInt64 (GetTagValue TagApp (out_tagKey (CreatePacket msgId (Some i) proto))) = Some k"
    if "(k, i) \<in> set ?L" for k i
  proof -
    have "sm_find (nl_netIdentify s) k = Some i"
      using that assms(2) sm_find_in_set [of "nl_netIdentify s" k i] by (simp add: locator_inv_def)
    then obtain v where v: "GetTagValue TagApp (ni_tagKey i) = Some v" "KeyInt64 v = k" "sm_wf (ni_tagKey i)"
      using assms(2) by (auto simp: locator_inv_def tags_wf_def)
    then show ?thesis by (auto simp: CreatePacket_def find_CopyFrom tag_norm_def)
  qed
  show ?thesis
  proof (intro exI [of _ "map ?f (map snd ?L)"] conjI send)
    show "map (out_socketKey \<circ> snd) (map ?f (map snd ?L)) = map (ni_socketKey \<circ> snd) ?L"
      by (simp add: CreatePacket_def)
    show "map (\<lambda>(n, p). map_option KeyInt64 (GetTagValue TagApp (out_tagKey p))) (map ?f (map snd ?L))
        = map (Some \<circ> fst) ?L"
      using tag by auto
    show "\<forall>(n, p)\<in>set (map ?f (map snd ?L)). out_msgId p = msgId \<and> out_body p = proto"
      by (auto simp: CreatePacket_def)
  qed
qed

theorem SendPacketToAllApp_each_once_witness:
  "let s = fst (AddNetworkIdentify APP_LOGIN [] \<lparr>sk_Socket = 9, sk_NetType = TcpConnector\<rparr>
             (GetAppKey APP_GAME 3) sample_locator)
   in \<exists>ps. SendPacketToAllApp APP_LOGIN s 1503 [1] APP_GAME = map (\<lambda>(n, p). ENetwork n p) ps
      \<and> map (out_socketKey \<circ> snd) ps =
        map (ni_socketKey \<circ> snd) (filter (\<lambda>p. GetTypeFromAppKey (fst p) = APP_GAME) (nl_netIdentify s))"
proof -
  let ?s = "fst (AddNetworkIdentify APP_LOGIN [] \<lparr>sk_Socket = 9, sk_NetType = TcpConnector\<rparr>
             (GetAppKey APP_GAME 3) sample_locator)"
  have "locator_inv sample_locator" by (simp add: locator_inv_def sample_locator_def)
  then have inv: "locator_inv ?s" by (rule locator_inv_AddNetworkIdentify)
  have "nl_netIdentify ?s = [(GetAppKey APP_GAME 3, \<lparr>ni_socketKey = \<lparr>sk_Socket = 9, sk_NetType = TcpConnector\<rparr>,
      ni_tagKey = AddTag_int TagApp (GetAppKey APP_GAME 3) []\<rparr>)]"
    by (simp add: AddNetworkIdentify_def sample_locator_def sm_insert_def NetIdentify_new_def Let_def)
  then have "\<forall>i\<in>set (GetAppNetworks APP_GAME ?s). GetNetwork (sk_NetType (ni_socketKey i)) ?s \<noteq> None"
    by (simp add: GetAppNetworks_def GetAppNetworks_from_filter) (simp add: GetNetwork_def sample_locator_def)
  from SendPacketToAllApp_each_once [OF _ inv this, of APP_LOGIN 1503 "[1]"] show ?thesis
    by (simp add: has_role_def Let_def) blast
qed

text \<open>C16: a process that comes back before its old connection was noticed as lost stays
  unreachable. \<open>HandleAppRegister\<close> from a new socket only merges tags into the entry of the old
  socket, and the disconnect of the old socket then erases it.\<close>

theorem HandleAppRegister_keeps_stale_socket:
  assumes "sm_find (nl_netIdentify s) (GetAppKey t i) = Some old"
    and "s1 = fst (HandleAppRegister t i new_socket tags s)"
    and "GetTagValue TagApp lost = Some v" and "KeyInt64 v = GetAppKey t i"
    and "Locator_HandleNetworkDisconnect endpoint lost s1 = Some (s2, conn)"
  shows "ni_socketKey (GetNetworkIdentify t i s1) = ni_socketKey old
    \<and> GetNetworkIdentify t i s2 = NetIdentify_new"
proof -
  have "sm_find (nl_netIdentify s1) (GetAppKey t i)
      = Some (old\<lparr>ni_tagKey := TagKey_CopyFrom tags (ni_tagKey old)\<rparr>)"
    using assms(1,2) by (simp add: HandleAppRegister_def Let_def)
  moreover have "sm_find (nl_netIdentify s2) (GetAppKey t i) = None"
    using assms(3-5) by (auto simp: Locator_HandleNetworkDisconnect_def Let_def split: option.splits)
  ultimately show ?thesis by (simp add: GetNetworkIdentify_def)
qed

theorem HandleAppRegister_keeps_stale_socket_witness:
  "let old = \<lparr>sk_Socket = 9, sk_NetType = TcpListen\<rparr>; new = \<lparr>sk_Socket = 12, sk_NetType = TcpListen\<rparr>;
       tags = AddTag_int TagApp (GetAppKey APP_GAME 3) [];
       s = fst (HandleAppRegister APP_GAME 3 old [] sample_locator);
       s1 = fst (HandleAppRegister APP_GAME 3 new tags s)
   in ni_socketKey (GetNetworkIdentify APP_GAME 3 s1) = old"
proof -
  let ?tags = "AddTag_int TagApp (GetAppKey APP_GAME 3) []"
  let ?s = "fst (HandleAppRegister APP_GAME 3 \<lparr>sk_Socket = 9, sk_NetType = TcpListen\<rparr> [] sample_locator)"
  let ?s1 = "fst (HandleAppRegister APP_GAME 3 \<lparr>sk_Socket = 12, sk_NetType = TcpListen\<rparr> ?tags ?s)"
  obtain old where old: "sm_find (nl_netIdentify ?s) (GetAppKey APP_GAME 3) = Some old"
    "ni_socketKey old = \<lparr>sk_Socket = 9, sk_NetType = TcpListen\<rparr>"
    by (simp add: HandleAppRegister_def sample_locator_def Let_def)
  obtain s2 conn where "Locator_HandleNetworkDisconnect (\<lambda>_ _. Some ('''', 0)) ?tags ?s1 = Some (s2, conn)"
    by (simp add: Locator_HandleNetworkDisconnect_def Let_def)
  from HandleAppRegister_keeps_stale_socket [OF old(1) refl _ _ this] old(2)
  show ?thesis by (simp add: Let_def)
qed

end
