(* ===== verification/Connect_Obj.thy ===== *)
theory Connect_Obj
  imports Http_Message Network_Locator
begin

text \<open>
  \<open>connect_obj.{h,cpp}\<close>: one connection. The kernel's side of the socket is an argument: what
  \<open>recv\<close> will find, and how much \<open>send\<close> will take. What a connection does to the rest of
  the process is returned as a list of effects.
\<close>

section \<open>\<open>recv\<close> and \<open>send\<close> of a non-blocking socket\<close>

text \<open>
  What has arrived: bytes, the peer's orderly shutdown, an error. A \<open>recv\<close> takes at most as many
  bytes as it is given room for; with nothing there it fails with \<open>EAGAIN\<close>.
\<close>

datatype arrival = Bytes "byte list" | Shutdown | SockErr int

datatype recv_return = Got "byte list" | Failed int

fun sys_recv :: "nat \<Rightarrow> arrival list \<Rightarrow> recv_return \<times> arrival list" where
  "sys_recv n [] = (Failed EAGAIN, [])"
| "sys_recv n (Bytes bs # k) =
     (if n = 0 then (Got [], Bytes bs # k)
      else if bs = [] then sys_recv n k
      else if length bs \<le> n then (Got bs, k)
      else (Got (take n bs), Bytes (drop n bs) # k))"
| "sys_recv n (Shutdown # k) = (Got [], Shutdown # k)"
| "sys_recv n (SockErr e # k) = (Failed e, k)"

text \<open>The kernel's send buffer has room for so many bytes; a full one gives \<open>-1\<close>.\<close>

definition sys_send :: "byte list \<Rightarrow> nat \<Rightarrow> int \<times> nat" where
  "sys_send bs room = (if room = 0 then (- 1, 0) else (int (min (length bs) room), room - length bs))"

section \<open>State\<close>

datatype ConnectStateType = CS_None | CS_Connecting | CS_Connected

record ConnectObj = NetIdentify +
  co_state :: ConnectStateType
  co_recvBuffer :: netbuf
  co_sendBuffer :: netbuf

text \<open>What a connection uses of its surroundings: the type of its network, the parser and the
  encoding of HTTP, the packets the pool hands out, the role of this process, its registration
  message and, if there is one, the \<open>SocketLocator\<close> of the thread manager.\<close>

record conn_env =
  ce_networkType :: NetworkType
  ce_mongoose :: mongoose
  ce_encHttp :: "Http \<Rightarrow> byte list"
  ce_fresh :: "nat \<Rightarrow> packet"
  ce_curAppType :: app_type
  ce_register :: "byte list"
  ce_socketLocator :: "SocketLocator option"

text \<open>\<open>ThreadMgr::DispatchPacket\<close>; a 404 answer; \<open>FreeObject\<close> on the packet pool; a packet
  forgotten; a message queued for this thread; \<open>close\<close>; what the other theories emit.\<close>

datatype conn_effect =
    CDispatch packet
  | CResponse404 packet
  | CFree packet
  | CForget packet
  | CQueue out_packet
  | CClose socket
  | CEffect effect

definition ConnectObj_new :: ConnectObj where
  "ConnectObj_new = \<lparr>ni_socketKey = SocketKey_None, ni_tagKey = [], co_state = CS_None,
     co_recvBuffer = NetworkBuffer_new DEFAULT_RECV_BUFFER_SIZE,
     co_sendBuffer = NetworkBuffer_new DEFAULT_SEND_BUFFER_SIZE\<rparr>"

definition ConnectObj_Awake :: "socket \<Rightarrow> NetworkType \<Rightarrow> TagType \<Rightarrow> TagValue \<Rightarrow> ConnectStateType
    \<Rightarrow> ConnectObj \<Rightarrow> ConnectObj" where
  "ConnectObj_Awake sock networkType tagType tagValue state c =
     (let t = TagKey_Clear (ni_tagKey c) in
      c\<lparr>ni_socketKey := \<lparr>sk_Socket = sock, sk_NetType = networkType\<rparr>,
        ni_tagKey := (if tagType \<noteq> TagNone then AddTag tagType tagValue t else t),
        co_state := state\<rparr>)"

definition ConnectObj_BackToPool :: "ConnectObj \<Rightarrow> ConnectObj \<times> conn_effect list" where
  "ConnectObj_BackToPool c =
     (c\<lparr>co_state := CS_None, ni_socketKey := SocketKey_Clear (ni_socketKey c),
        ni_tagKey := TagKey_Clear (ni_tagKey c),
        co_recvBuffer := NetworkBuffer_BackToPool (co_recvBuffer c),
        co_sendBuffer := NetworkBuffer_BackToPool (co_sendBuffer c)\<rparr>,
      map CEffect (DispatchPacket_msg MI_NetworkDisconnect [] (Some (NetIdentify.truncate c)))
      @ (if sk_Socket (ni_socketKey c) \<noteq> INVALID_SOCKET then [CClose (sk_Socket (ni_socketKey c))] else []))"

text \<open>\<open>Close\<close> queues the request to disconnect for the own thread.\<close>

definition ConnectObj_Close :: "ConnectObj \<Rightarrow> conn_effect list" where
  "ConnectObj_Close c = [CQueue (CreatePacket MI_NetworkRequestDisconnect (Some (NetIdentify.truncate c)) [])]"

definition ChangeStateToConnected :: "conn_env \<Rightarrow> NetworkLocator \<Rightarrow> ConnectObj
    \<Rightarrow> ConnectObj \<times> NetworkLocator \<times> conn_effect list" where
  "ChangeStateToConnected env loc c =
     (let c1 = c\<lparr>co_state := CS_Connected\<rparr> in
      case GetTagValue TagApp (ni_tagKey c1) of
        Some pTagValue \<Rightarrow>
          (let (loc1, es) = AddNetworkIdentify (ce_curAppType env) (ce_register env) (ni_socketKey c1)
                              (KeyInt64 pTagValue) loc
           in (c1, loc1, map CEffect es))
      | None \<Rightarrow> (c1, loc, map CEffect (DispatchPacket_msg MI_NetworkConnected [] (Some (NetIdentify.truncate c1)))))"

definition HasRecvData :: "ConnectObj \<Rightarrow> bool" where
  "HasRecvData c = HasData (co_recvBuffer c)"

definition HasSendData :: "ConnectObj \<Rightarrow> bool" where
  "HasSendData c = (if co_state c = CS_Connecting then True else HasData (co_sendBuffer c))"

section \<open>\<open>ConnectObj::Recv\<close>\<close>

text \<open>The buffer is grown when less than a head fits.\<close>

definition Recv_prepare :: "netbuf \<Rightarrow> netbuf option" where
  "Recv_prepare b =
     (if NetworkBuffer_GetEmptySize b < sizeof_PacketHeadS2S + sizeof_TotalSizeType * 2
      then NetworkBuffer_ReAllocBuffer b else Some b)"

partial_function (option) Recv_read :: "arrival list \<Rightarrow> netbuf \<Rightarrow> bool
    \<Rightarrow> (arrival list \<times> netbuf \<times> bool) option" where
  "Recv_read k b isRs = do {
     b1 \<leftarrow> Recv_prepare b;
     let (pos, emptySize) = RecvBuffer_GetBuffer b1;
     (case sys_recv emptySize k of
        (Got bs, k1) \<Rightarrow>
          if bs \<noteq> [] then do {
            m \<leftarrow> mem_write (b_buffer b1) pos bs;
            Recv_read k1 (FillDate (length bs) (b1\<lparr>b_buffer := m\<rparr>)) True }
          else Some (k1, b1, isRs)
      | (Failed socketError, k1) \<Rightarrow>
          Some (k1, b1, if \<not> IsError socketError then True else socketError \<noteq> 0)) }"

text \<open>What is done with one packet.\<close>

definition Recv_tag_entity :: "SocketLocator option \<Rightarrow> TagKey \<Rightarrow> packet \<Rightarrow> packet" where
  "Recv_tag_entity sl tags p =
     (case GetTagValue TagAccount tags of
        None \<Rightarrow> p
      | Some _ \<Rightarrow>
          (case sl of
             None \<Rightarrow> p
           | Some pSocketLocator \<Rightarrow>
               (let targetEntitySn = GetTargetEntitySn (sk_Socket (p_socketKey p)) pSocketLocator
                in if targetEntitySn > 0
                   then p\<lparr>p_tagKey := AddTag_int TagEntity targetEntitySn (p_tagKey p)\<rparr> else p)))"

definition Recv_packet :: "NetworkType \<Rightarrow> packet \<Rightarrow> conn_effect list" where
  "Recv_packet netType p =
     (let msgId = Packet_GetMsgId p; isTcp = IsTcp netType in
      if \<not> isTcp \<and> msgId = MI_HttpRequestBad then [CResponse404 p, CFree p]
      else if isTcp \<and> msgId = MI_Ping then [CForget p]
      else if \<not> isTcp \<and> (msgId \<le> MI_HttpBegin \<or> msgId \<ge> MI_HttpEnd) \<and> msgId \<noteq> MI_HttpOuterResponse
      then [CFree p]
      else [CDispatch p])"

partial_function (option) Recv_packets :: "conn_env \<Rightarrow> nat \<Rightarrow> ConnectObj \<Rightarrow> conn_effect list
    \<Rightarrow> (ConnectObj \<times> conn_effect list) option" where
  "Recv_packets env n c out = do {
     (b, r) \<leftarrow> GetPacket (ce_mongoose env) (ce_encHttp env) (ce_networkType env) (NetIdentify.truncate c)
                 (ce_fresh env n) (co_recvBuffer c);
     (case r of
        Recv_Wait \<Rightarrow> Some (c\<lparr>co_recvBuffer := b\<rparr>, out)
      | Recv_Close \<Rightarrow> Some (c\<lparr>co_recvBuffer := b\<rparr>, out @ ConnectObj_Close c)
      | Recv_Packet p \<Rightarrow>
          Recv_packets env (n + 1) (c\<lparr>co_recvBuffer := b\<rparr>)
            (out @ Recv_packet (ce_networkType env) (Recv_tag_entity (ce_socketLocator env) (ni_tagKey c) p))) }"

definition ConnectObj_Recv :: "conn_env \<Rightarrow> NetworkLocator \<Rightarrow> arrival list \<Rightarrow> ConnectObj
    \<Rightarrow> (bool \<times> ConnectObj \<times> NetworkLocator \<times> arrival list \<times> conn_effect list) option" where
  "ConnectObj_Recv env loc k c =
     (if co_state c = CS_Connecting
      then (let (c1, loc1, es) = ChangeStateToConnected env loc c in Some (True, c1, loc1, k, es))
      else do {
        (k1, b, isRs) \<leftarrow> Recv_read k (co_recvBuffer c) False;
        let c1 = c\<lparr>co_recvBuffer := b\<rparr>;
        (if isRs then do {
           (c2, es) \<leftarrow> Recv_packets env 0 c1 [];
           Some (True, c2, loc, k1, es) }
         else Some (False, c1, loc, k1, [])) })"

section \<open>Sending\<close>

definition ConnectObj_SendPacket :: "packet \<Rightarrow> ConnectObj \<Rightarrow> (ConnectObj \<times> conn_effect list) option" where
  "ConnectObj_SendPacket p c = do {
     b \<leftarrow> AddPacket p (co_sendBuffer c);
     Some (c\<lparr>co_sendBuffer := b\<rparr>, [CFree p]) }"

text \<open>The loop of \<open>Send\<close>; \<open>wire\<close> collects what the kernel has taken.\<close>

partial_function (option) Send_loop :: "nat \<Rightarrow> netbuf \<Rightarrow> byte list \<Rightarrow> (bool \<times> netbuf \<times> nat \<times> byte list) option" where
  "Send_loop kroom b wire = do {
     let (pos, needSendSize) = SendBuffer_GetBuffer b;
     (if needSendSize = 0 then Some (True, b, kroom, wire)
      else do {
        bs \<leftarrow> mem_read (b_buffer b) pos needSendSize;
        let (n, kroom1) = sys_send bs kroom;
        (if n > 0 then
           let b1 = RemoveDate (nat n) b; wire1 = wire @ take (nat n) bs in
           if nat n < needSendSize then Some (True, b1, kroom1, wire1) else Send_loop kroom1 b1 wire1
         else Some (False, b, kroom1, wire)) }) }"

definition ConnectObj_Send :: "conn_env \<Rightarrow> NetworkLocator \<Rightarrow> nat \<Rightarrow> ConnectObj
    \<Rightarrow> (bool \<times> ConnectObj \<times> NetworkLocator \<times> nat \<times> byte list \<times> conn_effect list) option" where
  "ConnectObj_Send env loc kroom c =
     (if co_state c = CS_Connecting
      then (let (c1, loc1, es) = ChangeStateToConnected env loc c in Some (True, c1, loc1, kroom, [], es))
      else do {
        (ok, b, kroom1, wire) \<leftarrow> Send_loop kroom (co_sendBuffer c) [];
        Some (ok, c\<lparr>co_sendBuffer := b\<rparr>, loc, kroom1, wire, []) })"

section \<open>Facts: reading\<close>

fun kernel_bytes :: "arrival list \<Rightarrow> byte list" where
  "kernel_bytes [] = []"
| "kernel_bytes (Bytes bs # k) = bs @ kernel_bytes k"
| "kernel_bytes (_ # k) = kernel_bytes k"

definition only_bytes :: "arrival list \<Rightarrow> bool" where
  "only_bytes k \<longleftrightarrow> (\<forall>a\<in>set k. \<exists>bs. a = Bytes bs)"

lemma sys_recv_nothing: "only_bytes k \<Longrightarrow> kernel_bytes k = [] \<Longrightarrow> 0 < n \<Longrightarrow> sys_recv n k = (Failed EAGAIN, [])"
  by (induction n k rule: sys_recv.induct) (auto simp: only_bytes_def)

lemma sys_recv_some:
  "only_bytes k \<Longrightarrow> kernel_bytes k \<noteq> [] \<Longrightarrow> 0 < n \<Longrightarrow>
   \<exists>bs k1. sys_recv n k = (Got bs, k1) \<and> bs \<noteq> [] \<and> length bs \<le> n \<and> only_bytes k1
     \<and> kernel_bytes k = bs @ kernel_bytes k1"
proof (induction n k rule: sys_recv.induct)
  case (2 n bs k)
  then show ?case
  proof (cases "bs = []")
    case True
    with 2 show ?thesis by (auto simp: only_bytes_def)
  next
    case False
    then show ?thesis
      using 2 by (cases "length bs \<le> n") (auto simp: only_bytes_def)
  qed
qed (auto simp: only_bytes_def)

lemma Recv_prepare_ok:
  assumes "netbuf_wf b" and "b_bufferSize b + ADDITIONAL_SIZE < 2 ^ 31"
    and "nb_dataSize b + 24 + 2 * ADDITIONAL_SIZE < 2 ^ 31"
  shows "\<exists>b1. Recv_prepare b = Some b1 \<and> netbuf_wf b1 \<and> netbuf_data b1 = netbuf_data b
    \<and> nb_dataSize b1 = nb_dataSize b \<and> b_bufferSize b1 + ADDITIONAL_SIZE < 2 ^ 31 \<and> 0 < netbuf_room b1"
proof (cases "netbuf_room b < 24")
  case True
  obtain b1 where b1: "NetworkBuffer_ReAllocBuffer b = Some b1" "netbuf_wf b1" "netbuf_data b1 = netbuf_data b"
    "b_bufferSize b1 = b_bufferSize b + ADDITIONAL_SIZE" "nb_dataSize b1 = nb_dataSize b"
    using NetworkBuffer_ReAllocBuffer_ok [OF assms(1,2)] by blast
  have "b_bufferSize b < nb_dataSize b + 24"
    using True netbuf_wfD(4) [OF assms(1)] by (simp add: netbuf_room_def)
  with assms(3) b1(4) have "b_bufferSize b1 + ADDITIONAL_SIZE < 2 ^ 31" by linarith
  moreover have "0 < netbuf_room b1"
    using b1(4,5) netbuf_wfD(4) [OF assms(1)] by (simp add: netbuf_room_def ADDITIONAL_SIZE_def)
  ultimately show ?thesis
    using b1 True assms(1) by (simp add: Recv_prepare_def NetworkBuffer_GetEmptySize)
next
  case False
  then show ?thesis using assms by (simp add: Recv_prepare_def NetworkBuffer_GetEmptySize)
qed

lemma GetWriteSize_pos:
  assumes "netbuf_wf b" and "0 < netbuf_room b"
  shows "0 < GetWriteSize b" and "GetWriteSize b \<le> netbuf_room b"
  using assms netbuf_wfD [OF assms(1)] netbuf_end [OF assms(1)]
  by (auto simp: GetWriteSize_exact netbuf_room_def split: if_splits)

text \<open>\<open>recv\<close> into the buffer followed by \<open>FillDate\<close> appends what came.\<close>

lemma recv_appends:
  assumes wf: "netbuf_wf b" and "length bs \<le> GetWriteSize b" and "0 < netbuf_room b"
  shows "\<exists>m. mem_write (b_buffer b) (b_endIndex b) bs = Some m
    \<and> netbuf_wf (FillDate (length bs) (b\<lparr>b_buffer := m\<rparr>))
    \<and> netbuf_data (FillDate (length bs) (b\<lparr>b_buffer := m\<rparr>)) = netbuf_data b @ bs
    \<and> b_bufferSize (FillDate (length bs) (b\<lparr>b_buffer := m\<rparr>)) = b_bufferSize b
    \<and> nb_dataSize (FillDate (length bs) (b\<lparr>b_buffer := m\<rparr>)) = nb_dataSize b + length bs"
proof -
  have "length bs \<le> netbuf_room b" using assms(2) GetWriteSize_pos(2) [OF wf assms(3)] by linarith
  from MemcpyToBuffer_ok [OF wf this] assms(2) show ?thesis
    by (auto simp: MemcpyToBuffer_def Let_def split: bind_splits)
qed

text \<open>All bytes that have arrived end up in the buffer, in whatever pieces they came.\<close>

lemma Recv_read_bytes:
  assumes "only_bytes k" and "netbuf_wf b" and "b_bufferSize b + ADDITIONAL_SIZE < 2 ^ 31"
    and "nb_dataSize b + length (kernel_bytes k) + 24 + 2 * ADDITIONAL_SIZE < 2 ^ 31"
  shows "\<exists>b1. Recv_read k b r = Some ([], b1, True) \<and> netbuf_wf b1
    \<and> netbuf_data b1 = netbuf_data b @ kernel_bytes k \<and> b_bufferSize b1 + ADDITIONAL_SIZE < 2 ^ 31"
  using assms
proof (induction "length (kernel_bytes k)" arbitrary: k b r rule: less_induct)
  case less
  from less.prems(4) have "nb_dataSize b + 24 + 2 * ADDITIONAL_SIZE < 2 ^ 31" by linarith
  from Recv_prepare_ok [OF less.prems(2,3) this] obtain b1 where
    b1: "Recv_prepare b = Some b1" "netbuf_wf b1" "netbuf_data b1 = netbuf_data b"
      "nb_dataSize b1 = nb_dataSize b" "b_bufferSize b1 + ADDITIONAL_SIZE < 2 ^ 31" "0 < netbuf_room b1"
    by blast
  note w = GetWriteSize_pos(1) [OF b1(2,6)]
  show ?case
  proof (cases "kernel_bytes k = []")
    case True
    with sys_recv_nothing [OF less.prems(1) True w] b1 show ?thesis
      by (subst Recv_read.simps) (simp add: RecvBuffer_GetBuffer_def IsError_def)
  next
    case False
    from sys_recv_some [OF less.prems(1) False w] obtain bs k1 where
      k1: "sys_recv (GetWriteSize b1) k = (Got bs, k1)" "bs \<noteq> []" "length bs \<le> GetWriteSize b1"
        "only_bytes k1" "kernel_bytes k = bs @ kernel_bytes k1" by blast
    from recv_appends [OF b1(2) k1(3) b1(6)] obtain m where
      m: "mem_write (b_buffer b1) (b_endIndex b1) bs = Some m" and
      b2: "netbuf_wf (FillDate (length bs) (b1\<lparr>b_buffer := m\<rparr>))"
        "netbuf_data (FillDate (length bs) (b1\<lparr>b_buffer := m\<rparr>)) = netbuf_data b1 @ bs"
        "b_bufferSize (FillDate (length bs) (b1\<lparr>b_buffer := m\<rparr>)) = b_bufferSize b1"
        "nb_dataSize (FillDate (length bs) (b1\<lparr>b_buffer := m\<rparr>)) = nb_dataSize b1 + length bs" by blast
    let ?b2 = "FillDate (length bs) (b1\<lparr>b_buffer := m\<rparr>)"
    have "length (kernel_bytes k1) < length (kernel_bytes k)" using k1(2,5) by simp
    moreover have "nb_dataSize ?b2 + length (kernel_bytes k1) + 24 + 2 * ADDITIONAL_SIZE < 2 ^ 31"
      using less.prems(4) b2(4) b1(4) k1(5) by simp
    moreover have "b_bufferSize ?b2 + ADDITIONAL_SIZE < 2 ^ 31" using b2(3) b1(5) by simp
    ultimately obtain b3 where "Recv_read k1 ?b2 True = Some ([], b3, True)" "netbuf_wf b3"
      "netbuf_data b3 = netbuf_data ?b2 @ kernel_bytes k1" "b_bufferSize b3 + ADDITIONAL_SIZE < 2 ^ 31"
      using less.hyps [of k1 ?b2 True] k1(4) b2(1) by blast
    with b1(1,3) k1(1,2,5) m b2(2) show ?thesis
      by (subst Recv_read.simps) (simp add: RecvBuffer_GetBuffer_def)
  qed
qed

section \<open>Facts: the packets of a stream of frames\<close>

definition plain_message :: "packet \<Rightarrow> bool" where
  "plain_message p \<longleftrightarrow> frame_fits p \<and> \<not> IsHttpMsg (p_msgId p) \<and> p_msgId p \<in> set MsgId_numbers
     \<and> p_msgId p \<noteq> MI_Ping"

definition incomplete :: "byte list \<Rightarrow> bool" where
  "incomplete bs \<longleftrightarrow> length bs < 2 \<or> (\<exists>n r. bs = le_enc 2 n @ r \<and> n < 2 ^ 16 \<and> length bs < n)"

definition delivers :: "NetIdentify \<Rightarrow> packet \<Rightarrow> conn_effect \<Rightarrow> bool" where
  "delivers i p e \<longleftrightarrow> (\<exists>q. e = CDispatch q \<and> received i (frame_head p) (packet_data p) q \<and> p_msgId q = p_msgId p)"

lemma GetTcpPacket_plain:
  assumes "plain_message p" and "netbuf_wf b" and "netbuf_data b = frame_bytes p @ rest" and "pool_packet fresh"
  shows "\<exists>b1 q. GetTcpPacket i fresh b = Some (b1, Recv_Packet q) \<and> netbuf_wf b1 \<and> netbuf_data b1 = rest
    \<and> received i (frame_head p) (packet_data p) q \<and> p_msgId q = p_msgId p"
proof -
  note p = assms(1) [unfolded plain_message_def]
  have data: "netbuf_data b = le_enc 2 (length (frame_head p) + 4 + length (packet_data p))
      @ le_enc 2 (length (frame_head p)) @ frame_head p @ packet_data p @ rest"
    using p assms(3) by (simp add: frame_bytes_def)
  have "length (frame_head p) = 2 \<or> length (frame_head p) = 20"
    by (auto simp: length_frame_head split: option.splits)
  moreover have "length (packet_data p) + 24 < 2 ^ 16" using p by (simp add: frame_fits_def)
  moreover have id: "int (le_dec (take 2 (frame_head p))) = p_msgId p" using p by (intro frame_head_MsgId) simp
  ultimately obtain b1 q where "GetTcpPacket i fresh b = Some (b1, Recv_Packet q)" "netbuf_wf b1"
      "netbuf_data b1 = rest" "received i (frame_head p) (packet_data p) q"
    using GetTcpPacket_frame [OF assms(2) data, of fresh i] p assms(4) by (auto simp: pool_packet_def)
  moreover from this(4) have "p_msgId q = p_msgId p" by (simp add: received_def id)
  ultimately show ?thesis by blast
qed

lemma Recv_packet_plain:
  "IsTcp t \<Longrightarrow> p_msgId q \<noteq> MI_Ping \<Longrightarrow> Recv_packet t q = [CDispatch q]"
  by (simp add: Recv_packet_def Packet_GetMsgId_def)

lemma Recv_packets_frames:
  assumes "IsTcp (ce_networkType env)" and "\<And>n. pool_packet (ce_fresh env n)"
    and "GetTagValue TagAccount (ni_tagKey c) = None" and "\<forall>p\<in>set ps. plain_message p" and "incomplete rest"
    and "netbuf_wf (co_recvBuffer c)"
    and "netbuf_data (co_recvBuffer c) = concat (map frame_bytes ps) @ rest"
  shows "\<exists>b es. Recv_packets env n c out = Some (c\<lparr>co_recvBuffer := b\<rparr>, out @ es) \<and> netbuf_wf b
    \<and> netbuf_data b = rest \<and> list_all2 (delivers (NetIdentify.truncate c)) ps es"
  using assms(3-)
proof (induction ps arbitrary: n c out)
  case Nil
  then have "GetTcpPacket (NetIdentify.truncate c) (ce_fresh env n) (co_recvBuffer c)
      = Some (co_recvBuffer c, Recv_Wait)"
    using length_netbuf_data [OF Nil.prems(4)] by (intro GetTcpPacket_wait) (auto simp: incomplete_def)
  then have "Recv_packets env n c out = Some (c\<lparr>co_recvBuffer := co_recvBuffer c\<rparr>, out @ [])"
    using assms(1) by (subst Recv_packets.simps) (simp add: GetPacket_def)
  with Nil show ?case by (intro exI [of _ "co_recvBuffer c"] exI [of _ "[]"]) simp
next
  case (Cons p ps)
  from Cons.prems have p: "plain_message p" and data:
    "netbuf_data (co_recvBuffer c) = frame_bytes p @ concat (map frame_bytes ps) @ rest" by simp_all
  from GetTcpPacket_plain [OF p Cons.prems(4) data assms(2)] obtain b1 q where
    q: "GetTcpPacket (NetIdentify.truncate c) (ce_fresh env n) (co_recvBuffer c) = Some (b1, Recv_Packet q)"
      "netbuf_wf b1" "netbuf_data b1 = concat (map frame_bytes ps) @ rest"
      "received (NetIdentify.truncate c) (frame_head p) (packet_data p) q" "p_msgId q = p_msgId p" by blast
  let ?c1 = "c\<lparr>co_recvBuffer := b1\<rparr>"
  have "\<exists>b es. Recv_packets env (n + 1) ?c1 (out @ [CDispatch q])
        = Some (?c1\<lparr>co_recvBuffer := b\<rparr>, (out @ [CDispatch q]) @ es) \<and> netbuf_wf b
      \<and> netbuf_data b = rest \<and> list_all2 (delivers (NetIdentify.truncate ?c1)) ps es"
    by (rule Cons.IH) (use Cons.prems q(2,3) in simp_all)
  then obtain b es where b: "Recv_packets env (n + 1) ?c1 (out @ [CDispatch q])
      = Some (c\<lparr>co_recvBuffer := b\<rparr>, out @ CDispatch q # es)" "netbuf_wf b" "netbuf_data b = rest"
      "list_all2 (delivers (NetIdentify.truncate c)) ps es"
    by (auto simp: NetIdentify.truncate_def)
  have "Recv_packet (ce_networkType env) (Recv_tag_entity (ce_socketLocator env) (ni_tagKey c) q) = [CDispatch q]"
    using Recv_packet_plain [OF assms(1), of q] p q(5) Cons.prems(1)
    by (simp add: Recv_tag_entity_def plain_message_def)
  then have "Recv_packets env n c out = Recv_packets env (n + 1) ?c1 (out @ [CDispatch q])"
    using q(1) assms(1) by (subst Recv_packets.simps) (simp add: GetPacket_def)
  moreover have "delivers (NetIdentify.truncate c) p (CDispatch q)" using q(4,5) by (simp add: delivers_def)
  ultimately show ?case using b by auto
qed

text \<open>One round of the loop of \<open>ConnectObj::Send\<close>: nothing fits, or the front of the buffer is sent.\<close>

lemma Send_loop_front:
  assumes wf: "netbuf_wf b" and data: "nb_dataSize b \<noteq> 0"
  defines "n \<equiv> GetReadSize b"
  shows "0 < n" and "n \<le> nb_dataSize b"
    and "mem_read (b_buffer b) (b_beginIndex b) n = Some (take n (netbuf_data b))"
    and "length (take n (netbuf_data b)) = n"
    and "SendBuffer_GetBuffer b = (b_beginIndex b, n)"
proof -
  have n: "n = min (nb_dataSize b) (b_bufferSize b - b_beginIndex b)" unfolding n_def by (rule GetReadSize_exact [OF wf])
  then show "0 < n" using netbuf_wfD [OF wf] data by simp
  from n show le: "n \<le> nb_dataSize b" by simp
  from MemcpyFromBuffer_ok [OF wf le]
  show "mem_read (b_buffer b) (b_beginIndex b) n = Some (take n (netbuf_data b))" by (simp add: MemcpyFromBuffer_def Let_def n_def)
  show "length (take n (netbuf_data b)) = n" using le length_netbuf_data [OF wf] by simp
  show "SendBuffer_GetBuffer b = (b_beginIndex b, n)" using data by (simp add: SendBuffer_GetBuffer_def GetReadSize_def n_def)
qed

lemma Send_loop_empty: "nb_dataSize b = 0 \<Longrightarrow> netbuf_wf b \<Longrightarrow> Send_loop kroom b wire = Some (True, b, kroom, wire)"
  using GetReadSize_exact [of b] by (subst Send_loop.simps) (simp add: SendBuffer_GetBuffer_def)

lemma Send_loop_step:
  assumes "netbuf_wf b" and "nb_dataSize b \<noteq> 0" and "kroom \<noteq> 0"
  defines "n \<equiv> GetReadSize b"
  shows "Send_loop kroom b wire = (let k = min n kroom; b1 = RemoveDate k b; w = wire @ take k (netbuf_data b) in
           if k < n then Some (True, b1, kroom - n, w) else Send_loop (kroom - n) b1 w)"
proof -
  note f = Send_loop_front [OF assms(1,2), folded n_def]
  obtain bs where bs: "bs = take n (netbuf_data b)" by simp
  have send: "sys_send bs kroom = (int (min n kroom), kroom - n)"
    using f(4) assms(3) by (simp add: sys_send_def bs)
  have "take (min n kroom) bs = take (min n kroom) (netbuf_data b)" by (simp add: bs min.commute)
  with f(3) [folded bs] send f(1,5) assms(2,3) show ?thesis by (subst Send_loop.simps) (simp add: Let_def)
qed

text \<open>Sending takes bytes from the front of the buffer, in order.\<close>

lemma Send_loop_ok:
  assumes "netbuf_wf b"
  shows "\<exists>ok b1 r sent. Send_loop kroom b wire = Some (ok, b1, r, wire @ sent) \<and> netbuf_wf b1
    \<and> sent @ netbuf_data b1 = netbuf_data b \<and> b_bufferSize b1 = b_bufferSize b
    \<and> (nb_dataSize b \<le> kroom \<longrightarrow> ok \<and> netbuf_data b1 = [])"
  using assms
proof (induction "nb_dataSize b" arbitrary: b kroom wire rule: less_induct)
  case less
  consider (empty) "nb_dataSize b = 0" | (full) "nb_dataSize b \<noteq> 0" "kroom = 0" | (send) "nb_dataSize b \<noteq> 0" "kroom \<noteq> 0"
    by blast
  then show ?case
  proof cases
    case empty
    then have "netbuf_data b = []" using length_netbuf_data [OF less.prems] by simp
    with empty less.prems show ?thesis by (simp add: Send_loop_empty) blast
  next
    case full
    with less.prems Send_loop_front [OF less.prems full(1)] show ?thesis
      by (subst Send_loop.simps) (simp add: sys_send_def, blast)
  next
    case send
    note f = Send_loop_front [OF less.prems send(1)]
    let ?n = "GetReadSize b"
    let ?k = "min ?n kroom" and ?b1 = "RemoveDate (min ?n kroom) b"
    have k: "?k \<le> nb_dataSize b" "0 < ?k" using f(1,2) send(2) by auto
    note r = RemoveDate_ok [OF less.prems k(1)] and step = Send_loop_step [OF less.prems send, unfolded Let_def]
    have sz: "b_bufferSize ?b1 = b_bufferSize b" by (simp add: RemoveDate_def Let_def)
    show ?thesis
    proof (cases "?k < ?n")
      case True
      then have "\<not> nb_dataSize b \<le> kroom" using f(2) by (auto simp: min_def split: if_splits)
      with True step r sz show ?thesis by auto
    next
      case False
      then have kn: "?k = ?n" by simp
      have "nb_dataSize ?b1 < nb_dataSize b" using r(3) k by linarith
      from less.hyps [OF this r(1), of "kroom - ?n" "wire @ take ?k (netbuf_data b)"] obtain ok b2 q sent where
        i: "Send_loop (kroom - ?n) ?b1 (wire @ take ?k (netbuf_data b)) = Some (ok, b2, q, (wire @ take ?k (netbuf_data b)) @ sent)"
          "netbuf_wf b2" "sent @ netbuf_data b2 = netbuf_data ?b1" "b_bufferSize b2 = b_bufferSize ?b1"
          "nb_dataSize ?b1 \<le> kroom - ?n \<longrightarrow> ok \<and> netbuf_data b2 = []" by blast
      have "take ?k (netbuf_data b) @ sent @ netbuf_data b2 = netbuf_data b" using i(3) r(2) by simp
      moreover have "nb_dataSize b \<le> kroom \<Longrightarrow> nb_dataSize ?b1 \<le> kroom - ?n" using r(3) kn by linarith
      ultimately show ?thesis
        using i step False sz
        by (intro exI [of _ ok] exI [of _ b2] exI [of _ q] exI [of _ "take ?k (netbuf_data b) @ sent"]) simp
    qed
  qed
qed

lemma Recv_stream:
  assumes "co_state c = CS_Connected" and "IsTcp (ce_networkType env)"
    and "\<And>n. pool_packet (ce_fresh env n)" and "GetTagValue TagAccount (ni_tagKey c) = None"
    and "netbuf_wf (co_recvBuffer c)" and "b_bufferSize (co_recvBuffer c) + ADDITIONAL_SIZE < 2 ^ 31"
    and "only_bytes k"
    and "nb_dataSize (co_recvBuffer c) + length (kernel_bytes k) + 24 + 2 * ADDITIONAL_SIZE < 2 ^ 31"
    and "netbuf_data (co_recvBuffer c) @ kernel_bytes k = concat (map frame_bytes ps) @ rest"
    and "\<forall>p\<in>set ps. plain_message p" and "incomplete rest"
  shows "\<exists>b es. ConnectObj_Recv env loc k c = Some (True, c\<lparr>co_recvBuffer := b\<rparr>, loc, [], es)
    \<and> netbuf_wf b \<and> netbuf_data b = rest \<and> list_all2 (delivers (NetIdentify.truncate c)) ps es"
proof -
  from Recv_read_bytes [OF assms(7,5,6,8)] obtain b1 where
    b1: "Recv_read k (co_recvBuffer c) False = Some ([], b1, True)" "netbuf_wf b1"
      "netbuf_data b1 = concat (map frame_bytes ps) @ rest"
    using assms(9) by auto
  let ?c1 = "c\<lparr>co_recvBuffer := b1\<rparr>"
  have "\<exists>b es. Recv_packets env 0 ?c1 [] = Some (?c1\<lparr>co_recvBuffer := b\<rparr>, [] @ es) \<and> netbuf_wf b
    \<and> netbuf_data b = rest \<and> list_all2 (delivers (NetIdentify.truncate ?c1)) ps es"
    by (rule Recv_packets_frames [OF assms(2,3)]) (use assms b1 in simp_all)
  then obtain b es where "Recv_packets env 0 ?c1 [] = Some (c\<lparr>co_recvBuffer := b\<rparr>, es)" "netbuf_wf b"
    "netbuf_data b = rest" "list_all2 (delivers (NetIdentify.truncate c)) ps es"
    by (auto simp: NetIdentify.truncate_def)
  with assms(1) b1(1) show ?thesis
    by (intro exI [of _ b] exI [of _ es]) (simp add: ConnectObj_Recv_def)
qed

lemma Send_stream:
  assumes "netbuf_wf (co_sendBuffer c)"
  shows "\<exists>ok c1 loc1 r sent es. ConnectObj_Send env loc kroom c = Some (ok, c1, loc1, r, sent, es)
    \<and> netbuf_wf (co_sendBuffer c1) \<and> sent @ netbuf_data (co_sendBuffer c1) = netbuf_data (co_sendBuffer c)
    \<and> (co_state c \<noteq> CS_Connecting \<and> nb_dataSize (co_sendBuffer c) \<le> kroom \<longrightarrow>
         ok \<and> sent = netbuf_data (co_sendBuffer c))"
proof (cases "co_state c = CS_Connecting")
  case True
  obtain c1 loc1 es where e: "ChangeStateToConnected env loc c = (c1, loc1, es)" by (metis prod_cases3)
  then have "co_sendBuffer c1 = co_sendBuffer c"
    by (auto simp: ChangeStateToConnected_def Let_def split: option.splits prod.splits)
  with e True assms show ?thesis by (simp add: ConnectObj_Send_def, blast)
next
  case False
  from Send_loop_ok [OF assms, of kroom "[]"] obtain ok b1 r sent where
    b1: "Send_loop kroom (co_sendBuffer c) [] = Some (ok, b1, r, sent)" "netbuf_wf b1"
      "sent @ netbuf_data b1 = netbuf_data (co_sendBuffer c)"
      "nb_dataSize (co_sendBuffer c) \<le> kroom \<longrightarrow> ok \<and> netbuf_data b1 = []" by auto
  have e: "ConnectObj_Send env loc kroom c = Some (ok, c\<lparr>co_sendBuffer := b1\<rparr>, loc, r, sent, [])"
    using False b1(1) by (simp add: ConnectObj_Send_def)
  show ?thesis
    by (intro exI [of _ ok] exI [of _ "c\<lparr>co_sendBuffer := b1\<rparr>"] exI [of _ loc] exI [of _ r]
        exI [of _ sent] exI [of _ "[]"] conjI impI e) (use b1 in auto)
qed

section \<open>Properties\<close>

text \<open>A TCP stream is cut back into its messages. Whatever pieces the kernel delivers, if the
  bytes already buffered followed by the bytes that arrive are the frames of the messages \<open>ps\<close>
  and the beginning of another frame, \<open>Recv\<close> dispatches exactly \<open>ps\<close>, in order, each with its
  number, body and entity tags and the identity of the connection, keeps the incomplete rest and
  reports success.\<close>

theorem ConnectObj_Recv_frames:
  assumes "co_state c = CS_Connected" and "IsTcp (ce_networkType env)"
    and "\<And>n. pool_packet (ce_fresh env n)" and "GetTagValue TagAccount (ni_tagKey c) = None"
    and "netbuf_wf (co_recvBuffer c)" and "b_bufferSize (co_recvBuffer c) + ADDITIONAL_SIZE < 2 ^ 31"
    and "only_bytes k"
    and "nb_dataSize (co_recvBuffer c) + length (kernel_bytes k) + 24 + 2 * ADDITIONAL_SIZE < 2 ^ 31"
    and "netbuf_data (co_recvBuffer c) @ kernel_bytes k = concat (map frame_bytes ps) @ rest"
    and "\<forall>p\<in>set ps. plain_message p" and "incomplete rest"
  shows "\<exists>b es. ConnectObj_Recv env loc k c = Some (True, c\<lparr>co_recvBuffer := b\<rparr>, loc, [], es)
    \<and> netbuf_wf b \<and> netbuf_data b = rest \<and> list_all2 (delivers (NetIdentify.truncate c)) ps es"
  by (rule Recv_stream [OF assms])

text \<open>C19: nothing queued on a connection is lost, repeated or reordered by \<open>Send\<close>: what the
  kernel takes followed by what stays in the buffer is what was in the buffer. When the kernel has
  room for all of it, all of it is sent.\<close>

theorem ConnectObj_Send_stream:
  assumes "netbuf_wf (co_sendBuffer c)"
  shows "\<exists>ok c1 loc1 r sent es. ConnectObj_Send env loc kroom c = Some (ok, c1, loc1, r, sent, es)
    \<and> netbuf_wf (co_sendBuffer c1) \<and> sent @ netbuf_data (co_sendBuffer c1) = netbuf_data (co_sendBuffer c)
    \<and> (co_state c \<noteq> CS_Connecting \<and> nb_dataSize (co_sendBuffer c) \<le> kroom \<longrightarrow>
         ok \<and> sent = netbuf_data (co_sendBuffer c))"
  by (rule Send_stream [OF assms])

text \<open>A broken connection is reported as alive. \<open>isRs = socketError != 0\<close> holds for every
  error, so \<open>Recv\<close> succeeds although \<open>recv\<close> failed with, say, \<open>ECONNRESET\<close>; the branch that
  would tell retry from failure only repeats the result.\<close>

theorem ConnectObj_Recv_ignores_errors:
  assumes "co_state c = CS_Connected" and "IsTcp (ce_networkType env)" and "e \<noteq> 0"
    and "netbuf_wf (co_recvBuffer c)" and "nb_dataSize (co_recvBuffer c) = 0"
    and "24 \<le> b_bufferSize (co_recvBuffer c)"
  shows "ConnectObj_Recv env loc (SockErr e # k) c = Some (True, c, loc, k, [])"
proof -
  let ?b = "co_recvBuffer c"
  have p: "Recv_prepare ?b = Some ?b"
    using assms(4-6) by (simp add: Recv_prepare_def NetworkBuffer_GetEmptySize netbuf_room_def)
  have "Recv_read (SockErr e # k) ?b False = Some (k, ?b, True)"
    using assms(3) by (subst Recv_read.simps) (simp add: p RecvBuffer_GetBuffer_def IsError_def)
  moreover have "GetTcpPacket (NetIdentify.truncate c) (ce_fresh env 0) ?b = Some (?b, Recv_Wait)"
    using assms(4,5) by (intro GetTcpPacket_wait) simp_all
  then have "Recv_packets env 0 (c\<lparr>co_recvBuffer := ?b\<rparr>) [] = Some (c\<lparr>co_recvBuffer := ?b\<rparr>, [])"
    using assms(2) by (subst Recv_packets.simps) (simp add: GetPacket_def)
  ultimately show ?thesis using assms(1) by (simp add: ConnectObj_Recv_def)
qed

definition sample_env :: conn_env where
  "sample_env = \<lparr>ce_networkType = TcpListen, ce_mongoose = sample_mongoose 0 undefined,
     ce_encHttp = (\<lambda>_. []), ce_fresh = (\<lambda>_. Packet_new), ce_curAppType = APP_GAME, ce_register = [],
     ce_socketLocator = None\<rparr>"

definition sample_conn :: ConnectObj where
  "sample_conn = ConnectObj_Awake 7 TcpListen TagNone \<lparr>KeyStr = '''', KeyInt64 = 0\<rparr> CS_Connected
     (ConnectObj_new\<lparr>co_recvBuffer := NetworkBuffer_new 64, co_sendBuffer := NetworkBuffer_new 64\<rparr>)"

lemma sample_conn_simps:
  "co_state sample_conn = CS_Connected" "ni_tagKey sample_conn = []"
  "co_recvBuffer sample_conn = NetworkBuffer_new 64" "co_sendBuffer sample_conn = NetworkBuffer_new 64"
  by (simp_all add: sample_conn_def ConnectObj_Awake_def TagKey_Clear_def)

lemma sample_plain: "plain_message sample_packet"
  by (simp add: plain_message_def sample_frame_fits sample_packet_simps IsHttpMsg_def MsgId_numbers_def)

text \<open>One message in two pieces, and one byte of the next.\<close>

theorem ConnectObj_Recv_frames_witness:
  "\<exists>b es. ConnectObj_Recv sample_env sample_locator
       [Bytes (take 9 (frame_bytes sample_packet)), Bytes (drop 9 (frame_bytes sample_packet) @ [1])] sample_conn
     = Some (True, sample_conn\<lparr>co_recvBuffer := b\<rparr>, sample_locator, [], es)
     \<and> netbuf_data b = [1] \<and> list_all2 (delivers (NetIdentify.truncate sample_conn)) [sample_packet] es"
proof -
  let ?k = "[Bytes (take 9 (frame_bytes sample_packet)), Bytes (drop 9 (frame_bytes sample_packet) @ [1])]"
  let ?b = "NetworkBuffer_new 64"
  have "netbuf_wf ?b" by (rule netbuf_wf_new) simp_all
  moreover have "only_bytes ?k" by (simp add: only_bytes_def)
  moreover have "kernel_bytes ?k = concat (map frame_bytes [sample_packet]) @ [1]" by simp
  moreover have "length (frame_bytes sample_packet) = 27" by (simp add: sample_frame)
  moreover have "\<And>n. pool_packet (ce_fresh sample_env n)" by (simp add: sample_env_def pool_packet_new)
  moreover have "IsTcp (ce_networkType sample_env)" by (simp add: sample_env_def IsTcp_def)
  moreover have "incomplete [1]" by (simp add: incomplete_def)
  moreover have "b_bufferSize ?b = 64" "nb_dataSize ?b = 0" by (simp_all add: NetworkBuffer_new_def)
  ultimately show ?thesis
    using ConnectObj_Recv_frames [of sample_conn sample_env ?k "[sample_packet]" "[1]" sample_locator]
    by (simp add: sample_conn_simps sample_plain ADDITIONAL_SIZE_def) blast
qed

theorem ConnectObj_Send_stream_witness:
  "let c = sample_conn\<lparr>co_sendBuffer := \<lparr>b_buffer = [3, 4, 0, 1, 2], b_beginIndex = 3, b_endIndex = 2,
             b_bufferSize = 5, nb_dataSize = 4\<rparr>\<rparr>
   in \<exists>c1 loc1 r es. ConnectObj_Send sample_env sample_locator 10 c = Some (True, c1, loc1, r, [1, 2, 3, 4], es)"
proof -
  let ?b = "\<lparr>b_buffer = [3, 4, 0, 1, 2], b_beginIndex = 3, b_endIndex = 2, b_bufferSize = 5, nb_dataSize = 4\<rparr> :: netbuf"
  let ?c = "sample_conn\<lparr>co_sendBuffer := ?b\<rparr>"
  have "netbuf_wf ?b" "netbuf_data ?b = [1, 2, 3, 4]"
    by (simp_all add: netbuf_wf_def size_ok_def netbuf_data_def ring_bytes_def)
  with ConnectObj_Send_stream [of ?c sample_env sample_locator 10] show ?thesis
    by (auto simp: sample_conn_simps)
qed

theorem ConnectObj_Recv_ignores_errors_witness:
  "ConnectObj_Recv sample_env sample_locator [SockErr 104] sample_conn
   = Some (True, sample_conn, sample_locator, [], [])"
  by (rule ConnectObj_Recv_ignores_errors)
     (simp_all add: sample_conn_simps netbuf_wf_new, simp_all add: sample_env_def IsTcp_def NetworkBuffer_new_def)

end
