(* ===== verification/Network.thy ===== *)
theory Network
  imports Connect_Obj Cache
begin

text \<open>
  \<open>network.{h,cpp}\<close>, \<open>network_listen.{h,cpp}\<close> and \<open>network_connector.{h,cpp}\<close>: a set of
  connections on one thread, driven by \<open>epoll\<close> (the build defines \<open>EPOLL\<close>; the \<open>select\<close> variant
  is here too). The kernel's answers are arguments. \<open>None\<close> is a null pointer or an index outside
  \<open>_connects\<close>.
\<close>

section \<open>State\<close>

definition MAX_CLIENT :: int where "MAX_CLIENT = 5120"

text \<open>The events a descriptor is registered for, and those \<open>epoll_wait\<close> reports.\<close>

record epoll_flags =
  ep_IN :: bool
  ep_OUT :: bool
  ep_ET :: bool
  ep_RDHUP :: bool

record epoll_event = epoll_flags +
  ev_fd :: socket
  ev_ERR :: bool
  ev_HUP :: bool

record Network =
  nw_networkType :: NetworkType
  nw_connects :: "socket \<Rightarrow> ConnectObj option"
  nw_sockets :: "socket sset"
  nw_epfd :: "(socket \<rightharpoonup> epoll_flags) option"
  nw_sendMsgList :: "packet CacheSwap"

text \<open>What the network's thread shares with the rest of the process and the kernel: the locator,
  what has arrived on a socket, how much it will take, what has been put on the wire, effects.\<close>

record net_io =
  io_locator :: NetworkLocator
  io_arrivals :: "socket \<Rightarrow> arrival list"
  io_room :: "socket \<Rightarrow> nat"
  io_wire :: "socket \<Rightarrow> byte list"
  io_effects :: "conn_effect list"

definition io_emit :: "conn_effect list \<Rightarrow> net_io \<Rightarrow> net_io" where
  "io_emit es io = io\<lparr>io_effects := io_effects io @ es\<rparr>"

definition Network_new :: "NetworkType \<Rightarrow> Network" where
  "Network_new t = \<lparr>nw_networkType = t, nw_connects = (\<lambda>_. None), nw_sockets = [], nw_epfd = None,
     nw_sendMsgList = CacheSwap_new\<rparr>"

text \<open>\<open>_connects[socket]\<close>: outer \<open>None\<close> when out of bounds.\<close>

definition connects_at :: "socket \<Rightarrow> 'a Network_scheme \<Rightarrow> ConnectObj option option" where
  "connects_at socket s = (if 0 \<le> socket \<and> socket < MAX_CLIENT then Some (nw_connects s socket) else None)"

definition connects_set :: "socket \<Rightarrow> ConnectObj option \<Rightarrow> 'a Network_scheme \<Rightarrow> 'a Network_scheme" where
  "connects_set socket c s = s\<lparr>nw_connects := (nw_connects s)(socket := c)\<rparr>"

section \<open>\<open>epoll\<close>\<close>

definition InitEpoll :: "'a Network_scheme \<Rightarrow> 'a Network_scheme" where
  "InitEpoll s = s\<lparr>nw_epfd := Some (\<lambda>_. None)\<rparr>"

definition AddEvent :: "socket \<Rightarrow> epoll_flags \<Rightarrow> 'a Network_scheme \<Rightarrow> 'a Network_scheme" where
  "AddEvent fd flag s =
     s\<lparr>nw_epfd := map_option (\<lambda>m. case m fd of None \<Rightarrow> m(fd \<mapsto> flag) | Some _ \<Rightarrow> m) (nw_epfd s)\<rparr>"

definition ModifyEvent :: "socket \<Rightarrow> epoll_flags \<Rightarrow> 'a Network_scheme \<Rightarrow> 'a Network_scheme" where
  "ModifyEvent fd flag s =
     s\<lparr>nw_epfd := map_option (\<lambda>m. case m fd of None \<Rightarrow> m | Some _ \<Rightarrow> m(fd \<mapsto> flag)) (nw_epfd s)\<rparr>"

definition DeleteEvent :: "socket \<Rightarrow> 'a Network_scheme \<Rightarrow> 'a Network_scheme" where
  "DeleteEvent fd s = s\<lparr>nw_epfd := map_option (\<lambda>m. m(fd := None)) (nw_epfd s)\<rparr>"

section \<open>Connections\<close>

text \<open>The macro \<open>RemoveConnectObj\<close>.\<close>

definition RemoveConnectObj :: "socket \<Rightarrow> 'a Network_scheme \<times> net_io \<Rightarrow> ('a Network_scheme \<times> net_io) option" where
  "RemoveConnectObj socket si = (case si of (s, io) \<Rightarrow> do {
     c \<leftarrow> connects_at socket s;
     pObj \<leftarrow> c;
     let (_, es) = ConnectObj_BackToPool pObj;
     let s1 = DeleteEvent socket (connects_set socket None s);
     Some (s1\<lparr>nw_sockets := ss_erase socket (nw_sockets s1)\<rparr>, io_emit es io) })"

text \<open>\<open>so_error\<close> is \<open>getsockopt(SO_ERROR)\<close>, \<open>None\<close> when it fails; \<open>EBADF\<close> is 9.\<close>

definition CheckSocket :: "int option \<Rightarrow> socket \<Rightarrow> net_io \<Rightarrow> bool \<times> net_io" where
  "CheckSocket so_error socket io =
     (let err = (case so_error of Some e \<Rightarrow> if \<not> IsError e then 0 else e | None \<Rightarrow> 9)
      in if err \<noteq> 0 then (False, io_emit [CClose socket] io) else (True, io))"

text \<open>\<open>pooled\<close> is the object the connection pool hands out.\<close>

definition CreateConnectObj :: "int option \<Rightarrow> ConnectObj \<Rightarrow> socket \<Rightarrow> TagType \<Rightarrow> TagValue \<Rightarrow> ConnectStateType
    \<Rightarrow> 'a Network_scheme \<times> net_io \<Rightarrow> (bool \<times> 'a Network_scheme \<times> net_io) option" where
  "CreateConnectObj so_error pooled socket tagType tagValue iState si = (case si of (s, io) \<Rightarrow>
     (let (ok, io1) = CheckSocket so_error socket io in
      if \<not> ok then Some (False, s, io1) else do {
        c \<leftarrow> connects_at socket s;
        (if c \<noteq> None then do {
           si1 \<leftarrow> RemoveConnectObj socket (s, io1);
           Some (False, si1) }
         else
           let pConnectObj = ConnectObj_Awake socket (nw_networkType s) tagType tagValue iState pooled;
               s1 = connects_set socket (Some pConnectObj) s;
               s2 = s1\<lparr>nw_sockets := ss_insert socket (nw_sockets s1)\<rparr>
           in Some (True, AddEvent socket \<lparr>ep_IN = True, ep_OUT = True, ep_ET = True, ep_RDHUP = True\<rparr> s2, io1)) }))"

definition Network_HandleDisconnect :: "packet \<Rightarrow> 'a Network_scheme \<times> net_io \<Rightarrow> ('a Network_scheme \<times> net_io) option" where
  "Network_HandleDisconnect pPacket si = (case si of (s, io) \<Rightarrow>
     (if sk_NetType (p_socketKey pPacket) \<noteq> nw_networkType s then Some (s, io)
      else do {
        c \<leftarrow> connects_at (sk_Socket (p_socketKey pPacket)) s;
        (if c = None then Some (s, io) else RemoveConnectObj (sk_Socket (p_socketKey pPacket)) (s, io)) }))"

text \<open>\<open>BackToPool\<close>: the queued packets (returned first) and every connection go back.\<close>

fun BackToPool_connects :: "socket list \<Rightarrow> 'a Network_scheme \<times> net_io \<Rightarrow> ('a Network_scheme \<times> net_io) option" where
  "BackToPool_connects [] si = Some si"
| "BackToPool_connects (socket # sockets) (s, io) = do {
     c \<leftarrow> connects_at socket s;
     pObj \<leftarrow> c;
     BackToPool_connects sockets (connects_set socket None s, io_emit (snd (ConnectObj_BackToPool pObj)) io) }"

definition Network_BackToPool :: "'a Network_scheme \<times> net_io \<Rightarrow> (packet list \<times> 'a Network_scheme \<times> net_io) option" where
  "Network_BackToPool si = (case si of (s, io) \<Rightarrow>
     (let (packets, list) = CacheSwap_BackToPool (nw_sendMsgList s) in do {
        (s1, io1) \<leftarrow> BackToPool_connects (nw_sockets s) (s\<lparr>nw_sendMsgList := list\<rparr>, io);
        Some (packets, s1\<lparr>nw_sockets := [], nw_epfd := None\<rparr>, io1) }))"

section \<open>Events\<close>

text \<open>\<open>Recv\<close> and \<open>Send\<close> of the connection on a socket, with its share of the kernel's state.\<close>

definition do_Recv :: "conn_env \<Rightarrow> socket \<Rightarrow> ConnectObj \<Rightarrow> 'a Network_scheme \<times> net_io
    \<Rightarrow> (bool \<times> 'a Network_scheme \<times> net_io) option" where
  "do_Recv env socket c si = (case si of (s, io) \<Rightarrow> do {
     (ok, c1, loc, k, es) \<leftarrow> ConnectObj_Recv (env\<lparr>ce_networkType := nw_networkType s\<rparr>) (io_locator io)
                              (io_arrivals io socket) c;
     Some (ok, connects_set socket (Some c1) s,
           io_emit es (io\<lparr>io_locator := loc, io_arrivals := (io_arrivals io)(socket := k)\<rparr>)) })"

definition do_Send :: "conn_env \<Rightarrow> socket \<Rightarrow> ConnectObj \<Rightarrow> 'a Network_scheme \<times> net_io
    \<Rightarrow> (bool \<times> 'a Network_scheme \<times> net_io) option" where
  "do_Send env socket c si = (case si of (s, io) \<Rightarrow> do {
     (ok, c1, loc, r, sent, es) \<leftarrow> ConnectObj_Send (env\<lparr>ce_networkType := nw_networkType s\<rparr>) (io_locator io)
                                    (io_room io socket) c;
     Some (ok, connects_set socket (Some c1) s,
           io_emit es (io\<lparr>io_locator := loc, io_room := (io_room io)(socket := r),
                          io_wire := (io_wire io)(socket := io_wire io socket @ sent)\<rparr>)) })"

text \<open>The body of the loop of \<open>Epoll\<close>, after \<open>OnEpoll\<close>.\<close>

definition Epoll_out :: "conn_env \<Rightarrow> socket \<Rightarrow> bool \<Rightarrow> 'a Network_scheme \<times> net_io
    \<Rightarrow> ('a Network_scheme \<times> net_io) option" where
  "Epoll_out env socket isOut si =
     (if \<not> isOut then Some si else do {
        c \<leftarrow> connects_at socket (fst si);
        pObj \<leftarrow> c;
        (ok, s1, io1) \<leftarrow> do_Send env socket pObj si;
        (if \<not> ok then RemoveConnectObj socket (s1, io1)
         else Some (ModifyEvent socket \<lparr>ep_IN = True, ep_OUT = False, ep_ET = False, ep_RDHUP = True\<rparr> s1, io1)) })"

definition Epoll_event :: "conn_env \<Rightarrow> epoll_event \<Rightarrow> 'a Network_scheme \<times> net_io \<Rightarrow> ('a Network_scheme \<times> net_io) option" where
  "Epoll_event env ev si = do {
     let socket = ev_fd ev;
     c \<leftarrow> connects_at socket (fst si);
     (case c of
        None \<Rightarrow> Some si
      | Some pObj \<Rightarrow>
          if ep_RDHUP ev \<or> ev_ERR ev \<or> ev_HUP ev then RemoveConnectObj socket si
          else if ep_IN ev then do {
            (ok, si1) \<leftarrow> do_Recv env socket pObj si;
            (if \<not> ok then RemoveConnectObj socket si1 else Epoll_out env socket (ep_OUT ev) si1) }
          else Epoll_out env socket (ep_OUT ev) si) }"

fun Epoll :: "conn_env \<Rightarrow> epoll_event list \<Rightarrow> 'a Network_scheme \<times> net_io \<Rightarrow> ('a Network_scheme \<times> net_io) option" where
  "Epoll env [] si = Some si"
| "Epoll env (ev # evs) si = Option.bind (Epoll_event env ev si) (Epoll env evs)"

text \<open>\<open>Select\<close>, where \<open>EPOLL\<close> is not defined. The arguments are the sets after \<open>::select\<close>; a
  socket is only asked for writing when it has something to send.\<close>

fun Select_loop :: "conn_env \<Rightarrow> (socket \<Rightarrow> bool) \<Rightarrow> (socket \<Rightarrow> bool) \<Rightarrow> (socket \<Rightarrow> bool) \<Rightarrow> socket list
    \<Rightarrow> 'a Network_scheme \<times> net_io \<Rightarrow> ('a Network_scheme \<times> net_io) option" where
  "Select_loop env rd wr ex [] si = Some si"
| "Select_loop env rd wr ex (socket # iter) si = do {
     c \<leftarrow> connects_at socket (fst si);
     pObj \<leftarrow> c;
     si1 \<leftarrow> (if ex socket then RemoveConnectObj socket si else do {
        (ok1, si2) \<leftarrow> (if rd socket then do_Recv env socket pObj si else Some (True, si));
        (if \<not> ok1 then RemoveConnectObj socket si2 else do {
           c2 \<leftarrow> connects_at socket (fst si2);
           pObj2 \<leftarrow> c2;
           (ok2, si3) \<leftarrow> (if wr socket then do_Send env socket pObj2 si2 else Some (True, si2));
           (if \<not> ok2 then RemoveConnectObj socket si3 else Some si3) }) });
     Select_loop env rd wr ex iter si1 }"

definition Select :: "conn_env \<Rightarrow> int \<Rightarrow> (socket \<Rightarrow> bool) \<Rightarrow> (socket \<Rightarrow> bool) \<Rightarrow> (socket \<Rightarrow> bool)
    \<Rightarrow> 'a Network_scheme \<times> net_io \<Rightarrow> ('a Network_scheme \<times> net_io) option" where
  "Select env nfds rd wr ex si =
     (if nfds \<le> 0 then Some si
      else Select_loop env rd
             (\<lambda>socket. wr socket \<and> (case nw_connects (fst si) socket of None \<Rightarrow> False | Some c \<Rightarrow> HasSendData c))
             ex (nw_sockets (fst si)) si)"

section \<open>Sending\<close>

definition Network_SendPacket :: "packet \<Rightarrow> 'a Network_scheme \<times> net_io \<Rightarrow> 'a Network_scheme \<times> net_io" where
  "Network_SendPacket pPacket si = (case si of (s, io) \<Rightarrow>
     (if sk_NetType (p_socketKey pPacket) \<noteq> nw_networkType s then (s, io_emit [CForget pPacket] io)
      else (s\<lparr>nw_sendMsgList := writer_emplace_back pPacket (nw_sendMsgList s)\<rparr>, io)))"

definition OnNetworkUpdate_packet :: "packet \<Rightarrow> 'a Network_scheme \<times> net_io \<Rightarrow> ('a Network_scheme \<times> net_io) option" where
  "OnNetworkUpdate_packet pPacket si = (case si of (s, io) \<Rightarrow> do {
     let socket = sk_Socket (p_socketKey pPacket);
     c \<leftarrow> connects_at socket s;
     (case c of
        None \<Rightarrow> Some (s, io_emit [CFree pPacket] io)
      | Some pObj \<Rightarrow>
          if \<not> CompareTags (ni_tagKey pObj) (p_tagKey pPacket) then Some (s, io_emit [CFree pPacket] io)
          else do {
            (c1, es) \<leftarrow> ConnectObj_SendPacket pPacket pObj;
            Some (ModifyEvent socket \<lparr>ep_IN = True, ep_OUT = True, ep_ET = False, ep_RDHUP = True\<rparr>
                    (connects_set socket (Some c1) s), io_emit es io) }) })"

fun OnNetworkUpdate_packets :: "packet list \<Rightarrow> 'a Network_scheme \<times> net_io \<Rightarrow> ('a Network_scheme \<times> net_io) option" where
  "OnNetworkUpdate_packets [] si = Some si"
| "OnNetworkUpdate_packets (p # ps) si = Option.bind (OnNetworkUpdate_packet p si) (OnNetworkUpdate_packets ps)"

definition OnNetworkUpdate :: "'a Network_scheme \<times> net_io \<Rightarrow> ('a Network_scheme \<times> net_io) option" where
  "OnNetworkUpdate si = (case si of (s, io) \<Rightarrow>
     (let list = (if CacheSwap_CanSwap (nw_sendMsgList s) then CacheSwap_Swap (nw_sendMsgList s)
                  else nw_sendMsgList s) in do {
        (s1, io1) \<leftarrow> OnNetworkUpdate_packets (GetReaderCache list) (s\<lparr>nw_sendMsgList := list\<rparr>, io);
        Some (s1\<lparr>nw_sendMsgList := reader_clear (nw_sendMsgList s1)\<rparr>, io1) }))"

section \<open>\<open>class NetworkListen\<close>\<close>

record NetworkListen = Network +
  nl_mainSocketEventIndex :: int
  nl_masterSocket :: socket

text \<open>\<open>Awake\<close>: \<open>master\<close> is what \<open>CreateSocket\<close> returned, \<open>bound\<close> and \<open>listening\<close> whether \<open>bind\<close> and
  \<open>listen\<close> succeeded; \<open>self\<close> is the address the locator keeps.\<close>

definition NetworkListen_Awake :: "nat \<Rightarrow> NetworkType \<Rightarrow> socket \<Rightarrow> bool \<Rightarrow> bool
    \<Rightarrow> NetworkListen \<times> net_io \<Rightarrow> NetworkListen \<times> net_io" where
  "NetworkListen_Awake self iType master bound listening si = (case si of (s, io) \<Rightarrow>
     (let s1 = s\<lparr>nw_networkType := iType\<rparr>;
          io1 = io\<lparr>io_locator := AddListenLocator self iType (io_locator io)\<rparr>;
          s2 = s1\<lparr>nl_masterSocket := master\<rparr>
      in if master = INVALID_SOCKET then (s2, io1)
         else if \<not> bound then (s2, io1)
         else if \<not> listening then (s2, io1)
         else (AddEvent master \<lparr>ep_IN = True, ep_OUT = True, ep_ET = True, ep_RDHUP = True\<rparr> (InitEpoll s2), io1)))"

definition NetworkListen_BackToPool :: "NetworkListen \<times> net_io \<Rightarrow> (packet list \<times> NetworkListen \<times> net_io) option" where
  "NetworkListen_BackToPool si = (case si of (s, io) \<Rightarrow>
     Network_BackToPool (s\<lparr>nl_mainSocketEventIndex := - 1, nl_masterSocket := INVALID_SOCKET\<rparr>,
                         io_emit [CClose (nl_masterSocket s)] io))"

text \<open>\<open>Accept\<close>: the connections \<open>::accept\<close> returns before it fails, each with its \<open>SO_ERROR\<close> and
  the pooled object it gets.\<close>

fun Accept :: "(socket \<times> int option \<times> ConnectObj) list \<Rightarrow> int \<Rightarrow> 'a Network_scheme \<times> net_io
    \<Rightarrow> (int \<times> 'a Network_scheme \<times> net_io) option" where
  "Accept [] rs si = Some (rs, si)"
| "Accept ((socket, so_error, pooled) # pending) rs si = do {
     (ok, s1, io1) \<leftarrow> CreateConnectObj so_error pooled socket TagNone \<lparr>KeyStr = '''', KeyInt64 = 0\<rparr> CS_Connected si;
     (if \<not> ok then Accept pending rs (s1, io_emit [CClose socket] io1)
      else Accept pending (rs + 1) (s1, io1)) }"

text \<open>\<open>Epoll\<close> with the overridden \<open>OnEpoll\<close>, which remembers the index of the master socket.\<close>

definition OnEpoll :: "socket \<Rightarrow> int \<Rightarrow> NetworkListen \<Rightarrow> NetworkListen" where
  "OnEpoll fd index s = (if fd = nl_masterSocket s then s\<lparr>nl_mainSocketEventIndex := index\<rparr> else s)"

fun Listen_Epoll :: "conn_env \<Rightarrow> int \<Rightarrow> epoll_event list \<Rightarrow> NetworkListen \<times> net_io \<Rightarrow> (NetworkListen \<times> net_io) option" where
  "Listen_Epoll env index [] si = Some si"
| "Listen_Epoll env index (ev # evs) (s, io) =
     Option.bind (Epoll_event env ev (OnEpoll (ev_fd ev) index s, io)) (Listen_Epoll env (index + 1) evs)"

definition NetworkListen_Update :: "conn_env \<Rightarrow> epoll_event list \<Rightarrow> (socket \<times> int option \<times> ConnectObj) list
    \<Rightarrow> NetworkListen \<times> net_io \<Rightarrow> (NetworkListen \<times> net_io) option" where
  "NetworkListen_Update env events pending si = (case si of (s, io) \<Rightarrow> do {
     (s1, io1) \<leftarrow> Listen_Epoll env 0 events (s\<lparr>nl_mainSocketEventIndex := - 1\<rparr>, io);
     (s2, io2) \<leftarrow> (if nl_mainSocketEventIndex s1 \<ge> 0 then map_option snd (Accept pending 0 (s1, io1)) else Some (s1, io1));
     OnNetworkUpdate (s2, io2) })"

definition HandleListenKey :: "packet \<Rightarrow> 'a Network_scheme \<Rightarrow> 'a Network_scheme option" where
  "HandleListenKey pPacket s =
     (let socketKey = p_socketKey pPacket; socket = sk_Socket socketKey in
      if sk_NetType socketKey \<noteq> nw_networkType s then Some s
      else if socket \<notin> set (nw_sockets s) then Some s
      else do {
        c \<leftarrow> connects_at socket s;
        pObj \<leftarrow> c;
        Some (connects_set socket (Some (pObj\<lparr>ni_tagKey := TagKey_CopyFrom (p_tagKey pPacket) (ni_tagKey pObj)\<rparr>)) s) })"

section \<open>\<open>class NetworkConnector\<close>\<close>

record ConnectDetail =
  cd_TType :: TagType
  cd_TValue :: TagValue
  cd_Ip :: string
  cd_Port :: int

record NetworkConnector = Network +
  nc_connecting :: "ConnectDetail CacheRefresh"

text \<open>\<open>new ConnectDetail\<close> draws its serial number; \<open>AddObj\<close> files it.\<close>

definition add_detail :: "ConnectDetail \<Rightarrow> Global \<times> NetworkConnector \<Rightarrow> Global \<times> NetworkConnector" where
  "add_detail d gs = (case gs of (g, s) \<Rightarrow>
     (let (sn, g1) = SnObject_new g in (g1, s\<lparr>nc_connecting := AddObj sn d (nc_connecting s)\<rparr>)))"

definition CreateConnector :: "app_type \<Rightarrow> int \<Rightarrow> string \<Rightarrow> int \<Rightarrow> Global \<times> NetworkConnector \<Rightarrow> Global \<times> NetworkConnector" where
  "CreateConnector appType appId ip port =
     add_detail \<lparr>cd_TType = TagApp, cd_TValue = \<lparr>KeyStr = '''', KeyInt64 = GetAppKey appType appId\<rparr>,
                 cd_Ip = ip, cd_Port = port\<rparr>"

text \<open>\<open>endpoint\<close> and \<open>apps\<close> are the configuration: an end point by type and id, all processes of a
  type as (id, ip, port).\<close>

definition NetworkConnector_Awake :: "nat \<Rightarrow> NetworkType \<Rightarrow> int \<Rightarrow> (app_type \<Rightarrow> int \<Rightarrow> (string \<times> int) option)
    \<Rightarrow> (app_type \<Rightarrow> (int \<times> string \<times> int) list) \<Rightarrow> NetworkLocator \<Rightarrow> Global \<times> NetworkConnector
    \<Rightarrow> (NetworkLocator \<times> Global \<times> NetworkConnector) option" where
  "NetworkConnector_Awake self iType mixConnectAppType endpoint apps loc gs = (case gs of (g, s) \<Rightarrow>
     (let s1 = InitEpoll (s\<lparr>nw_networkType := iType\<rparr>); loc1 = AddConnectorLocator self iType loc;
          one = (\<lambda>appType gs. if has_role mixConnectAppType appType
                   then map_option (\<lambda>(ip, port). CreateConnector appType 0 ip port gs) (endpoint appType 0)
                   else Some gs);
          all = (\<lambda>appType gs. if has_role mixConnectAppType appType
                   then fold (\<lambda>(appId, ip, port). CreateConnector appType appId ip port) (apps appType) gs else gs)
      in if iType = TcpConnector \<and> mixConnectAppType > 0 then do {
           gs1 \<leftarrow> one APP_APPMGR (g, s1);
           gs2 \<leftarrow> one APP_DB_MGR gs1;
           Some (loc1, all APP_SPACE (all APP_LOGIN gs2)) }
         else Some (loc1, g, s1)))"

text \<open>\<open>Connect\<close>: \<open>sock\<close> is what \<open>CreateSocket\<close> returned, \<open>rs\<close> the \<open>errno\<close> of \<open>::connect\<close> or 0.\<close>

definition Connect :: "socket \<Rightarrow> int \<Rightarrow> int option \<Rightarrow> ConnectObj \<Rightarrow> ConnectDetail \<Rightarrow> 'a Network_scheme \<times> net_io
    \<Rightarrow> (bool \<times> 'a Network_scheme \<times> net_io) option" where
  "Connect sock rs so_error pooled pDetail si =
     (if sock = INVALID_SOCKET then Some (False, si)
      else if rs = 0 then CreateConnectObj so_error pooled sock (cd_TType pDetail) (cd_TValue pDetail) CS_Connected si
      else if \<not> IsError rs then
        CreateConnectObj so_error pooled sock (cd_TType pDetail) (cd_TValue pDetail) CS_Connecting si
      else (case si of (s, io) \<Rightarrow> Some (False, s, io_emit [CClose sock] io)))"

text \<open>The tag's type is decoded by the caller; only requests for this kind of network are taken.\<close>

definition HandleNetworkConnect :: "NetworkConnect \<Rightarrow> Global \<times> NetworkConnector \<Rightarrow> Global \<times> NetworkConnector" where
  "HandleNetworkConnect proto gs =
     (if nc_network_type proto \<noteq> NetworkType_number (nw_networkType (snd gs)) then gs
      else add_detail \<lparr>cd_TType = nc_tag_type proto, cd_TValue = nc_tag_value proto, cd_Ip = nc_ip proto,
                       cd_Port = nc_port proto\<rparr> gs)"

text \<open>\<open>env_of\<close> gives, for the \<open>n\<close>-th attempt, what the kernel and the pool answer.\<close>

fun Connect_all :: "(nat \<Rightarrow> socket \<times> int \<times> int option \<times> ConnectObj) \<Rightarrow> nat \<Rightarrow> (u64 \<times> ConnectDetail) list
    \<Rightarrow> NetworkConnector \<times> net_io \<Rightarrow> (NetworkConnector \<times> net_io) option" where
  "Connect_all os n [] si = Some si"
| "Connect_all os n ((sn, d) # reader) si =
     (case os n of (sock, rs, so_error, pooled) \<Rightarrow> do {
        (ok, s1, io1) \<leftarrow> Connect sock rs so_error pooled d si;
        Connect_all os (n + 1) reader
          (if ok then s1\<lparr>nc_connecting := RemoveObj sn (nc_connecting s1)\<rparr> else s1, io1) })"

definition NetworkConnector_Update :: "conn_env \<Rightarrow> (nat \<Rightarrow> socket \<times> int \<times> int option \<times> ConnectObj)
    \<Rightarrow> epoll_event list \<Rightarrow> NetworkConnector \<times> net_io \<Rightarrow> (NetworkConnector \<times> net_io) option" where
  "NetworkConnector_Update env os events si = (case si of (s, io) \<Rightarrow>
     (let s1 = (if CacheRefresh_CanSwap (nc_connecting s)
                then s\<lparr>nc_connecting := fst (CacheRefresh_Swap (nc_connecting s))\<rparr> else s) in do {
        si2 \<leftarrow> Connect_all os 0 (cr_objs (nc_connecting s1)) (s1, io);
        si3 \<leftarrow> Epoll env events si2;
        OnNetworkUpdate si3 }))"

section \<open>The table of connections\<close>

text \<open>
  A socket is in \<open>_sockets\<close> exactly when its slot is occupied; the slot is within the array, and
  the connection in it carries that socket and this network's type. When there is an \<open>epoll\<close>
  descriptor, every connection is registered with it.
\<close>

definition net_inv :: "'a Network_scheme \<Rightarrow> bool" where
  "net_inv s \<longleftrightarrow> ss_wf (nw_sockets s)
     \<and> (\<forall>k. k \<in> set (nw_sockets s) \<longleftrightarrow> nw_connects s k \<noteq> None)
     \<and> (\<forall>k c. nw_connects s k = Some c \<longrightarrow> 0 \<le> k \<and> k < MAX_CLIENT
          \<and> ni_socketKey c = \<lparr>sk_Socket = k, sk_NetType = nw_networkType s\<rparr>)
     \<and> (\<forall>m k. nw_epfd s = Some m \<and> k \<in> set (nw_sockets s) \<longrightarrow> m k \<noteq> None)"

lemma net_inv_new: "net_inv (Network_new t)"
  by (simp add: net_inv_def Network_new_def)

lemma net_inv_InitEpoll: "nw_sockets s = [] \<Longrightarrow> net_inv s \<Longrightarrow> net_inv (InitEpoll s)"
  by (simp add: net_inv_def InitEpoll_def)

lemma net_inv_ModifyEvent [wf_intros]: "net_inv s \<Longrightarrow> net_inv (ModifyEvent k f s)"
  by (auto simp: net_inv_def ModifyEvent_def split: option.splits)

lemma net_inv_sendMsgList [wf_intros]: "net_inv s \<Longrightarrow> net_inv (s\<lparr>nw_sendMsgList := l\<rparr>)"
  by (simp add: net_inv_def)

lemma net_inv_replace:
  "net_inv s \<Longrightarrow> nw_connects s k = Some c \<Longrightarrow> ni_socketKey c1 = ni_socketKey c
   \<Longrightarrow> net_inv (connects_set k (Some c1) s)"
  by (simp add: net_inv_def connects_set_def)

lemma RemoveConnectObj_Some:
  "RemoveConnectObj k (s, io) = Some (s1, io1) \<longleftrightarrow> (\<exists>c. connects_at k s = Some (Some c)
     \<and> s1 = DeleteEvent k (connects_set k None s)\<lparr>nw_sockets := ss_erase k (nw_sockets s)\<rparr>
     \<and> io1 = io_emit (snd (ConnectObj_BackToPool c)) io)"
  by (auto simp: RemoveConnectObj_def case_prod_unfold DeleteEvent_def connects_set_def Let_def split: bind_splits)

lemma net_inv_RemoveConnectObj:
  "net_inv s \<Longrightarrow> RemoveConnectObj k (s, io) = Some (s1, io1) \<Longrightarrow> net_inv s1"
  unfolding net_inv_def RemoveConnectObj_Some
  by (auto simp: connects_set_def DeleteEvent_def split: if_splits)

lemma AddEvent_fields [simp]:
  "nw_connects (AddEvent k f s) = nw_connects s" "nw_sockets (AddEvent k f s) = nw_sockets s"
  "nw_networkType (AddEvent k f s) = nw_networkType s"
  by (simp_all add: AddEvent_def)

lemma AddEvent_dom:
  assumes "nw_epfd (AddEvent k f s) = Some m1"
  shows "\<exists>m. nw_epfd s = Some m \<and> (\<forall>j. m1 j \<noteq> None \<longleftrightarrow> j = k \<or> m j \<noteq> None)"
proof -
  from assms obtain m where m: "nw_epfd s = Some m" "m1 = (case m k of None \<Rightarrow> m(k \<mapsto> f) | Some _ \<Rightarrow> m)"
    by (auto simp: AddEvent_def)
  then show ?thesis by (cases "m k") auto
qed

lemma net_inv_CreateConnectObj:
  assumes "net_inv s" and "CreateConnectObj e pooled k t v st (s, io) = Some (ok, s1, io1)"
  shows "net_inv s1"
proof -
  obtain ok0 io0 where c: "CheckSocket e k io = (ok0, io0)" by fastforce
  consider "\<not> ok0" | "ok0" "nw_connects s k = None" | "ok0" "nw_connects s k \<noteq> None" by blast
  then show ?thesis
  proof cases
    case 1
    with assms c show ?thesis by (simp add: CreateConnectObj_def)
  next
    case 2
    then have k: "0 \<le> k" "k < MAX_CLIENT"
      using assms(2) c by (auto simp: CreateConnectObj_def connects_at_def split: bind_splits if_splits)
    from 2 have "s1 = AddEvent k \<lparr>ep_IN = True, ep_OUT = True, ep_ET = True, ep_RDHUP = True\<rparr>
        (connects_set k (Some (ConnectObj_Awake k (nw_networkType s) t v st pooled)) s
           \<lparr>nw_sockets := ss_insert k (nw_sockets s)\<rparr>)"
      using assms(2) c k by (simp add: CreateConnectObj_def connects_at_def connects_set_def Let_def)
    then obtain s2 where s1: "s1 = AddEvent k \<lparr>ep_IN = True, ep_OUT = True, ep_ET = True, ep_RDHUP = True\<rparr> s2"
      and s2: "s2 = connects_set k (Some (ConnectObj_Awake k (nw_networkType s) t v st pooled)) s
           \<lparr>nw_sockets := ss_insert k (nw_sockets s)\<rparr>" by blast
    have "m1 j \<noteq> None" if "nw_epfd s1 = Some m1" "j \<in> set (nw_sockets s1)" for m1 j
      using AddEvent_dom [OF that(1) [unfolded s1]] that(2) assms(1)
      by (auto simp: s1 s2 net_inv_def connects_set_def)
    with assms(1) k show ?thesis
      by (simp add: net_inv_def connects_set_def ConnectObj_Awake_def Let_def s1 s2)
  next
    case 3
    with assms c show ?thesis
      by (auto simp: CreateConnectObj_def connects_at_def dest: net_inv_RemoveConnectObj split: bind_splits if_splits)
  qed
qed

lemma net_inv_HandleDisconnect:
  "net_inv s \<Longrightarrow> Network_HandleDisconnect p (s, io) = Some (s1, io1) \<Longrightarrow> net_inv s1"
  by (auto simp: Network_HandleDisconnect_def dest: net_inv_RemoveConnectObj split: bind_splits if_splits)

text \<open>Receiving and sending leave a connection's identity alone.\<close>

lemma ChangeStateToConnected_key:
  "ChangeStateToConnected env loc c = (c1, loc1, es) \<Longrightarrow> ni_socketKey c1 = ni_socketKey c \<and> ni_tagKey c1 = ni_tagKey c"
  by (auto simp: ChangeStateToConnected_def Let_def split: option.splits prod.splits)

lemma Recv_packets_key:
  "Recv_packets env n c out = Some r \<Longrightarrow> ni_socketKey (fst r) = ni_socketKey c \<and> ni_tagKey (fst r) = ni_tagKey c"
proof (induction rule: Recv_packets.raw_induct [rotated, consumes 1])
  case (1 f env n c out r)
  from 1(2) obtain b w where g: "GetPacket (ce_mongoose env) (ce_encHttp env) (ce_networkType env)
      (NetIdentify.truncate c) (ce_fresh env n) (co_recvBuffer c) = Some (b, w)"
    by (auto split: bind_splits)
  show ?case
  proof (cases w)
    case (Recv_Packet p)
    with 1(2) g have "f env (n + 1) (c\<lparr>co_recvBuffer := b\<rparr>)
        (out @ Recv_packet (ce_networkType env) (Recv_tag_entity (ce_socketLocator env) (ni_tagKey c) p)) = Some r"
      by simp
    from 1(1) [OF this] show ?thesis by simp
  qed (use 1(2) g in auto)
qed

lemma ConnectObj_Recv_key:
  "ConnectObj_Recv env loc k c = Some (ok, c1, loc1, k1, es) \<Longrightarrow> ni_socketKey c1 = ni_socketKey c"
  by (auto simp: ConnectObj_Recv_def Let_def dest: ChangeStateToConnected_key Recv_packets_key
      split: if_splits bind_splits prod.splits)

lemma ConnectObj_Send_key:
  "ConnectObj_Send env loc k c = Some (ok, c1, loc1, k1, w, es) \<Longrightarrow> ni_socketKey c1 = ni_socketKey c"
  by (auto simp: ConnectObj_Send_def dest: ChangeStateToConnected_key split: if_splits bind_splits prod.splits)

lemma do_Recv_inv:
  "net_inv s \<Longrightarrow> nw_connects s k = Some c \<Longrightarrow> do_Recv env k c (s, io) = Some (ok, s1, io1) \<Longrightarrow> net_inv s1"
  by (auto simp: do_Recv_def dest: ConnectObj_Recv_key intro: net_inv_replace split: bind_splits)

lemma do_Send_inv:
  "net_inv s \<Longrightarrow> nw_connects s k = Some c \<Longrightarrow> do_Send env k c (s, io) = Some (ok, s1, io1) \<Longrightarrow> net_inv s1"
  by (auto simp: do_Send_def dest: ConnectObj_Send_key intro: net_inv_replace split: bind_splits)

lemma connects_at_Some: "connects_at k s = Some c \<Longrightarrow> nw_connects s k = c"
  by (simp add: connects_at_def split: if_splits)

lemma net_inv_Epoll_out:
  assumes "net_inv s" and "Epoll_out env k b (s, io) = Some (s1, io1)"
  shows "net_inv s1"
proof (cases b)
  case True
  with assms(2) obtain c ok s2 io2 where r: "nw_connects s k = Some c" "do_Send env k c (s, io) = Some (ok, s2, io2)"
    "(if \<not> ok then RemoveConnectObj k (s2, io2)
      else Some (ModifyEvent k \<lparr>ep_IN = True, ep_OUT = False, ep_ET = False, ep_RDHUP = True\<rparr> s2, io2)) = Some (s1, io1)"
    by (auto simp: Epoll_out_def dest!: connects_at_Some split: bind_splits)
  have "net_inv s2" by (rule do_Send_inv [OF assms(1) r(1,2)])
  with r(3) show ?thesis by (auto dest: net_inv_RemoveConnectObj intro: net_inv_ModifyEvent split: if_splits)
qed (use assms in \<open>simp add: Epoll_out_def\<close>)

lemma net_inv_Epoll_event:
  assumes "net_inv s" and "Epoll_event env ev (s, io) = Some (s1, io1)"
  shows "net_inv s1"
proof (cases "nw_connects s (ev_fd ev)")
  case None
  with assms show ?thesis by (auto simp: Epoll_event_def Let_def dest!: connects_at_Some split: bind_splits)
next
  case (Some c)
  note run = assms(2) [unfolded Epoll_event_def Let_def]
  show ?thesis
  proof (cases "\<not> (ep_RDHUP ev \<or> ev_ERR ev \<or> ev_HUP ev) \<and> ep_IN ev")
    case False
    with run Some assms(1) show ?thesis
      by (auto dest!: connects_at_Some dest: net_inv_RemoveConnectObj net_inv_Epoll_out split: bind_splits if_splits)
  next
    case True
    with run Some obtain ok s2 io2 where r: "do_Recv env (ev_fd ev) c (s, io) = Some (ok, s2, io2)"
      "(if \<not> ok then RemoveConnectObj (ev_fd ev) (s2, io2) else Epoll_out env (ev_fd ev) (ep_OUT ev) (s2, io2)) = Some (s1, io1)"
      by (auto dest!: connects_at_Some split: bind_splits)
    have "net_inv s2" by (rule do_Recv_inv [OF assms(1) Some r(1)])
    with r(2) show ?thesis by (auto dest: net_inv_RemoveConnectObj net_inv_Epoll_out split: if_splits)
  qed
qed

lemma net_inv_OnNetworkUpdate_packets:
  "net_inv s \<Longrightarrow> OnNetworkUpdate_packets ps (s, io) = Some (s1, io1) \<Longrightarrow> net_inv s1"
proof (induction ps arbitrary: s io)
  case Nil
  then show ?case by simp
next
  case (Cons p ps)
  then obtain s2 io2 where p: "OnNetworkUpdate_packet p (s, io) = Some (s2, io2)"
    "OnNetworkUpdate_packets ps (s2, io2) = Some (s1, io1)" by (auto split: bind_splits)
  have "net_inv s2"
    using p(1) Cons.prems(1)
    by (auto simp: OnNetworkUpdate_packet_def ConnectObj_SendPacket_def Let_def dest!: connects_at_Some
        intro!: net_inv_ModifyEvent intro: net_inv_replace split: bind_splits option.splits if_splits)
  with Cons.IH p(2) show ?case by blast
qed

lemma net_inv_OnNetworkUpdate:
  "net_inv s \<Longrightarrow> OnNetworkUpdate (s, io) = Some (s1, io1) \<Longrightarrow> net_inv s1"
  by (auto simp: OnNetworkUpdate_def Let_def split: bind_splits
      intro!: net_inv_sendMsgList intro: net_inv_OnNetworkUpdate_packets [rotated])

section \<open>Runs of a network\<close>

text \<open>
  Everything that can happen to a network on its thread: \<open>epoll\<close> is set up, a connection is made
  or accepted, a request to disconnect arrives, an event is handled, another thread queues a
  packet, the queue is worked off, the kernel's side of the sockets changes.
\<close>

inductive net_step :: "conn_env \<Rightarrow> Network \<times> net_io \<Rightarrow> Network \<times> net_io \<Rightarrow> bool" for env where
  init: "nw_sockets s = [] \<Longrightarrow> net_step env (s, io) (InitEpoll s, io)"
| create: "CreateConnectObj e pooled k t v st (s, io) = Some (ok, si) \<Longrightarrow> net_step env (s, io) si"
| disconnect: "Network_HandleDisconnect p (s, io) = Some si \<Longrightarrow> net_step env (s, io) si"
| event: "Epoll_event env ev (s, io) = Some si \<Longrightarrow> net_step env (s, io) si"
| queue: "net_step env (s, io) (Network_SendPacket p (s, io))"
| update: "OnNetworkUpdate (s, io) = Some si \<Longrightarrow> net_step env (s, io) si"
| kernel: "net_step env (s, io) (s, io\<lparr>io_arrivals := a, io_room := r\<rparr>)"

lemma net_step_inv: "net_step env si si' \<Longrightarrow> net_inv (fst si) \<Longrightarrow> net_inv (fst si')"
proof (induction rule: net_step.induct)
  case (create e pooled k t v st s io ok si)
  then show ?case by (cases si) (auto dest: net_inv_CreateConnectObj)
next
  case (disconnect p s io si)
  then show ?case by (cases si) (auto dest: net_inv_HandleDisconnect)
next
  case (event ev s io si)
  then show ?case by (cases si) (auto dest: net_inv_Epoll_event)
next
  case (update s io si)
  then show ?case by (cases si) (auto dest: net_inv_OnNetworkUpdate)
qed (auto simp: net_inv_InitEpoll Network_SendPacket_def net_inv_sendMsgList)

section \<open>Working off the queue\<close>

definition send_ok :: "nat \<Rightarrow> 'a Network_scheme \<Rightarrow> bool" where
  "send_ok n s \<longleftrightarrow> (\<forall>k c. nw_connects s k = Some c \<longrightarrow>
     netbuf_wf (co_sendBuffer c) \<and> b_bufferSize (co_sendBuffer c) + (n + 1) * ADDITIONAL_SIZE < 2 ^ 31)"

definition packets_for :: "socket \<Rightarrow> ConnectObj \<Rightarrow> packet list \<Rightarrow> packet list" where
  "packets_for k c = filter (\<lambda>p. sk_Socket (p_socketKey p) = k \<and> CompareTags (ni_tagKey c) (p_tagKey p))"

text \<open>One connection after the packets \<open>ps\<close> were worked off.\<close>

definition after_packets :: "packet list \<Rightarrow> socket \<Rightarrow> ConnectObj option \<Rightarrow> ConnectObj option \<Rightarrow> bool" where
  "after_packets ps k c0 c1 = (case c0 of None \<Rightarrow> c1 = None
     | Some c \<Rightarrow> \<exists>b. c1 = Some (c\<lparr>co_sendBuffer := b\<rparr>) \<and> netbuf_wf b
         \<and> netbuf_data b = netbuf_data (co_sendBuffer c) @ concat (map frame_bytes (packets_for k c ps)))"

lemma io_emit_append [simp]: "io_emit b (io_emit a io) = io_emit (a @ b) io"
  by (simp add: io_emit_def)

lemma io_emit_Nil [simp]: "io_emit [] io = io"
  by (simp add: io_emit_def)

lemma OnNetworkUpdate_packet_ok:
  assumes "send_ok (Suc n) s" and "0 \<le> sk_Socket (p_socketKey p)" and "sk_Socket (p_socketKey p) < MAX_CLIENT"
    and "frame_fits p"
  shows "\<exists>s1. OnNetworkUpdate_packet p (s, io) = Some (s1, io_emit [CFree p] io) \<and> send_ok n s1
    \<and> (\<forall>k. after_packets [p] k (nw_connects s k) (nw_connects s1 k)) \<and> nw_sendMsgList s1 = nw_sendMsgList s"
proof -
  let ?k = "sk_Socket (p_socketKey p)"
  have at: "connects_at ?k s = Some (nw_connects s ?k)" using assms(2,3) by (simp add: connects_at_def)
  have weak: "send_ok n s"
    using assms(1) unfolding send_ok_def by (fastforce simp: algebra_simps)
  have keep: "after_packets [p] k (nw_connects s k) (nw_connects s k)"
    if "k \<noteq> ?k \<or> (\<forall>c. nw_connects s k = Some c \<longrightarrow> \<not> CompareTags (ni_tagKey c) (p_tagKey p))" for k
  proof (cases "nw_connects s k")
    case None
    then show ?thesis by (simp add: after_packets_def)
  next
    case (Some c)
    then have "packets_for k c [p] = []" using that by (auto simp: packets_for_def)
    moreover have "netbuf_wf (co_sendBuffer c)" using weak Some by (simp add: send_ok_def)
    ultimately show ?thesis using Some by (auto simp: after_packets_def intro!: exI [of _ "co_sendBuffer c"])
  qed
  show ?thesis
  proof (cases "\<exists>c. nw_connects s ?k = Some c \<and> CompareTags (ni_tagKey c) (p_tagKey p)")
    case False
    then have "OnNetworkUpdate_packet p (s, io) = Some (s, io_emit [CFree p] io)"
      using at by (auto simp: OnNetworkUpdate_packet_def Let_def split: option.splits)
    moreover have "after_packets [p] k (nw_connects s k) (nw_connects s k)" for k
      using False by (intro keep) blast
    ultimately show ?thesis using weak by (intro exI [of _ s]) simp
  next
    case True
    then obtain c where c: "nw_connects s ?k = Some c" "CompareTags (ni_tagKey c) (p_tagKey p)" by blast
    have b: "netbuf_wf (co_sendBuffer c)" "b_bufferSize (co_sendBuffer c) + (Suc n + 1) * ADDITIONAL_SIZE < 2 ^ 31"
      using assms(1) c(1) by (auto simp: send_ok_def)
    then have room: "b_bufferSize (co_sendBuffer c) + ADDITIONAL_SIZE < 2 ^ 31" by (simp add: algebra_simps)
    from AddPacket_data [OF b(1) assms(4) room] obtain b1 where b1: "AddPacket p (co_sendBuffer c) = Some b1"
      "netbuf_wf b1" "netbuf_data b1 = netbuf_data (co_sendBuffer c) @ frame_bytes p" by blast
    have sz: "b_bufferSize b1 + (n + 1) * ADDITIONAL_SIZE < 2 ^ 31"
      using AddPacket_grows [OF b(1) assms(4) room b1(1)] b(2) by (simp add: algebra_simps)
    let ?s1 = "ModifyEvent ?k \<lparr>ep_IN = True, ep_OUT = True, ep_ET = False, ep_RDHUP = True\<rparr>
                 (connects_set ?k (Some (c\<lparr>co_sendBuffer := b1\<rparr>)) s)"
    have run: "OnNetworkUpdate_packet p (s, io) = Some (?s1, io_emit [CFree p] io)"
      using at c b1(1) by (simp add: OnNetworkUpdate_packet_def ConnectObj_SendPacket_def Let_def)
    have con: "nw_connects ?s1 = (nw_connects s)(?k \<mapsto> c\<lparr>co_sendBuffer := b1\<rparr>)"
      by (simp add: ModifyEvent_def connects_set_def)
    have "after_packets [p] k (nw_connects s k) (nw_connects ?s1 k)" for k
      using keep [of k] c b1 by (cases "k = ?k") (auto simp: con after_packets_def packets_for_def)
    moreover have "send_ok n ?s1" using weak b1(2) sz by (simp add: send_ok_def con)
    moreover have "nw_sendMsgList ?s1 = nw_sendMsgList s" by (simp add: ModifyEvent_def connects_set_def)
    ultimately show ?thesis using run by blast
  qed
qed

lemma after_packets_trans:
  "after_packets [p] k c0 c1 \<Longrightarrow> after_packets ps k c1 c2 \<Longrightarrow> after_packets (p # ps) k c0 c2"
  by (auto simp: after_packets_def packets_for_def split: option.splits)

lemma OnNetworkUpdate_packets_ok:
  assumes "send_ok (length ps) s"
    and "\<forall>p\<in>set ps. 0 \<le> sk_Socket (p_socketKey p) \<and> sk_Socket (p_socketKey p) < MAX_CLIENT \<and> frame_fits p"
  shows "\<exists>s1. OnNetworkUpdate_packets ps (s, io) = Some (s1, io_emit (map CFree ps) io)
    \<and> (\<forall>k. after_packets ps k (nw_connects s k) (nw_connects s1 k)) \<and> nw_sendMsgList s1 = nw_sendMsgList s"
  using assms
proof (induction ps arbitrary: s io)
  case Nil
  then show ?case
    by (auto simp: after_packets_def packets_for_def send_ok_def split: option.splits
        intro!: exI [of _ "co_sendBuffer c" for c])
next
  case (Cons p ps)
  obtain s1 where s1: "OnNetworkUpdate_packet p (s, io) = Some (s1, io_emit [CFree p] io)" "send_ok (length ps) s1"
    "\<forall>k. after_packets [p] k (nw_connects s k) (nw_connects s1 k)" "nw_sendMsgList s1 = nw_sendMsgList s"
    using OnNetworkUpdate_packet_ok [of "length ps" s p io] Cons.prems by auto
  obtain s2 where "OnNetworkUpdate_packets ps (s1, io_emit [CFree p] io)
      = Some (s2, io_emit (map CFree ps) (io_emit [CFree p] io))"
    "\<forall>k. after_packets ps k (nw_connects s1 k) (nw_connects s2 k)" "nw_sendMsgList s2 = nw_sendMsgList s1"
    using Cons.IH [OF s1(2)] Cons.prems(2) by fastforce
  with s1 show ?case by (auto intro: after_packets_trans)
qed

lemma OnNetworkUpdate_ok:
  assumes "GetReaderCache (nw_sendMsgList s) = []" and "GetWriterCache (nw_sendMsgList s) = ps"
    and "send_ok (length ps) s"
    and "\<forall>p\<in>set ps. 0 \<le> sk_Socket (p_socketKey p) \<and> sk_Socket (p_socketKey p) < MAX_CLIENT \<and> frame_fits p"
  shows "\<exists>s1. OnNetworkUpdate (s, io) = Some (s1, io_emit (map CFree ps) io)
    \<and> (\<forall>k. after_packets ps k (nw_connects s k) (nw_connects s1 k))
    \<and> GetReaderCache (nw_sendMsgList s1) = [] \<and> GetWriterCache (nw_sendMsgList s1) = []"
proof -
  let ?l = "if CacheSwap_CanSwap (nw_sendMsgList s) then CacheSwap_Swap (nw_sendMsgList s) else nw_sendMsgList s"
  have l: "GetReaderCache ?l = ps" "GetWriterCache ?l = []"
    using assms(1,2) by (auto simp: CacheSwap_CanSwap_def)
  have "send_ok (length ps) (s\<lparr>nw_sendMsgList := ?l\<rparr>)" using assms(3) by (simp add: send_ok_def)
  from OnNetworkUpdate_packets_ok [OF this assms(4), of io] obtain s1 where
    s1: "OnNetworkUpdate_packets ps (s\<lparr>nw_sendMsgList := ?l\<rparr>, io) = Some (s1, io_emit (map CFree ps) io)"
      "\<forall>k. after_packets ps k (nw_connects s k) (nw_connects s1 k)" "nw_sendMsgList s1 = ?l" by auto
  have "OnNetworkUpdate (s, io) = Some (s1\<lparr>nw_sendMsgList := reader_clear ?l\<rparr>, io_emit (map CFree ps) io)"
    using l s1(1,3) unfolding OnNetworkUpdate_def Let_def by (simp add: l(1))
  then show ?thesis using s1(2) l(2)
    by (intro exI [of _ "s1\<lparr>nw_sendMsgList := reader_clear ?l\<rparr>"]) simp
qed

interpretation net: invariant_system "net_step env" "\<lambda>si. net_inv (fst si)" for env
  by unfold_locales (auto dest: net_step_inv)

section \<open>Properties\<close>


text \<open>C21: working off the queue. \<open>OnNetworkUpdate\<close> gives every queued packet back to the pool
  exactly once, in order, and each connection's send buffer grows by exactly the frames of the
  packets that name its socket and agree with its tags.\<close>

theorem OnNetworkUpdate_conserves:
  assumes "GetReaderCache (nw_sendMsgList s) = []" and "GetWriterCache (nw_sendMsgList s) = ps"
    and "send_ok (length ps) s"
    and "\<forall>p\<in>set ps. 0 \<le> sk_Socket (p_socketKey p) \<and> sk_Socket (p_socketKey p) < MAX_CLIENT \<and> frame_fits p"
  shows "\<exists>s1. OnNetworkUpdate (s, io) = Some (s1, io_emit (map CFree ps) io)
    \<and> (\<forall>k. after_packets ps k (nw_connects s k) (nw_connects s1 k))
    \<and> GetReaderCache (nw_sendMsgList s1) = [] \<and> GetWriterCache (nw_sendMsgList s1) = []"
  by (rule OnNetworkUpdate_ok [OF assms])

text \<open>C22: a partial send stalls. When the kernel takes only part of the data, \<open>Send\<close> returns to
  send the rest "next frame", but \<open>Epoll\<close> then drops \<open>EPOLLOUT\<close> from the socket's events, so
  data stays in the buffer and the socket is not asked for writing again.\<close>

theorem Epoll_partial_send_stalls:
  assumes "net_inv s" and "nw_connects s k = Some c" and "nw_epfd s = Some m"
    and "co_state c = CS_Connected" and "netbuf_wf (co_sendBuffer c)"
    and "0 < io_room io k" and "io_room io k < GetReadSize (co_sendBuffer c)"
  shows "\<exists>s1 io1 c1 m1 f. Epoll_event env \<lparr>ep_IN = False, ep_OUT = True, ep_ET = False, ep_RDHUP = False,
        ev_fd = k, ev_ERR = False, ev_HUP = False\<rparr> (s, io) = Some (s1, io1)
    \<and> nw_connects s1 k = Some c1 \<and> netbuf_data (co_sendBuffer c1) \<noteq> []
    \<and> nw_epfd s1 = Some m1 \<and> m1 k = Some f \<and> \<not> ep_OUT f"
proof -
  let ?b = "co_sendBuffer c" and ?r = "io_room io k"
  let ?n = "GetReadSize ?b"
  have k: "connects_at k s = Some (Some c)" using assms(1,2) by (simp add: net_inv_def connects_at_def)
  have mk: "m k \<noteq> None" using assms(1-3) by (auto simp: net_inv_def)
  have n: "?n \<le> nb_dataSize ?b" by (simp add: GetReadSize_exact [OF assms(5)])
  have pos: "nb_dataSize ?b \<noteq> 0" using n assms(7) by linarith
  have get: "SendBuffer_GetBuffer ?b = (b_beginIndex ?b, ?n)"
    using pos by (simp add: SendBuffer_GetBuffer_def GetReadSize_def)
  obtain bs where bs: "bs = take ?n (netbuf_data ?b)" by simp
  have mem: "mem_read (b_buffer ?b) (b_beginIndex ?b) ?n = Some bs"
    using MemcpyFromBuffer_ok [OF assms(5) n] by (simp add: MemcpyFromBuffer_def Let_def bs)
  have send: "sys_send bs ?r = (int ?r, 0)"
    using assms(6,7) n length_netbuf_data [OF assms(5)] by (simp add: sys_send_def bs)
  have rn: "?r \<le> nb_dataSize ?b" using assms(7) n by linarith
  note rd = RemoveDate_ok [OF assms(5) rn]
  have loop: "Send_loop ?r ?b [] = Some (True, RemoveDate ?r ?b, 0, take ?r bs)"
    using mem send get assms(6,7) pos by (subst Send_loop.simps) (simp add: Let_def)
  let ?c1 = "c\<lparr>co_sendBuffer := RemoveDate ?r ?b\<rparr>"
  let ?io1 = "io\<lparr>io_room := (io_room io)(k := 0), io_wire := (io_wire io)(k := io_wire io k @ take ?r bs)\<rparr>"
  have "do_Send env k c (s, io) = Some (True, connects_set k (Some ?c1) s, ?io1)"
    using loop assms(4) by (simp add: do_Send_def ConnectObj_Send_def)
  then have ev: "Epoll_event env \<lparr>ep_IN = False, ep_OUT = True, ep_ET = False, ep_RDHUP = False,
        ev_fd = k, ev_ERR = False, ev_HUP = False\<rparr> (s, io)
      = Some (ModifyEvent k \<lparr>ep_IN = True, ep_OUT = False, ep_ET = False, ep_RDHUP = True\<rparr>
                (connects_set k (Some ?c1) s), ?io1)"
    using k by (simp add: Epoll_event_def Epoll_out_def Let_def)
  have "length (netbuf_data (RemoveDate ?r ?b)) = nb_dataSize ?b - ?r"
    using length_netbuf_data [OF rd(1)] rd(3) by linarith
  moreover have "0 < nb_dataSize ?b - ?r" using assms(7) n by linarith
  ultimately have "netbuf_data (co_sendBuffer ?c1) \<noteq> []" by auto
  with ev assms(3) mk show ?thesis
    by (auto simp: ModifyEvent_def connects_set_def)
qed

text \<open>A refused connection is closed twice. When \<open>SO_ERROR\<close> of an accepted socket is a real
  error, \<open>CheckSocket\<close> closes the descriptor and \<open>Accept\<close> closes it again.\<close>

theorem Accept_closes_twice:
  assumes "IsError e" and "e \<noteq> 0"
  shows "Accept [(k, Some e, pooled)] 0 (s, io) = Some (0, s, io_emit [CClose k, CClose k] io)"
  using assms by (simp add: CreateConnectObj_def CheckSocket_def)

definition sample_io :: net_io where
  "sample_io = \<lparr>io_locator = sample_locator, io_arrivals = (\<lambda>_. []), io_room = (\<lambda>_. 3), io_wire = (\<lambda>_. []),
     io_effects = []\<rparr>"

definition sample_net :: Network where
  "sample_net = \<lparr>nw_networkType = TcpListen,
     nw_connects = (\<lambda>_. None)(7 \<mapsto> sample_conn\<lparr>co_sendBuffer :=
        \<lparr>b_buffer = [1, 2, 3, 4, 0], b_beginIndex = 0, b_endIndex = 4, b_bufferSize = 5, nb_dataSize = 4\<rparr>\<rparr>),
     nw_sockets = [7],
     nw_epfd = Some ((\<lambda>_. None)(7 \<mapsto> \<lparr>ep_IN = True, ep_OUT = True, ep_ET = False, ep_RDHUP = True\<rparr>)),
     nw_sendMsgList = writer_emplace_back (sample_packet\<lparr>p_socketKey := \<lparr>sk_Socket = 7, sk_NetType = TcpListen\<rparr>\<rparr>)
        CacheSwap_new\<rparr>"

lemma sample_net_simps:
  "nw_connects sample_net 7 = Some (sample_conn\<lparr>co_sendBuffer :=
        \<lparr>b_buffer = [1, 2, 3, 4, 0], b_beginIndex = 0, b_endIndex = 4, b_bufferSize = 5, nb_dataSize = 4\<rparr>\<rparr>)"
  "net_inv sample_net" "send_ok 1 sample_net"
  by (simp_all add: sample_net_def net_inv_def send_ok_def MAX_CLIENT_def sample_conn_def ConnectObj_Awake_def
      ss_wf_def netbuf_wf_def size_ok_def ADDITIONAL_SIZE_def)


theorem OnNetworkUpdate_conserves_witness:
  "\<exists>s1 b. OnNetworkUpdate (sample_net, sample_io)
       = Some (s1, io_emit [CFree (sample_packet\<lparr>p_socketKey := \<lparr>sk_Socket = 7, sk_NetType = TcpListen\<rparr>\<rparr>)] sample_io)
     \<and> map_option co_sendBuffer (nw_connects s1 7) = Some b \<and> take 4 (netbuf_data b) = [1, 2, 3, 4]"
proof -
  let ?p = "sample_packet\<lparr>p_socketKey := \<lparr>sk_Socket = 7, sk_NetType = TcpListen\<rparr>\<rparr>"
  have "GetReaderCache (nw_sendMsgList sample_net) = []" "GetWriterCache (nw_sendMsgList sample_net) = [?p]"
    by (simp_all add: sample_net_def CacheSwap_new_def GetReaderCache_def GetWriterCache_def writer_emplace_back_def)
  moreover have "frame_fits ?p"
    by (simp add: frame_fits_def packet_wf_def size_ok_def packet_data_def sample_packet_def Packet_new_def)
  moreover have "send_ok (length [?p]) sample_net" using sample_net_simps(3) by simp
  ultimately obtain s1 where "OnNetworkUpdate (sample_net, sample_io) = Some (s1, io_emit (map CFree [?p]) sample_io)"
    "\<forall>k. after_packets [?p] k (nw_connects sample_net k) (nw_connects s1 k)"
    using OnNetworkUpdate_conserves [of sample_net "[?p]" sample_io] by (auto simp: MAX_CLIENT_def)
  moreover from this(2) have "after_packets [?p] 7 (nw_connects sample_net 7) (nw_connects s1 7)" by blast
  moreover have "netbuf_data \<lparr>b_buffer = [1, 2, 3, 4, 0], b_beginIndex = 0, b_endIndex = 4, b_bufferSize = 5,
      nb_dataSize = 4\<rparr> = [1, 2, 3, 4]" by (simp add: netbuf_data_def ring_bytes_def)
  ultimately show ?thesis by (auto simp: after_packets_def sample_net_simps)
qed

theorem Epoll_partial_send_stalls_witness:
  "\<exists>s1 io1 c1 m1 f. Epoll_event sample_env \<lparr>ep_IN = False, ep_OUT = True, ep_ET = False, ep_RDHUP = False,
        ev_fd = 7, ev_ERR = False, ev_HUP = False\<rparr> (sample_net, sample_io) = Some (s1, io1)
    \<and> nw_connects s1 7 = Some c1 \<and> netbuf_data (co_sendBuffer c1) \<noteq> []
    \<and> nw_epfd s1 = Some m1 \<and> m1 7 = Some f \<and> \<not> ep_OUT f"
  by (rule Epoll_partial_send_stalls [OF sample_net_simps(2,1)])
     (auto simp: sample_net_def sample_io_def sample_conn_simps netbuf_wf_def size_ok_def GetReadSize_def)

theorem Accept_closes_twice_witness:
  "Accept [(9, Some 111, ConnectObj_new)] 0 (sample_net, sample_io)
   = Some (0, sample_net, io_emit [CClose 9, CClose 9] sample_io)"
  by (rule Accept_closes_twice) (simp_all add: IsError_def)

end
