(* ===== verification/Thread_Mgr.thy ===== *)
theory Thread_Mgr
  imports Cache Packet_Object Sn_Global
begin

text \<open>
  \<open>thread.{h,cpp}\<close>, \<open>thread_collector.{h,cpp}\<close>, \<open>thread_collector_exclusive.{h,cpp}\<close> and
  \<open>thread_mgr.{h,cpp}\<close>: the threads of a process and how packets reach them. The main thread
  moves the packets queued by all threads into the queues of the threads; a packet is shared by
  its receivers and counts them. Threads are given by their queue of packets (what runs on a
  thread is in \<open>Message_System\<close>); the packets are on a common heap. Locks are taken for the whole
  of the operations on the two lists. \<open>None\<close> is undefined behaviour or \<open>std::terminate\<close>.
\<close>

section \<open>Threads\<close>

type_synonym ThreadType = int

abbreviation (input) MainThread :: ThreadType where "MainThread \<equiv> 1"
abbreviation (input) ListenThread :: ThreadType where "ListenThread \<equiv> 2"
abbreviation (input) ConnectThread :: ThreadType where "ConnectThread \<equiv> 4"
abbreviation (input) LogicThread :: ThreadType where "LogicThread \<equiv> 8"
abbreviation (input) MysqlThread :: ThreadType where "MysqlThread \<equiv> 16"

definition AllThreadType :: ThreadType where
  "AllThreadType = or MainThread (or LogicThread (or ListenThread (or ConnectThread MysqlThread)))"

definition GetThreadTypeName :: "ThreadType \<Rightarrow> string" where
  "GetThreadTypeName t =
     (if t = MainThread then ''MainThread'' else if t = LogicThread then ''LogicThread''
      else if t = ListenThread then ''ListenThread'' else if t = ConnectThread then ''ConnectThread''
      else if t = MysqlThread then ''MysqlThread'' else ''unknown'')"

datatype ThreadState = TS_Init | TS_Run | TS_Stop | TS_Destroy

text \<open>\<open>th_joinable\<close>: whether \<open>_thread\<close> holds a running or finished, not yet joined thread.\<close>

record Thread =
  th_threadType :: ThreadType
  th_state :: ThreadState
  th_joinable :: bool
  th_queue :: "addr CacheSwap"

definition Thread_new :: "ThreadType \<Rightarrow> Thread" where
  "Thread_new t = \<lparr>th_threadType = t, th_state = TS_Init, th_joinable = False, th_queue = CacheSwap_new\<rparr>"

text \<open>\<open>Start\<close> assigns a new \<open>std::thread\<close>; over a joinable one that terminates the process. The
  body of the thread then sets the state by itself, at its start and at its end.\<close>

definition Thread_Start :: "Thread \<Rightarrow> Thread option" where
  "Thread_Start t = (if th_joinable t then None else Some (t\<lparr>th_joinable := True\<rparr>))"

definition Thread_body_begins :: "Thread \<Rightarrow> Thread" where
  "Thread_body_begins t = t\<lparr>th_state := TS_Run\<rparr>"

definition Thread_body_ends :: "Thread \<Rightarrow> Thread" where
  "Thread_body_ends t = t\<lparr>th_state := TS_Stop\<rparr>"

definition Thread_IsStop :: "Thread \<Rightarrow> bool" where
  "Thread_IsStop t \<longleftrightarrow> th_state t = TS_Stop"

definition Thread_IsDestroy :: "Thread \<Rightarrow> bool" where
  "Thread_IsDestroy t \<longleftrightarrow> th_state t = TS_Destroy"

text \<open>\<open>join\<close> returns when the body has ended.\<close>

definition Thread_DestroyThread :: "Thread \<Rightarrow> Thread" where
  "Thread_DestroyThread t =
     (if th_state t = TS_Destroy then t
      else if th_joinable t then t\<lparr>th_joinable := False, th_state := TS_Destroy\<rparr> else t)"

section \<open>\<open>class ThreadCollector\<close> and \<open>class ThreadCollectorExclusive\<close>\<close>

record ThreadCollector =
  tc_exclusive :: bool
  tc_threadType :: ThreadType
  tc_threads :: "Thread CacheRefresh"
  tc_nextThreadSn :: u64

text \<open>The packets of the process, by address.\<close>

type_synonym packets = "addr \<Rightarrow> packet"

text \<open>\<open>GetMessageSystem()->AddPacketToList(pPacket)\<close> on a queue.\<close>

definition queue_packet :: "addr \<Rightarrow> addr CacheSwap \<times> packets \<Rightarrow> addr CacheSwap \<times> packets" where
  "queue_packet p qh = (case qh of (q, h) \<Rightarrow> (writer_emplace_back p q, h(p := Packet_AddRef (h p))))"

fun add_threads :: "nat \<Rightarrow> ThreadType \<Rightarrow> Global \<times> Thread CacheRefresh \<Rightarrow> Global \<times> Thread CacheRefresh" where
  "add_threads 0 t gc = gc"
| "add_threads (Suc n) t (g, c) =
     (let (sn, g1) = SnObject_new g in add_threads n t (g1, AddObj sn (Thread_new t) c))"

fun start_threads :: "(u64, Thread) smap \<Rightarrow> (u64, Thread) smap option" where
  "start_threads [] = Some []"
| "start_threads ((sn, t) # m) = do {
     t1 \<leftarrow> Thread_Start t;
     m1 \<leftarrow> start_threads m;
     Some ((sn, t1) # m1) }"

definition Collector_CreateThread :: "int \<Rightarrow> Global \<times> ThreadCollector \<Rightarrow> (Global \<times> ThreadCollector) option" where
  "Collector_CreateThread num gc = (case gc of (g, c) \<Rightarrow>
     (let (g1, threads) = add_threads (nat num) (tc_threadType c) (g, tc_threads c);
          threads1 = fst (CacheRefresh_Swap threads) in do {
        m \<leftarrow> start_threads (cr_objs threads1);
        Some (g1, c\<lparr>tc_threads := threads1\<lparr>cr_objs := m\<rparr>\<rparr>) }))"

definition ThreadCollector_new :: "bool \<Rightarrow> ThreadType \<Rightarrow> int \<Rightarrow> Global \<Rightarrow> (Global \<times> ThreadCollector) option" where
  "ThreadCollector_new exclusive threadType initNum g =
     Collector_CreateThread initNum (g, \<lparr>tc_exclusive = exclusive, tc_threadType = threadType,
       tc_threads = CacheRefresh_new, tc_nextThreadSn = 0\<rparr>)"

definition Collector_threads :: "ThreadCollector \<Rightarrow> (u64, Thread) smap" where
  "Collector_threads c = cr_objs (tc_threads c)"

definition set_threads :: "(u64, Thread) smap \<Rightarrow> ThreadCollector \<Rightarrow> ThreadCollector" where
  "set_threads m c = c\<lparr>tc_threads := (tc_threads c)\<lparr>cr_objs := m\<rparr>\<rparr>"

definition Collector_DestroyThread :: "ThreadCollector \<Rightarrow> ThreadCollector" where
  "Collector_DestroyThread c = set_threads (map (\<lambda>(sn, t). (sn, Thread_DestroyThread t)) (Collector_threads c)) c"

definition ThreadCollector_Update :: "ThreadCollector \<Rightarrow> ThreadCollector" where
  "ThreadCollector_Update c =
     (if CacheRefresh_CanSwap (tc_threads c) then c\<lparr>tc_threads := fst (CacheRefresh_Swap (tc_threads c))\<rparr> else c)"

definition Collector_IsStopAll :: "ThreadCollector \<Rightarrow> bool" where
  "Collector_IsStopAll c = list_all (\<lambda>(sn, t). Thread_IsStop t) (Collector_threads c)"

definition Collector_IsDestroyAll :: "ThreadCollector \<Rightarrow> bool" where
  "Collector_IsDestroyAll c = list_all (\<lambda>(sn, t). Thread_IsDestroy t) (Collector_threads c)"

text \<open>Queue on every thread.\<close>

fun queue_all :: "addr \<Rightarrow> (u64, Thread) smap \<Rightarrow> packets \<Rightarrow> (u64, Thread) smap \<times> packets" where
  "queue_all p [] h = ([], h)"
| "queue_all p ((sn, t) # m) h =
     (let (q, h1) = queue_packet p (th_queue t, h); (m1, h2) = queue_all p m h1
      in ((sn, t\<lparr>th_queue := q\<rparr>) # m1, h2))"

text \<open>Queue on the thread whose turn it is. An iterator is the rest of the map from its
  element on, \<open>end()\<close> the empty list.\<close>

definition iter_find :: "u64 \<Rightarrow> (u64, 'a) smap \<Rightarrow> (u64, 'a) smap" where
  "iter_find k m = dropWhile (\<lambda>p. fst p \<noteq> k) m"

definition queue_next :: "addr \<Rightarrow> ThreadCollector \<times> packets \<Rightarrow> (ThreadCollector \<times> packets) option" where
  "queue_next p ch = (case ch of (c, h) \<Rightarrow>
     (let objs = Collector_threads c;
          found = iter_find (tc_nextThreadSn c) objs;
          iter = (if found = [] then objs else found)
      in case iter of
           [] \<Rightarrow> None
         | (sn, t) # rest \<Rightarrow>
             (let (q, h1) = queue_packet p (th_queue t, h);
                  nxt = (if rest = [] then objs else rest);
                  c1 = set_threads (sm_assign sn (t\<lparr>th_queue := q\<rparr>) objs) c
              in Some (c1\<lparr>tc_nextThreadSn := fst (hd nxt)\<rparr>, h1))))"

definition HandlerCreateMessage :: "addr \<Rightarrow> bool \<Rightarrow> ThreadCollector \<times> packets \<Rightarrow> (ThreadCollector \<times> packets) option" where
  "HandlerCreateMessage p isToAllThread ch =
     (if isToAllThread then (case ch of (c, h) \<Rightarrow>
        (let (m, h1) = queue_all p (Collector_threads c) h in Some (set_threads m c, h1)))
      else queue_next p ch)"

definition HandlerMessage :: "addr \<Rightarrow> ThreadCollector \<times> packets \<Rightarrow> (ThreadCollector \<times> packets) option" where
  "HandlerMessage p ch = (case ch of (c, h) \<Rightarrow>
     (if tc_exclusive c then
        (if Packet_GetMsgId (h p) = MI_CmdThread then HandlerCreateMessage p True (c, h) else queue_next p (c, h))
      else (let (m, h1) = queue_all p (Collector_threads c) h in Some (set_threads m c, h1))))"

section \<open>\<open>class ThreadMgr\<close>\<close>

text \<open>\<open>tm_queue\<close> is the main thread's own queue. \<open>tm_create\<close> decodes the body of a packet as
  \<open>Proto::CreateComponent\<close>, of which the thread type and the flag are used here.\<close>

record ThreadMgr =
  tm_queue :: "addr CacheSwap"
  tm_threads :: "(ThreadType, ThreadCollector) smap"
  tm_createPackets :: "addr CacheSwap"
  tm_packets :: "addr CacheSwap"

record AppConfig =
  ac_LogicThreadNum :: int
  ac_MysqlThreadNum :: int
  ac_ListenThreadNum :: int
  ac_ConnectThreadNum :: int

definition CreateThread :: "AppConfig \<Rightarrow> ThreadType \<Rightarrow> int \<Rightarrow> Global \<times> ThreadMgr \<Rightarrow> (Global \<times> ThreadMgr) option" where
  "CreateThread cfg iType num gm = (case gm of (g, m) \<Rightarrow>
     (if ac_LogicThreadNum cfg = 0 \<and> ac_MysqlThreadNum cfg = 0 then Some (g, m)
      else do {
        (g1, c) \<leftarrow> (case sm_find (tm_threads m) iType of
            None \<Rightarrow> ThreadCollector_new (iType = MysqlThread) iType num g
          | Some c \<Rightarrow> Collector_CreateThread num (g, c));
        Some (g1, m\<lparr>tm_threads := sm_assign iType c (tm_threads m)\<rparr>) }))"

definition InitializeThread :: "AppConfig \<Rightarrow> Global \<times> ThreadMgr \<Rightarrow> (Global \<times> ThreadMgr) option" where
  "InitializeThread cfg gm = do {
     gm1 \<leftarrow> (if ac_LogicThreadNum cfg > 0 then CreateThread cfg LogicThread (ac_LogicThreadNum cfg) gm else Some gm);
     gm2 \<leftarrow> (if ac_MysqlThreadNum cfg > 0 then CreateThread cfg MysqlThread (ac_MysqlThreadNum cfg) gm1 else Some gm1);
     (if ac_LogicThreadNum cfg > 0 \<or> ac_MysqlThreadNum cfg > 0 then do {
        gm3 \<leftarrow> (if ac_ListenThreadNum cfg > 0 then CreateThread cfg ListenThread (ac_ListenThreadNum cfg) gm2
                else Some gm2);
        (if ac_ConnectThreadNum cfg > 0 then CreateThread cfg ConnectThread (ac_ConnectThreadNum cfg) gm3
         else Some gm3) }
      else Some gm2) }"

definition ThreadMgr_DispatchPacket :: "addr \<Rightarrow> ThreadMgr \<Rightarrow> ThreadMgr" where
  "ThreadMgr_DispatchPacket p m = m\<lparr>tm_packets := writer_emplace_back p (tm_packets m)\<rparr>"

definition open_ref :: "addr \<Rightarrow> packets \<Rightarrow> packets" where
  "open_ref p h = h(p := Packet_OpenRef (h p))"

definition create_packet :: "(packet \<Rightarrow> ThreadType \<times> bool) \<Rightarrow> addr \<Rightarrow> ThreadMgr \<times> packets \<Rightarrow> (ThreadMgr \<times> packets) option" where
  "create_packet dec p mh = (case mh of (m, h) \<Rightarrow>
     (if tm_threads m \<noteq> [] then
        (let (threadType, isToAll) = dec (h p) in
         case sm_find (tm_threads m) threadType of
           None \<Rightarrow> Some (m, h)
         | Some c \<Rightarrow> do {
             (c1, h1) \<leftarrow> HandlerCreateMessage p isToAll (c, h);
             Some (m\<lparr>tm_threads := sm_assign threadType c1 (tm_threads m)\<rparr>, open_ref p h1) })
      else (let (q, h1) = queue_packet p (tm_queue m, h) in Some (m\<lparr>tm_queue := q\<rparr>, open_ref p h1))))"

fun create_packets :: "(packet \<Rightarrow> ThreadType \<times> bool) \<Rightarrow> addr list \<Rightarrow> ThreadMgr \<times> packets \<Rightarrow> (ThreadMgr \<times> packets) option" where
  "create_packets dec [] mh = Some mh"
| "create_packets dec (p # ps) mh = Option.bind (create_packet dec p mh) (create_packets dec ps)"

definition UpdateCreatePacket :: "(packet \<Rightarrow> ThreadType \<times> bool) \<Rightarrow> ThreadMgr \<times> packets \<Rightarrow> (ThreadMgr \<times> packets) option" where
  "UpdateCreatePacket dec mh = (case mh of (m, h) \<Rightarrow>
     (let l = (if CacheSwap_CanSwap (tm_createPackets m) then CacheSwap_Swap (tm_createPackets m)
               else tm_createPackets m) in do {
        (m1, h1) \<leftarrow> create_packets dec (GetReaderCache l) (m\<lparr>tm_createPackets := l\<rparr>, h);
        Some (m1\<lparr>tm_createPackets := reader_clear (tm_createPackets m1)\<rparr>, h1) }))"

fun handle_all :: "addr \<Rightarrow> (ThreadType, ThreadCollector) smap \<Rightarrow> packets
    \<Rightarrow> ((ThreadType, ThreadCollector) smap \<times> packets) option" where
  "handle_all p [] h = Some ([], h)"
| "handle_all p ((t, c) # cs) h = do {
     (c1, h1) \<leftarrow> HandlerMessage p (c, h);
     (cs1, h2) \<leftarrow> handle_all p cs h1;
     Some ((t, c1) # cs1, h2) }"

definition dispatch_packet :: "addr \<Rightarrow> ThreadMgr \<times> packets \<Rightarrow> (ThreadMgr \<times> packets) option" where
  "dispatch_packet p mh = (case mh of (m, h) \<Rightarrow>
     (let (q, h1) = queue_packet p (tm_queue m, h) in do {
        (cs, h2) \<leftarrow> handle_all p (tm_threads m) h1;
        Some (m\<lparr>tm_queue := q, tm_threads := cs\<rparr>, open_ref p h2) }))"

fun dispatch_packets :: "addr list \<Rightarrow> ThreadMgr \<times> packets \<Rightarrow> (ThreadMgr \<times> packets) option" where
  "dispatch_packets [] mh = Some mh"
| "dispatch_packets (p # ps) mh = Option.bind (dispatch_packet p mh) (dispatch_packets ps)"

definition UpdateDispatchPacket :: "ThreadMgr \<times> packets \<Rightarrow> (ThreadMgr \<times> packets) option" where
  "UpdateDispatchPacket mh = (case mh of (m, h) \<Rightarrow>
     (let l = (if CacheSwap_CanSwap (tm_packets m) then CacheSwap_Swap (tm_packets m) else tm_packets m) in do {
        (m1, h1) \<leftarrow> dispatch_packets (GetReaderCache l) (m\<lparr>tm_packets := l\<rparr>, h);
        Some (m1\<lparr>tm_packets := reader_clear (tm_packets m1)\<rparr>, h1) }))"

definition ThreadMgr_IsStopAll :: "ThreadMgr \<Rightarrow> bool" where
  "ThreadMgr_IsStopAll m = list_all (\<lambda>(t, c). Collector_IsStopAll c) (tm_threads m)"

definition ThreadMgr_DestroyThread :: "ThreadMgr \<Rightarrow> ThreadMgr" where
  "ThreadMgr_DestroyThread m = m\<lparr>tm_threads := map (\<lambda>(t, c). (t, Collector_DestroyThread c)) (tm_threads m)\<rparr>"

definition ThreadMgr_IsDestroyAll :: "ThreadMgr \<Rightarrow> bool" where
  "ThreadMgr_IsDestroyAll m = list_all (\<lambda>(t, c). Collector_IsDestroyAll c) (tm_threads m)"

section \<open>Facts\<close>

text \<open>Queueing \<open>p\<close> on some of a collector's threads.\<close>

definition queue_on :: "addr \<Rightarrow> (u64 \<Rightarrow> bool) \<Rightarrow> (u64, Thread) smap \<Rightarrow> (u64, Thread) smap" where
  "queue_on p P m = map (\<lambda>(sn, t). (sn, if P sn then t\<lparr>th_queue := writer_emplace_back p (th_queue t)\<rparr> else t)) m"

definition add_refs :: "addr \<Rightarrow> nat \<Rightarrow> packets \<Rightarrow> packets" where
  "add_refs p n h = h(p := (h p)\<lparr>p_ref := p_ref (h p) + int n\<rparr>)"

lemma add_refs_add: "add_refs p a (add_refs p b h) = add_refs p (a + b) h"
  by (simp add: add_refs_def algebra_simps)

lemma add_refs_0 [simp]: "add_refs p 0 h = h"
  by (simp add: add_refs_def)

lemma queue_packet_refs: "queue_packet p (q, h) = (writer_emplace_back p q, add_refs p 1 h)"
  by (simp add: queue_packet_def add_refs_def Packet_AddRef_def)

lemma queue_all_on: "queue_all p m h = (queue_on p (\<lambda>_. True) m, add_refs p (length m) h)"
  by (induction p m h rule: queue_all.induct)
     (simp_all add: queue_on_def queue_packet_refs add_refs_add add.commute)

lemma fst_queue_on [simp]: "map fst (queue_on p P m) = map fst m"
  by (induction m) (auto simp: queue_on_def)

lemma sm_assign_present:
  "sm_wf m \<Longrightarrow> (k, w) \<in> set m \<Longrightarrow> sm_assign k v m = map (\<lambda>(j, u). (j, if j = k then v else u)) m"
proof (induction m)
  case Nil
  then show ?case by simp
next
  case (Cons q m)
  obtain j u where q: "q = (j, u)" by (cases q)
  have later: "\<forall>q\<in>set m. j < fst q" and m: "sm_wf m" using Cons.prems(1) by (auto simp: sm_wf_Cons q)
  have "map (\<lambda>(i, u). (i, if i = j then v else u)) m = m" using later by (intro map_idI) auto
  with Cons later m show ?case by (fastforce simp: q)
qed

text \<open>Whose turn it is, and who is next.\<close>

definition turn :: "u64 \<Rightarrow> u64 list \<Rightarrow> nat" where
  "turn sn ks = (if sn \<in> set ks then length (takeWhile (\<lambda>k. k \<noteq> sn) ks) else 0)"

lemma turn_less: "ks \<noteq> [] \<Longrightarrow> turn sn ks < length ks"
proof (cases "sn \<in> set ks")
  case True
  have "takeWhile (\<lambda>k. k \<noteq> sn) ks @ dropWhile (\<lambda>k. k \<noteq> sn) ks = ks" by simp
  moreover have "dropWhile (\<lambda>k. k \<noteq> sn) ks \<noteq> []" using True by (auto simp: dropWhile_eq_Nil_conv)
  ultimately have "length (takeWhile (\<lambda>k. k \<noteq> sn) ks) < length ks"
    by (metis length_append length_greater_0_conv less_add_same_cancel1)
  with True show ?thesis by (simp add: turn_def)
next
  case False
  then show "ks \<noteq> [] \<Longrightarrow> turn sn ks < length ks" by (simp add: turn_def)
qed

lemma turn_nth: "distinct ks \<Longrightarrow> i < length ks \<Longrightarrow> turn (ks ! i) ks = i"
proof -
  assume d: "distinct ks" and i: "i < length ks"
  have "takeWhile (\<lambda>k. k \<noteq> ks ! i) ks = take i ks"
    by (rule takeWhile_eq_take_P_nth) (use d i in \<open>auto simp: nth_eq_iff_index_eq\<close>)
  then show ?thesis using i by (simp add: turn_def)
qed

lemma iter_find_drop:
  assumes "m \<noteq> []"
  shows "(if iter_find sn m = [] then m else iter_find sn m) = drop (turn sn (map fst m)) m"
proof (cases "sn \<in> set (map fst m)")
  case True
  have "takeWhile (\<lambda>k. k \<noteq> sn) (map fst m) = map fst (takeWhile (\<lambda>p. fst p \<noteq> sn) m)"
    by (simp add: takeWhile_map comp_def)
  then have "turn sn (map fst m) = length (takeWhile (\<lambda>p. fst p \<noteq> sn) m)" using True by (simp add: turn_def)
  moreover have "iter_find sn m \<noteq> []" using True by (auto simp: iter_find_def dropWhile_eq_Nil_conv)
  ultimately show ?thesis by (simp add: iter_find_def dropWhile_eq_drop)
next
  case False
  then have "iter_find sn m = []" by (auto simp: iter_find_def dropWhile_eq_Nil_conv)
  with False show ?thesis by (simp add: turn_def)
qed

definition collector_wf :: "ThreadCollector \<Rightarrow> bool" where
  "collector_wf c \<longleftrightarrow> sm_wf (Collector_threads c) \<and> Collector_threads c \<noteq> []"

lemma Collector_threads_set [simp]: "Collector_threads (set_threads m c) = m"
    "Collector_threads (c\<lparr>tc_nextThreadSn := n\<rparr>) = Collector_threads c"
  by (simp_all add: Collector_threads_def set_threads_def)

lemma set_threads_fields [simp]:
  "tc_exclusive (set_threads m c) = tc_exclusive c" "tc_nextThreadSn (set_threads m c) = tc_nextThreadSn c"
  by (simp_all add: set_threads_def)

lemma sm_wf_keys: "sm_wf m \<longleftrightarrow> sorted_wrt (<) (map fst m)"
  by (induction m) (auto simp: sm_wf_Cons)

lemma sm_wf_queue_on [simp]: "sm_wf (queue_on p P m) = sm_wf m"
  by (simp only: sm_wf_keys fst_queue_on)

lemma queue_on_empty [simp]: "queue_on p P m = [] \<longleftrightarrow> m = []"
  by (simp add: queue_on_def)

lemma queue_next_ok:
  assumes "collector_wf c"
  defines "ks \<equiv> map fst (Collector_threads c)"
  defines "i \<equiv> turn (tc_nextThreadSn c) ks"
  shows "queue_next p (c, h) = Some
    ((set_threads (queue_on p (\<lambda>sn. sn = ks ! i) (Collector_threads c)) c)
       \<lparr>tc_nextThreadSn := ks ! (Suc i mod length ks)\<rparr>, add_refs p 1 h)"
proof -
  let ?m = "Collector_threads c"
  have wf: "sm_wf ?m" and ne: "?m \<noteq> []" using assms(1) by (auto simp: collector_wf_def)
  have i: "i < length ?m" using turn_less [of ks] ne by (simp add: i_def ks_def)
  obtain sn t where st: "?m ! i = (sn, t)" by (cases "?m ! i") auto
  have d: "drop i ?m = (sn, t) # drop (Suc i) ?m" using i st by (simp add: Cons_nth_drop_Suc [symmetric])
  have it: "(if iter_find (tc_nextThreadSn c) ?m = [] then ?m else iter_find (tc_nextThreadSn c) ?m)
      = (sn, t) # drop (Suc i) ?m"
    using iter_find_drop [OF ne] d by (simp add: i_def ks_def)
  have sn: "ks ! i = sn" using st i by (simp add: ks_def)
  have "(sn, t) \<in> set ?m" using st i nth_mem by metis
  from sm_assign_present [OF wf this]
  have upd: "sm_assign sn (t\<lparr>th_queue := q\<rparr>) ?m = map (\<lambda>(j, u). (j, if j = sn then t\<lparr>th_queue := q\<rparr> else u)) ?m" for q .
  have uniq: "u = t" if "(sn, u) \<in> set ?m" for u
    using that \<open>(sn, t) \<in> set ?m\<close> wf by (simp add: sm_find_in_set)
  have on: "sm_assign sn (t\<lparr>th_queue := writer_emplace_back p (th_queue t)\<rparr>) ?m = queue_on p (\<lambda>k. k = sn) ?m"
    unfolding upd queue_on_def using uniq by (intro map_cong) auto
  have nxt: "fst (hd (if drop (Suc i) ?m = [] then ?m else drop (Suc i) ?m)) = ks ! (Suc i mod length ks)"
  proof (cases "Suc i < length ?m")
    case True
    then show ?thesis by (simp add: ks_def hd_drop_conv_nth)
  next
    case False
    then have "Suc i = length ?m" using i by simp
    then show ?thesis using ne by (simp add: ks_def hd_conv_nth)
  qed
  show ?thesis
    unfolding queue_next_def Let_def prod.case it list.case queue_packet_refs on nxt sn ..
qed

lemma length_filter_eq_one: "distinct ks \<Longrightarrow> k \<in> set ks \<Longrightarrow> length (filter (\<lambda>j. j = k) ks) = 1"
proof (induction ks)
  case (Cons a ks)
  then show ?case by (cases "a = k") (auto simp: filter_empty_conv)
qed simp

text \<open>The threads of a collector that a packet goes to.\<close>

definition receives :: "ThreadCollector \<Rightarrow> packet \<Rightarrow> u64 \<Rightarrow> bool" where
  "receives c pk sn \<longleftrightarrow> \<not> tc_exclusive c \<or> p_msgId pk = MI_CmdThread
     \<or> sn = map fst (Collector_threads c) ! turn (tc_nextThreadSn c) (map fst (Collector_threads c))"

lemma HandlerMessage_ok:
  assumes "collector_wf c"
  shows "\<exists>c1. HandlerMessage p (c, h) = Some (c1, add_refs p (length (filter (receives c (h p)) (map fst (Collector_threads c)))) h)
    \<and> Collector_threads c1 = queue_on p (receives c (h p)) (Collector_threads c) \<and> tc_exclusive c1 = tc_exclusive c
    \<and> collector_wf c1"
proof (cases "tc_exclusive c \<and> p_msgId (h p) \<noteq> MI_CmdThread")
  case False
  then have r: "receives c (h p) = (\<lambda>_. True)" by (auto simp: receives_def)
  from False assms show ?thesis
    by (auto simp: HandlerMessage_def HandlerCreateMessage_def Packet_GetMsgId_def queue_all_on r collector_wf_def)
next
  case True
  let ?ks = "map fst (Collector_threads c)"
  let ?k = "?ks ! turn (tc_nextThreadSn c) ?ks"
  have r: "receives c (h p) = (\<lambda>sn. sn = ?k)" using True by (auto simp: receives_def)
  have "distinct ?ks" using assms by (simp add: collector_wf_def sm_wf_distinct)
  moreover have "?k \<in> set ?ks" using turn_less [of ?ks] assms by (intro nth_mem) (simp add: collector_wf_def)
  ultimately have one: "length (filter (\<lambda>sn. sn = ?k) ?ks) = 1" by (rule length_filter_eq_one)
  show ?thesis
    unfolding r one HandlerMessage_def prod.case Packet_GetMsgId_def if_P [OF conjunct1 [OF True]]
      if_not_P [OF conjunct2 [OF True]] queue_next_ok [OF assms]
    using assms by (auto simp: collector_wf_def)
qed

text \<open>How many queue entries hold a packet.\<close>

definition entries :: "addr \<Rightarrow> Thread \<Rightarrow> nat" where
  "entries q t = count_list (GetWriterCache (th_queue t)) q"

definition threads_entries :: "addr \<Rightarrow> (u64, Thread) smap \<Rightarrow> nat" where
  "threads_entries q m = sum_list (map (entries q \<circ> snd) m)"

fun all_entries :: "addr \<Rightarrow> (ThreadType, ThreadCollector) smap \<Rightarrow> nat" where
  "all_entries q [] = 0"
| "all_entries q ((t, c) # cs) = threads_entries q (Collector_threads c) + all_entries q cs"

definition mgr_entries :: "addr \<Rightarrow> ThreadMgr \<Rightarrow> nat" where
  "mgr_entries q m = count_list (GetWriterCache (tm_queue m)) q
     + all_entries q (tm_threads m)"

lemma threads_entries_queue_on:
  "threads_entries q (queue_on p P m) = threads_entries q m + (if q = p then length (filter P (map fst m)) else 0)"
  by (induction m) (auto simp: threads_entries_def queue_on_def entries_def)

text \<open>What dispatching \<open>ps\<close> does to a collector: a shared one queues all of them on all threads.\<close>

definition queue_list :: "addr list \<Rightarrow> (u64, Thread) smap \<Rightarrow> (u64, Thread) smap" where
  "queue_list ps m = map (\<lambda>(sn, t). (sn, t\<lparr>th_queue := fold writer_emplace_back ps (th_queue t)\<rparr>)) m"

definition grows :: "addr list \<Rightarrow> ThreadType \<times> ThreadCollector \<Rightarrow> ThreadType \<times> ThreadCollector \<Rightarrow> bool" where
  "grows ps c c1 \<longleftrightarrow> fst c1 = fst c \<and> tc_exclusive (snd c1) = tc_exclusive (snd c)
     \<and> (\<not> tc_exclusive (snd c) \<longrightarrow> Collector_threads (snd c1) = queue_list ps (Collector_threads (snd c)))"

lemma queue_list_Nil [simp]: "queue_list [] m = m"
  by (induction m) (auto simp: queue_list_def)

lemma queue_list_Cons: "queue_list (p # ps) m = queue_list ps (queue_on p (\<lambda>_. True) m)"
  by (auto simp: queue_list_def queue_on_def)

lemma grows_Nil: "grows [] c c"
  by (simp add: grows_def)

lemma grows_Cons: "grows [p] a b \<Longrightarrow> grows ps b c \<Longrightarrow> grows (p # ps) a c"
  by (auto simp: grows_def queue_list_Cons)

definition threads_wf :: "(ThreadType, ThreadCollector) smap \<Rightarrow> bool" where
  "threads_wf cs \<longleftrightarrow> (\<forall>(t, c)\<in>set cs. collector_wf c)"

lemma handle_all_ok:
  "threads_wf cs \<Longrightarrow> \<exists>cs1 n. handle_all p cs h = Some (cs1, add_refs p n h) \<and> threads_wf cs1
    \<and> list_all2 (grows [p]) cs cs1
    \<and> (\<forall>q. all_entries q cs1
          = all_entries q cs + (if q = p then n else 0))"
proof (induction cs arbitrary: h)
  case Nil
  then show ?case by (auto intro!: exI [of _ 0])
next
  case (Cons tc cs)
  obtain t c where tc: "tc = (t, c)" by (cases tc)
  with Cons.prems have c: "collector_wf c" and cs: "threads_wf cs" by (auto simp: threads_wf_def)
  let ?n = "length (filter (receives c (h p)) (map fst (Collector_threads c)))"
  from HandlerMessage_ok [OF c, of p h] obtain c1 where
    c1: "HandlerMessage p (c, h) = Some (c1, add_refs p ?n h)"
      "Collector_threads c1 = queue_on p (receives c (h p)) (Collector_threads c)" "tc_exclusive c1 = tc_exclusive c"
      "collector_wf c1" by blast
  from Cons.IH [OF cs, of "add_refs p ?n h"] obtain cs1 n where
    cs1: "handle_all p cs (add_refs p ?n h) = Some (cs1, add_refs p n (add_refs p ?n h))" "threads_wf cs1"
      "list_all2 (grows [p]) cs cs1"
      "\<forall>q. all_entries q cs1
          = all_entries q cs + (if q = p then n else 0)" by blast
  have "handle_all p (tc # cs) h = Some ((t, c1) # cs1, add_refs p (n + ?n) h)"
    using c1(1) cs1(1) by (simp add: tc add_refs_add)
  moreover have "grows [p] tc (t, c1)"
  proof -
    have "\<not> tc_exclusive c \<Longrightarrow> receives c (h p) = (\<lambda>_. True)" by (auto simp: receives_def)
    then show ?thesis using c1(2,3) by (simp add: grows_def tc queue_list_Cons)
  qed
  moreover have "threads_wf ((t, c1) # cs1)" using c1(4) cs1(2) by (simp add: threads_wf_def)
  moreover have "threads_entries q (Collector_threads c1) = threads_entries q (Collector_threads c) + (if q = p then ?n else 0)" for q
    by (simp only: c1(2) threads_entries_queue_on)
  ultimately show ?case
    using cs1(3,4) by (intro exI [of _ "(t, c1) # cs1"] exI [of _ "n + ?n"]) (simp add: tc)
qed

lemma dispatch_packet_ok:
  assumes "threads_wf (tm_threads m)"
  shows "\<exists>m1 h1. dispatch_packet p (m, h) = Some (m1, h1) \<and> threads_wf (tm_threads m1)
    \<and> list_all2 (grows [p]) (tm_threads m) (tm_threads m1)
    \<and> GetWriterCache (tm_queue m1) = GetWriterCache (tm_queue m) @ [p]
    \<and> (\<forall>q. p_ref (h1 q) + int (mgr_entries q m) = p_ref (h q) + int (mgr_entries q m1))
    \<and> (\<forall>q. p_isRefOpen (h1 q) \<longleftrightarrow> q = p \<or> p_isRefOpen (h q))
    \<and> tm_packets m1 = tm_packets m \<and> tm_createPackets m1 = tm_createPackets m"
proof -
  from handle_all_ok [OF assms, of p "add_refs p 1 h"] obtain cs n where
    cs: "handle_all p (tm_threads m) (add_refs p 1 h) = Some (cs, add_refs p n (add_refs p 1 h))" "threads_wf cs"
      "list_all2 (grows [p]) (tm_threads m) cs"
      "\<forall>q. all_entries q cs
          = all_entries q (tm_threads m) + (if q = p then n else 0)"
    by blast
  let ?m1 = "m\<lparr>tm_queue := writer_emplace_back p (tm_queue m), tm_threads := cs\<rparr>"
  let ?h1 = "open_ref p (add_refs p n (add_refs p 1 h))"
  have run: "dispatch_packet p (m, h) = Some (?m1, ?h1)"
    using cs(1) by (simp add: dispatch_packet_def queue_packet_refs)
  have "p_ref (?h1 q) + int (mgr_entries q m) = p_ref (h q) + int (mgr_entries q ?m1)" for q
    using spec [OF cs(4), of q] by (simp add: mgr_entries_def open_ref_def add_refs_def Packet_OpenRef_def)
  moreover have "p_isRefOpen (?h1 q) \<longleftrightarrow> q = p \<or> p_isRefOpen (h q)" for q
    by (simp add: open_ref_def add_refs_def Packet_OpenRef_def)
  ultimately show ?thesis using run cs(2,3) by (intro exI [of _ ?m1] exI [of _ ?h1]) simp
qed

lemma dispatch_packets_ok:
  assumes "threads_wf (tm_threads m)"
  shows "\<exists>m1 h1. dispatch_packets ps (m, h) = Some (m1, h1) \<and> threads_wf (tm_threads m1)
    \<and> list_all2 (grows ps) (tm_threads m) (tm_threads m1)
    \<and> GetWriterCache (tm_queue m1) = GetWriterCache (tm_queue m) @ ps
    \<and> (\<forall>q. p_ref (h1 q) + int (mgr_entries q m) = p_ref (h q) + int (mgr_entries q m1))
    \<and> (\<forall>q. p_isRefOpen (h1 q) \<longleftrightarrow> q \<in> set ps \<or> p_isRefOpen (h q))
    \<and> tm_packets m1 = tm_packets m \<and> tm_createPackets m1 = tm_createPackets m"
  using assms
proof (induction ps arbitrary: m h)
  case Nil
  then show ?case by (auto simp: list_all2_refl grows_Nil)
next
  case (Cons p ps)
  from dispatch_packet_ok [OF Cons.prems, of p h] obtain m1 h1 where
    m1: "dispatch_packet p (m, h) = Some (m1, h1)" "threads_wf (tm_threads m1)"
      "list_all2 (grows [p]) (tm_threads m) (tm_threads m1)"
      "GetWriterCache (tm_queue m1) = GetWriterCache (tm_queue m) @ [p]"
      "\<forall>q. p_ref (h1 q) + int (mgr_entries q m) = p_ref (h q) + int (mgr_entries q m1)"
      "\<forall>q. p_isRefOpen (h1 q) \<longleftrightarrow> q = p \<or> p_isRefOpen (h q)"
      "tm_packets m1 = tm_packets m" "tm_createPackets m1 = tm_createPackets m" by blast
  from Cons.IH [OF m1(2), of h1] obtain m2 h2 where
    m2: "dispatch_packets ps (m1, h1) = Some (m2, h2)" "threads_wf (tm_threads m2)"
      "list_all2 (grows ps) (tm_threads m1) (tm_threads m2)"
      "GetWriterCache (tm_queue m2) = GetWriterCache (tm_queue m1) @ ps"
      "\<forall>q. p_ref (h2 q) + int (mgr_entries q m1) = p_ref (h1 q) + int (mgr_entries q m2)"
      "\<forall>q. p_isRefOpen (h2 q) \<longleftrightarrow> q \<in> set ps \<or> p_isRefOpen (h1 q)"
      "tm_packets m2 = tm_packets m1" "tm_createPackets m2 = tm_createPackets m1" by blast
  have g: "list_all2 (grows (p # ps)) (tm_threads m) (tm_threads m2)"
    by (rule list_all2_trans [OF _ m1(3) m2(3)]) (rule grows_Cons)
  have r: "p_ref (h2 q) + int (mgr_entries q m) = p_ref (h q) + int (mgr_entries q m2)" for q
    using spec [OF m1(5), of q] spec [OF m2(5), of q] by linarith
  show ?case
    by (intro exI [of _ m2] exI [of _ h2]) (use m1 m2 g r in auto)
qed

section \<open>Properties\<close>

text \<open>C24: dispatching packets to threads. \<open>UpdateDispatchPacket\<close> queues every pending packet on
  the main thread and on every thread of the shared collectors, in order; a packet's reference
  count grows by exactly the number of queue entries it got, and only then is it opened for
  recycling.\<close>

theorem UpdateDispatchPacket_counts:
  assumes "threads_wf (tm_threads m)" and "GetReaderCache (tm_packets m) = []"
    and "GetWriterCache (tm_packets m) = ps"
  shows "\<exists>m1 h1. UpdateDispatchPacket (m, h) = Some (m1, h1)
    \<and> GetWriterCache (tm_queue m1) = GetWriterCache (tm_queue m) @ ps
    \<and> list_all2 (grows ps) (tm_threads m) (tm_threads m1)
    \<and> (\<forall>q. p_ref (h1 q) + int (mgr_entries q m) = p_ref (h q) + int (mgr_entries q m1))
    \<and> (\<forall>q. p_isRefOpen (h1 q) \<longleftrightarrow> q \<in> set ps \<or> p_isRefOpen (h q))
    \<and> GetReaderCache (tm_packets m1) = [] \<and> GetWriterCache (tm_packets m1) = []"
proof -
  let ?l = "if CacheSwap_CanSwap (tm_packets m) then CacheSwap_Swap (tm_packets m) else tm_packets m"
  have l: "GetReaderCache ?l = ps" "GetWriterCache ?l = []" using assms(2,3) by (auto simp: CacheSwap_CanSwap_def)
  from dispatch_packets_ok [of "m\<lparr>tm_packets := ?l\<rparr>" ps h] assms(1) obtain m1 h1 where
    m1: "dispatch_packets ps (m\<lparr>tm_packets := ?l\<rparr>, h) = Some (m1, h1)"
      "list_all2 (grows ps) (tm_threads m) (tm_threads m1)"
      "GetWriterCache (tm_queue m1) = GetWriterCache (tm_queue m) @ ps"
      "\<forall>q. p_ref (h1 q) + int (mgr_entries q (m\<lparr>tm_packets := ?l\<rparr>)) = p_ref (h q) + int (mgr_entries q m1)"
      "\<forall>q. p_isRefOpen (h1 q) \<longleftrightarrow> q \<in> set ps \<or> p_isRefOpen (h q)" "tm_packets m1 = ?l" by auto
  let ?m2 = "m1\<lparr>tm_packets := reader_clear (tm_packets m1)\<rparr>"
  have "UpdateDispatchPacket (m, h) = Some (?m2, h1)"
    using l(1) m1(1) unfolding UpdateDispatchPacket_def Let_def by (simp add: l(1))
  moreover have "mgr_entries q ?m2 = mgr_entries q m1" "mgr_entries q (m\<lparr>tm_packets := ?l\<rparr>) = mgr_entries q m" for q
    by (simp_all add: mgr_entries_def)
  moreover have "GetReaderCache (tm_packets ?m2) = []" "GetWriterCache (tm_packets ?m2) = []"
    using l(2) m1(6) by simp_all
  ultimately show ?thesis using m1(2-5) by (intro exI [of _ ?m2] exI [of _ h1]) simp
qed

text \<open>A run of messages to one collector.\<close>

fun handle_seq :: "addr list \<Rightarrow> ThreadCollector \<times> packets \<Rightarrow> (ThreadCollector \<times> packets) option" where
  "handle_seq [] ch = Some ch"
| "handle_seq (p # ps) ch = Option.bind (HandlerMessage p ch) (handle_seq ps)"

lemma rotation_split:
  assumes "i < n"
  shows "map (\<lambda>k. (p # ps) ! k) (filter (\<lambda>k. (i + k) mod n = j) [0..<length (p # ps)])
    = (if i = j then [p] else []) @ map (\<lambda>k. ps ! k) (filter (\<lambda>k. (Suc i mod n + k) mod n = j) [0..<length ps])"
proof -
  have "[0..<length (p # ps)] = 0 # map Suc [0..<length ps]"
    by (simp add: upt_conv_Cons map_Suc_upt del: upt_Suc)
  then show ?thesis using assms by (simp add: filter_map comp_def mod_add_left_eq)
qed

text \<open>C27: the database threads take turns. With \<open>n\<close> threads in an exclusive collector, message
  number \<open>k\<close> goes to thread \<open>(i + k) mod n\<close> and to no other, \<open>i\<close> being the thread whose turn it
  is: of \<open>n\<close> messages in a row every thread gets one.\<close>

theorem HandlerMessage_rotation:
  assumes "collector_wf c" and "tc_exclusive c" and "\<forall>p\<in>set ps. p_msgId (h p) \<noteq> MI_CmdThread"
    and "n = length (Collector_threads c)" and "i = turn (tc_nextThreadSn c) (map fst (Collector_threads c))"
  shows "\<exists>c1 h1. handle_seq ps (c, h) = Some (c1, h1) \<and> length (Collector_threads c1) = n
    \<and> (\<forall>j<n. GetWriterCache (th_queue (snd (Collector_threads c1 ! j)))
          = GetWriterCache (th_queue (snd (Collector_threads c ! j)))
            @ map (\<lambda>k. ps ! k) (filter (\<lambda>k. (i + k) mod n = j) [0..<length ps]))"
  using assms
proof (induction ps arbitrary: c h i)
  case Nil
  then show ?case by simp
next
  case (Cons p ps)
  let ?m = "Collector_threads c"
  let ?ks = "map fst ?m"
  let ?c1 = "(set_threads (queue_on p (\<lambda>sn. sn = ?ks ! i) ?m) c)\<lparr>tc_nextThreadSn := ?ks ! (Suc i mod length ?ks)\<rparr>"
  have ne: "?ks \<noteq> []" and d: "distinct ?ks" using Cons.prems(1) by (auto simp: collector_wf_def sm_wf_distinct)
  have n: "n = length ?ks" "0 < n" "i < n" using Cons.prems(4,5) ne turn_less [OF ne] by auto
  have step: "HandlerMessage p (c, h) = Some (?c1, add_refs p 1 h)"
    using Cons.prems(2,3) queue_next_ok [OF Cons.prems(1), of p h] Cons.prems(5)
    by (simp add: HandlerMessage_def Packet_GetMsgId_def)
  have t1: "Suc i mod n = turn (tc_nextThreadSn ?c1) (map fst (Collector_threads ?c1))"
    using turn_nth [OF d, of "Suc i mod n"] n by simp
  have "collector_wf ?c1" using Cons.prems(1) by (simp add: collector_wf_def)
  moreover have "tc_exclusive ?c1" using Cons.prems(2) by simp
  moreover have "\<forall>q\<in>set ps. p_msgId (add_refs p 1 h q) \<noteq> MI_CmdThread"
    using Cons.prems(3) by (auto simp: add_refs_def)
  moreover have "n = length (Collector_threads ?c1)" using n(1) by (simp add: queue_on_def)
  ultimately obtain c2 h2 where
    c2: "handle_seq ps (?c1, add_refs p 1 h) = Some (c2, h2)" "length (Collector_threads c2) = n"
      "\<forall>j<n. GetWriterCache (th_queue (snd (Collector_threads c2 ! j)))
          = GetWriterCache (th_queue (snd (Collector_threads ?c1 ! j)))
            @ map (\<lambda>k. ps ! k) (filter (\<lambda>k. (Suc i mod n + k) mod n = j) [0..<length ps])"
    using Cons.IH [of ?c1 "add_refs p 1 h" "Suc i mod n"] t1 by blast
  have one: "GetWriterCache (th_queue (snd (Collector_threads ?c1 ! j)))
      = GetWriterCache (th_queue (snd (?m ! j))) @ (if i = j then [p] else [])" if "j < n" for j
  proof -
    have "(?ks ! j = ?ks ! i) = (j = i)" using that n by (intro nth_eq_iff_index_eq [OF d]) simp_all
    then show ?thesis using that n by (auto simp: queue_on_def case_prod_unfold)
  qed
  show ?case
    using step c2(1,2) c2(3) one rotation_split [OF n(3), of p ps] by (intro exI [of _ c2] exI [of _ h2]) simp
qed

text \<open>Threads cannot be added to a running collector. \<open>CreateThread\<close> starts every thread of
  the collector, not only the new ones; starting one that runs replaces a joinable
  \<open>std::thread\<close>, which terminates the process.\<close>

theorem CreateThread_again_terminates:
  assumes "cr_wf (tc_threads c)" and "(sn, t) \<in> set (Collector_threads c)" and "th_joinable t"
    and "cr_removes (tc_threads c) = []"
  shows "Collector_CreateThread num (g, c) = None"
proof -
  have stuck: "start_threads m = None" if "(sn, t) \<in> set m" for m
    using that
  proof (induction m)
    case (Cons p m)
    then show ?case
      using assms(3) by (cases p) (cases "p = (sn, t)"; auto simp: Thread_Start_def split: bind_splits)
  qed simp
  have add: "cr_objs (snd (add_threads k x (g, d))) = cr_objs d \<and> cr_removes (snd (add_threads k x (g, d))) = cr_removes d
      \<and> (cr_wf d \<longrightarrow> cr_wf (snd (add_threads k x (g, d))))" for k x g d
    by (induction k arbitrary: g d) (auto simp: AddObj_def cr_wf_def split: prod.split)
  let ?d = "snd (add_threads (nat num) (tc_threadType c) (g, tc_threads c))"
  have d: "cr_objs ?d = Collector_threads c" "cr_removes ?d = []" "cr_wf ?d"
    using add assms(1,4) by (simp_all add: Collector_threads_def)
  have "sm_find (cr_objs ?d) sn = Some t"
    using assms(1,2) d(1) by (simp add: cr_wf_def Collector_threads_def sm_find_in_set)
  then have "sm_find (cr_objs (fst (CacheRefresh_Swap ?d))) sn = Some t"
    using d(2) by (simp add: find_Swap [OF d(3)])
  then have "(sn, t) \<in> set (cr_objs (fst (CacheRefresh_Swap ?d)))"
    using cr_wf_Swap [OF d(3)] by (simp add: cr_wf_def sm_find_in_set)
  from stuck [OF this] show ?thesis by (simp add: Collector_CreateThread_def case_prod_unfold)
qed

definition sample_thread :: Thread where
  "sample_thread = \<lparr>th_threadType = MysqlThread, th_state = TS_Run, th_joinable = True, th_queue = CacheSwap_new\<rparr>"

definition sample_collector :: "bool \<Rightarrow> ThreadCollector" where
  "sample_collector ex = \<lparr>tc_exclusive = ex, tc_threadType = MysqlThread,
     tc_threads = \<lparr>cr_objs = [(3, sample_thread), (5, sample_thread), (8, sample_thread)], cr_adds = [], cr_removes = []\<rparr>,
     tc_nextThreadSn = 5\<rparr>"

lemma sample_collector_simps:
  "collector_wf (sample_collector ex)" "tc_exclusive (sample_collector ex) = ex"
  "Collector_threads (sample_collector ex) = [(3, sample_thread), (5, sample_thread), (8, sample_thread)]"
  "turn (tc_nextThreadSn (sample_collector ex)) (map fst (Collector_threads (sample_collector ex))) = 1"
  by (simp_all add: sample_collector_def collector_wf_def Collector_threads_def turn_def sm_wf_def)

text \<open>Three messages; the turn is at the second thread.\<close>

theorem HandlerMessage_rotation_witness:
  "\<exists>c1 h1. handle_seq [10, 11, 12] (sample_collector True, \<lambda>_. Packet_new) = Some (c1, h1)
     \<and> map (\<lambda>(sn, t). GetWriterCache (th_queue t)) (Collector_threads c1) = [[12], [10], [11]]"
proof -
  let ?c = "sample_collector True"
  have q: "GetWriterCache (th_queue sample_thread) = []"
    by (simp add: sample_thread_def CacheSwap_new_def GetWriterCache_def)
  have "p_msgId Packet_new \<noteq> MI_CmdThread" by (simp add: Packet_new_def)
  then have "\<exists>c1 h1. handle_seq [10, 11, 12] (?c, \<lambda>_. Packet_new) = Some (c1, h1) \<and> length (Collector_threads c1) = 3
    \<and> (\<forall>j<3. GetWriterCache (th_queue (snd (Collector_threads c1 ! j)))
        = GetWriterCache (th_queue (snd (Collector_threads ?c ! j)))
          @ map (\<lambda>k. [10, 11, 12] ! k) (filter (\<lambda>k. (1 + k) mod 3 = j) [0..<length [10, 11, 12 :: addr]]))"
    by (intro HandlerMessage_rotation sample_collector_simps(1) sample_collector_simps(4) [symmetric])
       (simp_all add: sample_collector_simps)
  then obtain c1 h1 where c1: "handle_seq [10, 11, 12] (?c, \<lambda>_. Packet_new) = Some (c1, h1)"
    "length (Collector_threads c1) = 3"
    "\<forall>j<3. GetWriterCache (th_queue (snd (Collector_threads c1 ! j)))
        = GetWriterCache (th_queue (snd (Collector_threads ?c ! j)))
          @ map (\<lambda>k. [10, 11, 12] ! k) (filter (\<lambda>k. (1 + k) mod 3 = j) [0..<length [10, 11, 12 :: addr]])"
    by blast
  obtain a b d where abd: "Collector_threads c1 = [a, b, d]"
    using c1(2) by (auto simp: numeral_3_eq_3 length_Suc_conv)
  have u: "[0..<length [10, 11, 12 :: addr]] = [0, 1, 2]" by (simp add: upt_rec)
  have "GetWriterCache (th_queue (snd a)) = [12]" "GetWriterCache (th_queue (snd b)) = [10]"
    "GetWriterCache (th_queue (snd d)) = [11]"
    using spec [OF c1(3), of 0] spec [OF c1(3), of 1] spec [OF c1(3), of 2]
    by (simp_all add: abd u q sample_collector_simps)
  with c1(1) abd show ?thesis by (auto simp: case_prod_unfold)
qed

theorem UpdateDispatchPacket_counts_witness:
  "\<exists>m1 h1. UpdateDispatchPacket (\<lparr>tm_queue = CacheSwap_new, tm_threads = [(8, sample_collector False)],
       tm_createPackets = CacheSwap_new, tm_packets = writer_emplace_back 4 CacheSwap_new\<rparr>, \<lambda>_. Packet_new) = Some (m1, h1)
     \<and> GetWriterCache (tm_queue m1) = [4] \<and> p_isRefOpen (h1 4)"
proof -
  let ?m = "\<lparr>tm_queue = CacheSwap_new, tm_threads = [(8, sample_collector False)],
       tm_createPackets = CacheSwap_new, tm_packets = writer_emplace_back 4 CacheSwap_new\<rparr>"
  have "threads_wf (tm_threads ?m)" by (simp add: threads_wf_def sample_collector_simps)
  moreover have "GetReaderCache (tm_packets ?m) = []" "GetWriterCache (tm_packets ?m) = [4]"
    "GetWriterCache (tm_queue ?m) = []"
    by (simp_all add: CacheSwap_new_def GetReaderCache_def GetWriterCache_def writer_emplace_back_def)
  ultimately show ?thesis
    using UpdateDispatchPacket_counts [of ?m "[4]" "\<lambda>_. Packet_new"] by auto
qed

theorem CreateThread_again_terminates_witness:
  "Collector_CreateThread 2 (Global_new 0 1 0, sample_collector False) = None"
  by (rule CreateThread_again_terminates [of _ 3 sample_thread])
     (simp_all add: sample_collector_simps, simp_all add: sample_collector_def sample_thread_def cr_wf_def sm_wf_def)

text \<open>A component for a kind of thread the process does not have is dropped and its packet never
  opened, so it stays out of the pool for ever.\<close>

lemma create_packet_unknown_thread:
  "tm_threads m \<noteq> [] \<Longrightarrow> sm_find (tm_threads m) (fst (dec (h p))) = None \<Longrightarrow>
   create_packet dec p (m, h) = Some (m, h)"
  by (simp add: create_packet_def case_prod_unfold)

end
