(* ===== verification/Timer_Heap.thy ===== *)
theory Timer_Heap
  imports Sn_Global "HOL-Library.Multiset"
begin

text \<open>
  \<open>timer_component.{h,cpp}\<close> and \<open>AddSeconds\<close> of \<open>util_time.h\<close>: the timers of a thread, in a
  binary heap ordered by the time they are due. \<open>push_heap\<close>, \<open>pop_heap\<close> and \<open>make_heap\<close> of the
  standard library are the textbook algorithms; the standard prescribes their result up to the
  order among equal times. The functions bound into timers are the argument \<open>run\<close>.
\<close>

section \<open>Timers\<close>

record Timer =
  tm_NextTime :: u64
  tm_Handler :: nat
  tm_DelaySecond :: "32 word"
  tm_DurationSecond :: "32 word"
  tm_CallCountTotal :: int
  tm_CallCountCur :: int
  tm_SN :: u64

text \<open>\<open>(uint64)second * 1000\<close>: \<open>second\<close> is an \<open>int\<close>, sign-extended.\<close>

definition AddSeconds :: "u64 \<Rightarrow> 32 word \<Rightarrow> u64" where
  "AddSeconds timeValue second = timeValue + scast second * 1000"

section \<open>The heap algorithms\<close>

definition swap_at :: "nat \<Rightarrow> nat \<Rightarrow> 'a list \<Rightarrow> 'a list" where
  "swap_at i j xs = xs[i := xs ! j, j := xs ! i]"

text \<open>\<open>CompareTimer\<close> says when \<open>b\<close> has to be above \<open>a\<close>.\<close>

definition CompareTimer :: "Timer \<Rightarrow> Timer \<Rightarrow> bool" where
  "CompareTimer a b \<longleftrightarrow> tm_NextTime a > tm_NextTime b"

fun sift_up :: "nat \<Rightarrow> Timer list \<Rightarrow> Timer list" where
  "sift_up i xs =
     (if i = 0 then xs
      else let p = (i - 1) div 2 in
        if CompareTimer (xs ! p) (xs ! i) then sift_up p (swap_at p i xs) else xs)"

declare sift_up.simps [simp del]

text \<open>The child of \<open>i\<close> that is due first.\<close>

definition first_child :: "nat \<Rightarrow> nat \<Rightarrow> Timer list \<Rightarrow> nat" where
  "first_child n i xs =
     (if 2 * i + 2 < n \<and> CompareTimer (xs ! (2 * i + 1)) (xs ! (2 * i + 2)) then 2 * i + 2 else 2 * i + 1)"

function sift_down :: "nat \<Rightarrow> nat \<Rightarrow> Timer list \<Rightarrow> Timer list" where
  "sift_down n i xs =
     (if 2 * i + 1 \<ge> n then xs
      else if CompareTimer (xs ! i) (xs ! first_child n i xs)
           then sift_down n (first_child n i xs) (swap_at i (first_child n i xs) xs) else xs)"
  by pat_completeness auto
termination by (relation "measure (\<lambda>(n, i, xs). n - i)") (auto simp: first_child_def)

declare sift_down.simps [simp del]

definition push_heap :: "Timer list \<Rightarrow> Timer list" where
  "push_heap xs = (if xs = [] then xs else sift_up (length xs - 1) xs)"

definition pop_heap :: "Timer list \<Rightarrow> Timer list" where
  "pop_heap xs = (if xs = [] then xs
     else sift_down (length xs - 1) 0 (swap_at 0 (length xs - 1) xs))"

definition make_heap :: "Timer list \<Rightarrow> Timer list" where
  "make_heap xs = fold (\<lambda>i ys. sift_down (length xs) i ys) (rev [0..<length xs div 2]) xs"

section \<open>\<open>class TimerComponent\<close>\<close>

record TimerComponent =
  tc_heap :: "Timer list"
  tc_global :: Global

definition Add_data :: "Timer \<Rightarrow> TimerComponent \<Rightarrow> TimerComponent" where
  "Add_data data s =
     (let heap = tc_heap s @ [data] in
      s\<lparr>tc_heap := (if length heap = 1 then make_heap heap else push_heap heap)\<rparr>)"

definition Timer_Add :: "int \<Rightarrow> 32 word \<Rightarrow> bool \<Rightarrow> 32 word \<Rightarrow> nat \<Rightarrow> TimerComponent \<Rightarrow> u64 \<times> TimerComponent" where
  "Timer_Add totals durations immediateDo immediateDoDelaySecond handler s =
     (let (sn, g) = GenerateSN (tc_global s);
          data = \<lparr>tm_NextTime = (if immediateDo then AddSeconds (g_TimeTick g) immediateDoDelaySecond
                                 else AddSeconds (g_TimeTick g) durations),
                  tm_Handler = handler, tm_DelaySecond = 0, tm_DurationSecond = durations,
                  tm_CallCountTotal = totals, tm_CallCountCur = 0, tm_SN = sn\<rparr>
      in (sn, Add_data data (s\<lparr>tc_global := g\<rparr>)))"

definition Timer_BackToPool :: "TimerComponent \<Rightarrow> TimerComponent" where
  "Timer_BackToPool s = s\<lparr>tc_heap := []\<rparr>"

text \<open>\<open>Remove\<close>: \<open>None\<close> is the early \<open>return\<close>, which skips the rest and \<open>make_heap\<close>.\<close>

fun erase_first :: "u64 \<Rightarrow> Timer list \<Rightarrow> Timer list" where
  "erase_first sn [] = []"
| "erase_first sn (t # ts) = (if tm_SN t = sn then ts else t # erase_first sn ts)"

fun Remove_loop :: "u64 list \<Rightarrow> Timer list \<Rightarrow> Timer list \<times> bool" where
  "Remove_loop [] heap = (heap, True)"
| "Remove_loop (sn # timers) heap =
     (if find (\<lambda>one. tm_SN one = sn) heap = None then (heap, False)
      else Remove_loop timers (erase_first sn heap))"

definition Timer_Remove :: "u64 list \<Rightarrow> TimerComponent \<Rightarrow> TimerComponent" where
  "Timer_Remove timers s =
     (let (heap, finished) = Remove_loop timers (tc_heap s)
      in s\<lparr>tc_heap := (if finished then make_heap heap else heap)\<rparr>)"

definition CheckTime :: "TimerComponent \<Rightarrow> bool" where
  "CheckTime s = (if tc_heap s = [] then False else tm_NextTime (hd (tc_heap s)) \<le> g_TimeTick (tc_global s))"

definition PopTimeHeap :: "TimerComponent \<Rightarrow> Timer \<times> TimerComponent" where
  "PopTimeHeap s = (let heap = pop_heap (tc_heap s) in (last heap, s\<lparr>tc_heap := butlast heap\<rparr>))"

text \<open>The loop of \<open>Update\<close>; \<open>fired\<close> collects the timers whose functions were called.\<close>

definition Update_again :: "Timer \<Rightarrow> TimerComponent \<Rightarrow> TimerComponent" where
  "Update_again data s =
     (let data1 = (if tm_CallCountTotal data \<noteq> 0 then data\<lparr>tm_CallCountCur := tm_CallCountCur data + 1\<rparr> else data)
      in if tm_CallCountTotal data1 \<noteq> 0 \<and> tm_CallCountCur data1 \<ge> tm_CallCountTotal data1 then s
         else Add_data (data1\<lparr>tm_NextTime := AddSeconds (g_TimeTick (tc_global s)) (tm_DurationSecond data1)\<rparr>) s)"

partial_function (option) Timer_Update :: "(nat \<Rightarrow> TimerComponent \<Rightarrow> TimerComponent) \<Rightarrow> TimerComponent
    \<Rightarrow> Timer list \<Rightarrow> (TimerComponent \<times> Timer list) option" where
  "Timer_Update run s fired =
     (if CheckTime s then
        let (data, s1) = PopTimeHeap s; s2 = run (tm_Handler data) s1
        in Timer_Update run (Update_again data s2) (fired @ [data])
      else Some (s, fired))"

section \<open>Heaps\<close>

abbreviation (input) nt :: "Timer list \<Rightarrow> nat \<Rightarrow> u64" where "nt xs i \<equiv> tm_NextTime (xs ! i)"

text \<open>\<open>heap_below k n xs\<close>: every node from \<open>k\<close> on is due no later than its children below \<open>n\<close>.\<close>

definition heap_below :: "nat \<Rightarrow> nat \<Rightarrow> Timer list \<Rightarrow> bool" where
  "heap_below k n xs \<longleftrightarrow> (\<forall>c. 0 < c \<and> c < n \<and> k \<le> (c - 1) div 2 \<longrightarrow> nt xs ((c - 1) div 2) \<le> nt xs c)"

definition is_heap :: "Timer list \<Rightarrow> bool" where
  "is_heap xs \<longleftrightarrow> heap_below 0 (length xs) xs"

lemma length_swap_at [simp]: "length (swap_at i j xs) = length xs"
  by (simp add: swap_at_def)

lemma swap_at_nth:
  "i < length xs \<Longrightarrow> j < length xs \<Longrightarrow> swap_at i j xs ! k = (if k = j then xs ! i else if k = i then xs ! j else xs ! k)"
  by (auto simp: swap_at_def nth_list_update)

lemma mset_swap_at [simp]: "i < length xs \<Longrightarrow> j < length xs \<Longrightarrow> mset (swap_at i j xs) = mset xs"
  by (simp add: swap_at_def mset_swap)

lemma sift_up_mset: "i < length xs \<Longrightarrow> mset (sift_up i xs) = mset xs \<and> length (sift_up i xs) = length xs"
proof (induction i xs rule: sift_up.induct)
  case (1 i xs)
  show ?case
  proof (cases "i = 0 \<or> \<not> CompareTimer (xs ! ((i - 1) div 2)) (xs ! i)")
    case True
    then show ?thesis by (subst (1 2) sift_up.simps) (auto simp: Let_def)
  next
    case False
    then have p: "(i - 1) div 2 < length xs" using 1(2) by linarith
    have "sift_up i xs = sift_up ((i - 1) div 2) (swap_at ((i - 1) div 2) i xs)"
      using False by (subst sift_up.simps) (simp add: Let_def)
    with 1(1) [OF _ refl] False p 1(2) show ?thesis by simp
  qed
qed

lemma first_child:
  assumes "2 * i + 1 < n"
  shows "first_child n i xs < n" and "i < first_child n i xs" and "(first_child n i xs - 1) div 2 = i"
    and "0 < first_child n i xs"
    and "c < n \<Longrightarrow> 0 < c \<Longrightarrow> (c - 1) div 2 = i \<Longrightarrow> nt xs (first_child n i xs) \<le> nt xs c"
proof -
  show "first_child n i xs < n" "i < first_child n i xs" "(first_child n i xs - 1) div 2 = i" "0 < first_child n i xs"
    using assms by (auto simp: first_child_def)
  assume "c < n" "0 < c" "(c - 1) div 2 = i"
  then have "c = 2 * i + 1 \<or> c = 2 * i + 2" by linarith
  with \<open>c < n\<close> show "nt xs (first_child n i xs) \<le> nt xs c"
    by (auto simp: first_child_def CompareTimer_def)
qed

lemma sift_down_step:
  "2 * i + 1 < n \<Longrightarrow> CompareTimer (xs ! i) (xs ! first_child n i xs) \<Longrightarrow>
   sift_down n i xs = sift_down n (first_child n i xs) (swap_at i (first_child n i xs) xs)"
  by (subst sift_down.simps) simp

lemma sift_down_stop:
  "n \<le> 2 * i + 1 \<or> \<not> CompareTimer (xs ! i) (xs ! first_child n i xs) \<Longrightarrow> sift_down n i xs = xs"
  by (subst sift_down.simps) auto

lemma sift_down_mset:
  "n \<le> length xs \<Longrightarrow> mset (sift_down n i xs) = mset xs \<and> length (sift_down n i xs) = length xs
     \<and> drop n (sift_down n i xs) = drop n xs"
proof (induction n i xs rule: sift_down.induct)
  case (1 n i xs)
  show ?case
  proof (cases "2 * i + 1 < n \<and> CompareTimer (xs ! i) (xs ! first_child n i xs)")
    case False
    then show ?thesis by (simp add: sift_down_stop not_less)
  next
    case True
    then have c: "first_child n i xs < n" "i < n" using first_child(1) [of i n xs] by auto
    then have "drop n (swap_at i (first_child n i xs) xs) = drop n xs" by (simp add: swap_at_def)
    then show ?thesis using 1 True c by (simp add: sift_down_step)
  qed
qed

text \<open>Swapping an element that is due before its parent \<open>p\<close> moves the only fault of the heap up to \<open>p\<close>.\<close>

lemma swap_up_above:
  assumes i: "0 < i" "i < length xs" "(i - 1) div 2 = p" and gt: "nt xs i < nt xs p"
    and above: "\<And>c q. 0 < c \<Longrightarrow> c < length xs \<Longrightarrow> c \<noteq> i \<Longrightarrow> (c - 1) div 2 = q \<Longrightarrow> nt xs q \<le> nt xs c"
    and below: "\<And>c. 0 < c \<Longrightarrow> c < length xs \<Longrightarrow> (c - 1) div 2 = i \<Longrightarrow> nt xs p \<le> nt xs c"
    and c: "0 < c" "c < length xs" "c \<noteq> p" and q: "(c - 1) div 2 = q"
  shows "nt (swap_at p i xs) q \<le> nt (swap_at p i xs) c"
proof -
  have pi: "p < i" "p < length xs" using i by auto
  note ys = swap_at_nth [OF pi(2) i(2)]
  have qc: "q < c" using c(1) q by linarith
  consider "c = i" | "c \<noteq> i" "q = i" | "c \<noteq> i" "q = p" | "c \<noteq> i" "q \<noteq> i" "q \<noteq> p" by blast
  then show ?thesis
  proof cases
    case 1
    then have "q = p" using q i(3) by simp
    then show ?thesis using gt pi 1 by (simp add: ys)
  next
    case 2
    then have "nt xs p \<le> nt xs c" using below c q by blast
    then show ?thesis using 2 c by (simp add: ys)
  next
    case 3
    then have "nt xs p \<le> nt xs c" using above [OF c(1,2) 3(1) q] by simp
    then show ?thesis using 3 c gt pi by (simp add: ys)
  next
    case 4
    then show ?thesis using above [OF c(1,2) 4(1) q] c by (simp add: ys)
  qed
qed

lemma swap_up_below:
  assumes i: "0 < i" "i < length xs" "(i - 1) div 2 = p" and gt: "nt xs i < nt xs p"
    and above: "\<And>c q. 0 < c \<Longrightarrow> c < length xs \<Longrightarrow> c \<noteq> i \<Longrightarrow> (c - 1) div 2 = q \<Longrightarrow> nt xs q \<le> nt xs c"
    and c: "0 < c" "c < length xs" "(c - 1) div 2 = p" "0 < p" and g: "(p - 1) div 2 = g"
  shows "nt (swap_at p i xs) g \<le> nt (swap_at p i xs) c"
proof -
  have pi: "p < i" "p < length xs" using i by auto
  note ys = swap_at_nth [OF pi(2) i(2)]
  have gp: "nt xs g \<le> nt xs p" using above [OF c(4) pi(2) _ g] pi by simp
  have ne: "g < p" "g \<noteq> i" using g c(4) pi by auto
  show ?thesis
  proof (cases "c = i")
    case True
    then show ?thesis using gp ne by (simp add: ys)
  next
    case False
    then have "nt xs p \<le> nt xs c" using above [OF c(1,2) False c(3)] by simp
    moreover have "c \<noteq> p" using c(1,3) by linarith
    ultimately show ?thesis using gp ne False by (simp add: ys)
  qed
qed

text \<open>Sifting up repairs a heap whose only fault is between \<open>i\<close> and its parent.\<close>

lemma sift_up_heap:
  assumes "i < length xs"
    and "\<And>c q. 0 < c \<Longrightarrow> c < length xs \<Longrightarrow> c \<noteq> i \<Longrightarrow> (c - 1) div 2 = q \<Longrightarrow> nt xs q \<le> nt xs c"
    and "\<And>c q. 0 < c \<Longrightarrow> c < length xs \<Longrightarrow> (c - 1) div 2 = i \<Longrightarrow> 0 < i \<Longrightarrow> (i - 1) div 2 = q \<Longrightarrow> nt xs q \<le> nt xs c"
  shows "is_heap (sift_up i xs)"
  using assms
proof (induction i xs rule: sift_up.induct)
  case (1 i xs)
  note above = 1(3) and below = 1(4)
  show ?case
  proof (cases "i = 0 \<or> \<not> CompareTimer (xs ! ((i - 1) div 2)) (xs ! i)")
    case True
    then have e: "sift_up i xs = xs" by (subst sift_up.simps) (auto simp: Let_def)
    have "nt xs ((c - 1) div 2) \<le> nt xs c" if "0 < c" "c < length xs" for c
      using that above True by (cases "c = i") (auto simp: CompareTimer_def)
    then show ?thesis by (simp add: is_heap_def heap_below_def e)
  next
    case False
    obtain p where p: "(i - 1) div 2 = p" by simp
    from False p have ne: "i \<noteq> 0" "CompareTimer (xs ! p) (xs ! i)" by auto
    then have i: "0 < i" and gt: "nt xs i < nt xs p" by (simp_all add: CompareTimer_def)
    have b: "nt xs p \<le> nt xs c" if "0 < c" "c < length xs" "(c - 1) div 2 = i" for c
      by (rule below [OF that i p])
    have "is_heap (sift_up p (swap_at p i xs))"
    proof (rule 1(1) [OF ne(1) p [symmetric] ne(2)])
      show "p < length (swap_at p i xs)" using 1(2) i p by simp
    next
      fix c q assume "0 < c" "c < length (swap_at p i xs)" "c \<noteq> p" "(c - 1) div 2 = q"
      then have c: "0 < c" "c < length xs" "c \<noteq> p" "(c - 1) div 2 = q" by simp_all
      show "nt (swap_at p i xs) q \<le> nt (swap_at p i xs) c"
        by (rule swap_up_above [OF i 1(2) p gt]) (fact above b c)+
    next
      fix c q assume "0 < c" "c < length (swap_at p i xs)" "(c - 1) div 2 = p" "0 < p" "(p - 1) div 2 = q"
      then have c: "0 < c" "c < length xs" "(c - 1) div 2 = p" "0 < p" "(p - 1) div 2 = q" by simp_all
      show "nt (swap_at p i xs) q \<le> nt (swap_at p i xs) c"
        by (rule swap_up_below [OF i 1(2) p gt]) (fact above c)+
    qed
    then show ?thesis using False p by (subst sift_up.simps) (simp add: Let_def)
  qed
qed

text \<open>Swapping an element with the first due of its children, \<open>d\<close>, moves the only fault down to \<open>d\<close>.\<close>

lemma swap_down_above:
  assumes n: "2 * i + 1 < n" "n \<le> length xs" and d: "first_child n i xs = d" and gt: "nt xs d < nt xs i"
    and above: "\<And>c q. 0 < c \<Longrightarrow> c < n \<Longrightarrow> (c - 1) div 2 = q \<Longrightarrow> k \<le> q \<Longrightarrow> q \<noteq> i \<Longrightarrow> nt xs q \<le> nt xs c"
    and below: "\<And>c q. 0 < c \<Longrightarrow> c < n \<Longrightarrow> (c - 1) div 2 = i \<Longrightarrow> 0 < i \<Longrightarrow> (i - 1) div 2 = q \<Longrightarrow> k \<le> q \<Longrightarrow> nt xs q \<le> nt xs c"
    and c: "0 < c" "c < n" "(c - 1) div 2 = q" "k \<le> q" "q \<noteq> d"
  shows "nt (swap_at i d xs) q \<le> nt (swap_at i d xs) c"
proof -
  note fc = first_child [OF n(1), where xs = xs, unfolded d]
  have len: "i < length xs" "d < length xs" using fc(1,2) n(2) by auto
  note ys = swap_at_nth [OF len]
  have qc: "q < c" using c(1,3) by linarith
  consider "c = d" | "c \<noteq> d" "q = i" | "c \<noteq> d" "q \<noteq> i" "c = i" | "c \<noteq> d" "q \<noteq> i" "c \<noteq> i" by blast
  then show ?thesis
  proof cases
    case 1
    then have "q = i" using c(3) fc(3) by simp
    then show ?thesis using 1 gt fc(2) by (simp add: ys)
  next
    case 2
    then show ?thesis using fc(5) [OF c(2,1)] c(3) qc fc(2) by (simp add: ys)
  next
    case 3
    then have "nt xs q \<le> nt xs d" using below [OF fc(4,1,3) _ _ c(4)] c(1,3) by simp
    then show ?thesis using 3 c(5) fc(2) by (simp add: ys)
  next
    case 4
    then show ?thesis using above [OF c(1-4) 4(2)] c(5) by (simp add: ys)
  qed
qed

lemma swap_down_below:
  assumes n: "2 * i + 1 < n" "n \<le> length xs" and d: "first_child n i xs = d"
    and above: "\<And>c q. 0 < c \<Longrightarrow> c < n \<Longrightarrow> (c - 1) div 2 = q \<Longrightarrow> k \<le> q \<Longrightarrow> q \<noteq> i \<Longrightarrow> nt xs q \<le> nt xs c"
    and c: "0 < c" "c < n" "(c - 1) div 2 = d" and q: "(d - 1) div 2 = q" "k \<le> q"
  shows "nt (swap_at i d xs) q \<le> nt (swap_at i d xs) c"
proof -
  note fc = first_child [OF n(1), where xs = xs, unfolded d]
  have len: "i < length xs" "d < length xs" using fc(1,2) n(2) by auto
  have "q = i" using q(1) fc(3) by simp
  moreover have "d < c" using c(1,3) by linarith
  moreover have "nt xs d \<le> nt xs c" using above [OF c] fc(2) q(2) \<open>q = i\<close> by simp
  ultimately show ?thesis using fc(2) by (simp add: swap_at_nth [OF len])
qed

text \<open>Sifting down repairs a heap whose only fault is between \<open>i\<close> and its children.\<close>

lemma sift_down_heap:
  assumes "n \<le> length xs"
    and "\<And>c q. 0 < c \<Longrightarrow> c < n \<Longrightarrow> (c - 1) div 2 = q \<Longrightarrow> k \<le> q \<Longrightarrow> q \<noteq> i \<Longrightarrow> nt xs q \<le> nt xs c"
    and "\<And>c q. 0 < c \<Longrightarrow> c < n \<Longrightarrow> (c - 1) div 2 = i \<Longrightarrow> 0 < i \<Longrightarrow> (i - 1) div 2 = q \<Longrightarrow> k \<le> q \<Longrightarrow> nt xs q \<le> nt xs c"
  shows "heap_below k n (sift_down n i xs)"
  using assms
proof (induction n i xs rule: sift_down.induct)
  case (1 n i xs)
  note above = 1(3) and below = 1(4)
  show ?case
  proof (cases "2 * i + 1 < n \<and> CompareTimer (xs ! i) (xs ! first_child n i xs)")
    case False
    then have e: "sift_down n i xs = xs" by (auto intro: sift_down_stop)
    have "nt xs q \<le> nt xs c" if c: "0 < c" "c < n" "k \<le> q" "(c - 1) div 2 = q" for c q
    proof (cases "q = i")
      case True
      then have "2 * i + 1 < n" using c by linarith
      moreover from this False have "nt xs i \<le> nt xs (first_child n i xs)" by (simp add: CompareTimer_def)
      ultimately show ?thesis using first_child(5) [where i = i and n = n and c = c and xs = xs] c True by simp
    qed (use above c in blast)
    then show ?thesis by (simp add: heap_below_def e)
  next
    case True
    obtain d where d: "first_child n i xs = d" by simp
    from True have ne: "\<not> n \<le> 2 * i + 1" "CompareTimer (xs ! i) (xs ! d)" by (simp_all add: d)
    then have n: "2 * i + 1 < n" and gt: "nt xs d < nt xs i" by (simp_all add: CompareTimer_def)
    have "heap_below k n (sift_down n d (swap_at i d xs))"
    proof (rule 1(1) [unfolded d, OF ne])
      show "n \<le> length (swap_at i d xs)" using 1(2) by simp
    next
      fix c q assume c: "0 < c" "c < n" "(c - 1) div 2 = q" "k \<le> q" "q \<noteq> d"
      show "nt (swap_at i d xs) q \<le> nt (swap_at i d xs) c"
        by (rule swap_down_above [OF n 1(2) d gt]) (fact above below c)+
    next
      fix c q assume c: "0 < c" "c < n" "(c - 1) div 2 = d" "(d - 1) div 2 = q" "k \<le> q"
      show "nt (swap_at i d xs) q \<le> nt (swap_at i d xs) c"
        by (rule swap_down_below [OF n 1(2) d]) (fact above c)+
    qed
    then show ?thesis using True by (simp add: sift_down_step d)
  qed
qed

lemma is_heap_min: "is_heap xs \<Longrightarrow> i < length xs \<Longrightarrow> nt xs 0 \<le> nt xs i"
proof (induction i rule: less_induct)
  case (less i)
  show ?case
  proof (cases "i = 0")
    case False
    then have "nt xs ((i - 1) div 2) \<le> nt xs i" using less.prems by (simp add: is_heap_def heap_below_def)
    moreover have "nt xs 0 \<le> nt xs ((i - 1) div 2)" using less False by (intro less.IH) auto
    ultimately show ?thesis by simp
  qed simp
qed

lemma push_heap_ok: "is_heap xs \<Longrightarrow> is_heap (push_heap (xs @ [x])) \<and> mset (push_heap (xs @ [x])) = add_mset x (mset xs)"
proof -
  assume h: "is_heap xs"
  have "is_heap (sift_up (length xs) (xs @ [x]))"
  proof (rule sift_up_heap)
    fix c q assume "0 < c" "c < length (xs @ [x])" "c \<noteq> length xs" "(c - 1) div 2 = q"
    moreover from this have "q < length xs" by auto
    ultimately show "nt (xs @ [x]) q \<le> nt (xs @ [x]) c"
      using h by (auto simp: is_heap_def heap_below_def nth_append)
  next
    fix c q assume "0 < c" "c < length (xs @ [x])" "(c - 1) div 2 = length xs"
    then show "nt (xs @ [x]) q \<le> nt (xs @ [x]) c" by auto
  qed simp
  then show ?thesis using sift_up_mset [of "length xs" "xs @ [x]"] by (simp add: push_heap_def)
qed

lemma pop_heap_ok:
  assumes "is_heap xs" and "xs \<noteq> []"
  shows "pop_heap xs \<noteq> []" and "last (pop_heap xs) = hd xs" and "is_heap (butlast (pop_heap xs))"
    and "add_mset (hd xs) (mset (butlast (pop_heap xs))) = mset xs"
proof -
  let ?n = "length xs - 1"
  let ?ys = "swap_at 0 ?n xs"
  have n: "?n < length xs" "0 < length xs" using assms(2) by auto
  note ys = swap_at_nth [OF n(2,1)]
  have pop: "pop_heap xs = sift_down ?n 0 ?ys" using assms(2) by (simp add: pop_heap_def)
  have m: "mset (sift_down ?n 0 ?ys) = mset xs" "length (sift_down ?n 0 ?ys) = length xs"
    "drop ?n (sift_down ?n 0 ?ys) = drop ?n ?ys"
    using sift_down_mset [of ?n ?ys 0] n by auto
  show ne: "pop_heap xs \<noteq> []" using m(2) n(2) pop by auto
  have "last (pop_heap xs) = hd (drop ?n ?ys)"
    using m(2,3) ne n by (simp add: pop last_conv_nth hd_drop_conv_nth [symmetric])
  also have "\<dots> = ?ys ! ?n" using n by (simp add: hd_drop_conv_nth)
  also have "\<dots> = hd xs" using assms(2) ys [of ?n] by (simp add: hd_conv_nth)
  finally show l: "last (pop_heap xs) = hd xs" .
  have "heap_below 0 ?n (sift_down ?n 0 ?ys)"
  proof (rule sift_down_heap)
    fix c q assume c: "0 < c" "c < ?n" "(c - 1) div 2 = q" "q \<noteq> 0"
    moreover have "nt xs q \<le> nt xs c" using assms(1) c(1-3) by (auto simp: is_heap_def heap_below_def)
    moreover have "q < c" using c(1,3) by linarith
    ultimately show "nt ?ys q \<le> nt ?ys c" using ys [of q] ys [of c] by simp
  qed simp_all
  then show "is_heap (butlast (pop_heap xs))"
    using m(2) by (auto simp: is_heap_def heap_below_def pop nth_butlast)
  have "mset (pop_heap xs) = add_mset (last (pop_heap xs)) (mset (butlast (pop_heap xs)))"
    using append_butlast_last_id [OF ne] by (metis mset.simps union_mset_add_mset_right add.right_neutral mset_append)
  then show "add_mset (hd xs) (mset (butlast (pop_heap xs))) = mset xs" using m(1) l by (simp add: pop)
qed

lemma make_heap_ok: "is_heap (make_heap xs)" "mset (make_heap xs) = mset xs"
proof -
  let ?n = "length xs"
  have "heap_below 0 ?n (fold (\<lambda>i ys. sift_down ?n i ys) (rev [0..<m]) ys)
      \<and> mset (fold (\<lambda>i ys. sift_down ?n i ys) (rev [0..<m]) ys) = mset ys"
    if "heap_below m ?n ys" "length ys = ?n" for m ys
    using that
  proof (induction m arbitrary: ys)
    case (Suc m)
    have "heap_below m ?n (sift_down ?n m ys)"
    proof (rule sift_down_heap)
      fix c q assume "0 < c" "c < ?n" "(c - 1) div 2 = q" "m \<le> q" "q \<noteq> m"
      then show "nt ys q \<le> nt ys c" using Suc.prems(1) by (auto simp: heap_below_def)
    qed (use Suc.prems(2) in auto)
    moreover have "length (sift_down ?n m ys) = ?n" "mset (sift_down ?n m ys) = mset ys"
      using sift_down_mset [of ?n ys m] Suc.prems(2) by auto
    ultimately show ?case using Suc.IH [of "sift_down ?n m ys"] by simp
  qed simp
  moreover have "heap_below (?n div 2) ?n xs" by (auto simp: heap_below_def)
  ultimately have r: "heap_below 0 ?n (make_heap xs) \<and> mset (make_heap xs) = mset xs" by (simp add: make_heap_def)
  then have "length (make_heap xs) = ?n" by (metis size_mset)
  with r show "is_heap (make_heap xs)" "mset (make_heap xs) = mset xs" by (simp_all add: is_heap_def)
qed

section \<open>Facts about \<open>TimerComponent\<close>\<close>

definition due :: "u64 \<Rightarrow> Timer \<Rightarrow> bool" where
  "due now t \<longleftrightarrow> tm_NextTime t \<le> now"

text \<open>What becomes of a timer that has fired: nothing after its last call.\<close>

definition next_timer :: "u64 \<Rightarrow> Timer \<Rightarrow> Timer option" where
  "next_timer now t =
     (let t1 = (if tm_CallCountTotal t \<noteq> 0 then t\<lparr>tm_CallCountCur := tm_CallCountCur t + 1\<rparr> else t)
      in if tm_CallCountTotal t \<noteq> 0 \<and> tm_CallCountTotal t \<le> tm_CallCountCur t + 1 then None
         else Some (t1\<lparr>tm_NextTime := AddSeconds now (tm_DurationSecond t)\<rparr>))"

definition now_of :: "TimerComponent \<Rightarrow> u64" where
  "now_of s = g_TimeTick (tc_global s)"

text \<open>Functions that leave the timers and the clock alone.\<close>

definition quiet :: "(nat \<Rightarrow> TimerComponent \<Rightarrow> TimerComponent) \<Rightarrow> bool" where
  "quiet run \<longleftrightarrow> (\<forall>h s. tc_heap (run h s) = tc_heap s \<and> now_of (run h s) = now_of s)"

lemma is_heap_Nil [simp]: "is_heap []"
  by (simp add: is_heap_def heap_below_def)

lemma Add_data_ok:
  assumes "is_heap (tc_heap s)"
  shows "is_heap (tc_heap (Add_data d s))" and "mset (tc_heap (Add_data d s)) = add_mset d (mset (tc_heap s))"
    and "now_of (Add_data d s) = now_of s"
  using assms push_heap_ok [of "tc_heap s" d] make_heap_ok [of "tc_heap s @ [d]"]
  by (auto simp: Add_data_def Let_def now_of_def)

lemma Update_again_ok:
  assumes "is_heap (tc_heap s)"
  shows "is_heap (tc_heap (Update_again d s))" and "now_of (Update_again d s) = now_of s"
    and "mset (tc_heap (Update_again d s)) = mset (tc_heap s) + mset (List.map_filter (next_timer (now_of s)) [d])"
proof -
  let ?d1 = "if tm_CallCountTotal d \<noteq> 0 then d\<lparr>tm_CallCountCur := tm_CallCountCur d + 1\<rparr> else d"
  let ?d2 = "?d1\<lparr>tm_NextTime := AddSeconds (g_TimeTick (tc_global s)) (tm_DurationSecond d)\<rparr>"
  have e: "Update_again d s = (case next_timer (now_of s) d of None \<Rightarrow> s | Some t \<Rightarrow> Add_data t s)"
    by (auto simp: Update_again_def next_timer_def now_of_def Let_def)
  show "is_heap (tc_heap (Update_again d s))" "now_of (Update_again d s) = now_of s"
    "mset (tc_heap (Update_again d s)) = mset (tc_heap s) + mset (List.map_filter (next_timer (now_of s)) [d])"
    using assms Add_data_ok [OF assms] by (auto simp: e map_filter_simps split: option.splits)
qed

lemma CheckTime_iff:
  assumes "is_heap (tc_heap s)"
  shows "CheckTime s \<longleftrightarrow> (\<exists>t\<in>set (tc_heap s). due (now_of s) t)"
proof (cases "tc_heap s = []")
  case False
  have "tm_NextTime (hd (tc_heap s)) \<le> tm_NextTime t" if "t \<in> set (tc_heap s)" for t
    using that is_heap_min [OF assms] False by (auto simp: in_set_conv_nth hd_conv_nth)
  with False show ?thesis
    by (auto simp: CheckTime_def due_def now_of_def intro: order_trans hd_in_set)
qed (simp add: CheckTime_def)

text \<open>One round of the loop.\<close>

lemma Update_round_ok:
  assumes "is_heap (tc_heap s)" and "CheckTime s" and "quiet run"
  shows "\<exists>x s0. PopTimeHeap s = (x, s0) \<and> due (now_of s) x
    \<and> x \<in> set (tc_heap s) \<and> (\<forall>t\<in>set (tc_heap s). tm_NextTime x \<le> tm_NextTime t)
    \<and> is_heap (tc_heap (Update_again x (run (tm_Handler x) s0)))
    \<and> now_of (Update_again x (run (tm_Handler x) s0)) = now_of s
    \<and> add_mset x (mset (tc_heap (Update_again x (run (tm_Handler x) s0))))
        = mset (tc_heap s) + mset (List.map_filter (next_timer (now_of s)) [x])"
proof -
  let ?h = "tc_heap s"
  have ne: "?h \<noteq> []" using assms(2) by (auto simp: CheckTime_def)
  note pop = pop_heap_ok [OF assms(1) ne]
  let ?x = "hd ?h"
  let ?s1 = "s\<lparr>tc_heap := butlast (pop_heap ?h)\<rparr>"
  let ?s2 = "run (tm_Handler ?x) ?s1"
  have q: "tc_heap ?s2 = butlast (pop_heap ?h)" "now_of ?s2 = now_of s"
    using assms(3) by (simp_all add: quiet_def) (simp add: now_of_def)
  have h2: "is_heap (tc_heap ?s2)" using pop(3) q(1) by simp
  have "PopTimeHeap s = (?x, ?s1)" using pop(2) by (simp add: PopTimeHeap_def Let_def)
  moreover have "due (now_of s) ?x" using assms(2) ne by (simp add: CheckTime_def due_def now_of_def)
  moreover have "\<forall>t\<in>set ?h. tm_NextTime ?x \<le> tm_NextTime t"
    using is_heap_min [OF assms(1)] ne by (auto simp: in_set_conv_nth hd_conv_nth)
  moreover have "add_mset ?x (mset (tc_heap (Update_again ?x ?s2)))
      = mset ?h + mset (List.map_filter (next_timer (now_of s)) [?x])"
    using Update_again_ok(3) [OF h2, of ?x] pop(4) q by (metis union_mset_add_mset_left)
  ultimately show ?thesis
    using Update_again_ok(1,2) [OF h2, of ?x] q(2) ne
    by (intro exI [of _ ?x] exI [of _ ?s1]) simp
qed

lemma Timer_Update_step:
  assumes "is_heap (tc_heap s)" and "CheckTime s" and "quiet run"
  shows "\<exists>x s1. Timer_Update run s acc = Timer_Update run s1 (acc @ [x]) \<and> due (now_of s) x
    \<and> x \<in> set (tc_heap s) \<and> (\<forall>t\<in>set (tc_heap s). tm_NextTime x \<le> tm_NextTime t) \<and> is_heap (tc_heap s1)
    \<and> now_of s1 = now_of s
    \<and> add_mset x (mset (tc_heap s1)) = mset (tc_heap s) + mset (List.map_filter (next_timer (now_of s)) [x])"
proof -
  from Update_round_ok [OF assms] obtain x s0 where x: "PopTimeHeap s = (x, s0)" "due (now_of s) x"
    "x \<in> set (tc_heap s)" "\<forall>t\<in>set (tc_heap s). tm_NextTime x \<le> tm_NextTime t"
    "is_heap (tc_heap (Update_again x (run (tm_Handler x) s0)))"
    "now_of (Update_again x (run (tm_Handler x) s0)) = now_of s"
    "add_mset x (mset (tc_heap (Update_again x (run (tm_Handler x) s0))))
        = mset (tc_heap s) + mset (List.map_filter (next_timer (now_of s)) [x])" by blast
  have "Timer_Update run s acc = Timer_Update run (Update_again x (run (tm_Handler x) s0)) (acc @ [x])"
    using assms(2) x(1) by (subst Timer_Update.simps) (simp add: Let_def)
  with x(2-) show ?thesis by blast
qed

text \<open>A heap with a timer that is due again as soon as it was called.\<close>

definition spinning :: "TimerComponent \<Rightarrow> bool" where
  "spinning s \<longleftrightarrow> is_heap (tc_heap s) \<and> (\<exists>t\<in>set (tc_heap s). due (now_of s) t \<and> tm_CallCountTotal t = 0
     \<and> tm_DurationSecond t = 0)"

lemma spinning_again:
  assumes "spinning s" and "is_heap (tc_heap s1)" and "now_of s1 = now_of s"
    and "add_mset x (mset (tc_heap s1)) = mset (tc_heap s) + mset (List.map_filter (next_timer (now_of s)) [x])"
  shows "spinning s1"
proof -
  from assms(1) obtain t where t: "t \<in> set (tc_heap s)" "due (now_of s) t" "tm_CallCountTotal t = 0"
    "tm_DurationSecond t = 0" by (auto simp: spinning_def)
  show ?thesis
  proof (cases "x = t")
    case True
    let ?t = "t\<lparr>tm_NextTime := AddSeconds (now_of s) 0\<rparr>"
    have "next_timer (now_of s) x = Some ?t" using t True by (simp add: next_timer_def Let_def)
    then have "add_mset x (mset (tc_heap s1)) = add_mset ?t (mset (tc_heap s))"
      using assms(4) by (simp add: map_filter_simps)
    moreover obtain M where "mset (tc_heap s) = add_mset x M" using t(1) True by (metis mset_add set_mset_mset)
    ultimately have "mset (tc_heap s1) = add_mset ?t M" by simp
    then have "?t \<in># mset (tc_heap s1)" by simp
    moreover have "due (now_of s1) ?t" by (simp add: due_def assms(3) AddSeconds_def)
    ultimately show ?thesis using assms(2) t(3,4) by (auto simp: spinning_def)
  next
    case False
    have "t \<in># add_mset x (mset (tc_heap s1))" using t(1) by (simp add: assms(4))
    with False have "t \<in> set (tc_heap s1)" by simp
    then show ?thesis using assms(2,3) t by (auto simp: spinning_def)
  qed
qed

lemma spinning_CheckTime: "spinning s \<Longrightarrow> CheckTime s"
  by (auto simp: spinning_def CheckTime_iff)

lemma Timer_Update_spins:
  "Timer_Update run s acc = Some r \<Longrightarrow> quiet run \<Longrightarrow> \<not> spinning s"
proof (induction rule: Timer_Update.raw_induct [rotated, consumes 1])
  case (1 f run s acc r)
  show ?case
  proof
    assume sp: "spinning s"
    then have h: "is_heap (tc_heap s)" and ct: "CheckTime s" by (auto simp: spinning_def spinning_CheckTime)
    from Update_round_ok [OF h ct 1(3)] obtain x s0 where x: "PopTimeHeap s = (x, s0)"
      "is_heap (tc_heap (Update_again x (run (tm_Handler x) s0)))"
      "now_of (Update_again x (run (tm_Handler x) s0)) = now_of s"
      "add_mset x (mset (tc_heap (Update_again x (run (tm_Handler x) s0))))
        = mset (tc_heap s) + mset (List.map_filter (next_timer (now_of s)) [x])" by blast
    have "f run (Update_again x (run (tm_Handler x) s0)) (acc @ [x]) = Some r"
      using 1(2) ct x(1) by (simp add: Let_def)
    from 1(1) [OF this 1(3)] spinning_again [OF sp x(2-4)] show False by simp
  qed
qed

section \<open>Properties\<close>

text \<open>One round: the earliest timer is called, and nothing it leaves is due.\<close>

lemma Timer_round:
  assumes heap: "is_heap (tc_heap s)" and "CheckTime s" and "quiet run"
    and move: "\<forall>t\<in>set (tc_heap s). \<forall>t1. next_timer (now_of s) t = Some t1 \<longrightarrow> \<not> due (now_of s) t1"
  obtains x s1 where "Timer_Update run s acc = Timer_Update run s1 (acc @ [x])"
    "\<forall>t\<in>set (tc_heap s). tm_NextTime x \<le> tm_NextTime t" "is_heap (tc_heap s1)" "now_of s1 = now_of s"
    "add_mset x (filter_mset (due (now_of s)) (mset (tc_heap s1))) = filter_mset (due (now_of s)) (mset (tc_heap s))"
    "filter_mset (\<lambda>t. \<not> due (now_of s) t) (mset (tc_heap s1))
       = filter_mset (\<lambda>t. \<not> due (now_of s) t) (mset (tc_heap s)) + mset (List.map_filter (next_timer (now_of s)) [x])"
    "\<forall>t\<in>set (tc_heap s1). due (now_of s) t \<longrightarrow> t \<in> set (tc_heap s)"
    "\<forall>t\<in>set (tc_heap s1). \<forall>t1. next_timer (now_of s) t = Some t1 \<longrightarrow> \<not> due (now_of s) t1"
proof -
  let ?now = "now_of s"
  from Timer_Update_step [OF heap assms(2,3), of acc] obtain x s1 where
    x: "Timer_Update run s acc = Timer_Update run s1 (acc @ [x])" "due ?now x" "x \<in> set (tc_heap s)"
      "\<forall>t\<in>set (tc_heap s). tm_NextTime x \<le> tm_NextTime t" and s1: "is_heap (tc_heap s1)" "now_of s1 = ?now"
      "add_mset x (mset (tc_heap s1)) = mset (tc_heap s) + mset (List.map_filter (next_timer ?now) [x])" by blast
  let ?again = "mset (List.map_filter (next_timer ?now) [x])"
  have again: "\<not> due ?now t \<and> next_timer ?now x = Some t" if "t \<in># ?again" for t
    using that move x(3) by (auto simp: map_filter_simps split: option.splits)
  then have f: "filter_mset (due ?now) ?again = {#}" "filter_mset (\<lambda>t. \<not> due ?now t) ?again = ?again"
    by (auto simp: filter_mset_eq_conv)
  have sub: "t \<in> set (tc_heap s) \<or> t \<in># ?again" if "t \<in> set (tc_heap s1)" for t
    using that s1(3) by (metis set_mset_mset insert_iff set_mset_add_mset_insert union_iff)
  have again2: "\<not> due ?now t2" if "t \<in># ?again" "next_timer ?now t = Some t2" for t t2
  proof -
    from again [OF that(1)] have t: "next_timer ?now x = Some t" "\<not> due ?now t" by auto
    then have "tm_NextTime t2 = tm_NextTime t" using that(2)
      by (auto simp: next_timer_def Let_def split: if_splits)
    with t(2) show ?thesis by (simp add: due_def)
  qed
  show thesis
  proof (rule that [OF x(1,4) s1(1,2)])
    show "add_mset x (filter_mset (due ?now) (mset (tc_heap s1))) = filter_mset (due ?now) (mset (tc_heap s))"
      using arg_cong [OF s1(3), of "filter_mset (due ?now)"] x(2) f(1) by simp
    show "filter_mset (\<lambda>t. \<not> due ?now t) (mset (tc_heap s1)) = filter_mset (\<lambda>t. \<not> due ?now t) (mset (tc_heap s)) + ?again"
      using arg_cong [OF s1(3), of "filter_mset (\<lambda>t. \<not> due ?now t)"] x(2) f(2) by simp
    show "\<forall>t\<in>set (tc_heap s1). due ?now t \<longrightarrow> t \<in> set (tc_heap s)" using sub again by blast
    show "\<forall>t\<in>set (tc_heap s1). \<forall>t1. next_timer ?now t = Some t1 \<longrightarrow> \<not> due ?now t1"
      using sub again2 move by blast
  qed
qed

text \<open>C29: the timers of a thread. \<open>Update\<close> returns; it has called exactly the timers that were due,
  in the order of their times; those that are not finished wait again for their interval, the
  finished ones are gone, the others are untouched, and nothing that is due is left. The
  functions must leave the timers alone and an interval must move a timer past the present.\<close>

theorem Timer_Update_due:
  assumes "is_heap (tc_heap s)" and "quiet run"
    and "\<forall>t\<in>set (tc_heap s). \<forall>t1. next_timer (now_of s) t = Some t1 \<longrightarrow> \<not> due (now_of s) t1"
  shows "\<exists>s1 fired. Timer_Update run s acc = Some (s1, acc @ fired)
    \<and> mset fired = filter_mset (due (now_of s)) (mset (tc_heap s))
    \<and> sorted_wrt (\<lambda>a b. tm_NextTime a \<le> tm_NextTime b) fired
    \<and> mset (tc_heap s1) = filter_mset (\<lambda>t. \<not> due (now_of s) t) (mset (tc_heap s))
        + mset (List.map_filter (next_timer (now_of s)) fired)
    \<and> is_heap (tc_heap s1) \<and> \<not> CheckTime s1"
  using assms(1,3)
proof (induction "size (filter_mset (due (now_of s)) (mset (tc_heap s)))" arbitrary: s acc rule: less_induct)
  case less
  let ?now = "now_of s"
  show ?case
  proof (cases "CheckTime s")
    case False
    then have none: "\<forall>t\<in>set (tc_heap s). \<not> due ?now t" using CheckTime_iff [OF less.prems(1)] by blast
    have "Timer_Update run s acc = Some (s, acc @ [])" using False by (subst Timer_Update.simps) simp
    moreover have "filter_mset (due ?now) (mset (tc_heap s)) = {#}"
      "filter_mset (\<lambda>t. \<not> due ?now t) (mset (tc_heap s)) = mset (tc_heap s)"
      using none by (auto simp: filter_mset_eq_conv)
    ultimately show ?thesis
      using False less.prems(1) by (intro exI [of _ s] exI [of _ "[]"]) (simp add: map_filter_simps)
  next
    case True
    obtain x s1 where x: "Timer_Update run s acc = Timer_Update run s1 (acc @ [x])"
        "\<forall>t\<in>set (tc_heap s). tm_NextTime x \<le> tm_NextTime t" and s1: "is_heap (tc_heap s1)" "now_of s1 = ?now"
      and due1: "add_mset x (filter_mset (due ?now) (mset (tc_heap s1))) = filter_mset (due ?now) (mset (tc_heap s))"
      and wait1: "filter_mset (\<lambda>t. \<not> due ?now t) (mset (tc_heap s1))
        = filter_mset (\<lambda>t. \<not> due ?now t) (mset (tc_heap s)) + mset (List.map_filter (next_timer ?now) [x])"
      and sub: "\<forall>t\<in>set (tc_heap s1). due ?now t \<longrightarrow> t \<in> set (tc_heap s)"
      and move1: "\<forall>t\<in>set (tc_heap s1). \<forall>t1. next_timer ?now t = Some t1 \<longrightarrow> \<not> due ?now t1"
      by (rule Timer_round [OF less.prems(1) True assms(2) less.prems(2), of acc])
    have "size (filter_mset (due (now_of s1)) (mset (tc_heap s1))) < size (filter_mset (due ?now) (mset (tc_heap s)))"
      by (simp add: due1 [symmetric] s1(2))
    then obtain s2 fired where s2: "Timer_Update run s1 (acc @ [x]) = Some (s2, (acc @ [x]) @ fired)"
      "mset fired = filter_mset (due ?now) (mset (tc_heap s1))" "sorted_wrt (\<lambda>a b. tm_NextTime a \<le> tm_NextTime b) fired"
      "mset (tc_heap s2) = filter_mset (\<lambda>t. \<not> due ?now t) (mset (tc_heap s1)) + mset (List.map_filter (next_timer ?now) fired)"
      "is_heap (tc_heap s2)" "\<not> CheckTime s2"
      using less.hyps [OF _ s1(1), of "acc @ [x]"] move1 by (auto simp: s1(2))
    have "set fired = {t \<in> set (tc_heap s1). due ?now t}" using arg_cong [OF s2(2), of set_mset] by simp
    then have first: "\<forall>t\<in>set fired. tm_NextTime x \<le> tm_NextTime t" using sub x(2) by blast
    show ?thesis
    proof (intro exI [of _ s2] exI [of _ "x # fired"] conjI)
      show "Timer_Update run s acc = Some (s2, acc @ x # fired)" using x(1) s2(1) by simp
      show "mset (x # fired) = filter_mset (due ?now) (mset (tc_heap s))" using due1 s2(2) by simp
      show "sorted_wrt (\<lambda>a b. tm_NextTime a \<le> tm_NextTime b) (x # fired)" using first s2(3) by simp
      have "mset (List.map_filter (next_timer ?now) (x # fired)) = mset (List.map_filter (next_timer ?now) [x]) + mset (List.map_filter (next_timer ?now) fired)"
        by (simp add: map_filter_simps split: option.split)
      then show "mset (tc_heap s2) = filter_mset (\<lambda>t. \<not> due ?now t) (mset (tc_heap s))
          + mset (List.map_filter (next_timer ?now) (x # fired))"
        using s2(4) wait1 by (simp add: add.assoc)
    qed (fact s2)+
  qed
qed

text \<open>An unlimited timer whose interval is 0 seconds hangs its thread. Whenever it is due, it is
  due again as soon as it has been called, so the loop of \<open>Update\<close> does not end.\<close>

theorem Timer_Update_zero_interval_hangs:
  assumes "is_heap (tc_heap s)" and "quiet run" and "t \<in> set (tc_heap s)" and "due (now_of s) t"
    and "tm_CallCountTotal t = 0" and "tm_DurationSecond t = 0"
  shows "Timer_Update run s acc = None"
proof (rule ccontr)
  assume "Timer_Update run s acc \<noteq> None"
  then obtain r where "Timer_Update run s acc = Some r" by blast
  from Timer_Update_spins [OF this assms(2)] assms(1,3-6) show False by (auto simp: spinning_def)
qed

lemma erase_first_mset:
  "distinct (map tm_SN heap) \<Longrightarrow> mset (erase_first sn heap) = filter_mset (\<lambda>t. tm_SN t \<noteq> sn) (mset heap)
     \<and> distinct (map tm_SN (erase_first sn heap))"
proof (induction heap)
  case (Cons t heap)
  have "filter_mset (\<lambda>u. tm_SN u \<noteq> tm_SN t) (mset heap) = mset heap"
    using Cons.prems by (fastforce simp: filter_mset_eq_conv image_iff)
  moreover have "set (erase_first sn heap) \<subseteq> set heap" by (induction heap) auto
  then have "tm_SN ` set (erase_first sn heap) \<subseteq> tm_SN ` set heap" by blast
  ultimately show ?case using Cons by auto
qed simp

lemma Remove_loop_found:
  "distinct (map tm_SN heap) \<Longrightarrow> distinct sns \<Longrightarrow> set sns \<subseteq> tm_SN ` set heap \<Longrightarrow>
   \<exists>heap1. Remove_loop sns heap = (heap1, True) \<and> mset heap1 = filter_mset (\<lambda>t. tm_SN t \<notin> set sns) (mset heap)"
proof (induction sns arbitrary: heap)
  case (Cons sn sns)
  let ?h = "erase_first sn heap"
  have e: "mset ?h = filter_mset (\<lambda>t. tm_SN t \<noteq> sn) (mset heap)" "distinct (map tm_SN ?h)"
    using erase_first_mset [OF Cons.prems(1)] by auto
  have s: "set ?h = {t \<in> set heap. tm_SN t \<noteq> sn}"
    using arg_cong [OF e(1), of set_mset] by simp
  have "set sns \<subseteq> tm_SN ` set ?h"
  proof
    fix k assume k: "k \<in> set sns"
    then obtain t where "t \<in> set heap" "tm_SN t = k" using Cons.prems(3) by auto
    moreover have "k \<noteq> sn" using k Cons.prems(2) by auto
    ultimately show "k \<in> tm_SN ` set ?h" unfolding s by blast
  qed
  then obtain heap1 where "Remove_loop sns ?h = (heap1, True)" "mset heap1 = filter_mset (\<lambda>t. tm_SN t \<notin> set sns) (mset ?h)"
    using Cons.IH [OF e(2)] Cons.prems(2) by auto
  moreover have "find (\<lambda>one. tm_SN one = sn) heap \<noteq> None" using Cons.prems(3) by (auto simp: find_None_all)
  ultimately show ?case
    by (auto simp: e(1) filter_filter_mset intro: filter_mset_cong)
qed simp

text \<open>Cancelling timers. \<open>Remove\<close> takes the timers with the given numbers out and restores the
  heap; but it gives up at the first number it does not find, for instance that of a timer that
  has already had its last call, so the timers named after it stay and go on being called.\<close>

theorem Timer_Remove_all_or_first_unknown:
  assumes "is_heap (tc_heap s)" and "distinct (map tm_SN (tc_heap s))" and "distinct sns" and "sns \<noteq> []"
  shows "(set sns \<subseteq> tm_SN ` set (tc_heap s) \<longrightarrow> is_heap (tc_heap (Timer_Remove sns s))
      \<and> mset (tc_heap (Timer_Remove sns s)) = filter_mset (\<lambda>t. tm_SN t \<notin> set sns) (mset (tc_heap s)))
    \<and> (hd sns \<notin> tm_SN ` set (tc_heap s) \<longrightarrow> Timer_Remove sns s = s)"
proof (intro conjI impI)
  assume "set sns \<subseteq> tm_SN ` set (tc_heap s)"
  from Remove_loop_found [OF assms(2,3) this] make_heap_ok
  show "is_heap (tc_heap (Timer_Remove sns s))"
    and "mset (tc_heap (Timer_Remove sns s)) = filter_mset (\<lambda>t. tm_SN t \<notin> set sns) (mset (tc_heap s))"
    by (auto simp: Timer_Remove_def)
next
  assume "hd sns \<notin> tm_SN ` set (tc_heap s)"
  then show "Timer_Remove sns s = s"
    using assms(4) by (cases sns) (auto simp: Timer_Remove_def find_None_all)
qed

definition sample_timer :: "u64 \<Rightarrow> u64 \<Rightarrow> 32 word \<Rightarrow> Timer" where
  "sample_timer sn next d = \<lparr>tm_NextTime = next, tm_Handler = 0, tm_DelaySecond = 0, tm_DurationSecond = d,
     tm_CallCountTotal = 0, tm_CallCountCur = 0, tm_SN = sn\<rparr>"

definition sample_timers :: "32 word \<Rightarrow> TimerComponent" where
  "sample_timers d = \<lparr>tc_heap = [sample_timer 1 50 d, sample_timer 2 90 1, sample_timer 3 60 1],
     tc_global = Global_new 0 1 70\<rparr>"

lemma sample_timers_heap: "is_heap (tc_heap (sample_timers d))"
proof -
  have "length (tc_heap (sample_timers d)) = 3" by (simp add: sample_timers_def)
  moreover have "\<forall>c. 0 < c \<and> c < 3 \<and> 0 \<le> (c - 1) div 2 \<longrightarrow>
      nt (tc_heap (sample_timers d)) ((c - 1) div 2) \<le> nt (tc_heap (sample_timers d)) c"
  proof (intro allI impI)
    fix c :: nat
    assume "0 < c \<and> c < 3 \<and> 0 \<le> (c - 1) div 2"
    then have "c = 1 \<or> c = 2" by linarith
    then show "nt (tc_heap (sample_timers d)) ((c - 1) div 2) \<le> nt (tc_heap (sample_timers d)) c"
      by (auto simp: sample_timers_def sample_timer_def)
  qed
  ultimately show ?thesis by (simp only: is_heap_def heap_below_def)
qed

lemma quiet_id: "quiet (\<lambda>h s. s)"
  by (simp add: quiet_def)

theorem Timer_Update_due_witness:
  "\<exists>s1 fired. Timer_Update (\<lambda>h s. s) (sample_timers 1) [] = Some (s1, fired)
     \<and> mset fired = {#sample_timer 1 50 1, sample_timer 3 60 1#} \<and> \<not> CheckTime s1"
proof -
  have "\<forall>t\<in>set (tc_heap (sample_timers 1)). \<forall>t1. next_timer (now_of (sample_timers 1)) t = Some t1
      \<longrightarrow> \<not> due (now_of (sample_timers 1)) t1"
    by (simp add: sample_timers_def next_timer_def sample_timer_def now_of_def due_def AddSeconds_def Global_new_def)
  from Timer_Update_due [OF sample_timers_heap quiet_id this, of "[]"]
  show ?thesis
    by (auto simp: sample_timers_def due_def now_of_def Global_new_def sample_timer_def)
qed

theorem Timer_Update_zero_interval_hangs_witness:
  "Timer_Update (\<lambda>h s. s) (sample_timers 0) [] = None"
  by (rule Timer_Update_zero_interval_hangs [OF sample_timers_heap quiet_id, of "sample_timer 1 50 0"])
     (simp_all add: sample_timers_def sample_timer_def due_def now_of_def Global_new_def)

theorem Timer_Remove_all_or_first_unknown_witness:
  "mset (tc_heap (Timer_Remove [3, 1] (sample_timers 1))) = {#sample_timer 2 90 1#}
   \<and> Timer_Remove [7, 1] (sample_timers 1) = sample_timers 1"
proof -
  have d: "distinct (map tm_SN (tc_heap (sample_timers 1)))" by (simp add: sample_timers_def sample_timer_def)
  show ?thesis
    using Timer_Remove_all_or_first_unknown [OF sample_timers_heap d, of "[3, 1]"]
      Timer_Remove_all_or_first_unknown [OF sample_timers_heap d, of "[7, 1]"]
    by (simp add: sample_timers_def sample_timer_def)
qed

end
