(* ===== verification/Create_Component.thy ===== *)
theory Create_Component
  imports Message_System Thread_Mgr "HOL-Library.List_Lexorder" "HOL-Library.Char_ord"
begin

text \<open>
  \<open>component_factory.h\<close>, \<open>regist_to_factory.h\<close>, \<open>create_component.{h,cpp}\<close>, the component
  messages of \<open>thread_mgr.h\<close>, and \<open>system_manager.{h,cpp}\<close>, \<open>update_system.cpp\<close>: a component is
  created on another thread by a message that carries the name of its class and its
  constructor's arguments; the receiving thread rebuilds the argument list and looks the class
  up in the factory for just these argument types. \<open>None\<close> is a thread that never returns
  (a mutex locked twice).
\<close>

section \<open>Factories\<close>

text \<open>Argument types and arguments; \<open>TArgs...\<close> is a list of types.\<close>

datatype argtype = TInt | TString | TUInt64
datatype arg = AInt int | AString string | AUInt64 u64

fun argtype_of :: "arg \<Rightarrow> argtype" where
  "argtype_of (AInt i) = TInt"
| "argtype_of (AString s) = TString"
| "argtype_of (AUInt64 w) = TUInt64"

text \<open>\<open>FactoryFunction\<close>: serial number, arguments. The lock is a plain mutex.\<close>

type_synonym FactoryFunction = "u64 \<Rightarrow> arg list \<Rightarrow> world \<Rightarrow> addr \<times> world"

record ComponentFactory =
  cf_map :: "(string, FactoryFunction) smap"
  cf_locked :: bool

type_synonym factories = "argtype list \<Rightarrow> ComponentFactory"

definition ComponentFactory_new :: ComponentFactory where
  "ComponentFactory_new = \<lparr>cf_map = [], cf_locked = False\<rparr>"

definition Regist :: "string \<Rightarrow> FactoryFunction \<Rightarrow> ComponentFactory \<Rightarrow> (bool \<times> ComponentFactory) option" where
  "Regist className pFunc cf =
     (if cf_locked cf then None
      else if sm_find (cf_map cf) className \<noteq> None then Some (False, cf)
      else Some (True, cf\<lparr>cf_map := sm_insert className pFunc (cf_map cf)\<rparr>))"

definition IsRegisted :: "string \<Rightarrow> ComponentFactory \<Rightarrow> bool option" where
  "IsRegisted className cf = (if cf_locked cf then None else Some (sm_find (cf_map cf) className \<noteq> None))"

text \<open>The early \<open>return\<close> for an unknown class leaves the mutex locked.\<close>

definition Factory_Create :: "string \<Rightarrow> u64 \<Rightarrow> arg list \<Rightarrow> world \<Rightarrow> ComponentFactory
    \<Rightarrow> (addr option \<times> world \<times> ComponentFactory) option" where
  "Factory_Create className sn args w cf =
     (if cf_locked cf then None
      else let cf1 = cf\<lparr>cf_locked := True\<rparr> in
        (case sm_find (cf_map cf1) className of
           None \<Rightarrow> Some (None, w, cf1)
         | Some fun1 \<Rightarrow> (let cf2 = cf1\<lparr>cf_locked := False\<rparr>; (p, w1) = fun1 sn args w in Some (Some p, w1, cf2))))"

text \<open>\<open>RegistToFactory<T, TArgs...>::CreateComponent\<close>; \<open>awake\<close> is the class's \<open>Awake(args)\<close>.\<close>

definition RegistToFactory_CreateComponent :: "cls \<Rightarrow> (arg list \<Rightarrow> addr \<Rightarrow> heap \<Rightarrow> heap) \<Rightarrow> FactoryFunction" where
  "RegistToFactory_CreateComponent T awake sn args w = pool_malloc T None sn (awake args) w"

definition AddComponentByName :: "string \<Rightarrow> u64 \<Rightarrow> arg list \<Rightarrow> world \<times> factories
    \<Rightarrow> (addr option \<times> world \<times> factories) option" where
  "AddComponentByName className sn args ws = (case ws of (w, fs) \<Rightarrow> do {
     (pObj, w1, cf) \<leftarrow> Factory_Create className sn args w (fs (map argtype_of args));
     let fs1 = fs(map argtype_of args := cf);
     (case pObj of
        None \<Rightarrow> Some (None, w1, fs1)
      | Some pComponent \<Rightarrow> Some (Some pComponent, EntitySystem_file pComponent w1, fs1)) })"

section \<open>The message\<close>

record CreateComponentParam =
  ccp_type :: int
  ccp_int_param :: int
  ccp_string_param :: string
  ccp_uint64_param :: u64

abbreviation (input) ParamType_Int :: int where "ParamType_Int \<equiv> 0"
abbreviation (input) ParamType_String :: int where "ParamType_String \<equiv> 1"
abbreviation (input) ParamType_UInt64 :: int where "ParamType_UInt64 \<equiv> 2"

record CreateComponent_proto =
  cc_thread_type :: int
  cc_class_name :: string
  cc_is_to_all_thread :: bool
  cc_params :: "CreateComponentParam list"
  cc_sn :: u64

definition param_default :: CreateComponentParam where
  "param_default = \<lparr>ccp_type = 0, ccp_int_param = 0, ccp_string_param = '''', ccp_uint64_param = 0\<rparr>"

fun AnalyseParam :: "CreateComponent_proto \<Rightarrow> arg list \<Rightarrow> CreateComponent_proto" where
  "AnalyseParam proto [] = proto"
| "AnalyseParam proto (AInt value # args) =
     AnalyseParam (proto\<lparr>cc_params := cc_params proto @ [param_default\<lparr>ccp_type := ParamType_Int, ccp_int_param := value\<rparr>]\<rparr>) args"
| "AnalyseParam proto (AString value # args) =
     AnalyseParam (proto\<lparr>cc_params := cc_params proto @ [param_default\<lparr>ccp_type := ParamType_String, ccp_string_param := value\<rparr>]\<rparr>) args"
| "AnalyseParam proto (AUInt64 value # args) =
     AnalyseParam (proto\<lparr>cc_params := cc_params proto @ [param_default\<lparr>ccp_type := ParamType_UInt64, ccp_uint64_param := value\<rparr>]\<rparr>) args"

text \<open>\<open>ThreadMgr::CreateComponentWithSn\<close>: registers the class once and queues the message (the
  result; it is put on \<open>_createPackets\<close>).\<close>

definition CreateComponentWithSn :: "string \<Rightarrow> FactoryFunction \<Rightarrow> ThreadType \<Rightarrow> u64 \<Rightarrow> bool \<Rightarrow> arg list
    \<Rightarrow> factories \<Rightarrow> (CreateComponent_proto \<times> factories) option" where
  "CreateComponentWithSn className creator iType sn isToAllThead args fs = do {
     let key = map argtype_of args;
     known \<leftarrow> IsRegisted className (fs key);
     fs1 \<leftarrow> (if \<not> known then map_option (\<lambda>(_, cf). fs(key := cf)) (Regist className creator (fs key)) else Some fs);
     let proto = \<lparr>cc_thread_type = iType, cc_class_name = className, cc_is_to_all_thread = isToAllThead,
                  cc_params = [], cc_sn = sn\<rparr>;
     Some (AnalyseParam proto args, fs1) }"

definition ThreadMgr_CreateComponent :: "string \<Rightarrow> FactoryFunction \<Rightarrow> ThreadType \<Rightarrow> bool \<Rightarrow> arg list
    \<Rightarrow> factories \<Rightarrow> (CreateComponent_proto \<times> factories) option" where
  "ThreadMgr_CreateComponent className creator iType isToAllThead args fs =
     CreateComponentWithSn className creator iType 0 isToAllThead args fs"

section \<open>\<open>class CreateComponentC\<close>\<close>

text \<open>\<open>DynamicCall<n>\<close>; at 0 the call fails whether or not parameters are left.\<close>

fun DynamicCall :: "nat \<Rightarrow> string \<Rightarrow> u64 \<Rightarrow> arg list \<Rightarrow> CreateComponentParam list \<Rightarrow> world \<times> factories
    \<Rightarrow> (addr option \<times> world \<times> factories) option" where
  "DynamicCall 0 classname sn t1 params ws = Some (None, ws)"
| "DynamicCall (Suc n) classname sn t1 params ws =
     (case params of
        [] \<Rightarrow> AddComponentByName classname sn t1 ws
      | param # rest \<Rightarrow>
          if ccp_type param = ParamType_Int
          then DynamicCall n classname sn (t1 @ [AInt (ccp_int_param param)]) rest ws
          else if ccp_type param = ParamType_String
          then DynamicCall n classname sn (t1 @ [AString (ccp_string_param param)]) rest ws
          else if ccp_type param = ParamType_UInt64
          then DynamicCall n classname sn (t1 @ [AUInt64 (ccp_uint64_param param)]) rest ws
          else Some (None, ws))"

definition MaxDynamicCall :: nat where "MaxDynamicCall = 4"

definition HandleCreateComponent :: "CreateComponent_proto \<Rightarrow> world \<times> factories
    \<Rightarrow> (addr option \<times> world \<times> factories) option" where
  "HandleCreateComponent proto ws =
     (if length (cc_params proto) > MaxDynamicCall then Some (None, ws)
      else DynamicCall MaxDynamicCall (cc_class_name proto) (cc_sn proto) [] (cc_params proto) ws)"

text \<open>\<open>HandleCreateSystem\<close> and \<open>SystemManager::AddSystem\<close>: a system is an object of the factory
  without arguments; \<open>systems\<close> is \<open>_systems\<close>.\<close>

definition AddSystem :: "string \<Rightarrow> addr list \<Rightarrow> world \<times> factories \<Rightarrow> (addr list \<times> world \<times> factories) option" where
  "AddSystem name systems ws = (case ws of (w, fs) \<Rightarrow> do {
     (pObj, w1, cf) \<leftarrow> Factory_Create name 0 [] w (fs []);
     (case pObj of
        None \<Rightarrow> Some (systems, w1, fs([] := cf))
      | Some pSystem \<Rightarrow> Some (systems @ [pSystem], w1, fs([] := cf))) })"

definition HandleCreateSystem :: "ThreadType \<Rightarrow> int \<Rightarrow> string \<Rightarrow> addr list \<Rightarrow> world \<times> factories
    \<Rightarrow> (addr list \<times> world \<times> factories) option" where
  "HandleCreateSystem threadType proto_thread_type systemName systems ws =
     (if threadType \<noteq> proto_thread_type then Some (systems, ws) else AddSystem systemName systems ws)"

definition ThreadMgr_CreateSystem :: "string \<Rightarrow> FactoryFunction \<Rightarrow> argtype list \<Rightarrow> factories
    \<Rightarrow> ((string \<times> int) \<times> factories) option" where
  "ThreadMgr_CreateSystem className creator key fs = do {
     known \<leftarrow> IsRegisted className (fs key);
     fs1 \<leftarrow> (if \<not> known then map_option (\<lambda>(_, cf). fs(key := cf)) (Regist className creator (fs key)) else Some fs);
     Some ((className, LogicThread), fs1) }"

section \<open>\<open>class SystemManager\<close>: one frame of a thread\<close>

text \<open>Objects and packets of a thread are one state, \<open>msgworld\<close>.\<close>

definition on_world :: "(world \<Rightarrow> world option) \<Rightarrow> msgworld \<Rightarrow> msgworld option" where
  "on_world f s = map_option (\<lambda>w. world.extend w (world.more s)) (f (world.truncate s))"

text \<open>\<open>UpdateSystem::Update\<close>: the collection of \<open>UpdateComponent\<close>s is swapped, then the function
  bound into each is called; \<open>upd\<close> maps a component to its function.\<close>

definition UpdateSystem_Update :: "(addr \<Rightarrow> world \<Rightarrow> world) \<Rightarrow> u64 \<Rightarrow> u64 \<Rightarrow> (addr \<Rightarrow> msgworld \<Rightarrow> msgworld)
    \<Rightarrow> msgworld \<Rightarrow> msgworld option" where
  "UpdateSystem_Update backToPool timerHash updateHash upd s =
     (case sm_find (w_objSystems s) updateHash of
        None \<Rightarrow> Some s
      | Some _ \<Rightarrow> do {
          s1 \<leftarrow> on_world (Collections_Swap backToPool timerHash updateHash) s;
          Some (fold (\<lambda>(sn, p) s. upd p s)
                  (case sm_find (w_objSystems s1) updateHash of None \<Rightarrow> [] | Some c \<Rightarrow> cc_objs c) s1) })"

text \<open>\<open>SystemManager::Update\<close>: pools, entities, messages, then the systems, of which \<open>UpdateSystem\<close>
  is the first; \<open>others\<close> are those added by \<open>AddSystem\<close>.\<close>

definition SystemManager_Update :: "(addr \<Rightarrow> world \<Rightarrow> world) \<Rightarrow> u64 \<Rightarrow> u64 \<Rightarrow> (addr \<Rightarrow> msgworld IMessageCallBack)
    \<Rightarrow> (addr \<Rightarrow> msgworld \<Rightarrow> msgworld) \<Rightarrow> (msgworld \<Rightarrow> msgworld option) list \<Rightarrow> msgworld \<Rightarrow> msgworld option" where
  "SystemManager_Update backToPool timerHash updateHash cb upd others s = do {
     let s1 = (let (h, pools) = Collector_Update (w_heap s) (w_pools s) in s\<lparr>w_heap := h, w_pools := pools\<rparr>);
     s2 \<leftarrow> on_world (EntitySystem_Update backToPool timerHash) s1;
     let s3 = MessageSystem_Update cb s2;
     s4 \<leftarrow> UpdateSystem_Update backToPool timerHash updateHash upd s3;
     for_each (\<lambda>sys s. sys s) others s4 }"

text \<open>\<open>SystemManager::InitComponent\<close>: the components every thread has; \<open>awakeT\<close>, \<open>awakeC\<close>, \<open>awakeS\<close>
  are their \<open>Awake\<close>.\<close>

definition InitComponent :: "cls \<Rightarrow> (addr \<Rightarrow> heap \<Rightarrow> heap) \<Rightarrow> cls \<Rightarrow> (addr \<Rightarrow> heap \<Rightarrow> heap) \<Rightarrow> cls \<Rightarrow> (addr \<Rightarrow> heap \<Rightarrow> heap)
    \<Rightarrow> world \<Rightarrow> world" where
  "InitComponent TTimer awakeT TCreate awakeC TConsole awakeS w =
     (let (_, w1) = EntitySystem_AddComponent TTimer awakeT w;
          (_, w2) = EntitySystem_AddComponent TCreate awakeC w1
      in snd (EntitySystem_AddComponent TConsole awakeS w2))"

text \<open>\<open>SystemManager::Dispose\<close> after the systems: the message system goes first, so components that are
  torn down later find no callbacks; the pools are updated once more, and what is free is deleted.\<close>

definition SystemManager_Dispose_world :: "(addr \<Rightarrow> world \<Rightarrow> world) \<Rightarrow> u64 \<Rightarrow> world \<Rightarrow> (addr list \<times> world) option" where
  "SystemManager_Dispose_world backToPool timerHash w = do {
     w1 \<leftarrow> EntitySystem_Dispose backToPool timerHash (w\<lparr>w_callbacks := [], w_defaultCallbacks := []\<rparr>);
     let (h, pools) = Collector_Update (w_heap w1) (w_pools w1);
     let (freed, pools1) = Collector_Dispose pools;
     Some (freed, w1\<lparr>w_heap := h, w_pools := pools1\<rparr>) }"

section \<open>Facts\<close>

lemma AnalyseParam_fields [simp]:
  "cc_class_name (AnalyseParam proto args) = cc_class_name proto"
  "cc_sn (AnalyseParam proto args) = cc_sn proto"
  "cc_thread_type (AnalyseParam proto args) = cc_thread_type proto"
  by (induction proto args rule: AnalyseParam.induct) simp_all

fun param_of :: "arg \<Rightarrow> CreateComponentParam" where
  "param_of (AInt i) = param_default\<lparr>ccp_type := ParamType_Int, ccp_int_param := i\<rparr>"
| "param_of (AString s) = param_default\<lparr>ccp_type := ParamType_String, ccp_string_param := s\<rparr>"
| "param_of (AUInt64 x) = param_default\<lparr>ccp_type := ParamType_UInt64, ccp_uint64_param := x\<rparr>"

lemma AnalyseParam_params [simp]:
  "cc_params (AnalyseParam proto args) = cc_params proto @ map param_of args"
  by (induction proto args rule: AnalyseParam.induct) simp_all

text \<open>The receiver rebuilds the arguments when it has a level of \<open>DynamicCall\<close> to spare.\<close>

lemma DynamicCall_args:
  "length args < n \<Longrightarrow> DynamicCall n c sn t1 (map param_of args) ws = AddComponentByName c sn (t1 @ args) ws"
proof (induction args arbitrary: n t1)
  case Nil
  then show ?case by (cases n) simp_all
next
  case (Cons a args)
  then obtain m where n: "n = Suc m" by (cases n) auto
  with Cons show ?case by (cases a) (simp_all add: param_default_def)
qed

lemma DynamicCall_too_many:
  "n \<le> length args \<Longrightarrow> DynamicCall n c sn t1 (map param_of args) ws = Some (None, ws)"
proof (induction args arbitrary: n t1)
  case (Cons a args)
  then show ?case by (cases n; cases a) (simp_all add: param_default_def)
qed simp

lemma CreateComponentWithSn_proto:
  assumes "CreateComponentWithSn className creator iType sn all args fs = Some (proto, fs1)"
  shows "cc_class_name proto = className \<and> cc_sn proto = sn \<and> cc_params proto = map param_of args"
  using assms unfolding CreateComponentWithSn_def by (auto simp: Let_def split: bind_splits if_splits)

lemma CreateComponentWithSn_free:
  assumes "\<not> cf_locked (fs (map argtype_of args))"
  shows "\<exists>proto fs1. CreateComponentWithSn className creator iType sn all args fs = Some (proto, fs1)
    \<and> \<not> cf_locked (fs1 (map argtype_of args))
    \<and> sm_find (cf_map (fs1 (map argtype_of args))) className =
        Some (case sm_find (cf_map (fs (map argtype_of args))) className of None \<Rightarrow> creator | Some f \<Rightarrow> f)"
  using assms unfolding CreateComponentWithSn_def IsRegisted_def Regist_def by (auto simp: Let_def split: option.splits)

lemma Factory_Create_known:
  "\<not> cf_locked cf \<Longrightarrow> sm_find (cf_map cf) className = Some f \<Longrightarrow>
   Factory_Create className sn args w cf = Some (Some (fst (f sn args w)), snd (f sn args w), cf)"
  by (simp add: Factory_Create_def Let_def split_beta)

lemma Factory_Create_unknown:
  "\<not> cf_locked cf \<Longrightarrow> sm_find (cf_map cf) className = None \<Longrightarrow>
   Factory_Create className sn args w cf = Some (None, w, cf\<lparr>cf_locked := True\<rparr>)"
  by (simp add: Factory_Create_def)

section \<open>Properties\<close>


text \<open>The receiver announces four parameters as its maximum and lets such a message pass, but
  its last level of \<open>DynamicCall\<close> gives up before it looks at the list: a component with exactly
  four arguments is never created, whatever the factories hold.\<close>

theorem CreateComponent_four_args_fail:
  assumes "CreateComponentWithSn className creator iType sn all args fs = Some (proto, fs1)"
    and "length args = MaxDynamicCall"
  shows "\<not> length (cc_params proto) > MaxDynamicCall \<and> HandleCreateComponent proto ws = Some (None, ws)"
  using CreateComponentWithSn_proto [OF assms(1)] assms(2)
  by (simp add: HandleCreateComponent_def DynamicCall_too_many)

text \<open>Asking a factory for a class it does not know leaves its mutex locked: from then on no
  component with this list of argument types can be created by message, registered or asked for
  on any thread, each such call blocks for ever.\<close>

theorem Factory_unknown_class_blocks:
  assumes "\<not> cf_locked (fs (map argtype_of args))" and "length args \<le> 3"
    and "sm_find (cf_map (fs (map argtype_of args))) (cc_class_name proto) = None"
    and "cc_params proto = map param_of args"
    and "map argtype_of args' = map argtype_of args" and "cc_params proto' = map param_of args'"
  shows "\<exists>fs1. HandleCreateComponent proto (w, fs) = Some (None, w, fs1) \<and>
    HandleCreateComponent proto' (w', fs1) = None \<and>
    CreateComponentWithSn className creator iType sn all args' fs1 = None"
proof -
  have len: "length args' \<le> 3" using assms(2,5) by (metis length_map)
  show ?thesis
    using assms len
    by (simp add: HandleCreateComponent_def MaxDynamicCall_def DynamicCall_args AddComponentByName_def
        Factory_Create_unknown Factory_Create_def CreateComponentWithSn_def IsRegisted_def)
qed

section \<open>Instances\<close>

definition sample_creator :: FactoryFunction where
  "sample_creator = RegistToFactory_CreateComponent \<lparr>cls_hash = 5, cls_isEntity = True, cls_isSingle = False\<rparr> (\<lambda>args p h. h)"

definition sample_factories :: factories where
  "sample_factories = (\<lambda>key. ComponentFactory_new)"

lemma sample_free [simp]: "\<not> cf_locked (sample_factories key)" "sm_find (cf_map (sample_factories key)) c = None"
  by (simp_all add: sample_factories_def ComponentFactory_new_def)


theorem CreateComponent_four_args_fail_witness:
  "\<exists>proto. cc_params proto = map param_of [AInt 1, AInt 2, AInt 3, AInt 4] \<and>
    HandleCreateComponent proto (sample_world, sample_factories) = Some (None, sample_world, sample_factories)"
proof -
  let ?args = "[AInt 1, AInt 2, AInt 3, AInt 4]"
  obtain proto fs1 where c: "CreateComponentWithSn ''World'' sample_creator 4 77 False ?args sample_factories = Some (proto, fs1)"
    using CreateComponentWithSn_free [where fs = sample_factories and args = ?args] by fastforce
  have "HandleCreateComponent proto (sample_world, sample_factories) = Some (None, sample_world, sample_factories)"
    using CreateComponent_four_args_fail [OF c] by (simp add: MaxDynamicCall_def)
  with CreateComponentWithSn_proto [OF c] show ?thesis by blast
qed

theorem Factory_unknown_class_blocks_witness:
  "\<exists>fs1. HandleCreateComponent \<lparr>cc_thread_type = 4, cc_class_name = ''Wrold'', cc_is_to_all_thread = False,
        cc_params = map param_of [AInt 3], cc_sn = 9\<rparr> (sample_world, sample_factories) = Some (None, sample_world, fs1) \<and>
    HandleCreateComponent \<lparr>cc_thread_type = 4, cc_class_name = ''World'', cc_is_to_all_thread = False,
        cc_params = map param_of [AInt 4], cc_sn = 9\<rparr> (sample_world, fs1) = None \<and>
    CreateComponentWithSn ''World'' sample_creator 4 77 False [AInt 4] fs1 = None"
  by (rule Factory_unknown_class_blocks [where args = "[AInt 3]"]) simp_all

end
