(* ===== verification/World_Table.thy ===== *)
theory World_Table
  imports Std_Map "HOL-Library.Monad_Syntax" "HOL-Library.List_Lexorder" "HOL-Library.Char_ord" "HOL-Library.Word"
begin

text \<open>
  \<open>libs/libresource\<close> and the string functions of \<open>libs/libserver/util_string.h\<close>: the table of
  worlds is a CSV file that is read once. \<open>None\<close> is an exception of the standard library (an
  empty line's \<open>at(0)\<close>, \<open>std::stoi\<close> without digits or out of range) or an index beyond a vector;
  nothing catches it. Coordinates are the bit patterns of floats, \<open>std::stof\<close> is an argument.
\<close>

section \<open>Strings\<close>

definition isspace :: "char \<Rightarrow> bool" where
  "isspace c = (c = CHR '' '' \<or> 9 \<le> (of_char c :: nat) \<and> (of_char c :: nat) \<le> 13)"

definition tolower :: "char \<Rightarrow> char" where
  "tolower c = (let n = (of_char c :: nat) in if 65 \<le> n \<and> n \<le> 90 then char_of (n + 32) else c)"

definition trim :: "string \<Rightarrow> string" where
  "trim s = (let it = dropWhile isspace s in rev (dropWhile isspace (rev it)))"

text \<open>\<open>s.find(c)\<close>; \<open>None\<close> is \<open>npos\<close>.\<close>

fun str_find :: "char \<Rightarrow> string \<Rightarrow> nat option" where
  "str_find c [] = None"
| "str_find c (x # s) = (if x = c then Some 0 else map_option Suc (str_find c s))"

lemma str_find_less: "str_find c s = Some i \<Longrightarrow> i < length s"
  by (induction s arbitrary: i) (auto split: if_splits)

text \<open>\<open>strutil::split\<close>: the pieces between separators, empty ones left out.\<close>

function split_from :: "string \<Rightarrow> char \<Rightarrow> string list" where
  "split_from s c =
     (case str_find c s of
        None \<Rightarrow> (if s \<noteq> [] then [s] else [])
      | Some j \<Rightarrow> (if j > 0 then take j s # split_from (drop (Suc j) s) c else split_from (drop (Suc j) s) c))"
  by pat_completeness auto
termination
  by (relation "measure (\<lambda>(s, c). length s)") (auto dest: str_find_less)

definition strutil_split :: "string \<Rightarrow> char \<Rightarrow> string list" where
  "strutil_split s c = (if s = [] then [] else split_from s c)"

text \<open>\<open>std::stoi\<close>: leading blanks, a sign, the longest run of digits.\<close>

definition isdigit :: "char \<Rightarrow> bool" where
  "isdigit c = (48 \<le> (of_char c :: nat) \<and> (of_char c :: nat) \<le> 57)"

definition digits_value :: "string \<Rightarrow> int" where
  "digits_value s = foldl (\<lambda>n c. n * 10 + (of_char c - 48)) 0 s"

definition stoi :: "string \<Rightarrow> int option" where
  "stoi s = (let s1 = dropWhile isspace s;
        neg = (s1 \<noteq> [] \<and> hd s1 = CHR ''-'');
        s2 = (if s1 \<noteq> [] \<and> (hd s1 = CHR ''-'' \<or> hd s1 = CHR ''+'') then tl s1 else s1);
        ds = takeWhile isdigit s2; n = (if neg then - digits_value ds else digits_value ds)
     in if ds = [] \<or> n < - (2 ^ 31) \<or> n \<ge> 2 ^ 31 then None else Some n)"

section \<open>\<open>class ResourceBase\<close>\<close>

text \<open>One field: a quoted one ends at the next quote, another one at the next comma. A field of
  length 0, and one without end, takes the whole rest of the line.\<close>

function ParserLine_loop :: "string \<Rightarrow> string list option" where
  "ParserLine_loop line =
     (if line = [] then None
      else let isQuoted = (hd line = CHR 0x22);
               line1 = (if isQuoted then tl line else line);
               index = str_find (if isQuoted then CHR 0x22 else CHR '','') line1
           in case index of
                None \<Rightarrow> Some [line1]
              | Some i \<Rightarrow>
                  if i > 0 then
                    (let line2 = drop (Suc i) line1
                     in if line2 = [] then Some [take i line1]
                        else map_option (Cons (take i line1)) (ParserLine_loop line2))
                  else Some [line1])"
  by pat_completeness auto
termination
  by (relation "measure length") (auto simp: Let_def split: if_splits dest: str_find_less)

declare ParserLine_loop.simps [simp del] split_from.simps [simp del]

definition ParserLine :: "string \<Rightarrow> string list option" where
  "ParserLine line = ParserLine_loop (trim line)"

type_synonym head = "(string, nat) smap"

record ResourceBase =
  rb_id :: int
  rb_props :: "string list"

definition GetString :: "head \<Rightarrow> ResourceBase \<Rightarrow> string \<Rightarrow> string option" where
  "GetString hds r name =
     (case sm_find hds name of
        None \<Rightarrow> Some ''''
      | Some i \<Rightarrow> if i < length (rb_props r) then Some (rb_props r ! i) else None)"

definition GetInt :: "head \<Rightarrow> ResourceBase \<Rightarrow> string \<Rightarrow> int option" where
  "GetInt hds r name =
     (case sm_find hds name of
        None \<Rightarrow> Some 0
      | Some i \<Rightarrow> if i < length (rb_props r) then stoi (rb_props r ! i) else None)"

definition GetBool :: "head \<Rightarrow> ResourceBase \<Rightarrow> string \<Rightarrow> bool option" where
  "GetBool hds r name =
     (case sm_find hds name of
        None \<Rightarrow> Some False
      | Some i \<Rightarrow> if i < length (rb_props r) then map_option (\<lambda>v. v = 1) (stoi (rb_props r ! i)) else None)"

section \<open>\<open>class ResourceWorld\<close>\<close>

type_synonym float32 = "32 word"

record Vector3 =
  v_X :: float32
  v_Y :: float32
  v_Z :: float32

definition Vector3_Zero :: Vector3 where
  "Vector3_Zero = \<lparr>v_X = 0, v_Y = 0, v_Z = 0\<rparr>"

text \<open>The type is cast from the number in the table, so it is that number.\<close>

abbreviation (input) RWT_Login :: int where "RWT_Login \<equiv> 1"
abbreviation (input) RWT_Roles :: int where "RWT_Roles \<equiv> 2"
abbreviation (input) RWT_Public :: int where "RWT_Public \<equiv> 3"
abbreviation (input) RWT_Dungeon :: int where "RWT_Dungeon \<equiv> 4"

record ResourceWorld = ResourceBase +
  rw_name :: string
  rw_isInit :: bool
  rw_worldType :: int
  rw_initPosition :: Vector3

definition IsType :: "ResourceWorld \<Rightarrow> int \<Rightarrow> bool" where
  "IsType r iType = (rw_worldType r = iType)"

definition ResourceWorld_Check :: "ResourceWorld \<Rightarrow> bool" where
  "ResourceWorld_Check r = True"

definition GenStruct :: "(string \<Rightarrow> float32 option) \<Rightarrow> head \<Rightarrow> ResourceBase \<Rightarrow> ResourceWorld option" where
  "GenStruct stof hds r = do {
     name \<leftarrow> GetString hds r ''name'';
     isInit \<leftarrow> GetBool hds r ''init'';
     worldType \<leftarrow> GetInt hds r ''type'';
     pos \<leftarrow> GetString hds r ''playerinitpos'';
     let params = strutil_split pos CHR '','';
     initPosition \<leftarrow> (if length params = 3 then do {
         x \<leftarrow> stof (params ! 0); y \<leftarrow> stof (params ! 1); z \<leftarrow> stof (params ! 2);
         Some \<lparr>v_X = x, v_Y = y, v_Z = z\<rparr> } else Some Vector3_Zero);
     Some (ResourceBase.extend r \<lparr>rw_name = name, rw_isInit = isInit, rw_worldType = worldType,
             rw_initPosition = initPosition\<rparr>) }"

text \<open>\<open>LoadProperty\<close>: \<open>Some None\<close> is the result \<open>false\<close>.\<close>

definition LoadProperty :: "(string \<Rightarrow> float32 option) \<Rightarrow> head \<Rightarrow> string \<Rightarrow> ResourceWorld option option" where
  "LoadProperty stof hds line = do {
     propertyList \<leftarrow> ParserLine line;
     (if length propertyList < length hds then Some None
      else do {
        let props = map trim propertyList;
        key \<leftarrow> stoi (hd props);
        r \<leftarrow> GenStruct stof hds \<lparr>rb_id = key, rb_props = props\<rparr>;
        Some (Some r) }) }"

section \<open>\<open>class ResourceManagerTemplate\<close> and \<open>class ResourceWorldMgr\<close>\<close>

record ResourceWorldMgr =
  rm_head :: head
  rm_refs :: "(int, ResourceWorld) smap"
  rm_initMapId :: int
  rm_rolesMapId :: int

definition ResourceWorldMgr_new :: ResourceWorldMgr where
  "ResourceWorldMgr_new = \<lparr>rm_head = [], rm_refs = [], rm_initMapId = 0, rm_rolesMapId = 0\<rparr>"

definition ParserHead :: "string \<Rightarrow> ResourceWorldMgr \<Rightarrow> (bool \<times> ResourceWorldMgr) option" where
  "ParserHead line m =
     (if line = [] then Some (False, m)
      else map_option (\<lambda>ps. (True, m\<lparr>rm_head := sm_insert_all (zip ps [0..<length ps]) (rm_head m)\<rparr>)) (ParserLine line))"

definition LoadReference :: "(string \<Rightarrow> float32 option) \<Rightarrow> string \<Rightarrow> ResourceWorldMgr \<Rightarrow> ResourceWorldMgr option" where
  "LoadReference stof line m =
     map_option (\<lambda>r. case r of
         Some pT \<Rightarrow> if ResourceWorld_Check pT then m\<lparr>rm_refs := sm_insert (rb_id pT) pT (rm_refs m)\<rparr> else m
       | None \<Rightarrow> m) (LoadProperty stof (rm_head m) line)"

definition GetResource :: "ResourceWorldMgr \<Rightarrow> int \<Rightarrow> ResourceWorld option" where
  "GetResource m key = sm_find (rm_refs m) key"

fun AfterInit_loop :: "(int, ResourceWorld) smap \<Rightarrow> ResourceWorldMgr \<Rightarrow> ResourceWorldMgr" where
  "AfterInit_loop [] m = m"
| "AfterInit_loop ((_, pRef) # iter) m =
     (let m1 = (if rw_isInit pRef then m\<lparr>rm_initMapId := rb_id pRef\<rparr> else m);
          m2 = (if IsType pRef RWT_Roles then m1\<lparr>rm_rolesMapId := rb_id pRef\<rparr> else m1)
      in AfterInit_loop iter m2)"

definition AfterInit :: "ResourceWorldMgr \<Rightarrow> ResourceWorldMgr" where
  "AfterInit m = AfterInit_loop (rm_refs m) m"

definition GetInitMap :: "ResourceWorldMgr \<Rightarrow> ResourceWorld option" where
  "GetInitMap m = (if rm_initMapId m > 0 then GetResource m (rm_initMapId m) else None)"

definition GetRolesMap :: "ResourceWorldMgr \<Rightarrow> ResourceWorld option" where
  "GetRolesMap m = (if rm_rolesMapId m > 0 then GetResource m (rm_rolesMapId m) else None)"

text \<open>\<open>Initialize\<close> on the lines of the file (\<open>std::getline\<close>), the first of which is the head.\<close>

fun load_lines :: "(string \<Rightarrow> float32 option) \<Rightarrow> string list \<Rightarrow> ResourceWorldMgr \<Rightarrow> ResourceWorldMgr option" where
  "load_lines stof [] m = Some m"
| "load_lines stof (line # lines) m =
     (if line = [] then load_lines stof lines m
      else Option.bind (LoadReference stof (map tolower line) m) (load_lines stof lines))"

definition Initialize :: "(string \<Rightarrow> float32 option) \<Rightarrow> string list \<Rightarrow> ResourceWorldMgr \<Rightarrow> (bool \<times> ResourceWorldMgr) option" where
  "Initialize stof file m =
     (let line = map tolower (case file of [] \<Rightarrow> [] | l # _ \<Rightarrow> l) in do {
        (ok, m1) \<leftarrow> ParserHead line m;
        (if \<not> ok then Some (False, m1)
         else do { m2 \<leftarrow> load_lines stof (tl file) m1; Some (True, AfterInit m2) }) })"

section \<open>Facts\<close>

lemma str_find_append:
  "c \<notin> set f \<Longrightarrow> str_find c (f @ c # s) = Some (length f)"
  by (induction f) auto

lemma str_find_none: "c \<notin> set f \<Longrightarrow> str_find c f = None"
  by (induction f) auto

text \<open>A field that a table can hold as it is: not empty, no comma, no quote in front.\<close>

definition plain :: "string \<Rightarrow> bool" where
  "plain f = (f \<noteq> [] \<and> CHR '','' \<notin> set f \<and> hd f \<noteq> CHR 0x22)"

fun join :: "string list \<Rightarrow> string" where
  "join [] = []"
| "join [f] = f"
| "join (f # fs) = f @ CHR '','' # join fs"

lemma join_not_empty: "\<forall>f\<in>set fs. plain f \<Longrightarrow> fs \<noteq> [] \<Longrightarrow> join fs \<noteq> []"
  by (cases fs rule: join.cases) (auto simp: plain_def)

lemma hd_join: "\<forall>f\<in>set fs. plain f \<Longrightarrow> fs \<noteq> [] \<Longrightarrow> hd (join fs) = hd (hd fs)"
  by (cases fs rule: join.cases) (auto simp: plain_def)

lemma ParserLine_loop_plain_last:
  assumes "plain f" shows "ParserLine_loop f = Some [f]"
  using assms by (subst ParserLine_loop.simps) (simp add: plain_def str_find_none)

lemma ParserLine_loop_plain:
  assumes "plain f" "s \<noteq> []"
  shows "ParserLine_loop (f @ CHR '','' # s) = map_option (Cons f) (ParserLine_loop s)"
  using assms by (subst ParserLine_loop.simps) (simp add: plain_def str_find_append)

lemma ParserLine_loop_join:
  "\<forall>f\<in>set fs. plain f \<Longrightarrow> fs \<noteq> [] \<Longrightarrow> ParserLine_loop (join fs) = Some fs"
proof (induction fs rule: join.induct)
  case (3 f g gs)
  then have "join (g # gs) \<noteq> []" by (intro join_not_empty) auto
  with 3 show ?case by (simp add: ParserLine_loop_plain)
qed (simp_all add: ParserLine_loop_plain_last)

lemma trim_id: "s \<noteq> [] \<Longrightarrow> \<not> isspace (hd s) \<Longrightarrow> \<not> isspace (last s) \<Longrightarrow> trim s = s"
proof -
  assume a: "s \<noteq> []" "\<not> isspace (hd s)" "\<not> isspace (last s)"
  then have "dropWhile isspace s = s" by (cases s) auto
  moreover have "dropWhile isspace (rev s) = rev s" using a by (cases "rev s") (auto simp: hd_rev [symmetric])
  ultimately show ?thesis by (simp add: trim_def)
qed

text \<open>Writing plain fields with commas and reading the line back; blanks may only surround the
  line when the first and the last field do not begin or end with one.\<close>

theorem ParserLine_join:
  assumes "fs \<noteq> []" and "\<forall>f\<in>set fs. plain f"
    and "\<not> isspace (hd (join fs))" and "\<not> isspace (last (join fs))"
  shows "ParserLine (join fs) = Some fs"
  using assms by (simp add: ParserLine_def trim_id join_not_empty ParserLine_loop_join)

text \<open>A quoted field that is not the last one swallows what follows it: the comma after the closing
  quote has position 0 and ends the loop.\<close>

theorem ParserLine_quoted_swallows:
  assumes "CHR 0x22 \<notin> set f" and "f \<noteq> []"
  shows "ParserLine_loop ((CHR 0x22 # f @ [CHR 0x22]) @ CHR '','' # s) = Some [f, CHR '','' # s]"
  using assms by (subst ParserLine_loop.simps) (simp add: str_find_append, subst ParserLine_loop.simps, simp)

lemma sm_wf_LoadReference:
  assumes "sm_wf (rm_refs m)" "LoadReference stof line m = Some m'"
  shows "sm_wf (rm_refs m') \<and> rm_head m' = rm_head m"
  using assms by (auto simp: LoadReference_def split: option.splits if_splits)

lemma load_lines_wf:
  "sm_wf (rm_refs m) \<Longrightarrow> load_lines stof ls m = Some m' \<Longrightarrow> sm_wf (rm_refs m') \<and> rm_head m' = rm_head m"
proof (induction ls arbitrary: m)
  case (Cons l ls)
  then show ?case by (auto split: if_splits bind_splits dest: sm_wf_LoadReference)
qed simp

lemma AfterInit_refs [simp]: "rm_refs (AfterInit m) = rm_refs m"
proof -
  have "rm_refs (AfterInit_loop iter m) = rm_refs m" for iter
    by (induction iter m rule: AfterInit_loop.induct) (simp_all add: Let_def)
  then show ?thesis by (simp add: AfterInit_def)
qed

section \<open>An instance\<close>

definition sample_world_row :: "int \<Rightarrow> int \<Rightarrow> ResourceWorld" where
  "sample_world_row i t = \<lparr>rb_id = i, rb_props = [], rw_name = ''w'', rw_isInit = False, rw_worldType = t, rw_initPosition = Vector3_Zero\<rparr>"

definition sample_table :: ResourceWorldMgr where
  "sample_table = \<lparr>rm_head = [], rm_refs = [(1, sample_world_row 1 2), (3, sample_world_row 3 3), (5, sample_world_row 5 4)],
     rm_initMapId = 3, rm_rolesMapId = 1\<rparr>"

lemma sample_table_find [simp]:
  "GetResource sample_table 3 = Some (sample_world_row 3 3)" "GetResource sample_table 5 = Some (sample_world_row 5 4)"
  "GetResource sample_table 1 = Some (sample_world_row 1 2)"
  by (simp_all add: GetResource_def sample_table_def)

lemma sample_world_row_type [simp]: "IsType (sample_world_row i t) u = (t = u)"
  by (simp add: IsType_def sample_world_row_def)

end
