(* ===== verification/App_Messages.thy ===== *)
theory App_Messages
  imports Network_Locator World_Table
begin

text \<open>
  The messages the server processes exchange (\<open>protobuf/msg.proto\<close>, \<open>db.proto\<close>,
  \<open>proto_id.proto\<close>) as values, and the calls of \<open>MessageSystemHelp\<close> a handler makes, in order:
  each handler of a component returns its new state and the list of its \<open>send\<close>s.
  \<open>perform\<close> carries such a call out on the process's \<open>NetworkLocator\<close>.
\<close>

section \<open>Message identifiers\<close>

abbreviation (input) MI_AppInfoSync :: int where "MI_AppInfoSync \<equiv> 103"
abbreviation (input) MI_AppInfoListSync :: int where "MI_AppInfoListSync \<equiv> 104"
abbreviation (input) C2L_AccountCheckRs :: int where "C2L_AccountCheckRs \<equiv> 1001"
abbreviation (input) MI_AccountQueryOnlineToRedis :: int where "MI_AccountQueryOnlineToRedis \<equiv> 1002"
abbreviation (input) MI_AccountQueryOnlineToRedisRs :: int where "MI_AccountQueryOnlineToRedisRs \<equiv> 1003"
abbreviation (input) L2DB_QueryPlayerList :: int where "L2DB_QueryPlayerList \<equiv> 1010"
abbreviation (input) L2DB_QueryPlayerListRs :: int where "L2DB_QueryPlayerListRs \<equiv> 1011"
abbreviation (input) L2C_PlayerList :: int where "L2C_PlayerList \<equiv> 1012"
abbreviation (input) C2L_CreatePlayerRs :: int where "C2L_CreatePlayerRs \<equiv> 1015"
abbreviation (input) L2DB_CreatePlayer :: int where "L2DB_CreatePlayer \<equiv> 1016"
abbreviation (input) L2DB_CreatePlayerRs :: int where "L2DB_CreatePlayerRs \<equiv> 1017"
abbreviation (input) C2L_SelectPlayerRs :: int where "C2L_SelectPlayerRs \<equiv> 1019"
abbreviation (input) MI_LoginTokenToRedis :: int where "MI_LoginTokenToRedis \<equiv> 1022"
abbreviation (input) MI_LoginTokenToRedisRs :: int where "MI_LoginTokenToRedisRs \<equiv> 1023"
abbreviation (input) L2C_GameToken :: int where "L2C_GameToken \<equiv> 1024"
abbreviation (input) C2G_LoginByTokenRs :: int where "C2G_LoginByTokenRs \<equiv> 1101"
abbreviation (input) MI_GameTokenToRedis :: int where "MI_GameTokenToRedis \<equiv> 1102"
abbreviation (input) MI_GameTokenToRedisRs :: int where "MI_GameTokenToRedisRs \<equiv> 1103"
abbreviation (input) G2DB_QueryPlayer :: int where "G2DB_QueryPlayer \<equiv> 1104"
abbreviation (input) G2DB_QueryPlayerRs :: int where "G2DB_QueryPlayerRs \<equiv> 1105"
abbreviation (input) G2C_SyncPlayer :: int where "G2C_SyncPlayer \<equiv> 1106"
abbreviation (input) G2M_RequestWorld :: int where "G2M_RequestWorld \<equiv> 1108"
abbreviation (input) G2S_CreateWorld :: int where "G2S_CreateWorld \<equiv> 1109"
abbreviation (input) MI_Teleport :: int where "MI_Teleport \<equiv> 1110"
abbreviation (input) MI_TeleportAfter :: int where "MI_TeleportAfter \<equiv> 1111"
abbreviation (input) G2S_SyncPlayer :: int where "G2S_SyncPlayer \<equiv> 1112"
abbreviation (input) G2S_RequestSyncPlayer :: int where "G2S_RequestSyncPlayer \<equiv> 1113"
abbreviation (input) G2DB_SavePlayer :: int where "G2DB_SavePlayer \<equiv> 1114"
abbreviation (input) G2S_RemovePlayer :: int where "G2S_RemovePlayer \<equiv> 1115"
abbreviation (input) G2M_QueryWorld :: int where "G2M_QueryWorld \<equiv> 1117"
abbreviation (input) G2M_QueryWorldRs :: int where "G2M_QueryWorldRs \<equiv> 1118"
abbreviation (input) S2C_EnterWorld :: int where "S2C_EnterWorld \<equiv> 1501"
abbreviation (input) S2G_SyncPlayer :: int where "S2G_SyncPlayer \<equiv> 1502"
abbreviation (input) S2C_RoleAppear :: int where "S2C_RoleAppear \<equiv> 1503"
abbreviation (input) S2C_RoleDisAppear :: int where "S2C_RoleDisAppear \<equiv> 1504"
abbreviation (input) S2C_Move :: int where "S2C_Move \<equiv> 1506"
abbreviation (input) MI_BroadcastCreateWorld :: int where "MI_BroadcastCreateWorld \<equiv> 2001"
abbreviation (input) MI_BroadcastCreateWorldProxy :: int where "MI_BroadcastCreateWorldProxy \<equiv> 2002"
abbreviation (input) MI_WorldSyncToGather :: int where "MI_WorldSyncToGather \<equiv> 3001"
abbreviation (input) MI_WorldProxySyncToGather :: int where "MI_WorldProxySyncToGather \<equiv> 3002"
abbreviation (input) MI_AccountSyncOnlineToRedis :: int where "MI_AccountSyncOnlineToRedis \<equiv> 4001"
abbreviation (input) MI_AccountDeleteOnlineToRedis :: int where "MI_AccountDeleteOnlineToRedis \<equiv> 4002"
abbreviation (input) MI_PlayerSyncOnlineToRedis :: int where "MI_PlayerSyncOnlineToRedis \<equiv> 4003"
abbreviation (input) MI_PlayerDeleteOnlineToRedis :: int where "MI_PlayerDeleteOnlineToRedis \<equiv> 4004"

section \<open>Stored data (\<open>db.proto\<close>)\<close>

text \<open>An absent field of \<open>proto3\<close> reads as its default, so a record holds every field.\<close>

record LastWorld =
  lw_WorldId :: int
  lw_WorldSn :: u64
  lw_Position :: Vector3

record PlayerBase =
  pb_gender :: int
  pb_level :: int

record PlayerMisc =
  pm_last_world :: LastWorld
  pm_last_dungeon :: LastWorld
  pm_online_version :: int

record Player_proto =
  pp_sn :: u64
  pp_name :: string
  pp_base :: PlayerBase
  pp_misc :: PlayerMisc

definition LastWorld_default :: LastWorld where
  "LastWorld_default = \<lparr>lw_WorldId = 0, lw_WorldSn = 0, lw_Position = Vector3_Zero\<rparr>"

definition Player_default :: Player_proto where
  "Player_default = \<lparr>pp_sn = 0, pp_name = '''', pp_base = \<lparr>pb_gender = 0, pb_level = 0\<rparr>,
     pp_misc = \<lparr>pm_last_world = LastWorld_default, pm_last_dungeon = LastWorld_default, pm_online_version = 0\<rparr>\<rparr>"

record PlayerLittle =
  pl_sn :: u64
  pl_name :: string
  pl_gender :: int
  pl_level :: int
  pl_last_world :: LastWorld
  pl_last_dungeon :: LastWorld

record Role =
  role_name :: string
  role_sn :: u64
  role_gender :: int
  role_position :: Vector3

section \<open>Messages (\<open>msg.proto\<close>)\<close>

record AppInfoSync =
  ais_app_id :: int
  ais_app_type :: app_type
  ais_online :: int

abbreviation (input) ARC_OK :: int where "ARC_OK \<equiv> 0"
abbreviation (input) ARC_UNKONWN :: int where "ARC_UNKONWN \<equiv> 1"
abbreviation (input) ARC_NOT_FOUND_ACCOUNT :: int where "ARC_NOT_FOUND_ACCOUNT \<equiv> 2"
abbreviation (input) ARC_PASSWORD_WRONG :: int where "ARC_PASSWORD_WRONG \<equiv> 3"
abbreviation (input) ARC_LOGGING :: int where "ARC_LOGGING \<equiv> 4"
abbreviation (input) ARC_TIMEOUT :: int where "ARC_TIMEOUT \<equiv> 5"
abbreviation (input) ARC_ONLINE :: int where "ARC_ONLINE \<equiv> 6"

text \<open>The fields are in the order of the message's declaration; return codes are numbers.\<close>

datatype app_msg =
    P_None
  | P_AppInfoSync AppInfoSync
  | P_AppInfoListSync "AppInfoSync list"
  | P_AccountCheckRs int
  | P_AccountQueryOnlineToRedis string
  | P_AccountQueryOnlineToRedisRs string int
  | P_QueryPlayerList string
  | P_PlayerList string "PlayerLittle list"
  | P_CreatePlayerRs int
  | P_CreatePlayerToDB string Player_proto
  | P_CreatePlayerToDBRs string int
  | P_SelectPlayerRs int
  | P_LoginTokenToRedis string u64
  | P_LoginTokenToRedisRs string string
  | P_GameToken int string string int
  | P_LoginByTokenRs int
  | P_GameTokenToRedis string
  | P_GameTokenToRedisRs string string u64
  | P_QueryPlayer u64
  | P_QueryPlayerRs string Player_proto
  | P_SyncPlayer string Player_proto
  | P_SavePlayer u64 Player_proto
  | P_RequestWorld int
  | P_CreateWorld int u64 int
  | P_BroadcastCreateWorld int u64 u64
  | P_BroadcastCreateWorldProxy int u64
  | P_QueryWorld u64 u64
  | P_QueryWorldRs u64 int
  | P_Teleport u64 u64 string Player_proto
  | P_TeleportAfter u64
  | P_RemovePlayer u64
  | P_RequestSyncPlayer u64
  | P_EnterWorld int Vector3
  | P_RoleAppear "Role list"
  | P_RoleDisAppear u64
  | P_Move u64 "Vector3 list"
  | P_WorldSyncToGather u64 int int
  | P_WorldProxySyncToGather u64 bool int int
  | P_AccountSyncOnlineToRedis string
  | P_AccountDeleteOnlineToRedis string
  | P_PlayerSyncOnlineToRedis string int
  | P_PlayerDeleteOnlineToRedis string int

section \<open>Calls of \<open>MessageSystemHelp\<close>\<close>

datatype send =
    Dispatch int app_msg "NetIdentify option"
  | ToIdentify int app_msg NetIdentify
  | ToApp int app_msg app_type int
  | ToAppTags int app_msg TagKey app_type int
  | PacketToApp out_packet app_type int
  | ToAllApp int app_msg app_type
  | Packet out_packet
  | Connect_to NetworkConnect
  | HttpResponse NetIdentify string
  | HttpRequest NetIdentify string int string "(string, string) smap"

text \<open>Numbers as \<open>operator<<\<close> prints them.\<close>

fun show_nat :: "nat \<Rightarrow> string" where
  "show_nat n = (if n < 10 then [char_of (48 + n)] else show_nat (n div 10) @ [char_of (48 + n mod 10)])"

declare show_nat.simps [simp del]

definition show_int :: "int \<Rightarrow> string" where
  "show_int i = (if i < 0 then CHR ''-'' # show_nat (nat (- i)) else show_nat (nat i))"

definition crlf :: string where
  "crlf = [char_of (13 :: nat), char_of (10 :: nat)]"

definition bytes_of :: "string \<Rightarrow> byte list" where
  "bytes_of s = map of_char s"

text \<open>\<open>status_message\<close> is \<open>mg_status_message\<close>; without a listening HTTP network nothing is sent.\<close>

definition http_response_text :: "(int \<Rightarrow> string) \<Rightarrow> int \<Rightarrow> string \<Rightarrow> string" where
  "http_response_text status_message status_code content =
     ''HTTP/1.1 '' @ show_int status_code @ '' '' @ status_message status_code @ crlf @
     ''Connection: close'' @ crlf @
     ''Content-Type: application/json; charset=utf-8'' @ crlf @
     ''Content-Length:'' @ show_nat (length content) @ crlf @ crlf @ content"

definition SendHttpResponseBase :: "(int \<Rightarrow> string) \<Rightarrow> NetworkLocator \<Rightarrow> NetIdentify \<Rightarrow> int \<Rightarrow> string \<Rightarrow> effect list" where
  "SendHttpResponseBase status_message loc pIdentify status_code content =
     (case GetNetwork HttpListen loc of
        None \<Rightarrow> []
      | Some pNetwork \<Rightarrow>
          [ENetwork pNetwork (CreatePacket MI_HttpInnerResponse (Some pIdentify)
             (bytes_of (http_response_text status_message status_code content)))])"

definition SendHttpResponse404 :: "(int \<Rightarrow> string) \<Rightarrow> NetworkLocator \<Rightarrow> NetIdentify \<Rightarrow> effect list" where
  "SendHttpResponse404 status_message loc pIdentify = SendHttpResponseBase status_message loc pIdentify 404 ''''"

definition SendHttpResponse :: "(int \<Rightarrow> string) \<Rightarrow> NetworkLocator \<Rightarrow> NetIdentify \<Rightarrow> string \<Rightarrow> effect list" where
  "SendHttpResponse status_message loc pIdentify content = SendHttpResponseBase status_message loc pIdentify 200 content"

definition http_request_text :: "string \<Rightarrow> int \<Rightarrow> string \<Rightarrow> (string, string) smap option \<Rightarrow> string" where
  "http_request_text ip port method params =
     ''GET '' @ method @
     (case params of None \<Rightarrow> ''''
      | Some ps \<Rightarrow> ''?'' @ concat (map (\<lambda>(k, v). k @ ''='' @ v @ ''&'') ps)) @
     '' HTTP/1.1'' @ crlf @ ''Host: '' @ ip @ '':'' @ show_int port @ crlf @
     ''Content-Type: application/json; charset=utf-8'' @ crlf @
     ''Accept: */*,text/*,text/html'' @ crlf @ crlf"

definition SendHttpRequest :: "NetworkLocator \<Rightarrow> NetIdentify \<Rightarrow> string \<Rightarrow> int \<Rightarrow> string
    \<Rightarrow> (string, string) smap option \<Rightarrow> effect list" where
  "SendHttpRequest loc pIdentify ip port method params =
     SendPacket loc (CreatePacket MI_HttpOuterRequest (Some pIdentify)
       (bytes_of (http_request_text ip port method params)))"

text \<open>\<open>encode\<close> is \<open>SerializeToBuffer\<close> and \<open>conn\<close> the same for a connection request.\<close>

fun perform :: "(app_msg \<Rightarrow> byte list) \<Rightarrow> (NetworkConnect \<Rightarrow> byte list) \<Rightarrow> (int \<Rightarrow> string)
    \<Rightarrow> app_type \<Rightarrow> NetworkLocator \<Rightarrow> send \<Rightarrow> effect list" where
  "perform encode conn st cur loc (Dispatch msgId m i) = DispatchPacket_msg msgId (encode m) i"
| "perform encode conn st cur loc (ToIdentify msgId m i) = SendPacket_identify loc msgId (encode m) (Some i)"
| "perform encode conn st cur loc (ToApp msgId m t i) = SendPacket_app cur loc msgId (encode m) t i"
| "perform encode conn st cur loc (ToAppTags msgId m tags t i) = SendPacket_tags_app cur loc msgId (encode m) tags t i"
| "perform encode conn st cur loc (PacketToApp p t i) = SendPacket_packet_app cur loc p t i"
| "perform encode conn st cur loc (ToAllApp msgId m t) = SendPacketToAllApp cur loc msgId (encode m) t"
| "perform encode conn st cur loc (Packet p) = SendPacket loc p"
| "perform encode conn st cur loc (Connect_to c) = DispatchPacket_msg MI_NetworkConnect (conn c) None"
| "perform encode conn st cur loc (HttpResponse i content) = SendHttpResponse st loc i content"
| "perform encode conn st cur loc (HttpRequest i ip port method params) = SendHttpRequest loc i ip port method (Some params)"

end
