(* ===== verification/Sync_Apps.thy ===== *)
theory Sync_Apps
  imports App_Messages
begin

text \<open>
  \<open>libs/libserver/sync_component.{h,cpp}\<close>, \<open>apps/game/space_sync_handler.cpp\<close>,
  \<open>apps/appmgr/app_sync_component.cpp\<close> and \<open>apps/appmgr/create_world_component.cpp\<close>: the load of
  the processes, and the manager that has every public world created once. \<open>endpoint\<close> is
  \<open>Yaml::GetIPEndPoint\<close>, \<open>worlds\<close> the table of worlds; \<open>None\<close> is a null pointer.
\<close>

section \<open>\<open>class SyncComponent\<close>\<close>

record AppInfo =
  ai_AppType :: app_type
  ai_AppId :: int
  ai_Ip :: string
  ai_Port :: int
  ai_Online :: int
  ai_Socket :: socket

type_synonym apps = "(int, AppInfo) smap"

definition AppInfo_Parse :: "(app_type \<Rightarrow> int \<Rightarrow> (string \<times> int) option) \<Rightarrow> AppInfoSync \<Rightarrow> AppInfo option" where
  "AppInfo_Parse endpoint proto =
     map_option (\<lambda>(ip, port). \<lparr>ai_AppType = ais_app_type proto, ai_AppId = ais_app_id proto, ai_Ip = ip,
         ai_Port = port, ai_Online = ais_online proto, ai_Socket = 0\<rparr>)
       (endpoint (ais_app_type proto) (ais_app_id proto))"

definition Sync_Parse :: "(app_type \<Rightarrow> int \<Rightarrow> (string \<times> int) option) \<Rightarrow> AppInfoSync \<Rightarrow> socket \<Rightarrow> apps \<Rightarrow> apps" where
  "Sync_Parse endpoint proto socket apps =
     (case sm_find apps (ais_app_id proto) of
        None \<Rightarrow> (case AppInfo_Parse endpoint proto of
                   Some syncAppInfo \<Rightarrow> sm_assign (ai_AppId syncAppInfo) (syncAppInfo\<lparr>ai_Socket := socket\<rparr>) apps
                 | None \<Rightarrow> apps)
      | Some info \<Rightarrow> sm_assign (ais_app_id proto) (info\<lparr>ai_Online := ais_online proto, ai_Socket := socket\<rparr>) apps)"

definition Sync_HandleNetworkDisconnect :: "socket \<Rightarrow> apps \<Rightarrow> apps" where
  "Sync_HandleNetworkDisconnect socket apps =
     (case find (\<lambda>(k, i). ai_Socket i = socket) apps of
        None \<Rightarrow> apps
      | Some (k, i) \<Rightarrow> sm_erase k apps)"

definition AppInfoSyncHandle :: "(app_type \<Rightarrow> int \<Rightarrow> (string \<times> int) option) \<Rightarrow> NetIdentify \<Rightarrow> AppInfoSync \<Rightarrow> apps \<Rightarrow> apps" where
  "AppInfoSyncHandle endpoint pPacket proto apps = Sync_Parse endpoint proto (sk_Socket (ni_socketKey pPacket)) apps"

text \<open>The search for the smallest number, from the first process of the type on; it ends early
  at 0.\<close>

definition of_type :: "app_type \<Rightarrow> int \<times> AppInfo \<Rightarrow> bool" where
  "of_type appType p = has_role (ai_AppType (snd p)) appType"

fun scan :: "app_type \<Rightarrow> apps \<Rightarrow> int \<Rightarrow> int \<Rightarrow> int" where
  "scan appType [] smallest appId = appId"
| "scan appType (p # iter) smallest appId =
     (if smallest = 0 then appId
      else if \<not> of_type appType p then scan appType iter smallest appId
      else if ai_Online (snd p) < smallest then scan appType iter (ai_Online (snd p)) (fst p)
      else scan appType iter smallest appId)"

definition apps_at :: "int \<Rightarrow> apps \<Rightarrow> AppInfo" where
  "apps_at appId apps = (case sm_find apps appId of
     Some i \<Rightarrow> i
   | None \<Rightarrow> \<lparr>ai_AppType = 0, ai_AppId = 0, ai_Ip = '''', ai_Port = 0, ai_Online = 0, ai_Socket = 0\<rparr>)"

definition take_app :: "int \<Rightarrow> apps \<Rightarrow> AppInfo \<times> apps" where
  "take_app appId apps =
     (let info = (apps_at appId apps)\<lparr>ai_Online := ai_Online (apps_at appId apps) + 1\<rparr>
      in (info, sm_assign appId info apps))"

definition GetOneApp :: "app_type \<Rightarrow> apps \<Rightarrow> (AppInfo \<times> apps) option" where
  "GetOneApp appType apps =
     (if apps = [] then None
      else case dropWhile (\<lambda>p. \<not> of_type appType p) apps of
             [] \<Rightarrow> None
           | p # iter \<Rightarrow> Some (take_app (scan appType (p # iter) (ai_Online (snd p)) (fst p)) apps))"

text \<open>\<open>SpaceSyncHandler\<close>, the game processes' view of the space processes.\<close>

definition GetSpaceApp :: "apps \<Rightarrow> (AppInfo \<times> apps) option" where
  "GetSpaceApp apps = GetOneApp APP_SPACE apps"

section \<open>\<open>class AppSyncComponent\<close>\<close>

text \<open>\<open>json\<close> writes the response object with the fields \<open>returncode\<close>, \<open>ip\<close> and \<open>port\<close>.\<close>

definition SyncGameInfoToLogin :: "apps \<Rightarrow> send list" where
  "SyncGameInfoToLogin apps =
     (let proto = map (\<lambda>(k, info). \<lparr>ais_app_id = ai_AppId info, ais_app_type = ai_AppType info, ais_online = ai_Online info\<rparr>)
                    (filter (of_type APP_GAME) apps)
      in if proto \<noteq> [] then [ToAllApp MI_AppInfoListSync (P_AppInfoListSync proto) APP_LOGIN] else [])"

definition HandleHttpRequestLogin :: "(int \<Rightarrow> string \<Rightarrow> int \<Rightarrow> string) \<Rightarrow> NetIdentify \<Rightarrow> apps \<Rightarrow> apps \<times> send list" where
  "HandleHttpRequestLogin json pPacket apps =
     (case GetOneApp APP_LOGIN apps of
        None \<Rightarrow> (apps, [HttpResponse pPacket (json 2 '''' 0)])
      | Some (info, apps1) \<Rightarrow> (apps1, [HttpResponse pPacket (json 0 (ai_Ip info) (ai_Port info))]))"

definition AppSync_HandleNetworkDisconnect :: "NetIdentify \<Rightarrow> apps \<Rightarrow> apps \<times> send list" where
  "AppSync_HandleNetworkDisconnect pPacket apps =
     (if \<not> IsTcp (sk_NetType (ni_socketKey pPacket)) then (apps, [])
      else let apps1 = Sync_HandleNetworkDisconnect (sk_Socket (ni_socketKey pPacket)) apps
           in (apps1, SyncGameInfoToLogin apps1))"

section \<open>\<open>class CreateWorldComponent\<close>\<close>

record CreateWorldComponent =
  cw_apps :: apps
  cw_creating :: "(int, int) smap"
  cw_created :: "(int, u64) smap"
  cw_dungeons :: "(u64, int) smap"

definition CreateWorldComponent_new :: CreateWorldComponent where
  "CreateWorldComponent_new = \<lparr>cw_apps = [], cw_creating = [], cw_created = [], cw_dungeons = []\<rparr>"

definition CreateWorld_BackToPool :: "CreateWorldComponent \<Rightarrow> CreateWorldComponent" where
  "CreateWorld_BackToPool s = s\<lparr>cw_creating := [], cw_created := []\<rparr>"

definition CreateWorld_HandleAppInfoSync :: "(app_type \<Rightarrow> int \<Rightarrow> (string \<times> int) option) \<Rightarrow> NetIdentify \<Rightarrow> AppInfoSync
    \<Rightarrow> CreateWorldComponent \<Rightarrow> CreateWorldComponent" where
  "CreateWorld_HandleAppInfoSync endpoint pPacket proto s = s\<lparr>cw_apps := AppInfoSyncHandle endpoint pPacket proto (cw_apps s)\<rparr>"

definition ReqCreateWorld :: "int \<Rightarrow> CreateWorldComponent \<Rightarrow> int \<times> CreateWorldComponent \<times> send list" where
  "ReqCreateWorld worldId s =
     (case GetOneApp APP_SPACE (cw_apps s) of
        None \<Rightarrow> (INVALID_ID, s, [])
      | Some (appInfo, apps1) \<Rightarrow>
          (ai_AppId appInfo, s\<lparr>cw_apps := apps1\<rparr>, [ToApp G2S_CreateWorld (P_CreateWorld worldId 0 0) APP_SPACE (ai_AppId appInfo)]))"

definition HandleRequestWorld :: "ResourceWorldMgr \<Rightarrow> NetIdentify \<Rightarrow> int \<Rightarrow> CreateWorldComponent
    \<Rightarrow> CreateWorldComponent \<times> send list" where
  "HandleRequestWorld worlds pPacket worldId s =
     (case GetResource worlds worldId of
        None \<Rightarrow> (s, [])
      | Some mapConfig \<Rightarrow>
          if \<not> IsType mapConfig RWT_Public then (s, [])
          else if sm_find (cw_creating s) worldId \<noteq> None then (s, [])
          else (case sm_find (cw_created s) worldId of
              Some sn \<Rightarrow> (s, [ToIdentify MI_BroadcastCreateWorld (P_BroadcastCreateWorld worldId sn 0) pPacket])
            | None \<Rightarrow>
                (let (appId, s1, es) = ReqCreateWorld worldId s
                 in (if appId \<noteq> INVALID_ID then s1\<lparr>cw_creating := sm_assign worldId appId (cw_creating s1)\<rparr> else s1, es))))"

definition HandleQueryWorld :: "NetIdentify \<Rightarrow> u64 \<Rightarrow> u64 \<Rightarrow> CreateWorldComponent \<Rightarrow> send list" where
  "HandleQueryWorld pPacket worldSn lastWorldSn s =
     (case sm_find (cw_dungeons s) worldSn of
        None \<Rightarrow> [ToIdentify G2M_QueryWorldRs (P_QueryWorldRs worldSn 1) pPacket]
      | Some worldId \<Rightarrow> [ToIdentify MI_BroadcastCreateWorld (P_BroadcastCreateWorld worldId worldSn lastWorldSn) pPacket])"

definition CreateWorld_HandleBroadcastCreateWorld :: "ResourceWorldMgr \<Rightarrow> int \<Rightarrow> u64 \<Rightarrow> CreateWorldComponent
    \<Rightarrow> CreateWorldComponent option" where
  "CreateWorld_HandleBroadcastCreateWorld worlds worldId worldSn s =
     (case GetResource worlds worldId of
        None \<Rightarrow> None
      | Some pWorldRes \<Rightarrow> Some
          (if IsType pWorldRes RWT_Public
           then s\<lparr>cw_created := sm_assign worldId worldSn (cw_created s), cw_creating := sm_erase worldId (cw_creating s)\<rparr>
           else s\<lparr>cw_dungeons := sm_assign worldSn worldId (cw_dungeons s)\<rparr>))"

text \<open>The three loops of \<open>HandleNetworkDisconnect\<close>: find the first entry, erase it, start over.\<close>

function recreate :: "int \<Rightarrow> CreateWorldComponent \<Rightarrow> CreateWorldComponent \<times> send list" where
  "recreate appId s =
     (case find (\<lambda>p. snd p = appId) (cw_creating s) of
        None \<Rightarrow> (s, [])
      | Some (worldId, a) \<Rightarrow>
          (let s1 = s\<lparr>cw_creating := sm_erase worldId (cw_creating s)\<rparr>;
               (_, s2, es) = ReqCreateWorld worldId s1;
               (s3, es1) = recreate appId s2
           in (s3, es @ es1)))"
  by pat_completeness auto

function erase_where :: "('k \<times> 'v \<Rightarrow> bool) \<Rightarrow> ('k, 'v) smap \<Rightarrow> ('k, 'v) smap" where
  "erase_where P m =
     (case find P m of None \<Rightarrow> m | Some (k, v) \<Rightarrow> erase_where P (sm_erase k m))"
  by pat_completeness auto

lemma ReqCreateWorld_frame:
  "ReqCreateWorld worldId s = (appId, s1, es) \<Longrightarrow>
   cw_creating s1 = cw_creating s \<and> cw_created s1 = cw_created s \<and> cw_dungeons s1 = cw_dungeons s"
  by (auto simp: ReqCreateWorld_def split: option.splits)

lemma length_sm_erase_less: "find P m = Some (k, v) \<Longrightarrow> length (sm_erase k m) < length m"
  unfolding sm_erase_def by (rule length_filter_less [of "(k, v)"]) (auto dest: find_Some_set)

termination recreate
  by (relation "measure (\<lambda>(a, s). length (cw_creating s))")
     (auto dest!: ReqCreateWorld_frame [OF sym] length_sm_erase_less)

termination erase_where
  by (relation "measure (\<lambda>(P, m). length m)") (auto dest: length_sm_erase_less)

declare recreate.simps [simp del] erase_where.simps [simp del]

definition CreateWorld_HandleNetworkDisconnect :: "NetIdentify \<Rightarrow> CreateWorldComponent \<Rightarrow> CreateWorldComponent \<times> send list" where
  "CreateWorld_HandleNetworkDisconnect pPacket s =
     (if \<not> IsTcp (sk_NetType (ni_socketKey pPacket)) then (s, [])
      else let s1 = s\<lparr>cw_apps := Sync_HandleNetworkDisconnect (sk_Socket (ni_socketKey pPacket)) (cw_apps s)\<rparr>
        in case GetTagValue TagApp (ni_tagKey pPacket) of
             None \<Rightarrow> (s1, [])
           | Some pTagApp \<Rightarrow>
               (let appId = GetIdFromAppKey (KeyInt64 pTagApp);
                    (s2, es) = recreate appId s1
                in (s2\<lparr>cw_created := erase_where (\<lambda>p. GetAppIdFromSN (snd p) = appId) (cw_created s2),
                       cw_dungeons := erase_where (\<lambda>p. GetAppIdFromSN (fst p) = appId) (cw_dungeons s2)\<rparr>, es)))"

section \<open>The process with the least load\<close>

definition least_loaded :: "app_type \<Rightarrow> apps \<Rightarrow> (int \<times> AppInfo) option" where
  "least_loaded appType apps =
     (let cs = filter (of_type appType) apps
      in find (\<lambda>p. ai_Online (snd p) = Min (set (map (\<lambda>q. ai_Online (snd q)) cs))) cs)"

lemma least_exists:
  assumes "q \<in> set m" "of_type t q"
  obtains x where "x \<in> set m" "of_type t x" "\<forall>y\<in>set m. of_type t y \<longrightarrow> ai_Online (snd x) \<le> ai_Online (snd y)"
proof -
  let ?M = "(\<lambda>q. ai_Online (snd q)) ` set (filter (of_type t) m)"
  have "q \<in> set (filter (of_type t) m)" using assms by simp
  then have "Min ?M \<in> ?M" by (metis Min_in List.finite_set finite_imageI image_is_empty empty_iff)
  then obtain x where x: "Min ?M = ai_Online (snd x)" "x \<in> set (filter (of_type t) m)" by (rule imageE)
  have "ai_Online (snd x) \<le> ai_Online (snd y)" if "y \<in> set m" "of_type t y" for y
    unfolding x(1) [symmetric] using that by (intro Min_le) auto
  moreover have "x \<in> set m" "of_type t x" using x(2) by simp_all
  ultimately show ?thesis using that [of x] by blast
qed

lemma scan_first:
  assumes "\<forall>p\<in>set m. 0 \<le> ai_Online (snd p)" and "0 \<le> smallest"
  shows "scan t m smallest appId =
     (case find (\<lambda>p. of_type t p \<and> ai_Online (snd p) < smallest
          \<and> (\<forall>q\<in>set m. of_type t q \<longrightarrow> ai_Online (snd p) \<le> ai_Online (snd q))) m of
        None \<Rightarrow> appId | Some p \<Rightarrow> fst p)"
  using assms
proof (induction m arbitrary: smallest appId)
  case Nil
  then show ?case by simp
next
  case (Cons p m)
  let ?P = "\<lambda>n m x. of_type t x \<and> ai_Online (snd x) < n \<and> (\<forall>q\<in>set m. of_type t q \<longrightarrow> ai_Online (snd x) \<le> ai_Online (snd q))"
  have IH: "scan t m n a = (case find (?P n m) m of None \<Rightarrow> a | Some p \<Rightarrow> fst p)" if "0 \<le> n" for n a
    using Cons.IH [of n a] Cons.prems that by simp
  consider "smallest = 0" | "smallest \<noteq> 0" "\<not> of_type t p"
    | "smallest \<noteq> 0" "of_type t p" "ai_Online (snd p) < smallest" "\<exists>q\<in>set m. of_type t q \<and> ai_Online (snd q) < ai_Online (snd p)"
    | "smallest \<noteq> 0" "of_type t p" "ai_Online (snd p) < smallest" "\<forall>q\<in>set m. of_type t q \<longrightarrow> ai_Online (snd p) \<le> ai_Online (snd q)"
    | "smallest \<noteq> 0" "of_type t p" "\<not> ai_Online (snd p) < smallest"
    by (meson not_le)
  then show ?case
  proof cases
    case 1
    have "find (?P 0 (p # m)) (p # m) = None" using Cons.prems by (fastforce simp: find_None_all)
    then show ?thesis using 1 by simp
  next
    case 2
    then have "find (?P smallest (p # m)) (p # m) = find (?P smallest m) m" by (auto intro: find_cong)
    then show ?thesis using 2 IH Cons.prems by simp
  next
    case 3
    obtain q where q: "q \<in> set m" "of_type t q" "ai_Online (snd q) < ai_Online (snd p)" using 3 by blast
    have "find (?P smallest (p # m)) m = find (?P (ai_Online (snd p)) m) m"
    proof (intro find_cong refl)
      fix x
      show "?P smallest (p # m) x = ?P (ai_Online (snd p)) m x"
        using 3(3) q by (auto dest: bspec [OF _ q(1)])
    qed
    moreover have "\<not> ?P smallest (p # m) p" using q by fastforce
    ultimately have a: "find (?P smallest (p # m)) (p # m) = find (?P (ai_Online (snd p)) m) m"
      by (simp only: find.simps if_False)
    obtain x where "x \<in> set m" "of_type t x" "\<forall>y\<in>set m. of_type t y \<longrightarrow> ai_Online (snd x) \<le> ai_Online (snd y)"
      using least_exists q by blast
    then have "find (?P (ai_Online (snd p)) m) m \<noteq> None" unfolding find_None_all using q by fastforce
    then show ?thesis unfolding a using 3 IH [of "ai_Online (snd p)"] Cons.prems by auto
  next
    case 4
    then have "?P smallest (p # m) p" by simp
    moreover have "find (?P (ai_Online (snd p)) m) m = None" using 4 by (fastforce simp: find_None_all)
    ultimately show ?thesis using 4 IH [of "ai_Online (snd p)"] Cons.prems by simp
  next
    case 5
    have "find (?P smallest (p # m)) m = find (?P smallest m) m"
      using 5 by (intro find_cong) auto
    then show ?thesis using 5 IH [of smallest] Cons.prems by simp
  qed
qed

lemma find_filter: "find P (filter Q xs) = find (\<lambda>x. Q x \<and> P x) xs"
  by (induction xs) auto

lemma least_loaded_first:
  "least_loaded t apps =
     find (\<lambda>p. of_type t p \<and> (\<forall>q\<in>set apps. of_type t q \<longrightarrow> ai_Online (snd p) \<le> ai_Online (snd q))) apps"
  unfolding least_loaded_def Let_def find_filter
proof (intro find_cong refl)
  fix x assume x: "x \<in> set apps"
  let ?M = "set (map (\<lambda>q. ai_Online (snd q)) (filter (of_type t) apps))"
  show "(of_type t x \<and> ai_Online (snd x) = Min ?M)
      = (of_type t x \<and> (\<forall>q\<in>set apps. of_type t q \<longrightarrow> ai_Online (snd x) \<le> ai_Online (snd q)))"
  proof (cases "of_type t x")
    case True
    then have "ai_Online (snd x) \<in> ?M" using x by auto
    then have "(ai_Online (snd x) = Min ?M) = (\<forall>a\<in>?M. ai_Online (snd x) \<le> a)"
      by (metis List.finite_set Min_eqI Min_le)
    then show ?thesis by auto
  qed simp
qed

lemma least_loaded_scan:
  assumes "\<forall>x\<in>set (p # m). 0 \<le> ai_Online (snd x)" "of_type t p"
  shows "map_option fst (least_loaded t (p # m)) = Some (scan t (p # m) (ai_Online (snd p)) (fst p))"
proof (cases "\<forall>q\<in>set m. of_type t q \<longrightarrow> ai_Online (snd p) \<le> ai_Online (snd q)")
  case True
  have "find (\<lambda>x. of_type t x \<and> ai_Online (snd x) < ai_Online (snd p)
      \<and> (\<forall>q\<in>set (p # m). of_type t q \<longrightarrow> ai_Online (snd x) \<le> ai_Online (snd q))) (p # m) = None"
    using True by (fastforce simp: find_None_all)
  with True assms show ?thesis by (subst scan_first) (auto simp: least_loaded_first)
next
  case False
  then obtain q where q: "q \<in> set m" "of_type t q" "ai_Online (snd q) < ai_Online (snd p)" by force
  have "find (\<lambda>x. of_type t x \<and> ai_Online (snd x) < ai_Online (snd p)
      \<and> (\<forall>q\<in>set (p # m). of_type t q \<longrightarrow> ai_Online (snd x) \<le> ai_Online (snd q))) (p # m) = least_loaded t (p # m)"
    unfolding least_loaded_first using q by (intro find_cong refl) (auto dest: bspec [OF _ q(1)])
  moreover have "least_loaded t (p # m) \<noteq> None"
  proof -
    obtain x where "x \<in> set (p # m)" "of_type t x"
      "\<forall>y\<in>set (p # m). of_type t y \<longrightarrow> ai_Online (snd x) \<le> ai_Online (snd y)"
      using least_exists [of p "p # m" t] assms(2) by auto
    then show ?thesis unfolding least_loaded_first find_None_all by blast
  qed
  ultimately show ?thesis using assms by (subst scan_first) auto
qed

lemma find_dropWhile: "(\<And>x. Q x \<Longrightarrow> \<not> P x) \<Longrightarrow> find P (dropWhile Q xs) = find P xs"
  by (induction xs) auto

lemma least_loaded_dropWhile: "least_loaded t (dropWhile (\<lambda>p. \<not> of_type t p) apps) = least_loaded t apps"
proof -
  have "filter (of_type t) (dropWhile (\<lambda>p. \<not> of_type t p) apps) = filter (of_type t) apps"
    by (induction apps) auto
  then show ?thesis by (simp add: least_loaded_def)
qed

lemma least_loaded_mem: "least_loaded t apps = Some (k, i) \<Longrightarrow> (k, i) \<in> set apps \<and> of_type t (k, i)"
  unfolding least_loaded_first by (auto dest: find_Some_set)

text \<open>C31: choosing a process is equivalent to this reference: the first process, in the order of
  ids, whose number of players is the minimum over the processes of the type; its number grows by
  one, nothing else changes, and without a process of the type there is no result.\<close>

theorem GetOneApp_least_loaded:
  assumes "sm_wf apps" and "\<forall>p\<in>set apps. 0 \<le> ai_Online (snd p)"
  shows "GetOneApp t apps =
     map_option (\<lambda>(k, i). (i\<lparr>ai_Online := ai_Online i + 1\<rparr>, sm_assign k (i\<lparr>ai_Online := ai_Online i + 1\<rparr>) apps))
       (least_loaded t apps)"
proof (cases "dropWhile (\<lambda>p. \<not> of_type t p) apps")
  case Nil
  then have "\<forall>p\<in>set apps. \<not> of_type t p" by (simp add: dropWhile_eq_Nil_conv)
  then have "least_loaded t apps = None" by (auto simp: least_loaded_first find_None_all)
  then show ?thesis unfolding GetOneApp_def Nil by simp
next
  case (Cons p m)
  have p: "of_type t p" using Cons by (metis (mono_tags) dropWhile_eq_Cons_conv)
  have sub: "set (p # m) \<subseteq> set apps" by (metis Cons set_dropWhileD subsetI)
  have "map_option fst (least_loaded t apps) = Some (scan t (p # m) (ai_Online (snd p)) (fst p))"
    using least_loaded_scan [of p m t] p sub assms(2) least_loaded_dropWhile [of t apps] Cons by (metis subsetD)
  then obtain i where l: "least_loaded t apps = Some (scan t (p # m) (ai_Online (snd p)) (fst p), i)" by auto
  then have "sm_find apps (scan t (p # m) (ai_Online (snd p)) (fst p)) = Some i"
    using sm_find_in_set [OF assms(1)] least_loaded_mem by blast
  with Cons l show ?thesis
    by (auto simp: GetOneApp_def take_app_def apps_at_def Let_def)
qed

section \<open>The manager as a machine\<close>

datatype mgr_event =
    RequestWorld_of NetIdentify int
  | QueryWorld_of NetIdentify u64 u64
  | BroadcastCreateWorld_of int u64
  | AppInfoSync_of NetIdentify AppInfoSync
  | Disconnect_of NetIdentify

fun mgr_step :: "ResourceWorldMgr \<Rightarrow> (app_type \<Rightarrow> int \<Rightarrow> (string \<times> int) option) \<Rightarrow> mgr_event
    \<Rightarrow> CreateWorldComponent \<Rightarrow> (CreateWorldComponent \<times> send list) option" where
  "mgr_step worlds endpoint (RequestWorld_of p w) s = Some (HandleRequestWorld worlds p w s)"
| "mgr_step worlds endpoint (QueryWorld_of p sn lst) s = Some (s, HandleQueryWorld p sn lst s)"
| "mgr_step worlds endpoint (BroadcastCreateWorld_of w sn) s =
     map_option (\<lambda>s1. (s1, [])) (CreateWorld_HandleBroadcastCreateWorld worlds w sn s)"
| "mgr_step worlds endpoint (AppInfoSync_of p proto) s = Some (CreateWorld_HandleAppInfoSync endpoint p proto s, [])"
| "mgr_step worlds endpoint (Disconnect_of p) s = Some (CreateWorld_HandleNetworkDisconnect p s)"

fun mgr_run :: "ResourceWorldMgr \<Rightarrow> (app_type \<Rightarrow> int \<Rightarrow> (string \<times> int) option) \<Rightarrow> mgr_event list
    \<Rightarrow> CreateWorldComponent \<Rightarrow> (CreateWorldComponent \<times> send list) option" where
  "mgr_run worlds endpoint [] s = Some (s, [])"
| "mgr_run worlds endpoint (e # es) s = do {
     (s1, out) \<leftarrow> mgr_step worlds endpoint e s;
     (s2, out1) \<leftarrow> mgr_run worlds endpoint es s1;
     Some (s2, out @ out1) }"

text \<open>The abstract manager: what is known of each world.\<close>

datatype world_status = Unknown | Requested int | Running u64

definition status_of :: "CreateWorldComponent \<Rightarrow> int \<Rightarrow> world_status" where
  "status_of s w = (case sm_find (cw_creating s) w of
     Some a \<Rightarrow> Requested a
   | None \<Rightarrow> (case sm_find (cw_created s) w of Some sn \<Rightarrow> Running sn | None \<Rightarrow> Unknown))"

type_synonym spec_state = "(int \<Rightarrow> world_status) \<times> (u64 \<rightharpoonup> int)"

definition abs_mgr :: "CreateWorldComponent \<Rightarrow> spec_state" where
  "abs_mgr s = (status_of s, sm_find (cw_dungeons s))"

definition is_public :: "ResourceWorldMgr \<Rightarrow> int \<Rightarrow> bool" where
  "is_public worlds w = (case GetResource worlds w of None \<Rightarrow> False | Some r \<Rightarrow> IsType r RWT_Public)"

text \<open>\<open>choice\<close> is the space process to be asked for a new world, if there is one.\<close>

fun spec_step :: "ResourceWorldMgr \<Rightarrow> int option \<Rightarrow> mgr_event \<Rightarrow> spec_state \<Rightarrow> spec_state \<times> send list" where
  "spec_step worlds choice (RequestWorld_of p w) (st, ds) =
     (if \<not> is_public worlds w then ((st, ds), [])
      else (case st w of
          Requested a \<Rightarrow> ((st, ds), [])
        | Running sn \<Rightarrow> ((st, ds), [ToIdentify MI_BroadcastCreateWorld (P_BroadcastCreateWorld w sn 0) p])
        | Unknown \<Rightarrow> (case choice of
              None \<Rightarrow> ((st, ds), [])
            | Some a \<Rightarrow> ((if a \<noteq> INVALID_ID then st(w := Requested a) else st, ds),
                         [ToApp G2S_CreateWorld (P_CreateWorld w 0 0) APP_SPACE a]))))"
| "spec_step worlds choice (QueryWorld_of p sn lst) (st, ds) =
     ((st, ds), [case ds sn of None \<Rightarrow> ToIdentify G2M_QueryWorldRs (P_QueryWorldRs sn 1) p
                 | Some w \<Rightarrow> ToIdentify MI_BroadcastCreateWorld (P_BroadcastCreateWorld w sn lst) p])"
| "spec_step worlds choice (BroadcastCreateWorld_of w sn) (st, ds) =
     (if is_public worlds w then ((st(w := Running sn), ds), []) else ((st, ds(sn \<mapsto> w)), []))"
| "spec_step worlds choice (AppInfoSync_of p proto) (st, ds) = ((st, ds), [])"
| "spec_step worlds choice (Disconnect_of p) (st, ds) =
     (if IsTcp (sk_NetType (ni_socketKey p)) then
        (case GetTagValue TagApp (ni_tagKey p) of
           None \<Rightarrow> ((st, ds), [])
         | Some v \<Rightarrow>
             (let appId = GetIdFromAppKey (KeyInt64 v) in
              ((\<lambda>w. case st w of
                  Requested a \<Rightarrow> if a = appId then Unknown else Requested a
                | Running sn \<Rightarrow> if GetAppIdFromSN sn = appId then Unknown else Running sn
                | Unknown \<Rightarrow> Unknown,
                \<lambda>sn. if GetAppIdFromSN sn = appId then None else ds sn), [])))
      else ((st, ds), []))"

definition mgr_inv :: "CreateWorldComponent \<Rightarrow> bool" where
  "mgr_inv s \<longleftrightarrow> sm_wf (cw_apps s) \<and> sm_wf (cw_creating s) \<and> sm_wf (cw_created s) \<and> sm_wf (cw_dungeons s)
     \<and> (\<forall>w. sm_find (cw_creating s) w = None \<or> sm_find (cw_created s) w = None)"

lemma mgr_inv_new [simp]: "mgr_inv CreateWorldComponent_new"
  by (simp add: mgr_inv_def CreateWorldComponent_new_def)

section \<open>Facts about the loops\<close>

lemma sm_erase_is_remove:
  assumes "sm_wf m" "(k, v) \<in> set m" "P (k, v)"
  shows "filter (\<lambda>p. \<not> P p) (sm_erase k m) = filter (\<lambda>p. \<not> P p) m"
proof -
  have "P p" if "p \<in> set m" "fst p = k" for p
  proof -
    have kv: "sm_find m k = Some v" by (rule iffD1 [OF sm_find_in_set [OF assms(1)] assms(2)])
    have p: "p = (k, snd p)" using that(2) by (metis prod.collapse)
    then have "(k, snd p) \<in> set m" using that(1) by argo
    then have "sm_find m k = Some (snd p)" by (rule iffD1 [OF sm_find_in_set [OF assms(1)]])
    then have "snd p = v" using kv by simp
    with p assms(3) show ?thesis by argo
  qed
  then show ?thesis unfolding sm_erase_def filter_filter by (intro filter_cong) auto
qed

lemma erase_where_filter: "sm_wf m \<Longrightarrow> erase_where P m = filter (\<lambda>p. \<not> P p) m"
proof (induction P m rule: erase_where.induct)
  case (1 P m)
  show ?case
  proof (cases "find P m")
    case None
    then have "filter (\<lambda>p. \<not> P p) m = m" by (simp add: find_None_all filter_id_conv)
    with None show ?thesis by (subst erase_where.simps) simp
  next
    case (Some p)
    obtain k v where p: "p = (k, v)" by (cases p)
    then have "(k, v) \<in> set m" "P (k, v)" using Some find_Some_set by fastforce+
    with 1 Some p show ?thesis by (subst erase_where.simps) (simp add: sm_erase_is_remove)
  qed
qed

fun request_of :: "send \<Rightarrow> int list" where
  "request_of (ToApp m (P_CreateWorld w a b) t i) = [w]"
| "request_of _ = []"

definition world_requests :: "send list \<Rightarrow> int list" where
  "world_requests es = concat (map request_of es)"

lemma world_requests_simps [simp]:
  "world_requests [] = []"
  "world_requests (e # es) = request_of e @ world_requests es"
  "world_requests (es @ es') = world_requests es @ world_requests es'"
  by (simp_all add: world_requests_def)

definition has_space :: "apps \<Rightarrow> bool" where
  "has_space apps \<longleftrightarrow> (\<exists>p\<in>set apps. of_type APP_SPACE p)"

lemma GetOneApp_None: "GetOneApp t apps = None \<longleftrightarrow> \<not> (\<exists>p\<in>set apps. of_type t p)"
proof (cases "dropWhile (\<lambda>p. \<not> of_type t p) apps")
  case Nil
  moreover have "\<forall>p\<in>set apps. \<not> of_type t p" using Nil by (simp add: dropWhile_eq_Nil_conv)
  ultimately show ?thesis unfolding GetOneApp_def Nil by auto
next
  case (Cons p m)
  have "p \<in> set (dropWhile (\<lambda>p. \<not> of_type t p) apps)" unfolding Cons by simp
  then have "p \<in> set apps" by (rule set_dropWhileD)
  moreover have "of_type t p" using Cons by (simp add: dropWhile_eq_Cons_conv)
  ultimately show ?thesis unfolding GetOneApp_def Cons by auto
qed

lemma GetOneApp_take: "GetOneApp t apps = Some r \<Longrightarrow> \<exists>k. r = take_app k apps"
  by (auto simp: GetOneApp_def split: if_splits list.splits)

lemma take_app_types:
  assumes "sm_wf apps" "(k, i) \<in> set apps"
  shows "\<exists>i'. (k, i') \<in> set (snd (take_app a apps)) \<and> ai_AppType i' = ai_AppType i"
proof (cases "k = a")
  case True
  then have "apps_at a apps = i" using assms sm_find_in_set [OF assms(1)] by (fastforce simp: apps_at_def)
  then show ?thesis using True assms(1)
    by (intro exI [of _ "i\<lparr>ai_Online := ai_Online i + 1\<rparr>"]) (simp add: take_app_def Let_def sm_find_in_set)
next
  case False
  then show ?thesis using assms
    by (intro exI [of _ i]) (simp add: take_app_def Let_def sm_find_in_set)
qed

lemma ReqCreateWorld_space:
  assumes "sm_wf (cw_apps s)" "ReqCreateWorld w s = (a, s1, es)"
  shows "sm_wf (cw_apps s1) \<and> (has_space (cw_apps s) \<longrightarrow> has_space (cw_apps s1))
    \<and> world_requests es = (if has_space (cw_apps s) then [w] else [])"
proof (cases "GetOneApp APP_SPACE (cw_apps s)")
  case None
  then have "\<not> has_space (cw_apps s)" by (auto simp: GetOneApp_None has_space_def)
  with None assms show ?thesis by (auto simp: ReqCreateWorld_def)
next
  case (Some r)
  obtain k where k: "r = take_app k (cw_apps s)" using GetOneApp_take [OF Some] by blast
  have h: "has_space (cw_apps s)" using Some by (metis GetOneApp_None has_space_def option.distinct(1))
  moreover have "has_space (snd r)"
  proof -
    obtain a i where "(a, i) \<in> set (cw_apps s)" "of_type APP_SPACE (a, i)" using h by (auto simp: has_space_def)
    then obtain i' where "(a, i') \<in> set (snd r)" "ai_AppType i' = ai_AppType i"
      using take_app_types [OF assms(1), of a i k] k by blast
    then have "of_type APP_SPACE (a, i')" using \<open>of_type APP_SPACE (a, i)\<close> by (simp add: of_type_def)
    with \<open>(a, i') \<in> set (snd r)\<close> show ?thesis unfolding has_space_def by blast
  qed
  ultimately show ?thesis using assms Some k by (auto simp: ReqCreateWorld_def take_app_def Let_def)
qed

lemma recreate_facts:
  "recreate appId s = (s', es) \<Longrightarrow> sm_wf (cw_creating s) \<Longrightarrow> sm_wf (cw_apps s) \<Longrightarrow>
   cw_creating s' = filter (\<lambda>p. snd p \<noteq> appId) (cw_creating s) \<and> cw_created s' = cw_created s
   \<and> cw_dungeons s' = cw_dungeons s \<and> sm_wf (cw_apps s')
   \<and> (has_space (cw_apps s) \<longrightarrow> has_space (cw_apps s') \<and>
        set (world_requests es) = fst ` set (filter (\<lambda>p. snd p = appId) (cw_creating s)))"
proof (induction appId s arbitrary: s' es rule: recreate.induct)
  case (1 appId s)
  show ?case
  proof (cases "find (\<lambda>p. snd p = appId) (cw_creating s)")
    case None
    then have "filter (\<lambda>p. snd p \<noteq> appId) (cw_creating s) = cw_creating s"
      "filter (\<lambda>p. snd p = appId) (cw_creating s) = []"
      by (auto simp: find_None_all filter_id_conv filter_empty_conv)
    with None 1(2,4) show ?thesis by (subst (asm) recreate.simps) simp
  next
    case (Some p)
    obtain w a where p: "p = (w, a)" by (cases p)
    have mem: "(w, a) \<in> set (cw_creating s)" "a = appId" using Some p find_Some_set by fastforce+
    let ?s1 = "s\<lparr>cw_creating := sm_erase w (cw_creating s)\<rparr>"
    obtain b s2 es0 where r: "ReqCreateWorld w ?s1 = (b, s2, es0)" by (cases "ReqCreateWorld w ?s1") auto
    obtain s3 es1 where r1: "recreate appId s2 = (s3, es1)" by (cases "recreate appId s2")
    have eq: "s' = s3" "es = es0 @ es1" using 1(2) Some p r r1 by (simp_all add: recreate.simps [of appId s])
    have f: "cw_creating s2 = sm_erase w (cw_creating s)" "cw_created s2 = cw_created s" "cw_dungeons s2 = cw_dungeons s"
      using ReqCreateWorld_frame [OF r] by simp_all
    have sp: "sm_wf (cw_apps s2)" "has_space (cw_apps s) \<longrightarrow> has_space (cw_apps s2)"
      "world_requests es0 = (if has_space (cw_apps s) then [w] else [])"
      using ReqCreateWorld_space [OF _ r] 1(4) by simp_all
    have ih: "cw_creating s3 = filter (\<lambda>p. snd p \<noteq> appId) (cw_creating s2) \<and> cw_created s3 = cw_created s2
       \<and> cw_dungeons s3 = cw_dungeons s2 \<and> sm_wf (cw_apps s3)
       \<and> (has_space (cw_apps s2) \<longrightarrow> has_space (cw_apps s3) \<and>
          set (world_requests es1) = fst ` set (filter (\<lambda>p. snd p = appId) (cw_creating s2)))"
      using 1(1) [OF Some p [symmetric] refl r [symmetric] refl refl r1] 1(3) f(1) sp(1) by simp
    have "filter (\<lambda>p. snd p \<noteq> appId) (sm_erase w (cw_creating s)) = filter (\<lambda>p. snd p \<noteq> appId) (cw_creating s)"
      using sm_erase_is_remove [of "cw_creating s" w a "\<lambda>p. snd p = appId"] 1(3) mem by simp
    moreover have "insert w (fst ` set (filter (\<lambda>p. snd p = appId) (sm_erase w (cw_creating s))))
        = fst ` set (filter (\<lambda>p. snd p = appId) (cw_creating s))"
      using mem by (auto simp: sm_erase_def image_iff)
    ultimately show ?thesis using ih sp f eq by simp
  qed
qed

section \<open>Refinement\<close>

lemma find_filter_val:
  "sm_wf m \<Longrightarrow> sm_find (filter (\<lambda>p. P (snd p)) m) k =
     (case sm_find m k of None \<Rightarrow> None | Some v \<Rightarrow> if P v then Some v else None)"
  by (rule sm_find_filter [where P = "\<lambda>k v. P v"])

lemma find_filter_key:
  "sm_wf m \<Longrightarrow> sm_find (filter (\<lambda>p. P (fst p)) m) k =
     (case sm_find m k of None \<Rightarrow> None | Some v \<Rightarrow> if P k then Some v else None)"
  by (rule sm_find_filter [where P = "\<lambda>k v. P k"])

definition choice_of :: "CreateWorldComponent \<Rightarrow> int option" where
  "choice_of s = map_option (\<lambda>r. ai_AppId (fst r)) (GetOneApp APP_SPACE (cw_apps s))"

lemma ReqCreateWorld_choice:
  assumes "sm_wf (cw_apps s)"
  shows "ReqCreateWorld w s = (a, s1, es) \<Longrightarrow> sm_wf (cw_apps s1)
     \<and> cw_creating s1 = cw_creating s \<and> cw_created s1 = cw_created s \<and> cw_dungeons s1 = cw_dungeons s
     \<and> (case choice_of s of None \<Rightarrow> a = INVALID_ID \<and> es = []
        | Some b \<Rightarrow> a = b \<and> es = [ToApp G2S_CreateWorld (P_CreateWorld w 0 0) APP_SPACE b])"
  using ReqCreateWorld_space [OF assms] ReqCreateWorld_frame [of w s a s1 es]
  by (auto simp: ReqCreateWorld_def choice_of_def split: option.splits)

lemma refines_request:
  assumes "mgr_inv s" and "HandleRequestWorld worlds p w s = (s', es)"
  shows "mgr_inv s' \<and> (abs_mgr s', es) = spec_step worlds (choice_of s) (RequestWorld_of p w) (abs_mgr s)"
proof (cases "is_public worlds w \<and> sm_find (cw_creating s) w = None \<and> sm_find (cw_created s) w = None")
  case False
  then show ?thesis using assms
    by (auto simp: HandleRequestWorld_def is_public_def abs_mgr_def status_of_def split: option.splits if_splits)
next
  case True
  obtain a s1 es1 where r: "ReqCreateWorld w s = (a, s1, es1)" by (cases "ReqCreateWorld w s") auto
  have f: "sm_wf (cw_apps s1)" "cw_creating s1 = cw_creating s" "cw_created s1 = cw_created s" "cw_dungeons s1 = cw_dungeons s"
    "case choice_of s of None \<Rightarrow> a = INVALID_ID \<and> es1 = []
        | Some b \<Rightarrow> a = b \<and> es1 = [ToApp G2S_CreateWorld (P_CreateWorld w 0 0) APP_SPACE b]"
    using ReqCreateWorld_choice [OF _ r] assms(1) by (auto simp: mgr_inv_def)
  have s': "s' = (if a \<noteq> INVALID_ID then s1\<lparr>cw_creating := sm_assign w a (cw_creating s1)\<rparr> else s1)" "es = es1"
    using assms(2) True r by (auto simp: HandleRequestWorld_def is_public_def split: option.splits)
  have "mgr_inv s'" using assms(1) True f(1-4) s'(1) by (auto simp: mgr_inv_def)
  moreover have "abs_mgr s' = (if a \<noteq> INVALID_ID then (status_of s)(w := Requested a) else status_of s, sm_find (cw_dungeons s))"
    using f(2-4) s'(1) by (auto simp: abs_mgr_def status_of_def fun_eq_iff split: option.splits)
  moreover have "status_of s w = Unknown" using True by (simp add: status_of_def)
  ultimately show ?thesis using True f(5) s'(2) by (auto simp: abs_mgr_def split: option.splits)
qed

lemma refines_broadcast:
  assumes "mgr_inv s" and "CreateWorld_HandleBroadcastCreateWorld worlds w sn s = Some s'"
  shows "mgr_inv s' \<and> (abs_mgr s', []) = spec_step worlds c (BroadcastCreateWorld_of w sn) (abs_mgr s)"
  using assms
  by (auto simp: CreateWorld_HandleBroadcastCreateWorld_def is_public_def mgr_inv_def abs_mgr_def status_of_def fun_eq_iff
      split: option.splits if_splits)

lemma Sync_wf [simp, wf_intros]:
  "sm_wf apps \<Longrightarrow> sm_wf (Sync_HandleNetworkDisconnect socket apps)"
  "sm_wf apps \<Longrightarrow> sm_wf (AppInfoSyncHandle endpoint p proto apps)"
  by (auto simp: Sync_HandleNetworkDisconnect_def AppInfoSyncHandle_def Sync_Parse_def split: option.splits)

lemma refines_disconnect:
  assumes "mgr_inv s" and "CreateWorld_HandleNetworkDisconnect p s = (s', es)"
  shows "mgr_inv s' \<and> abs_mgr s' = fst (spec_step worlds c (Disconnect_of p) (abs_mgr s))"
proof (cases "IsTcp (sk_NetType (ni_socketKey p)) \<and> GetTagValue TagApp (ni_tagKey p) \<noteq> None")
  case False
  then show ?thesis using assms
    by (auto simp: CreateWorld_HandleNetworkDisconnect_def mgr_inv_def abs_mgr_def status_of_def fun_eq_iff Let_def
        split: option.splits if_splits)
next
  case True
  then obtain v where v: "IsTcp (sk_NetType (ni_socketKey p))" "GetTagValue TagApp (ni_tagKey p) = Some v" by auto
  let ?a = "GetIdFromAppKey (KeyInt64 v)"
  let ?s1 = "s\<lparr>cw_apps := Sync_HandleNetworkDisconnect (sk_Socket (ni_socketKey p)) (cw_apps s)\<rparr>"
  obtain s2 es2 where r: "recreate ?a ?s1 = (s2, es2)" by (cases "recreate ?a ?s1")
  have wf: "sm_wf (cw_apps s)" "sm_wf (cw_creating s)" "sm_wf (cw_created s)" "sm_wf (cw_dungeons s)"
    using assms(1) by (simp_all add: mgr_inv_def)
  have f: "cw_creating s2 = filter (\<lambda>p. snd p \<noteq> ?a) (cw_creating s)" "cw_created s2 = cw_created s"
    "cw_dungeons s2 = cw_dungeons s" "sm_wf (cw_apps s2)"
    using recreate_facts [OF r] wf by simp_all
  have s': "s' = s2\<lparr>cw_created := filter (\<lambda>p. GetAppIdFromSN (snd p) \<noteq> ?a) (cw_created s),
                  cw_dungeons := filter (\<lambda>p. GetAppIdFromSN (fst p) \<noteq> ?a) (cw_dungeons s)\<rparr>"
    using assms(2) v r f(2,3) wf by (simp add: CreateWorld_HandleNetworkDisconnect_def Let_def erase_where_filter)
  have find: "sm_find (cw_creating s') w = (case sm_find (cw_creating s) w of None \<Rightarrow> None | Some b \<Rightarrow> if b \<noteq> ?a then Some b else None)"
    "sm_find (cw_created s') w = (case sm_find (cw_created s) w of None \<Rightarrow> None | Some b \<Rightarrow> if GetAppIdFromSN b \<noteq> ?a then Some b else None)"
    "sm_find (cw_dungeons s') sn = (case sm_find (cw_dungeons s) sn of None \<Rightarrow> None | Some b \<Rightarrow> if GetAppIdFromSN sn \<noteq> ?a then Some b else None)"
    for w sn
    using wf find_filter_val [of "cw_creating s" "\<lambda>b. b \<noteq> ?a"] find_filter_val [of "cw_created s" "\<lambda>b. GetAppIdFromSN b \<noteq> ?a"]
      find_filter_key [of "cw_dungeons s" "\<lambda>b. GetAppIdFromSN b \<noteq> ?a"]
    by (simp_all add: s' f(1))
  have disj: "sm_find (cw_creating s) w = None \<or> sm_find (cw_created s) w = None" for w
    using assms(1) by (simp add: mgr_inv_def)
  have "sm_find (cw_creating s') w = None \<or> sm_find (cw_created s') w = None" for w
    using disj [of w] by (auto simp: find)
  then have "mgr_inv s'" unfolding mgr_inv_def using wf f(1,4) s' by simp
  moreover have "status_of s' w = (case status_of s w of
                  Requested a \<Rightarrow> if a = ?a then Unknown else Requested a
                | Running sn \<Rightarrow> if GetAppIdFromSN sn = ?a then Unknown else Running sn
                | Unknown \<Rightarrow> Unknown)" for w
    using disj [of w] by (auto simp: status_of_def find split: option.splits)
  ultimately show ?thesis using v by (auto simp: abs_mgr_def fun_eq_iff find Let_def split: option.splits)
qed

lemma CreateWorld_refines_step:
  assumes "mgr_inv s" and "mgr_step worlds endpoint e s = Some (s', es)"
  shows "mgr_inv s' \<and> abs_mgr s' = fst (spec_step worlds (choice_of s) e (abs_mgr s))
    \<and> ((\<forall>p. e \<noteq> Disconnect_of p) \<longrightarrow> es = snd (spec_step worlds (choice_of s) e (abs_mgr s)))"
proof (cases e)
  case (RequestWorld_of p w)
  with assms refines_request [of s worlds p w s' es] show ?thesis by (metis fst_conv snd_conv mgr_step.simps(1) option.inject)
next
  case (QueryWorld_of p sn lst)
  with assms show ?thesis by (auto simp: HandleQueryWorld_def abs_mgr_def split: option.splits)
next
  case (BroadcastCreateWorld_of w sn)
  with assms show ?thesis using refines_broadcast [of s worlds w sn s' "choice_of s"]
    by (auto dest: sym)
next
  case (AppInfoSync_of p proto)
  with assms show ?thesis
    by (auto simp: CreateWorld_HandleAppInfoSync_def mgr_inv_def abs_mgr_def status_of_def fun_eq_iff split: option.splits)
next
  case (Disconnect_of p)
  with assms show ?thesis using refines_disconnect [of s p s' es worlds "choice_of s"] by auto
qed

section \<open>Runs\<close>

definition valid_ids :: "apps \<Rightarrow> bool" where
  "valid_ids apps \<longleftrightarrow> (\<forall>p\<in>set apps. ai_AppId (snd p) \<noteq> INVALID_ID)"

lemma valid_ids_assign: "valid_ids apps \<Longrightarrow> ai_AppId i \<noteq> INVALID_ID \<Longrightarrow> valid_ids (sm_assign k i apps)"
  using set_sm_assign_subset [of k i apps] by (auto simp: valid_ids_def)

lemma valid_ids_find: "valid_ids apps \<Longrightarrow> sm_find apps k = Some i \<Longrightarrow> ai_AppId i \<noteq> INVALID_ID"
  by (drule map_of_SomeD) (auto simp: valid_ids_def)

lemma valid_ids_take: "valid_ids apps \<Longrightarrow> valid_ids (snd (take_app k apps)) \<and> ai_AppId (fst (take_app k apps)) \<noteq> INVALID_ID"
proof -
  assume v: "valid_ids apps"
  then have "ai_AppId (apps_at k apps) \<noteq> INVALID_ID"
    using valid_ids_find [of apps k] by (auto simp: apps_at_def split: option.splits)
  with v show ?thesis by (simp add: take_app_def Let_def valid_ids_assign)
qed

lemma valid_ids_Parse:
  assumes "valid_ids apps" "ais_app_id proto \<noteq> INVALID_ID"
  shows "valid_ids (AppInfoSyncHandle endpoint p proto apps)"
proof (cases "sm_find apps (ais_app_id proto)")
  case None
  with assms show ?thesis
    by (auto simp: AppInfoSyncHandle_def Sync_Parse_def AppInfo_Parse_def intro!: valid_ids_assign split: option.splits)
next
  case (Some i)
  then have "ai_AppId i \<noteq> INVALID_ID" using assms(1) valid_ids_find by blast
  with Some assms show ?thesis by (auto simp: AppInfoSyncHandle_def Sync_Parse_def intro!: valid_ids_assign)
qed

text \<open>No disconnection, and every process announces itself with an id other than \<open>-1\<close>.\<close>

fun steady :: "mgr_event \<Rightarrow> bool" where
  "steady (Disconnect_of p) = False"
| "steady (AppInfoSync_of p proto) = (ais_app_id proto \<noteq> INVALID_ID)"
| "steady e = True"

definition requests_for :: "int \<Rightarrow> send list \<Rightarrow> nat" where
  "requests_for w es = length (filter (\<lambda>x. x = w) (world_requests es))"

lemma requests_for_append [simp]: "requests_for w (es @ es') = requests_for w es + requests_for w es'"
  by (simp add: requests_for_def)

lemma steady_valid_ids:
  assumes "valid_ids (cw_apps s)" "steady e" "mgr_step worlds endpoint e s = Some (s', es)"
  shows "valid_ids (cw_apps s')"
proof (cases e)
  case (RequestWorld_of p w)
  with assms(1,3) show ?thesis
    by (auto simp: HandleRequestWorld_def ReqCreateWorld_def split: option.splits if_splits
        dest!: GetOneApp_take) (metis snd_conv valid_ids_take)+
next
  case (BroadcastCreateWorld_of w sn)
  with assms(1,3) show ?thesis by (auto simp: CreateWorld_HandleBroadcastCreateWorld_def split: option.splits if_splits)
next
  case (AppInfoSync_of p proto)
  with assms show ?thesis by (auto simp: CreateWorld_HandleAppInfoSync_def valid_ids_Parse)
qed (use assms in auto)

lemma steady_step:
  assumes "mgr_inv s" "valid_ids (cw_apps s)" "steady e" "mgr_step worlds endpoint e s = Some (s', es)"
  shows "requests_for w es + (if status_of s' w = Unknown then 1 else 0) \<le> (if status_of s w = Unknown then 1 else 0)"
proof -
  have spec: "status_of s' = fst (fst (spec_step worlds (choice_of s) e (abs_mgr s)))"
    "es = snd (spec_step worlds (choice_of s) e (abs_mgr s))"
    using CreateWorld_refines_step [OF assms(1,4)] assms(3) by (auto simp: abs_mgr_def) (metis fst_conv)
  have c: "choice_of s \<noteq> Some INVALID_ID"
    using valid_ids_take [OF assms(2)] by (auto simp: choice_of_def dest!: GetOneApp_take) (metis fst_conv)
  show ?thesis
  proof (cases e)
    case (RequestWorld_of p w')
    with spec c show ?thesis
      by (auto simp: abs_mgr_def requests_for_def split: world_status.splits option.splits)
  qed (use spec assms(3) in \<open>auto simp: abs_mgr_def requests_for_def split: option.splits\<close>)
qed

lemma steady_run:
  assumes "mgr_inv s" "valid_ids (cw_apps s)" "\<forall>e\<in>set evs. steady e" "mgr_run worlds endpoint evs s = Some (s', es)"
  shows "requests_for w es + (if status_of s' w = Unknown then 1 else 0) \<le> (if status_of s w = Unknown then 1 else 0)"
  using assms
proof (induction evs arbitrary: s es)
  case Nil
  then show ?case by (simp add: requests_for_def)
next
  case (Cons e evs)
  then obtain s1 out out1 where st: "mgr_step worlds endpoint e s = Some (s1, out)"
    "mgr_run worlds endpoint evs s1 = Some (s', out1)" "es = out @ out1"
    by (auto split: bind_splits)
  have "mgr_inv s1" using CreateWorld_refines_step [OF Cons.prems(1) st(1)] by blast
  moreover have "valid_ids (cw_apps s1)" using steady_valid_ids Cons.prems(2,3) st(1) by auto
  ultimately have "requests_for w out1 + (if status_of s' w = Unknown then 1 else 0) \<le> (if status_of s1 w = Unknown then 1 else 0)"
    using Cons.IH st(2) Cons.prems(3) by auto
  with steady_step [OF Cons.prems(1,2) _ st(1), of w] Cons.prems(3) st(3) show ?case by auto
qed

section \<open>Properties of the manager of worlds\<close>

text \<open>C32: the manager of worlds refines the abstract machine whose state is the status of each
  public world (unknown, requested from a process, running under a serial number) and the world
  of each dungeon: every handler keeps the invariant of the tables, the statuses change as in the
  specification, and outside disconnections exactly the specified messages are sent.\<close>

theorem CreateWorld_refines:
  assumes "mgr_inv s" and "mgr_step worlds endpoint e s = Some (s', es)"
  shows "mgr_inv s' \<and> abs_mgr s' = fst (spec_step worlds (choice_of s) e (abs_mgr s))
    \<and> ((\<forall>p. e \<noteq> Disconnect_of p) \<longrightarrow> es = snd (spec_step worlds (choice_of s) e (abs_mgr s)))"
  by (rule CreateWorld_refines_step [OF assms])

text \<open>C33: as long as no process is lost, a world is requested from the space processes at most
  once, whatever the order and number of the requests, answers and load reports that arrive;
  when it was requested it is known as requested or running.\<close>

theorem world_requested_once:
  assumes "mgr_run worlds endpoint evs CreateWorldComponent_new = Some (s, es)" and "\<forall>e\<in>set evs. steady e"
  shows "requests_for w es \<le> 1 \<and> (requests_for w es = 1 \<longrightarrow> status_of s w \<noteq> Unknown)"
  using steady_run [OF mgr_inv_new _ assms(2,1), of w]
  by (auto simp: valid_ids_def CreateWorldComponent_new_def split: if_splits)

text \<open>When the process that was to create a public world is lost, another one is asked for it
  at once, but the manager forgets that it asked: the world is unknown again, and the next game
  process that needs it makes the manager request it a second time.\<close>

theorem disconnect_requests_twice:
  assumes "mgr_inv s" and "sm_find (cw_creating s) w = Some (GetIdFromAppKey (KeyInt64 v))"
    and "IsTcp (sk_NetType (ni_socketKey p))" and "GetTagValue TagApp (ni_tagKey p) = Some v"
    and "has_space (Sync_HandleNetworkDisconnect (sk_Socket (ni_socketKey p)) (cw_apps s))"
    and "is_public worlds w" and "CreateWorld_HandleNetworkDisconnect p s = (s1, es)"
  shows "w \<in> set (world_requests es) \<and> status_of s1 w = Unknown
    \<and> w \<in> set (world_requests (snd (HandleRequestWorld worlds q w s1)))"
proof -
  let ?a = "GetIdFromAppKey (KeyInt64 v)"
  let ?s1 = "s\<lparr>cw_apps := Sync_HandleNetworkDisconnect (sk_Socket (ni_socketKey p)) (cw_apps s)\<rparr>"
  obtain s2 es2 where r: "recreate ?a ?s1 = (s2, es2)" by (cases "recreate ?a ?s1")
  have wf: "sm_wf (cw_creating s)" "sm_wf (cw_apps s)" using assms(1) by (simp_all add: mgr_inv_def)
  have f: "sm_wf (cw_apps s2)" "has_space (cw_apps s2)"
    "set (world_requests es2) = fst ` set (filter (\<lambda>p. snd p = ?a) (cw_creating s))"
    using recreate_facts [OF r] wf assms(5) by simp_all
  have s1: "es = es2" "cw_apps s1 = cw_apps s2"
    using assms(3,4,7) r by (auto simp: CreateWorld_HandleNetworkDisconnect_def Let_def)
  have "(w, ?a) \<in> set (cw_creating s)" using assms(2) by (rule map_of_SomeD)
  then have "w \<in> set (world_requests es)" using f(3) s1(1) by force
  moreover have inv: "mgr_inv s1" "abs_mgr s1 = fst (spec_step worlds None (Disconnect_of p) (abs_mgr s))"
    using refines_disconnect [OF assms(1,7)] by blast+
  then have u: "status_of s1 w = Unknown" using assms(2-4) by (simp add: abs_mgr_def Let_def) (simp add: status_of_def)
  moreover have "w \<in> set (world_requests (snd (HandleRequestWorld worlds q w s1)))"
  proof -
    obtain a s3 es3 where q: "ReqCreateWorld w s1 = (a, s3, es3)" by (cases "ReqCreateWorld w s1") auto
    have "world_requests es3 = [w]" using ReqCreateWorld_space [OF _ q] f(1,2) s1(2) by simp
    moreover have "sm_find (cw_creating s1) w = None \<and> sm_find (cw_created s1) w = None"
      using u by (auto simp: status_of_def split: option.splits)
    ultimately show ?thesis using assms(6) q by (auto simp: HandleRequestWorld_def is_public_def split: option.splits)
  qed
  ultimately show ?thesis by blast
qed

section \<open>Instances\<close>

definition sample_app :: "int \<Rightarrow> app_type \<Rightarrow> int \<Rightarrow> int \<times> AppInfo" where
  "sample_app i t n = (i, \<lparr>ai_AppType = t, ai_AppId = i, ai_Ip = ''a'', ai_Port = 7, ai_Online = n, ai_Socket = i + 100\<rparr>)"

definition sample_apps :: apps where
  "sample_apps = [sample_app 1 APP_GAME 0, sample_app 2 APP_SPACE 9, sample_app 4 APP_SPACE 5, sample_app 6 APP_SPACE 5]"

definition sample_identify :: "socket \<Rightarrow> u64 \<Rightarrow> NetIdentify" where
  "sample_identify sock key = \<lparr>ni_socketKey = \<lparr>sk_Socket = sock, sk_NetType = TcpListen\<rparr>,
     ni_tagKey = [(TagApp, \<lparr>KeyStr = '''', KeyInt64 = key\<rparr>)]\<rparr>"

definition sample_mgr :: CreateWorldComponent where
  "sample_mgr = \<lparr>cw_apps = sample_apps, cw_creating = [(3, 4)], cw_created = [], cw_dungeons = []\<rparr>"

lemma sample_mgr_inv [simp]: "mgr_inv sample_mgr"
  by (simp add: mgr_inv_def sample_mgr_def sample_apps_def sample_app_def sm_wf_Cons)

theorem GetOneApp_least_loaded_witness:
  "map_option (\<lambda>(i, apps). (ai_AppId i, ai_Online i)) (GetOneApp APP_SPACE sample_apps) = Some (4, 6)"
proof -
  have "least_loaded APP_SPACE sample_apps = Some (sample_app 4 APP_SPACE 5)"
    by (simp add: least_loaded_def sample_apps_def sample_app_def of_type_def has_role_def)
  with GetOneApp_least_loaded [of sample_apps APP_SPACE] show ?thesis
    by (simp add: sample_apps_def sample_app_def sm_wf_Cons)
qed

theorem CreateWorld_refines_witness:
  "abs_mgr (fst (HandleRequestWorld sample_table (sample_identify 9 0) 3 sample_mgr))
     = (status_of sample_mgr, sm_find []) \<and> status_of sample_mgr 3 = Requested 4
     \<and> snd (HandleRequestWorld sample_table (sample_identify 9 0) 3 sample_mgr) = []"
proof -
  let ?p = "sample_identify 9 0"
  obtain s' es where r: "HandleRequestWorld sample_table ?p 3 sample_mgr = (s', es)" by (cases "HandleRequestWorld sample_table ?p 3 sample_mgr")
  have u: "status_of sample_mgr 3 = Requested 4" by (simp add: status_of_def sample_mgr_def)
  from CreateWorld_refines [OF sample_mgr_inv, of sample_table "\<lambda>_ _. None" "RequestWorld_of ?p 3" s' es] r u
  show ?thesis by (simp add: is_public_def abs_mgr_def) (simp add: sample_mgr_def)
qed

theorem world_requested_once_witness:
  "\<exists>s es. mgr_run sample_table (\<lambda>t i. Some (''a'', 7))
     [AppInfoSync_of (sample_identify 8 0) \<lparr>ais_app_id = 2, ais_app_type = APP_SPACE, ais_online = 0\<rparr>,
      RequestWorld_of (sample_identify 9 0) 3, RequestWorld_of (sample_identify 10 0) 3, BroadcastCreateWorld_of 3 77,
      RequestWorld_of (sample_identify 10 0) 3] CreateWorldComponent_new = Some (s, es)
     \<and> requests_for 3 es = 1 \<and> status_of s 3 \<noteq> Unknown"
proof -
  let ?evs = "[AppInfoSync_of (sample_identify 8 0) \<lparr>ais_app_id = 2, ais_app_type = APP_SPACE, ais_online = 0\<rparr>,
      RequestWorld_of (sample_identify 9 0) 3, RequestWorld_of (sample_identify 10 0) 3, BroadcastCreateWorld_of 3 77,
      RequestWorld_of (sample_identify 10 0) 3]"
  have "\<exists>s es. mgr_run sample_table (\<lambda>t i. Some (''a'', 7)) ?evs CreateWorldComponent_new = Some (s, es) \<and> requests_for 3 es = 1"
    by (simp add: CreateWorldComponent_new_def CreateWorld_HandleAppInfoSync_def AppInfoSyncHandle_def Sync_Parse_def
        AppInfo_Parse_def HandleRequestWorld_def ReqCreateWorld_def GetOneApp_def of_type_def has_role_def take_app_def
        apps_at_def Let_def CreateWorld_HandleBroadcastCreateWorld_def sample_identify_def requests_for_def)
  then obtain s es where r: "mgr_run sample_table (\<lambda>t i. Some (''a'', 7)) ?evs CreateWorldComponent_new = Some (s, es)"
    "requests_for 3 es = 1" by blast
  with world_requested_once [OF r(1), of 3] show ?thesis by simp
qed

theorem disconnect_requests_twice_witness:
  "\<exists>s1 es. CreateWorld_HandleNetworkDisconnect (sample_identify 104 (GetAppKey APP_SPACE 4)) sample_mgr = (s1, es)
     \<and> 3 \<in> set (world_requests es)
     \<and> 3 \<in> set (world_requests (snd (HandleRequestWorld sample_table (sample_identify 9 0) 3 s1)))"
proof -
  let ?p = "sample_identify 104 (GetAppKey APP_SPACE 4)"
  obtain s1 es where r: "CreateWorld_HandleNetworkDisconnect ?p sample_mgr = (s1, es)" by (cases "CreateWorld_HandleNetworkDisconnect ?p sample_mgr")
  have id: "GetIdFromAppKey (GetAppKey APP_SPACE 4) = 4" by (simp add: GetIdFromAppKey_def GetAppKey_def)
  have "has_space (Sync_HandleNetworkDisconnect 104 sample_apps)"
    by (simp add: has_space_def Sync_HandleNetworkDisconnect_def sample_apps_def sample_app_def sm_erase_def of_type_def has_role_def)
  with disconnect_requests_twice [OF sample_mgr_inv, of 3 "\<lparr>KeyStr = '''', KeyInt64 = GetAppKey APP_SPACE 4\<rparr>" ?p sample_table s1 es
      "sample_identify 9 0"] r id
  show ?thesis by (simp add: sample_identify_def sample_mgr_def IsTcp_def GetTagValue_def is_public_def)
qed

end
