(* ===== verification/Players.thy ===== *)
theory Players
  imports App_Messages
begin

text \<open>
  \<open>libs/libplayer\<close>, the players' components of the login, game and space processes, and
  \<open>apps/space/player_manager_component.cpp\<close>: a player, what is attached to it, and the
  collections that own the players of a world. A player is a value in the collection that owns
  it; \<open>pc_released\<close> lists the players handed to \<open>EntitySystem::RemoveComponent\<close>, which takes
  them back with their components (\<open>Player_release\<close>) in the next frame. \<open>None\<close> is a null
  pointer that is followed.
\<close>

section \<open>\<open>PlayerComponentLastMap\<close>\<close>

record PlayerComponentLastMap =
  lm_pPublic :: "LastWorld option"
  lm_pDungeon :: "LastWorld option"
  lm_curWorldId :: int

definition LastMap_new :: PlayerComponentLastMap where
  "LastMap_new = \<lparr>lm_pPublic = None, lm_pDungeon = None, lm_curWorldId = 0\<rparr>"

definition LastMap_ParserFromProto :: "ResourceWorldMgr \<Rightarrow> Player_proto \<Rightarrow> PlayerComponentLastMap
    \<Rightarrow> PlayerComponentLastMap option" where
  "LastMap_ParserFromProto worlds proto c = do {
     let protoMap = pm_last_world (pp_misc proto);
     pub \<leftarrow> (case GetResource worlds (lw_WorldId protoMap) of
         Some _ \<Rightarrow> Some protoMap
       | None \<Rightarrow> map_option (\<lambda>pMap. \<lparr>lw_WorldId = rb_id pMap, lw_WorldSn = 0, lw_Position = rw_initPosition pMap\<rparr>)
                   (GetInitMap worlds));
     let protoDungeon = pm_last_dungeon (pp_misc proto);
     Some (c\<lparr>lm_pPublic := Some pub,
             lm_pDungeon := (case GetResource worlds (lw_WorldId protoDungeon) of
                 Some _ \<Rightarrow> Some protoDungeon | None \<Rightarrow> lm_pDungeon c)\<rparr>) }"

definition LastMap_SerializeToProto :: "PlayerComponentLastMap \<Rightarrow> Player_proto \<Rightarrow> Player_proto" where
  "LastMap_SerializeToProto c pProto =
     (let m = pp_misc pProto;
          m1 = (case lm_pPublic c of Some w \<Rightarrow> m\<lparr>pm_last_world := w\<rparr> | None \<Rightarrow> m);
          m2 = (case lm_pDungeon c of Some w \<Rightarrow> m1\<lparr>pm_last_dungeon := w\<rparr> | None \<Rightarrow> m1)
      in pProto\<lparr>pp_misc := m2\<rparr>)"

definition GetLastPublicMap :: "PlayerComponentLastMap \<Rightarrow> LastWorld option" where
  "GetLastPublicMap c = lm_pPublic c"

definition GetLastDungeon :: "PlayerComponentLastMap \<Rightarrow> LastWorld option" where
  "GetLastDungeon c = lm_pDungeon c"

text \<open>\<open>GetCur\<close>, and the write through the pointer it returns.\<close>

definition GetCur :: "PlayerComponentLastMap \<Rightarrow> LastWorld option" where
  "GetCur c = (case lm_pPublic c of
     None \<Rightarrow> None
   | Some w \<Rightarrow> if lw_WorldId w = lm_curWorldId c then Some w else lm_pDungeon c)"

definition SetCurPosition :: "Vector3 \<Rightarrow> PlayerComponentLastMap \<Rightarrow> PlayerComponentLastMap" where
  "SetCurPosition pos c = (case lm_pPublic c of
     None \<Rightarrow> c
   | Some w \<Rightarrow> if lw_WorldId w = lm_curWorldId c then c\<lparr>lm_pPublic := Some (w\<lparr>lw_Position := pos\<rparr>)\<rparr>
               else c\<lparr>lm_pDungeon := map_option (\<lambda>d. d\<lparr>lw_Position := pos\<rparr>) (lm_pDungeon c)\<rparr>)"

definition EnterDungeon :: "int \<Rightarrow> u64 \<Rightarrow> Vector3 \<Rightarrow> PlayerComponentLastMap \<Rightarrow> PlayerComponentLastMap" where
  "EnterDungeon worldId worldSn position c =
     (let d = (case lm_pDungeon c of Some d \<Rightarrow> d
               | None \<Rightarrow> \<lparr>lw_WorldId = worldId, lw_WorldSn = worldSn, lw_Position = position\<rparr>)
      in c\<lparr>lm_pDungeon := Some (if lw_WorldSn d \<noteq> worldSn
             then d\<lparr>lw_WorldId := worldId, lw_WorldSn := worldSn, lw_Position := position\<rparr> else d)\<rparr>)"

definition LastMap_EnterWorld :: "ResourceWorldMgr \<Rightarrow> int \<Rightarrow> u64 \<Rightarrow> PlayerComponentLastMap
    \<Rightarrow> PlayerComponentLastMap option" where
  "LastMap_EnterWorld worlds worldId worldSn c = do {
     pWorldRes \<leftarrow> GetResource worlds worldId;
     let c1 = c\<lparr>lm_curWorldId := worldId\<rparr>;
     (if IsType pWorldRes RWT_Public then
        map_option (\<lambda>pLastMap. c1\<lparr>lm_pPublic := Some (if lw_WorldId pLastMap = worldId
             then pLastMap\<lparr>lw_WorldId := worldId, lw_WorldSn := worldSn\<rparr>
             else pLastMap\<lparr>lw_WorldId := worldId, lw_WorldSn := worldSn, lw_Position := rw_initPosition pWorldRes\<rparr>)\<rparr>)
          (GetLastPublicMap c1)
      else Some (EnterDungeon worldId worldSn (rw_initPosition pWorldRes) c1)) }"

definition SetCurWorld :: "int \<Rightarrow> PlayerComponentLastMap \<Rightarrow> PlayerComponentLastMap" where
  "SetCurWorld worldId c = c\<lparr>lm_curWorldId := worldId\<rparr>"

section \<open>\<open>PlayerComponentOnlineInGame\<close>\<close>

record PlayerComponentOnlineInGame =
  og_account :: string
  og_onlineVersion :: int
  og_isReadFromeDB :: bool

definition OnlineInGame_ParserFromProto :: "Player_proto \<Rightarrow> PlayerComponentOnlineInGame \<Rightarrow> PlayerComponentOnlineInGame" where
  "OnlineInGame_ParserFromProto proto c =
     (if \<not> og_isReadFromeDB c then c
      else let version = pm_online_version (pp_misc proto)
           in if og_onlineVersion c < version then c\<lparr>og_onlineVersion := version\<rparr> else c)"

definition OnlineInGame_Awake_version :: "string \<Rightarrow> int \<Rightarrow> PlayerComponentOnlineInGame" where
  "OnlineInGame_Awake_version account version =
     \<lparr>og_account = account, og_onlineVersion = version, og_isReadFromeDB = False\<rparr>"

definition OnlineInGame_Awake :: "string \<Rightarrow> Player_proto \<Rightarrow> PlayerComponentOnlineInGame" where
  "OnlineInGame_Awake account proto =
     (let c = OnlineInGame_ParserFromProto proto \<lparr>og_account = account, og_onlineVersion = 0, og_isReadFromeDB = True\<rparr>
      in c\<lparr>og_onlineVersion := og_onlineVersion c + 1\<rparr>)"

definition OnlineInGame_BackToPool :: "PlayerComponentOnlineInGame \<Rightarrow> send list" where
  "OnlineInGame_BackToPool c =
     [Dispatch MI_PlayerDeleteOnlineToRedis (P_PlayerDeleteOnlineToRedis (og_account c) (og_onlineVersion c)) None]"

definition SetOnlineFlag :: "PlayerComponentOnlineInGame \<Rightarrow> send list" where
  "SetOnlineFlag c =
     [Dispatch MI_PlayerSyncOnlineToRedis (P_PlayerSyncOnlineToRedis (og_account c) (og_onlineVersion c)) None]"

definition OnlineInGame_SerializeToProto :: "PlayerComponentOnlineInGame \<Rightarrow> Player_proto \<Rightarrow> Player_proto" where
  "OnlineInGame_SerializeToProto c pProto =
     pProto\<lparr>pp_misc := (pp_misc pProto)\<lparr>pm_online_version := og_onlineVersion c\<rparr>\<rparr>"

section \<open>Components of the login process\<close>

record PlayerComponentAccount =
  pa_password :: string
  pa_selectPlayerSn :: u64
  pa_lastGameId :: int

definition AccountC_Awake :: "string \<Rightarrow> PlayerComponentAccount" where
  "AccountC_Awake password = \<lparr>pa_password = password, pa_selectPlayerSn = 0, pa_lastGameId = INVALID_ID\<rparr>"

definition SetSelectPlayerSn :: "u64 \<Rightarrow> PlayerComponentAccount \<Rightarrow> PlayerComponentAccount" where
  "SetSelectPlayerSn sn c = c\<lparr>pa_selectPlayerSn := sn\<rparr>"

text \<open>\<open>PlayerComponentOnlineInLogin\<close> holds the account.\<close>

definition OnlineInLogin_BackToPool :: "string \<Rightarrow> send list" where
  "OnlineInLogin_BackToPool account = [Dispatch MI_AccountDeleteOnlineToRedis (P_AccountDeleteOnlineToRedis account) None]"

definition OnlineInLogin_SetOnlineFlag :: "string \<Rightarrow> send list" where
  "OnlineInLogin_SetOnlineFlag account = [Dispatch MI_AccountSyncOnlineToRedis (P_AccountSyncOnlineToRedis account) None]"

text \<open>\<open>PlayerComponentProtoList\<close>: the players of an account, each as the message that was received.\<close>

type_synonym proto_list = "(u64, PlayerLittle) smap"

fun ProtoList_Parse :: "PlayerLittle list \<Rightarrow> proto_list \<Rightarrow> proto_list" where
  "ProtoList_Parse [] protos = protos"
| "ProtoList_Parse (p # ps) protos = ProtoList_Parse ps (sm_assign (pl_sn p) p protos)"

definition GetProto :: "u64 \<Rightarrow> proto_list \<Rightarrow> PlayerLittle option" where
  "GetProto playerSn protos = sm_find protos playerSn"

section \<open>\<open>MoveComponent\<close>\<close>

record MoveVector3 =
  mv_Target :: Vector3
  mv_ScaleX :: float32
  mv_ScaleZ :: float32

record MoveComponent =
  mc_targets :: "Vector3 list"
  mc_vector3 :: MoveVector3

definition MoveComponent_new :: MoveComponent where
  "MoveComponent_new = \<lparr>mc_targets = [], mc_vector3 = \<lparr>mv_Target = Vector3_Zero, mv_ScaleX = 0, mv_ScaleZ = 0\<rparr>\<rparr>"

text \<open>An object of the pool keeps its last \<open>_vector3\<close>.\<close>

definition MoveComponent_Awake :: "MoveComponent \<Rightarrow> MoveComponent" where
  "MoveComponent_Awake c = c\<lparr>mc_targets := []\<rparr>"

definition MoveComponent_BackToPool :: "MoveComponent \<Rightarrow> MoveComponent" where
  "MoveComponent_BackToPool c = c\<lparr>mc_targets := []\<rparr>"

section \<open>\<open>class Player\<close>\<close>

text \<open>The attached components, at most one of each class.\<close>

record Player =
  py_identify :: NetIdentify
  py_account :: string
  py_name :: string
  py_playerSn :: u64
  py_player :: Player_proto
  py_lastMap :: "PlayerComponentLastMap option"
  py_gender :: "int option"
  py_onlineGame :: "PlayerComponentOnlineInGame option"
  py_token :: "string option"
  py_accountC :: "PlayerComponentAccount option"
  py_onlineLogin :: "string option"
  py_protoList :: "proto_list option"
  py_move :: "MoveComponent option"

definition Player_free :: Player where
  "Player_free = \<lparr>py_identify = NetIdentify_new, py_account = '''', py_name = '''', py_playerSn = 0,
     py_player = Player_default, py_lastMap = None, py_gender = None, py_onlineGame = None, py_token = None,
     py_accountC = None, py_onlineLogin = None, py_protoList = None, py_move = None\<rparr>"

definition Player_Awake_account :: "NetIdentify \<Rightarrow> string \<Rightarrow> Player \<times> send list" where
  "Player_Awake_account pIdentify account =
     (let p = Player_free\<lparr>py_account := account,
            py_identify := \<lparr>ni_socketKey = SocketKey_CopyFrom (ni_socketKey pIdentify) SocketKey_None,
                            ni_tagKey = AddTag_str TagAccount account []\<rparr>\<rparr>
      in (p, [Dispatch MI_NetworkListenKey P_None (Some (py_identify p))]))"

definition Player_Awake_sn :: "NetIdentify \<Rightarrow> u64 \<Rightarrow> u64 \<Rightarrow> Player" where
  "Player_Awake_sn pIdentify playerSn worldSn =
     Player_free\<lparr>py_playerSn := playerSn,
       py_identify := \<lparr>ni_socketKey = SocketKey_CopyFrom (ni_socketKey pIdentify) SocketKey_None,
                       ni_tagKey = AddTag_int TagEntity worldSn (AddTag_int TagPlayer playerSn [])\<rparr>\<rparr>"

definition Player_ParseFromStream :: "u64 \<Rightarrow> Player_proto \<Rightarrow> Player \<Rightarrow> Player" where
  "Player_ParseFromStream playerSn proto p = p\<lparr>py_playerSn := playerSn, py_player := proto\<rparr>"

text \<open>\<open>ParserFromProto\<close> also reads the message into every attached \<open>PlayerComponent\<close>.\<close>

definition Player_ParserFromProto :: "ResourceWorldMgr \<Rightarrow> u64 \<Rightarrow> Player_proto \<Rightarrow> Player \<Rightarrow> Player option" where
  "Player_ParserFromProto worlds playerSn proto p = do {
     let p1 = p\<lparr>py_playerSn := playerSn, py_player := proto, py_name := pp_name proto\<rparr>;
     lm \<leftarrow> (case py_lastMap p1 of None \<Rightarrow> Some None | Some c \<Rightarrow> map_option Some (LastMap_ParserFromProto worlds proto c));
     Some (p1\<lparr>py_lastMap := lm,
              py_gender := map_option (\<lambda>_. pb_gender (pp_base proto)) (py_gender p1),
              py_onlineGame := map_option (OnlineInGame_ParserFromProto proto) (py_onlineGame p1)\<rparr>) }"

definition Player_SerializeToProto :: "Player \<Rightarrow> Player_proto" where
  "Player_SerializeToProto p =
     (let m = py_player p;
          m1 = (case py_lastMap p of None \<Rightarrow> m | Some c \<Rightarrow> LastMap_SerializeToProto c m)
      in case py_onlineGame p of None \<Rightarrow> m1 | Some c \<Rightarrow> OnlineInGame_SerializeToProto c m1)"

text \<open>\<open>AddComponent\<close> returns a null pointer when the class is attached already.\<close>

definition Add_LastMap :: "ResourceWorldMgr \<Rightarrow> Player \<Rightarrow> Player option" where
  "Add_LastMap worlds p = (case py_lastMap p of
     Some _ \<Rightarrow> None
   | None \<Rightarrow> map_option (\<lambda>c. p\<lparr>py_lastMap := Some c\<rparr>) (LastMap_ParserFromProto worlds (py_player p) LastMap_new))"

definition Add_Detail :: "Player \<Rightarrow> Player" where
  "Add_Detail p = (case py_gender p of
     Some _ \<Rightarrow> p | None \<Rightarrow> p\<lparr>py_gender := Some (pb_gender (pp_base (py_player p)))\<rparr>)"

definition Add_OnlineInGame :: "PlayerComponentOnlineInGame \<Rightarrow> Player \<Rightarrow> Player" where
  "Add_OnlineInGame c p = (case py_onlineGame p of Some _ \<Rightarrow> p | None \<Rightarrow> p\<lparr>py_onlineGame := Some c\<rparr>)"

definition Add_Token :: "string \<Rightarrow> Player \<Rightarrow> Player" where
  "Add_Token token p = (case py_token p of Some _ \<Rightarrow> p | None \<Rightarrow> p\<lparr>py_token := Some token\<rparr>)"

definition Add_Account :: "string \<Rightarrow> Player \<Rightarrow> Player" where
  "Add_Account password p = (case py_accountC p of Some _ \<Rightarrow> p | None \<Rightarrow> p\<lparr>py_accountC := Some (AccountC_Awake password)\<rparr>)"

definition Add_OnlineInLogin :: "string \<Rightarrow> Player \<Rightarrow> Player" where
  "Add_OnlineInLogin account p = (case py_onlineLogin p of Some _ \<Rightarrow> p | None \<Rightarrow> p\<lparr>py_onlineLogin := Some account\<rparr>)"

text \<open>What a player's components send when the entity system takes it back.\<close>

definition Player_release :: "Player \<Rightarrow> send list" where
  "Player_release p =
     (case py_onlineGame p of None \<Rightarrow> [] | Some c \<Rightarrow> OnlineInGame_BackToPool c) @
     (case py_onlineLogin p of None \<Rightarrow> [] | Some a \<Rightarrow> OnlineInLogin_BackToPool a)"

text \<open>\<open>strncmp(_token, token, _token.length()) == 0\<close>, on C strings.\<close>

fun strncmp_eq :: "string \<Rightarrow> string \<Rightarrow> nat \<Rightarrow> bool" where
  "strncmp_eq a b 0 = True"
| "strncmp_eq [] [] (Suc n) = True"
| "strncmp_eq (x # a) (y # b) (Suc n) = (x = y \<and> strncmp_eq a b n)"
| "strncmp_eq a b (Suc n) = False"

definition c_str :: "string \<Rightarrow> string" where
  "c_str s = takeWhile (\<lambda>c. c \<noteq> CHR 0x00) s"

definition IsTokenValid :: "string \<Rightarrow> string \<Rightarrow> bool" where
  "IsTokenValid own token = strncmp_eq (c_str own) (c_str token) (length own)"

section \<open>\<open>PlayerCollectorComponent\<close>\<close>

record PlayerCollectorComponent =
  pc_players :: "(socket, Player) smap"
  pc_accounts :: "(string, socket) smap"
  pc_released :: "Player list"

definition PlayerCollector_new :: PlayerCollectorComponent where
  "PlayerCollector_new = \<lparr>pc_players = [], pc_accounts = [], pc_released = []\<rparr>"

definition PlayerCollector_BackToPool :: "PlayerCollectorComponent \<Rightarrow> PlayerCollectorComponent" where
  "PlayerCollector_BackToPool c =
     c\<lparr>pc_released := pc_released c @ map snd (pc_players c), pc_accounts := [], pc_players := []\<rparr>"

abbreviation socket_of :: "Player \<Rightarrow> socket" where
  "socket_of p \<equiv> sk_Socket (ni_socketKey (py_identify p))"

definition Collector_AddPlayer :: "NetIdentify \<Rightarrow> string \<Rightarrow> PlayerCollectorComponent
    \<Rightarrow> (Player \<times> PlayerCollectorComponent \<times> send list) option" where
  "Collector_AddPlayer pIdentify account c =
     (let socket = sk_Socket (ni_socketKey pIdentify) in
      case sm_find (pc_players c) socket of
        Some _ \<Rightarrow> None
      | None \<Rightarrow> (let (pPlayer, es) = Player_Awake_account pIdentify account
                in Some (pPlayer, c\<lparr>pc_accounts := sm_assign account socket (pc_accounts c),
                                    pc_players := sm_assign socket pPlayer (pc_players c)\<rparr>, es)))"

definition Collector_RemovePlayer :: "Player \<Rightarrow> PlayerCollectorComponent \<Rightarrow> PlayerCollectorComponent" where
  "Collector_RemovePlayer p c =
     c\<lparr>pc_players := sm_erase (socket_of p) (pc_players c), pc_accounts := sm_erase (py_account p) (pc_accounts c),
       pc_released := pc_released c @ [p]\<rparr>"

definition RemovePlayerBySocket :: "socket \<Rightarrow> PlayerCollectorComponent \<Rightarrow> PlayerCollectorComponent" where
  "RemovePlayerBySocket socket c =
     (case sm_find (pc_players c) socket of None \<Rightarrow> c | Some p \<Rightarrow> Collector_RemovePlayer p c)"

definition GetPlayerBySn :: "u64 \<Rightarrow> PlayerCollectorComponent \<Rightarrow> Player option" where
  "GetPlayerBySn playerSn c = map_option snd (sm_find_if (\<lambda>k p. py_playerSn p = playerSn) (pc_players c))"

definition RemovePlayerBySn :: "u64 \<Rightarrow> PlayerCollectorComponent \<Rightarrow> PlayerCollectorComponent" where
  "RemovePlayerBySn playerSn c =
     (case GetPlayerBySn playerSn c of None \<Rightarrow> c | Some p \<Rightarrow> Collector_RemovePlayer p c)"

definition GetPlayerBySocket :: "socket \<Rightarrow> PlayerCollectorComponent \<Rightarrow> Player option" where
  "GetPlayerBySocket socket c = sm_find (pc_players c) socket"

definition GetPlayerByAccount :: "string \<Rightarrow> PlayerCollectorComponent \<Rightarrow> Player option \<times> PlayerCollectorComponent" where
  "GetPlayerByAccount account c =
     (case sm_find (pc_accounts c) account of
        None \<Rightarrow> (None, c)
      | Some socket \<Rightarrow> (case sm_find (pc_players c) socket of
            None \<Rightarrow> (None, c\<lparr>pc_accounts := sm_erase account (pc_accounts c)\<rparr>)
          | Some p \<Rightarrow> (Some p, c)))"

text \<open>The loop ends when every player is filed under its own socket.\<close>

partial_function (option) RemoveAllPlayerAndCloseConnect :: "PlayerCollectorComponent
    \<Rightarrow> send list \<Rightarrow> (PlayerCollectorComponent \<times> send list) option" where
  "RemoveAllPlayerAndCloseConnect c es =
     (case pc_players c of
        [] \<Rightarrow> Some (c, es)
      | (s, pPlayer) # m \<Rightarrow> RemoveAllPlayerAndCloseConnect (Collector_RemovePlayer pPlayer c)
            (es @ [Dispatch MI_NetworkRequestDisconnect P_None (Some (py_identify pPlayer))]))"

definition OnlineSize :: "PlayerCollectorComponent \<Rightarrow> int" where
  "OnlineSize c = int (length (pc_players c))"

text \<open>A write through a \<open>Player*\<close>.\<close>

definition set_player :: "Player \<Rightarrow> PlayerCollectorComponent \<Rightarrow> PlayerCollectorComponent" where
  "set_player p c = c\<lparr>pc_players := sm_assign (socket_of p) p (pc_players c)\<rparr>"

section \<open>\<open>PlayerManagerComponent\<close>\<close>

record PlayerManagerComponent =
  mg_players :: "(u64, Player) smap"
  mg_released :: "Player list"

definition Manager_AddPlayer :: "u64 \<Rightarrow> u64 \<Rightarrow> NetIdentify \<Rightarrow> PlayerManagerComponent
    \<Rightarrow> (Player \<times> PlayerManagerComponent) option" where
  "Manager_AddPlayer playerSn worldSn pNetIdentify m =
     (case sm_find (mg_players m) playerSn of
        Some _ \<Rightarrow> None
      | None \<Rightarrow> (let p = Player_Awake_sn pNetIdentify playerSn worldSn
                in Some (p, m\<lparr>mg_players := sm_assign playerSn p (mg_players m)\<rparr>)))"

definition Manager_GetPlayerBySn :: "u64 \<Rightarrow> PlayerManagerComponent \<Rightarrow> Player option" where
  "Manager_GetPlayerBySn playerSn m = sm_find (mg_players m) playerSn"

definition Manager_RemovePlayerBySn :: "u64 \<Rightarrow> PlayerManagerComponent \<Rightarrow> PlayerManagerComponent" where
  "Manager_RemovePlayerBySn playerSn m =
     (case sm_find (mg_players m) playerSn of
        None \<Rightarrow> m
      | Some p \<Rightarrow> m\<lparr>mg_players := sm_erase playerSn (mg_players m), mg_released := mg_released m @ [p]\<rparr>)"

definition save_player :: "Player \<Rightarrow> send" where
  "save_player p = ToApp G2DB_SavePlayer (P_SavePlayer (py_playerSn p) (Player_SerializeToProto p)) APP_DB_MGR 0"

fun RemoveAllPlayers :: "NetIdentify \<Rightarrow> (u64, Player) smap \<Rightarrow> (u64, Player) smap \<times> Player list \<times> send list" where
  "RemoveAllPlayers pNetIdentify [] = ([], [], [])"
| "RemoveAllPlayers pNetIdentify ((sn, p) # iter) =
     (let (m, ps, es) = RemoveAllPlayers pNetIdentify iter in
      if socket_of p \<noteq> sk_Socket (ni_socketKey pNetIdentify) then ((sn, p) # m, ps, es)
      else (m, p # ps, save_player p # es))"

definition Manager_RemoveAllPlayers :: "NetIdentify \<Rightarrow> PlayerManagerComponent \<Rightarrow> PlayerManagerComponent \<times> send list" where
  "Manager_RemoveAllPlayers pNetIdentify m =
     (let (pls, ps, es) = RemoveAllPlayers pNetIdentify (mg_players m)
      in (m\<lparr>mg_players := pls, mg_released := mg_released m @ ps\<rparr>, es))"

definition Manager_OnlineSize :: "PlayerManagerComponent \<Rightarrow> int" where
  "Manager_OnlineSize m = int (length (mg_players m))"

definition Manager_set_player :: "u64 \<Rightarrow> Player \<Rightarrow> PlayerManagerComponent \<Rightarrow> PlayerManagerComponent" where
  "Manager_set_player sn p m = m\<lparr>mg_players := sm_assign sn p (mg_players m)\<rparr>"

section \<open>Facts about players\<close>

lemma strncmp_eq_prefix: "strncmp_eq a b (length a) \<longleftrightarrow> take (length a) b = a"
proof (induction a arbitrary: b)
  case (Cons x a)
  then show ?case by (cases b) auto
qed simp

lemma c_str_id: "CHR 0x00 \<notin> set s \<Longrightarrow> c_str s = s"
  unfolding c_str_def by (rule takeWhile_eq_all_conv [THEN iffD2]) auto

text \<open>The comparison runs over the length of the client's own token.\<close>

lemma IsTokenValid_prefix:
  assumes "CHR 0x00 \<notin> set own" "CHR 0x00 \<notin> set token"
  shows "IsTokenValid own token \<longleftrightarrow> (\<exists>rest. token = own @ rest)"
proof -
  have "take (length own) token = own \<longleftrightarrow> (\<exists>rest. token = own @ rest)"
    by (metis append_eq_conv_conj append_take_drop_id)
  then show ?thesis using assms by (simp add: IsTokenValid_def c_str_id strncmp_eq_prefix)
qed

lemma IsTokenValid_empty [simp]: "IsTokenValid '''' token"
  by (simp add: IsTokenValid_def)

text \<open>The version of the online flag grows by one with each teleport.\<close>

lemma OnlineInGame_version:
  assumes "py_onlineGame p = Some c" "0 \<le> og_onlineVersion c"
  shows "og_onlineVersion (OnlineInGame_Awake account (Player_SerializeToProto p)) = og_onlineVersion c + 1"
  using assms
  by (auto simp: OnlineInGame_Awake_def OnlineInGame_ParserFromProto_def Player_SerializeToProto_def
      OnlineInGame_SerializeToProto_def Let_def)

section \<open>The two indices of \<open>PlayerCollectorComponent\<close>\<close>

definition collector_inv :: "PlayerCollectorComponent \<Rightarrow> bool" where
  "collector_inv c \<longleftrightarrow> sm_wf (pc_players c) \<and> sm_wf (pc_accounts c)
     \<and> (\<forall>s p. sm_find (pc_players c) s = Some p \<longrightarrow> socket_of p = s)
     \<and> (\<forall>a s. sm_find (pc_accounts c) a = Some s \<longrightarrow> (\<exists>p. sm_find (pc_players c) s = Some p \<and> py_account p = a))"

lemma collector_inv_new [simp]: "collector_inv PlayerCollector_new"
  by (simp add: collector_inv_def PlayerCollector_new_def)

lemma Player_Awake_account_fields [simp]:
  "py_account (fst (Player_Awake_account i a)) = a"
  "ni_socketKey (py_identify (fst (Player_Awake_account i a))) = ni_socketKey i"
  by (simp_all add: Player_Awake_account_def Player_free_def Let_def)

lemma Collector_AddPlayer_Some:
  "Collector_AddPlayer i a c = Some (p, c', es) \<longleftrightarrow>
     sm_find (pc_players c) (sk_Socket (ni_socketKey i)) = None \<and> p = fst (Player_Awake_account i a)
     \<and> es = snd (Player_Awake_account i a)
     \<and> c' = c\<lparr>pc_accounts := sm_assign a (sk_Socket (ni_socketKey i)) (pc_accounts c),
              pc_players := sm_assign (sk_Socket (ni_socketKey i)) p (pc_players c)\<rparr>"
  by (auto simp: Collector_AddPlayer_def Let_def split_beta split: option.splits)

lemma collector_inv_Add [wf_intros]:
  assumes "collector_inv c" "Collector_AddPlayer i a c = Some (p, c', es)"
  shows "collector_inv c' \<and> py_account p = a \<and> socket_of p = sk_Socket (ni_socketKey i)
    \<and> sm_find (pc_players c') (sk_Socket (ni_socketKey i)) = Some p"
proof -
  have other: "s \<noteq> sk_Socket (ni_socketKey i)" if "sm_find (pc_accounts c) b = Some s" for b s
    using that assms by (fastforce simp: collector_inv_def Collector_AddPlayer_Some)
  then show ?thesis using assms by (auto simp: collector_inv_def Collector_AddPlayer_Some)
qed

lemma collector_inv_Remove [wf_intros]:
  assumes "collector_inv c" "sm_find (pc_players c) s = Some p"
  shows "collector_inv (Collector_RemovePlayer p c)"
proof -
  have "socket_of p = s" using assms by (auto simp: collector_inv_def)
  moreover have "s' \<noteq> s" if "sm_find (pc_accounts c) a = Some s'" "a \<noteq> py_account p" for a s'
    using that assms by (fastforce simp: collector_inv_def)
  ultimately show ?thesis using assms by (auto simp: collector_inv_def Collector_RemovePlayer_def)
qed

lemma GetPlayerBySn_find:
  assumes "collector_inv c" "GetPlayerBySn sn c = Some p"
  shows "sm_find (pc_players c) (socket_of p) = Some p \<and> py_playerSn p = sn"
proof -
  obtain s where "sm_find_if (\<lambda>k p. py_playerSn p = sn) (pc_players c) = Some (s, p)"
    using assms(2) by (auto simp: GetPlayerBySn_def)
  then have "(s, p) \<in> set (pc_players c)" "py_playerSn p = sn" by (auto dest: sm_find_if_Some)
  moreover have "sm_find (pc_players c) s = Some p"
    using assms(1) calculation(1) by (subst sm_find_in_set [symmetric]) (simp_all add: collector_inv_def)
  ultimately show ?thesis using assms(1) by (auto simp: collector_inv_def)
qed

lemma collector_inv_BySocket [wf_intros]: "collector_inv c \<Longrightarrow> collector_inv (RemovePlayerBySocket s c)"
  by (auto simp: RemovePlayerBySocket_def split: option.splits intro: collector_inv_Remove)

lemma collector_inv_BySn [wf_intros]: "collector_inv c \<Longrightarrow> collector_inv (RemovePlayerBySn sn c)"
  by (auto simp: RemovePlayerBySn_def split: option.splits intro: collector_inv_Remove dest: GetPlayerBySn_find)

lemma collector_inv_set [wf_intros]:
  assumes "collector_inv c" "sm_find (pc_players c) (socket_of p') = Some p" "py_account p' = py_account p"
  shows "collector_inv (set_player p' c)"
  using assms by (auto simp: collector_inv_def set_player_def) (metis option.inject)

lemma GetPlayerByAccount_inv:
  assumes "collector_inv c" "GetPlayerByAccount a c = (r, c')"
  shows "c' = c \<and> (\<forall>p. r = Some p \<longrightarrow> py_account p = a \<and> sm_find (pc_players c) (socket_of p) = Some p)"
  using assms by (auto simp: GetPlayerByAccount_def collector_inv_def split: option.splits) (metis option.inject option.distinct(1))+

lemma RemoveAll_total:
  "collector_inv c \<Longrightarrow>
   \<exists>c'. RemoveAllPlayerAndCloseConnect c es = Some (c', es @ map (\<lambda>(s, p). Dispatch MI_NetworkRequestDisconnect P_None
       (Some (py_identify p))) (pc_players c)) \<and> pc_players c' = []
     \<and> pc_released c' = pc_released c @ map snd (pc_players c) \<and> collector_inv c'"
proof (induction "pc_players c" arbitrary: c es)
  case Nil
  then show ?case by (subst RemoveAllPlayerAndCloseConnect.simps) simp
next
  case (Cons q m)
  obtain s p where q: "q = (s, p)" by (cases q)
  have find: "sm_find (pc_players c) s = Some p" using Cons.hyps(2) q by (simp flip: Cons.hyps(2))
  have sock: "socket_of p = s" using Cons.prems find by (auto simp: collector_inv_def)
  let ?c1 = "Collector_RemovePlayer p c"
  have "sm_wf ((s, p) # m)" using Cons.prems Cons.hyps(2) q by (simp add: collector_inv_def)
  then have "sm_erase s (pc_players c) = m"
    using Cons.hyps(2) q by (auto simp: sm_erase_def sm_wf_Cons filter_id_conv simp flip: Cons.hyps(2))
  then have m: "m = pc_players ?c1" using sock by (simp add: Collector_RemovePlayer_def)
  have inv: "collector_inv ?c1" using collector_inv_Remove [OF Cons.prems find] .
  have rel: "pc_released ?c1 = pc_released c @ [p]" by (simp add: Collector_RemovePlayer_def)
  show ?case
    using Cons.hyps(1) [OF m inv, of "es @ [Dispatch MI_NetworkRequestDisconnect P_None (Some (py_identify p))]"] rel
      Cons.hyps(2) q m
    by (subst RemoveAllPlayerAndCloseConnect.simps) (simp flip: Cons.hyps(2))
qed

text \<open>What handlers may do with a collector.\<close>

inductive collector_reach :: "PlayerCollectorComponent \<Rightarrow> bool" where
  Init: "collector_reach PlayerCollector_new"
| Add: "collector_reach c \<Longrightarrow> Collector_AddPlayer i a c = Some (p, c', es) \<Longrightarrow> collector_reach c'"
| BySocket: "collector_reach c \<Longrightarrow> collector_reach (RemovePlayerBySocket s c)"
| BySn: "collector_reach c \<Longrightarrow> collector_reach (RemovePlayerBySn sn c)"
| Lookup: "collector_reach c \<Longrightarrow> GetPlayerByAccount a c = (r, c') \<Longrightarrow> collector_reach c'"
| Write: "collector_reach c \<Longrightarrow> sm_find (pc_players c) (socket_of p') = Some p \<Longrightarrow> py_account p' = py_account p
    \<Longrightarrow> collector_reach (set_player p' c)"
| Close: "collector_reach c \<Longrightarrow> RemoveAllPlayerAndCloseConnect c es = Some (c', es') \<Longrightarrow> collector_reach c'"
| Back: "collector_reach c \<Longrightarrow> collector_reach (PlayerCollector_BackToPool c)"

lemma collector_reach_inv: "collector_reach c \<Longrightarrow> collector_inv c"
proof (induction rule: collector_reach.induct)
  case (Add c i a p c' es)
  then show ?case using collector_inv_Add by blast
next
  case (Lookup c a r c')
  then show ?case using GetPlayerByAccount_inv by blast
next
  case (Close c es c' es')
  then show ?case using RemoveAll_total [of c es] by auto
next
  case (Back c)
  then show ?case by (simp add: collector_inv_def PlayerCollector_BackToPool_def)
qed (auto intro: wf_intros)

section \<open>Properties\<close>


text \<open>An account that comes on a second socket while the first is still filed: when the first one
  is removed, the account's entry goes with it, and the second player cannot be found by its
  account although it is online.\<close>

theorem PlayerCollector_account_lost:
  assumes "collector_inv c" and "GetPlayerByAccount a c = (Some p, c)"
    and "Collector_AddPlayer i a c = Some (q, c1, es)"
  shows "fst (GetPlayerByAccount a (RemovePlayerBySocket (socket_of p) c1)) = None
    \<and> GetPlayerBySocket (sk_Socket (ni_socketKey i)) (RemovePlayerBySocket (socket_of p) c1) = Some q"
proof -
  have p: "py_account p = a" "sm_find (pc_players c) (socket_of p) = Some p"
    using GetPlayerByAccount_inv [OF assms(1,2)] by auto
  have "socket_of p \<noteq> sk_Socket (ni_socketKey i)"
    using assms(3) p(2) by (auto simp: Collector_AddPlayer_Some)
  moreover have "pc_players c1 = sm_assign (sk_Socket (ni_socketKey i)) q (pc_players c)"
    using assms(3) by (simp add: Collector_AddPlayer_Some)
  ultimately show ?thesis using p
    by (simp add: RemovePlayerBySocket_def Collector_RemovePlayer_def GetPlayerByAccount_def GetPlayerBySocket_def)
qed

section \<open>Instances\<close>

definition sample_client :: "socket \<Rightarrow> NetIdentify" where
  "sample_client s = \<lparr>ni_socketKey = \<lparr>sk_Socket = s, sk_NetType = TcpListen\<rparr>, ni_tagKey = []\<rparr>"

definition sample_collector1 :: PlayerCollectorComponent where
  "sample_collector1 = PlayerCollector_new\<lparr>pc_accounts := [(''bob'', 5)],
     pc_players := [(5, fst (Player_Awake_account (sample_client 5) ''bob''))]\<rparr>"

lemma sample_collector1_add:
  "Collector_AddPlayer (sample_client 5) ''bob'' PlayerCollector_new =
     Some (fst (Player_Awake_account (sample_client 5) ''bob''), sample_collector1,
           snd (Player_Awake_account (sample_client 5) ''bob''))"
  by (simp add: Collector_AddPlayer_Some sample_collector1_def sample_client_def PlayerCollector_new_def)


end
