(* ===== verification/Game_Worlds.thy ===== *)
theory Game_Worlds
  imports Sync_Apps Players
begin

text \<open>
  \<open>apps/game\<close>: the directory of world proxies (\<open>world_proxy_locator.cpp\<close>), the teleport of a
  player from one world to another (\<open>teleport_object.h\<close>, \<open>world_component_teleport.cpp\<close>,
  \<open>world_proxy_help.cpp\<close>), the proxy of a world (\<open>world_proxy.cpp\<close>), the lobby (\<open>lobby.cpp\<close>) and
  the count of players (\<open>world_proxy_gather.cpp\<close>). \<open>None\<close> is a null pointer that is followed, or a
  loop that does not end.
\<close>

section \<open>\<open>class WorldProxyLocator\<close>\<close>

record WorldProxyLocator =
  wl_publics :: "(int, u64) smap"
  wl_worlds :: "u64 sset"

definition WorldProxyLocator_BackToPool :: "WorldProxyLocator \<Rightarrow> WorldProxyLocator" where
  "WorldProxyLocator_BackToPool l = l\<lparr>wl_publics := [], wl_worlds := []\<rparr>"

definition ProxyLocator_RegisterToLocator :: "ResourceWorldMgr \<Rightarrow> int \<Rightarrow> u64 \<Rightarrow> WorldProxyLocator \<Rightarrow> WorldProxyLocator option" where
  "ProxyLocator_RegisterToLocator worlds worldId worldSn l = do {
     mapConfig \<leftarrow> GetResource worlds worldId;
     let l1 = (if IsType mapConfig RWT_Public then l\<lparr>wl_publics := sm_assign worldId worldSn (wl_publics l)\<rparr> else l);
     Some (l1\<lparr>wl_worlds := ss_insert worldSn (wl_worlds l1)\<rparr>) }"

definition ProxyLocator_Remove :: "int \<Rightarrow> u64 \<Rightarrow> WorldProxyLocator \<Rightarrow> WorldProxyLocator" where
  "ProxyLocator_Remove worldId worldSn l =
     l\<lparr>wl_publics := sm_erase worldId (wl_publics l), wl_worlds := ss_erase worldSn (wl_worlds l)\<rparr>"

definition IsExistDungeon :: "u64 \<Rightarrow> WorldProxyLocator \<Rightarrow> bool" where
  "IsExistDungeon mspSn l = (mspSn \<in> set (wl_worlds l))"

abbreviation (input) INVALID_SN :: u64 where "INVALID_SN \<equiv> -1"

definition GetWorldSnById :: "int \<Rightarrow> WorldProxyLocator \<Rightarrow> u64" where
  "GetWorldSnById worldId l = (case sm_find (wl_publics l) worldId of None \<Rightarrow> INVALID_SN | Some sn \<Rightarrow> sn)"

text \<open>The proxies to be created: serial number, world, asking world.\<close>

definition ProxyLocator_HandleBroadcastCreateWorld :: "ResourceWorldMgr \<Rightarrow> int \<Rightarrow> u64 \<Rightarrow> u64 \<Rightarrow> WorldProxyLocator
    \<Rightarrow> (u64 \<times> int \<times> u64) list" where
  "ProxyLocator_HandleBroadcastCreateWorld worlds worldId worldSn lastWorldSn l =
     (case GetResource worlds worldId of
        None \<Rightarrow> []
      | Some worldCfg \<Rightarrow>
          if IsType worldCfg RWT_Public then
            (if sm_find (wl_publics l) worldId \<noteq> None then [] else [(worldSn, worldId, lastWorldSn)])
          else (if lastWorldSn \<notin> set (wl_worlds l) then [] else [(worldSn, worldId, lastWorldSn)]))"

section \<open>The state of a game process\<close>

record GameGlobals =
  gg_worlds :: ResourceWorldMgr
  gg_locator :: WorldProxyLocator
  gg_spaces :: apps
  gg_sockets :: SocketLocator
  gg_appType :: app_type
  gg_appId :: int

text \<open>\<open>WorldProxyHelp::Teleport\<close>.\<close>

definition WorldProxyHelp_Teleport :: "Player \<Rightarrow> u64 \<Rightarrow> u64 \<Rightarrow> send" where
  "WorldProxyHelp_Teleport pPlayer lastWorldSn targetWorldSn =
     Dispatch MI_Teleport
       (P_Teleport lastWorldSn (py_playerSn pPlayer) (py_account pPlayer) (Player_SerializeToProto pPlayer))
       (Some \<lparr>ni_socketKey = SocketKey_CopyFrom (ni_socketKey (py_identify pPlayer)) SocketKey_None,
              ni_tagKey = AddTag_int TagEntity targetWorldSn []\<rparr>)"

section \<open>\<open>class TeleportObject\<close>\<close>

datatype TeleportFlagType = TF_None | TF_Waiting | TF_Completed

record 'a TeleportFlag =
  tf_Flag :: TeleportFlagType
  tf_Value :: 'a

definition SetValue :: "'a \<Rightarrow> 'a TeleportFlag \<Rightarrow> 'a TeleportFlag" where
  "SetValue v f = f\<lparr>tf_Value := v, tf_Flag := TF_Completed\<rparr>"

definition IsCompleted :: "'a TeleportFlag \<Rightarrow> bool" where
  "IsCompleted f = (tf_Flag f = TF_Completed)"

record TeleportObject =
  to_FlagWorld :: "u64 TeleportFlag"
  to_FlagPlayerSync :: "bool TeleportFlag"
  to_targetWorldId :: int
  to_playerSn :: u64

definition TeleportObject_Awake :: "int \<Rightarrow> u64 \<Rightarrow> TeleportObject" where
  "TeleportObject_Awake worldId playerSn =
     \<lparr>to_FlagWorld = \<lparr>tf_Flag = TF_None, tf_Value = 0\<rparr>, to_FlagPlayerSync = \<lparr>tf_Flag = TF_None, tf_Value = False\<rparr>,
      to_targetWorldId = worldId, to_playerSn = playerSn\<rparr>"

section \<open>\<open>class WorldProxy\<close>: state and messages to the world\<close>

record WorldProxy =
  wp_worldId :: int
  wp_sn :: u64
  wp_spaceAppId :: int
  wp_collector :: PlayerCollectorComponent
  wp_objects :: "(u64, TeleportObject) smap"
  wp_removed :: bool

definition world_tags :: "GameGlobals \<Rightarrow> WorldProxy \<Rightarrow> Player \<Rightarrow> TagKey \<Rightarrow> TagKey" where
  "world_tags g w pPlayer tags =
     (let t = AddTag_int TagEntity (wp_sn w) (AddTag_int TagPlayer (py_playerSn pPlayer) tags)
      in if gg_appType g = APP_ALLINONE then AddTag_int TagToWorld (wp_sn w) t else t)"

definition SendPacketToWorld :: "GameGlobals \<Rightarrow> WorldProxy \<Rightarrow> int \<Rightarrow> app_msg \<Rightarrow> Player \<Rightarrow> send" where
  "SendPacketToWorld g w msgId proto pPlayer =
     ToAppTags msgId proto (world_tags g w pPlayer []) APP_SPACE (wp_spaceAppId w)"

definition CopyPacketToWorld :: "GameGlobals \<Rightarrow> WorldProxy \<Rightarrow> Player \<Rightarrow> out_packet \<Rightarrow> send" where
  "CopyPacketToWorld g w pPlayer pPacket =
     (let pPacketCopy = CreatePacket (out_msgId pPacket) None (out_body pPacket)
      in PacketToApp (pPacketCopy\<lparr>out_tagKey := world_tags g w pPlayer (out_tagKey pPacketCopy)\<rparr>) APP_SPACE (wp_spaceAppId w))"

definition WorldProxy_Awake :: "int \<Rightarrow> u64 \<Rightarrow> u64 \<Rightarrow> GameGlobals \<Rightarrow> (GameGlobals \<times> WorldProxy \<times> send list) option" where
  "WorldProxy_Awake worldId lastWorldSn sn g = do {
     l \<leftarrow> ProxyLocator_RegisterToLocator (gg_worlds g) worldId sn (gg_locator g);
     Some (g\<lparr>gg_locator := l\<rparr>,
           \<lparr>wp_worldId = worldId, wp_sn = sn, wp_spaceAppId = GetAppIdFromSN sn, wp_collector = PlayerCollector_new,
            wp_objects = [], wp_removed = False\<rparr>,
           [Dispatch MI_BroadcastCreateWorldProxy (P_BroadcastCreateWorldProxy worldId sn)
              (if lastWorldSn > 0 then Some (NetIdentify_new\<lparr>ni_tagKey := AddTag_int TagEntity lastWorldSn []\<rparr>) else None)]) }"

definition WorldProxy_GetPlayer :: "NetIdentify \<Rightarrow> WorldProxy \<Rightarrow> Player option" where
  "WorldProxy_GetPlayer pIdentify w =
     (case GetTagValue TagAccount (ni_tagKey pIdentify) of
        Some _ \<Rightarrow> GetPlayerBySocket (sk_Socket (ni_socketKey pIdentify)) (wp_collector w)
      | None \<Rightarrow> (case GetTagValue TagPlayer (ni_tagKey pIdentify) of
            Some t \<Rightarrow> GetPlayerBySn (KeyInt64 t) (wp_collector w)
          | None \<Rightarrow> None))"

section \<open>\<open>class WorldComponentTeleport\<close>\<close>

definition IsTeleporting :: "Player \<Rightarrow> WorldProxy \<Rightarrow> bool" where
  "IsTeleporting pPlayer w = (sm_find (wp_objects w) (py_playerSn pPlayer) \<noteq> None)"

definition CreateWorldFlag :: "GameGlobals \<Rightarrow> WorldProxy \<Rightarrow> int \<Rightarrow> TeleportObject
    \<Rightarrow> (GameGlobals \<times> TeleportObject \<times> send list) option" where
  "CreateWorldFlag g w targetWorldId pObj = do {
     pWorldRes \<leftarrow> GetResource (gg_worlds g) targetWorldId;
     Some (if IsType pWorldRes RWT_Public then
        (let worldSn = GetWorldSnById targetWorldId (gg_locator g) in
         if worldSn = INVALID_SN
         then (g, pObj\<lparr>to_FlagWorld := (to_FlagWorld pObj)\<lparr>tf_Flag := TF_Waiting\<rparr>\<rparr>,
               [ToApp G2M_RequestWorld (P_RequestWorld targetWorldId) APP_APPMGR 0])
         else (g, pObj\<lparr>to_FlagWorld := SetValue worldSn (to_FlagWorld pObj)\<rparr>, []))
      else if IsType pWorldRes RWT_Dungeon then
        (case GetSpaceApp (gg_spaces g) of
           None \<Rightarrow> (g, pObj, [])
         | Some (info, apps1) \<Rightarrow>
             (g\<lparr>gg_spaces := apps1\<rparr>, pObj\<lparr>to_FlagWorld := (to_FlagWorld pObj)\<lparr>tf_Flag := TF_Waiting\<rparr>\<rparr>,
              [ToApp G2S_CreateWorld (P_CreateWorld targetWorldId (wp_sn w) (gg_appId g)) APP_SPACE (ai_AppId info)]))
      else (g, pObj, [])) }"

definition CreateSyncFlag :: "GameGlobals \<Rightarrow> WorldProxy \<Rightarrow> TeleportObject \<Rightarrow> (TeleportObject \<times> send list) option" where
  "CreateSyncFlag g w pObj = do {
     pPlayer \<leftarrow> GetPlayerBySn (to_playerSn pObj) (wp_collector w);
     Some (pObj\<lparr>to_FlagPlayerSync := (to_FlagPlayerSync pObj)\<lparr>tf_Flag := TF_Waiting\<rparr>\<rparr>,
           [SendPacketToWorld g w G2S_RequestSyncPlayer (P_RequestSyncPlayer (to_playerSn pObj)) pPlayer]) }"

definition CreateTeleportObject :: "int \<Rightarrow> Player \<Rightarrow> GameGlobals \<times> WorldProxy
    \<Rightarrow> (GameGlobals \<times> WorldProxy \<times> send list) option" where
  "CreateTeleportObject worldId pPlayer gw = (case gw of (g, w) \<Rightarrow> do {
     let pObj = TeleportObject_Awake worldId (py_playerSn pPlayer);
     (g1, pObj1, es1) \<leftarrow> CreateWorldFlag g w worldId pObj;
     (pObj2, es2) \<leftarrow> CreateSyncFlag g1 w pObj1;
     Some (g1, w\<lparr>wp_objects := sm_insert (py_playerSn pPlayer) pObj2 (wp_objects w)\<rparr>, es1 @ es2) })"

text \<open>\<open>Check\<close> on the object filed under \<open>k\<close>; the object is in the table, so writes go there.\<close>

definition Teleport_Check :: "TeleportObject \<Rightarrow> WorldProxy \<Rightarrow> (bool \<times> WorldProxy \<times> send list) option" where
  "Teleport_Check pObj w =
     (if \<not> IsCompleted (to_FlagPlayerSync pObj) \<or> \<not> IsCompleted (to_FlagWorld pObj) then Some (False, w, [])
      else if tf_Value (to_FlagWorld pObj) = 0 then Some (False, w, [])
      else do {
        pPlayer \<leftarrow> GetPlayerBySn (to_playerSn pObj) (wp_collector w);
        Some (True, w\<lparr>wp_objects := sm_erase (py_playerSn pPlayer) (wp_objects w)\<rparr>,
              [WorldProxyHelp_Teleport pPlayer (wp_sn w) (tf_Value (to_FlagWorld pObj))]) })"

definition set_world :: "u64 \<Rightarrow> u64 \<Rightarrow> TeleportObject \<Rightarrow> WorldProxy \<Rightarrow> TeleportObject \<times> WorldProxy" where
  "set_world k worldSn pObj w =
     (let pObj1 = pObj\<lparr>to_FlagWorld := SetValue worldSn (to_FlagWorld pObj)\<rparr>
      in (pObj1, w\<lparr>wp_objects := sm_assign k pObj1 (wp_objects w)\<rparr>))"

text \<open>The loop for a public world: every waiting player, until none is found.\<close>

partial_function (option) public_loop :: "int \<Rightarrow> u64 \<Rightarrow> WorldProxy \<Rightarrow> send list \<Rightarrow> (WorldProxy \<times> send list) option" where
  "public_loop worldId worldSn w es =
     (case sm_find_if (\<lambda>k t. to_targetWorldId t = worldId) (wp_objects w) of
        None \<Rightarrow> Some (w, es)
      | Some (k, pObj) \<Rightarrow>
          (let (pObj1, w1) = set_world k worldSn pObj w in
           Option.bind (Teleport_Check pObj1 w1) (\<lambda>(b, w2, es2). public_loop worldId worldSn w2 (es @ es2))))"

definition Teleport_HandleBroadcastCreateWorldProxy :: "ResourceWorldMgr \<Rightarrow> int \<Rightarrow> u64 \<Rightarrow> WorldProxy
    \<Rightarrow> (WorldProxy \<times> send list) option" where
  "Teleport_HandleBroadcastCreateWorldProxy worlds worldId worldSn w = do {
     pWorldRes \<leftarrow> GetResource worlds worldId;
     (if IsType pWorldRes RWT_Public then public_loop worldId worldSn w []
      else if IsType pWorldRes RWT_Dungeon then
        (case sm_find_if (\<lambda>k t. to_targetWorldId t = worldId) (wp_objects w) of
           None \<Rightarrow> Some (w, [])
         | Some (k, pObj) \<Rightarrow>
             (let (pObj1, w1) = set_world k worldSn pObj w in
              map_option (\<lambda>(b, w2, es). (w2, es)) (Teleport_Check pObj1 w1)))
      else Some (w, [])) }"

definition BroadcastSyncPlayer :: "u64 \<Rightarrow> WorldProxy \<Rightarrow> (WorldProxy \<times> send list) option" where
  "BroadcastSyncPlayer playerSn w =
     (case sm_find_if (\<lambda>k t. to_playerSn t = playerSn) (wp_objects w) of
        None \<Rightarrow> Some (w, [])
      | Some (k, pObj) \<Rightarrow>
          (let pObj1 = pObj\<lparr>to_FlagPlayerSync := SetValue True (to_FlagPlayerSync pObj)\<rparr> in
           map_option (\<lambda>(b, w2, es). (w2, es))
             (Teleport_Check pObj1 (w\<lparr>wp_objects := sm_assign k pObj1 (wp_objects w)\<rparr>))))"

section \<open>\<open>class WorldProxy\<close>: handlers\<close>

type_synonym proxy_result = "(GameGlobals \<times> WorldProxy \<times> send list) option"

abbreviation (input) src_identify :: "out_packet \<Rightarrow> NetIdentify" where
  "src_identify p \<equiv> \<lparr>ni_socketKey = out_socketKey p, ni_tagKey = out_tagKey p\<rparr>"

definition HandleDefaultFunction :: "out_packet \<Rightarrow> GameGlobals \<times> WorldProxy \<Rightarrow> send list" where
  "HandleDefaultFunction pPacket gw = (case gw of (g, w) \<Rightarrow>
     (let (isToClient, found) = (case GetTagValue TagPlayer (out_tagKey pPacket) of
            Some t \<Rightarrow> (True, GetPlayerBySn (KeyInt64 t) (wp_collector w))
          | None \<Rightarrow> (False, GetPlayerBySocket (sk_Socket (out_socketKey pPacket)) (wp_collector w)))
      in case found of
           None \<Rightarrow> []
         | Some pPlayer \<Rightarrow>
             if isToClient then [Packet (CreatePacket (out_msgId pPacket) (Some (py_identify pPlayer)) (out_body pPacket))]
             else [CopyPacketToWorld g w pPlayer pPacket]))"

definition WorldProxy_HandleNetworkDisconnect :: "NetIdentify \<Rightarrow> GameGlobals \<times> WorldProxy \<Rightarrow> proxy_result" where
  "WorldProxy_HandleNetworkDisconnect pPacket gw = (case gw of (g, w) \<Rightarrow>
     (if \<not> IsTcp (sk_NetType (ni_socketKey pPacket)) then Some (g, w, [])
      else case GetTagValue TagAccount (ni_tagKey pPacket) of
        Some _ \<Rightarrow>
          (case GetPlayerBySocket (sk_Socket (ni_socketKey pPacket)) (wp_collector w) of
             None \<Rightarrow> Some (g, w, [])
           | Some pPlayer \<Rightarrow>
               Some (g, w\<lparr>wp_collector := RemovePlayerBySocket (sk_Socket (ni_socketKey pPacket)) (wp_collector w)\<rparr>,
                     [SendPacketToWorld g w MI_NetworkDisconnect P_None pPlayer]))
      | None \<Rightarrow>
          (case GetTagValue TagApp (ni_tagKey pPacket) of
             None \<Rightarrow> Some (g, w, [])
           | Some pTagApp \<Rightarrow>
               (let appKey = KeyInt64 pTagApp; appType = GetTypeFromAppKey appKey; appId = GetIdFromAppKey appKey in
                if appType \<noteq> APP_SPACE \<or> wp_spaceAppId w \<noteq> appId then Some (g, w, [])
                else do {
                  (c, es) \<leftarrow> RemoveAllPlayerAndCloseConnect (wp_collector w) [];
                  Some (g\<lparr>gg_locator := ProxyLocator_Remove (wp_worldId w) (wp_sn w) (gg_locator g)\<rparr>,
                        w\<lparr>wp_collector := c, wp_removed := True\<rparr>, es) }))))"

definition HandleTeleport :: "NetIdentify \<Rightarrow> u64 \<Rightarrow> u64 \<Rightarrow> string \<Rightarrow> Player_proto
    \<Rightarrow> GameGlobals \<times> WorldProxy \<Rightarrow> proxy_result" where
  "HandleTeleport pPacket last_world_sn playerSn account proto_player gw = (case gw of (g, w) \<Rightarrow>
     (case Collector_AddPlayer pPacket account (wp_collector w) of
        None \<Rightarrow> Some (g, w, [])
      | Some (p0, c1, es0) \<Rightarrow> do {
          p1 \<leftarrow> Player_ParserFromProto (gg_worlds g) playerSn proto_player p0;
          let pPlayer = Add_OnlineInGame (OnlineInGame_Awake (py_account p1) (py_player p1)) p1;
          let w1 = w\<lparr>wp_collector := set_player pPlayer c1\<rparr>;
          Some (g\<lparr>gg_sockets := RegisterToLocator (socket_of pPlayer) (wp_sn w) (gg_sockets g)\<rparr>, w1,
                es0 @
                [SendPacketToWorld g w1 G2S_SyncPlayer (P_SyncPlayer account proto_player) pPlayer,
                 Dispatch MI_TeleportAfter (P_TeleportAfter (py_playerSn pPlayer))
                   (Some (NetIdentify_new\<lparr>ni_tagKey := AddTag_int TagEntity last_world_sn
                                            (AddTag_int TagPlayer (py_playerSn pPlayer) [])\<rparr>))]) }))"

definition HandleTeleportAfter :: "Player \<Rightarrow> u64 \<Rightarrow> GameGlobals \<times> WorldProxy \<Rightarrow> proxy_result" where
  "HandleTeleportAfter pPlayer playerSn gw = (case gw of (g, w) \<Rightarrow>
     (let w1 = w\<lparr>wp_collector := RemovePlayerBySocket (socket_of pPlayer) (wp_collector w)\<rparr>
      in Some (g, w1, [SendPacketToWorld g w1 G2S_RemovePlayer (P_RemovePlayer playerSn) pPlayer])))"

definition HandleC2GEnterWorld :: "Player \<Rightarrow> int \<Rightarrow> GameGlobals \<times> WorldProxy \<Rightarrow> proxy_result" where
  "HandleC2GEnterWorld pPlayer worldId gw = (case gw of (g, w) \<Rightarrow>
     (if GetResource (gg_worlds g) worldId = None then Some (g, w, [])
      else if IsTeleporting pPlayer w then Some (g, w, [])
      else CreateTeleportObject worldId pPlayer (g, w)))"

definition HandleS2GSyncPlayer :: "Player \<Rightarrow> Player_proto \<Rightarrow> GameGlobals \<times> WorldProxy \<Rightarrow> proxy_result" where
  "HandleS2GSyncPlayer pPlayer proto_player gw = (case gw of (g, w) \<Rightarrow> do {
     p1 \<leftarrow> Player_ParserFromProto (gg_worlds g) (py_playerSn pPlayer) proto_player pPlayer;
     (w1, es) \<leftarrow> BroadcastSyncPlayer (py_playerSn p1) (w\<lparr>wp_collector := set_player p1 (wp_collector w)\<rparr>);
     Some (g, w1, es) })"

definition WorldProxy_HandleBroadcastCreateWorldProxy :: "int \<Rightarrow> u64 \<Rightarrow> GameGlobals \<times> WorldProxy \<Rightarrow> proxy_result" where
  "WorldProxy_HandleBroadcastCreateWorldProxy worldId worldSn gw = (case gw of (g, w) \<Rightarrow>
     map_option (\<lambda>(w1, es). (g, w1, es)) (Teleport_HandleBroadcastCreateWorldProxy (gg_worlds g) worldId worldSn w))"

section \<open>\<open>class WorldProxyGather\<close>\<close>

record WorldProxyInfo =
  wi_WorldSn :: u64
  wi_WorldId :: int
  wi_Online :: int

type_synonym proxy_infos = "(u64, WorldProxyInfo) smap"

definition SyncGameInfo :: "int \<Rightarrow> app_type \<Rightarrow> proxy_infos \<Rightarrow> send list" where
  "SyncGameInfo appId appType maps =
     (let online = foldl (\<lambda>v p. v + wi_Online (snd p)) 0 maps
      in [ToApp MI_AppInfoSync (P_AppInfoSync \<lparr>ais_app_id = appId, ais_app_type = appType, ais_online = online\<rparr>) APP_APPMGR 0])"

definition HandleWorldProxySyncToGather :: "u64 \<Rightarrow> bool \<Rightarrow> int \<Rightarrow> int \<Rightarrow> proxy_infos \<Rightarrow> proxy_infos" where
  "HandleWorldProxySyncToGather worldSn isRemove worldId online maps =
     (if \<not> isRemove then
        (let maps1 = (case sm_find maps worldSn of
               None \<Rightarrow> sm_assign worldSn \<lparr>wi_WorldSn = worldSn, wi_WorldId = worldId, wi_Online = 0\<rparr> maps
             | Some _ \<Rightarrow> maps)
         in case sm_find maps1 worldSn of
              None \<Rightarrow> maps1
            | Some i \<Rightarrow> sm_assign worldSn (i\<lparr>wi_Online := online\<rparr>) maps1)
      else sm_erase worldSn maps)"

text \<open>\<open>WorldProxyComponentGather\<close>, attached to the lobby and to every proxy.\<close>

definition SyncWorldInfoToGather :: "u64 \<Rightarrow> int \<Rightarrow> PlayerCollectorComponent \<Rightarrow> send list" where
  "SyncWorldInfoToGather worldSn worldId c =
     [Dispatch MI_WorldProxySyncToGather (P_WorldProxySyncToGather worldSn False worldId (OnlineSize c)) None]"

definition WorldProxyComponentGather_BackToPool :: "u64 \<Rightarrow> send list" where
  "WorldProxyComponentGather_BackToPool worldSn =
     [Dispatch MI_WorldProxySyncToGather (P_WorldProxySyncToGather worldSn True 0 0) None]"

section \<open>\<open>class Lobby\<close>\<close>

record Lobby =
  lb_worldId :: int
  lb_sn :: u64
  lb_collector :: PlayerCollectorComponent
  lb_waitingForWorld :: "(int, u64 sset) smap"
  lb_waitingForDungeon :: "(u64, u64 sset) smap"

type_synonym lobby_result = "(GameGlobals \<times> Lobby \<times> send list) option"

definition Lobby_Awake :: "u64 \<Rightarrow> GameGlobals \<Rightarrow> (GameGlobals \<times> Lobby) option" where
  "Lobby_Awake sn g = do {
     roles \<leftarrow> GetRolesMap (gg_worlds g);
     l \<leftarrow> ProxyLocator_RegisterToLocator (gg_worlds g) (rb_id roles) sn (gg_locator g);
     Some (g\<lparr>gg_locator := l\<rparr>, \<lparr>lb_worldId = rb_id roles, lb_sn = sn, lb_collector = PlayerCollector_new,
           lb_waitingForWorld = [], lb_waitingForDungeon = []\<rparr>) }"

definition Lobby_BackToPool :: "Lobby \<Rightarrow> Lobby" where
  "Lobby_BackToPool b = b\<lparr>lb_waitingForWorld := []\<rparr>"

definition Lobby_GetPlayer :: "NetIdentify \<Rightarrow> Lobby \<Rightarrow> Player option" where
  "Lobby_GetPlayer pIdentify b =
     (case GetTagValue TagPlayer (ni_tagKey pIdentify) of
        None \<Rightarrow> None
      | Some t \<Rightarrow> GetPlayerBySn (KeyInt64 t) (lb_collector b))"

definition Lobby_HandleNetworkDisconnect :: "NetIdentify \<Rightarrow> Lobby \<Rightarrow> Lobby" where
  "Lobby_HandleNetworkDisconnect pPacket b =
     (case GetTagValue TagAccount (ni_tagKey pPacket) of
        None \<Rightarrow> b
      | Some _ \<Rightarrow> b\<lparr>lb_collector := RemovePlayerBySocket (sk_Socket (ni_socketKey pPacket)) (lb_collector b)\<rparr>)"

definition HandleLoginByToken :: "NetIdentify \<Rightarrow> string \<Rightarrow> string \<Rightarrow> GameGlobals \<times> Lobby \<Rightarrow> lobby_result" where
  "HandleLoginByToken pPacket account token gb = (case gb of (g, b) \<Rightarrow>
     (case Collector_AddPlayer pPacket account (lb_collector b) of
        None \<Rightarrow> Some (g, b, [Dispatch MI_NetworkRequestDisconnect P_None (Some pPacket)])
      | Some (p0, c1, es0) \<Rightarrow>
          (let pPlayer = Add_OnlineInGame (OnlineInGame_Awake_version (py_account p0) 1) (Add_Token token p0)
           in Some (g\<lparr>gg_sockets := RegisterToLocator (socket_of pPlayer) (lb_sn b) (gg_sockets g)\<rparr>,
                    b\<lparr>lb_collector := set_player pPlayer c1\<rparr>,
                    es0 @ [Dispatch MI_GameTokenToRedis (P_GameTokenToRedis (py_account pPlayer)) None]))))"

abbreviation (input) LGRC_OK :: int where "LGRC_OK \<equiv> 0"
abbreviation (input) LGRC_TOKEN_WRONG :: int where "LGRC_TOKEN_WRONG \<equiv> 3"

text \<open>The answer of Redis: \<open>token\<close> and \<open>player_sn\<close> are the token's record, empty when there is none.\<close>

definition HandleGameTokenToRedisRs :: "string \<Rightarrow> string \<Rightarrow> u64 \<Rightarrow> Lobby \<Rightarrow> (Lobby \<times> send list) option" where
  "HandleGameTokenToRedisRs account token player_sn b =
     (let (found, c1) = GetPlayerByAccount account (lb_collector b); b1 = b\<lparr>lb_collector := c1\<rparr> in
      case found of
        None \<Rightarrow> Some (b1, [])
      | Some pPlayer \<Rightarrow> do {
          own \<leftarrow> py_token pPlayer;
          let code = (if IsTokenValid own token then LGRC_OK else LGRC_TOKEN_WRONG);
          Some (b1, ToIdentify C2G_LoginByTokenRs (P_LoginByTokenRs code) (py_identify pPlayer) #
                (if code \<noteq> LGRC_OK then [] else [ToApp G2DB_QueryPlayer (P_QueryPlayer player_sn) APP_DB_MGR 0])) })"

definition EnterPublicWorld :: "Player \<Rightarrow> GameGlobals \<times> Lobby \<Rightarrow> (Lobby \<times> send list) option" where
  "EnterPublicWorld pPlayer gb = (case gb of (g, b) \<Rightarrow> do {
     pPlayerLastMap \<leftarrow> py_lastMap pPlayer;
     pLastMap \<leftarrow> GetLastPublicMap pPlayerLastMap;
     let worldId = lw_WorldId pLastMap;
     let lastMapSn = GetWorldSnById worldId (gg_locator g);
     (if lastMapSn \<noteq> INVALID_SN then Some (b, [WorldProxyHelp_Teleport pPlayer (lb_sn b) lastMapSn])
      else
        (let waiting = (case sm_find (lb_waitingForWorld b) worldId of None \<Rightarrow> [] | Some ps \<Rightarrow> ps)
         in Some (b\<lparr>lb_waitingForWorld := sm_assign worldId (ss_insert (py_playerSn pPlayer) waiting) (lb_waitingForWorld b)\<rparr>,
                  if waiting = [] then [ToApp G2M_RequestWorld (P_RequestWorld worldId) APP_APPMGR 0] else []))) })"

definition HandleQueryPlayerRs :: "string \<Rightarrow> Player_proto \<Rightarrow> GameGlobals \<times> Lobby \<Rightarrow> (Lobby \<times> send list) option" where
  "HandleQueryPlayerRs account protoPlayer gb = (case gb of (g, b) \<Rightarrow>
     (let (found, c1) = GetPlayerByAccount account (lb_collector b); b1 = b\<lparr>lb_collector := c1\<rparr> in
      case found of
        None \<Rightarrow> Some (b1, [])
      | Some p0 \<Rightarrow> do {
          let es0 = [ToIdentify G2C_SyncPlayer (P_SyncPlayer '''' protoPlayer) (py_identify p0)];
          p1 \<leftarrow> Player_ParserFromProto (gg_worlds g) (pp_sn protoPlayer) protoPlayer p0;
          pPlayer \<leftarrow> Add_LastMap (gg_worlds g) p1;
          pPlayerLastMap \<leftarrow> py_lastMap pPlayer;
          let b2 = b1\<lparr>lb_collector := set_player pPlayer (lb_collector b1)\<rparr>;
          (case GetLastDungeon pPlayerLastMap of
             Some pLastMap \<Rightarrow>
               if IsExistDungeon (lw_WorldSn pLastMap) (gg_locator g) then
                 Some (b2, es0 @ [WorldProxyHelp_Teleport pPlayer (lb_sn b2) (lw_WorldSn pLastMap)])
               else
                 (let sn = lw_WorldSn pLastMap;
                      waiting = (case sm_find (lb_waitingForDungeon b2) sn of None \<Rightarrow> [] | Some ps \<Rightarrow> ps)
                  in Some (b2\<lparr>lb_waitingForDungeon := sm_assign sn (ss_insert (py_playerSn pPlayer) waiting) (lb_waitingForDungeon b2)\<rparr>,
                       es0 @ (if waiting = [] then [ToApp G2M_QueryWorld (P_QueryWorld sn (lb_sn b2)) APP_APPMGR 0] else [])))
           | None \<Rightarrow> map_option (\<lambda>(b3, es). (b3, es0 @ es)) (EnterPublicWorld pPlayer (g, b2))) }))"

fun enter_public_all :: "u64 list \<Rightarrow> GameGlobals \<times> Lobby \<Rightarrow> (Lobby \<times> send list) option" where
  "enter_public_all [] gb = Some (snd gb, [])"
| "enter_public_all (one # players) gb = (case gb of (g, b) \<Rightarrow>
     (case GetPlayerBySn one (lb_collector b) of
        None \<Rightarrow> enter_public_all players (g, b)
      | Some pPlayer \<Rightarrow> do {
          (b1, es) \<leftarrow> EnterPublicWorld pPlayer (g, b);
          (b2, es1) \<leftarrow> enter_public_all players (g, b1);
          Some (b2, es @ es1) }))"

definition HandleQueryWorldRs :: "u64 \<Rightarrow> int \<Rightarrow> GameGlobals \<times> Lobby \<Rightarrow> (Lobby \<times> send list) option" where
  "HandleQueryWorldRs worldSn return_code gb = (case gb of (g, b) \<Rightarrow>
     (case sm_find (lb_waitingForDungeon b) worldSn of
        None \<Rightarrow> Some (b, [])
      | Some players \<Rightarrow>
          if return_code = 0 then Some (b, [])
          else map_option (\<lambda>(b1, es). (b1\<lparr>lb_waitingForDungeon := sm_erase worldSn (lb_waitingForDungeon b1)\<rparr>, es))
                 (enter_public_all players (g, b))))"

definition teleport_all :: "u64 list \<Rightarrow> u64 \<Rightarrow> Lobby \<Rightarrow> send list" where
  "teleport_all players worldSn b =
     concat (map (\<lambda>one. case GetPlayerBySn one (lb_collector b) of
         None \<Rightarrow> [] | Some player \<Rightarrow> [WorldProxyHelp_Teleport player (lb_sn b) worldSn]) players)"

definition Lobby_HandleBroadcastCreateWorldProxy :: "int \<Rightarrow> u64 \<Rightarrow> GameGlobals \<times> Lobby \<Rightarrow> Lobby \<times> send list" where
  "Lobby_HandleBroadcastCreateWorldProxy worldId worldSn gb = (case gb of (g, b) \<Rightarrow>
     (case GetResource (gg_worlds g) worldId of
        None \<Rightarrow> (b, [])
      | Some pWorldRes \<Rightarrow>
          if IsType pWorldRes RWT_Public then
            (case sm_find (lb_waitingForWorld b) worldId of
               None \<Rightarrow> (b, [])
             | Some players \<Rightarrow> (b\<lparr>lb_waitingForWorld := sm_erase worldId (lb_waitingForWorld b)\<rparr>, teleport_all players worldSn b))
          else
            (case sm_find (lb_waitingForDungeon b) worldSn of
               None \<Rightarrow> (b, [])
             | Some players \<Rightarrow> (b\<lparr>lb_waitingForDungeon := sm_erase worldSn (lb_waitingForDungeon b)\<rparr>, teleport_all players worldSn b))))"

definition Lobby_HandleTeleportAfter :: "Player \<Rightarrow> Lobby \<Rightarrow> Lobby" where
  "Lobby_HandleTeleportAfter pPlayer b = b\<lparr>lb_collector := RemovePlayerBySocket (socket_of pPlayer) (lb_collector b)\<rparr>"

section \<open>Facts about teleports\<close>

definition proxy_inv :: "WorldProxy \<Rightarrow> bool" where
  "proxy_inv w \<longleftrightarrow> sm_wf (wp_objects w) \<and> (\<forall>k t. sm_find (wp_objects w) k = Some t \<longrightarrow> to_playerSn t = k)"

definition targets :: "int \<Rightarrow> WorldProxy \<Rightarrow> (u64, TeleportObject) smap" where
  "targets worldId w = filter (\<lambda>p. to_targetWorldId (snd p) = worldId) (wp_objects w)"

definition synced :: "WorldProxy \<Rightarrow> u64 \<times> TeleportObject \<Rightarrow> bool" where
  "synced w p \<longleftrightarrow> IsCompleted (to_FlagPlayerSync (snd p)) \<and> GetPlayerBySn (fst p) (wp_collector w) \<noteq> None"

definition teleport_of :: "WorldProxy \<Rightarrow> u64 \<Rightarrow> u64 \<times> TeleportObject \<Rightarrow> send" where
  "teleport_of w worldSn p = WorldProxyHelp_Teleport (the (GetPlayerBySn (fst p) (wp_collector w))) (wp_sn w) worldSn"

lemma GetPlayerBySn_sn: "GetPlayerBySn sn c = Some p \<Longrightarrow> py_playerSn p = sn"
  by (auto simp: GetPlayerBySn_def dest: sm_find_if_Some)

lemma IsCompleted_SetValue [simp]: "IsCompleted (SetValue v f)" "tf_Value (SetValue v f) = v"
  by (simp_all add: IsCompleted_def SetValue_def)

lemma find_hd_filter: "find P xs = (case filter P xs of [] \<Rightarrow> None | x # _ \<Rightarrow> Some x)"
  by (induction xs) auto

lemma sm_find_if_targets:
  "sm_find_if (\<lambda>k t. to_targetWorldId t = worldId) (wp_objects w) = (case targets worldId w of [] \<Rightarrow> None | p # _ \<Rightarrow> Some p)"
  by (simp add: sm_find_if_def targets_def find_hd_filter)

lemma sm_erase_assign [simp]: "sm_erase k (sm_assign k v m) = sm_erase k m"
  by (induction m) (auto simp: sm_erase_def)

lemma proxy_inv_find:
  assumes "proxy_inv w" "(k, t) \<in> set (wp_objects w)"
  shows "sm_find (wp_objects w) k = Some t \<and> to_playerSn t = k"
proof -
  have "sm_find (wp_objects w) k = Some t"
    by (rule iffD1 [OF sm_find_in_set assms(2)]) (use assms(1) in \<open>simp add: proxy_inv_def\<close>)
  with assms(1) show ?thesis by (simp add: proxy_inv_def)
qed

lemma targets_mem: "targets worldId w = p # ps \<Longrightarrow> p \<in> set (wp_objects w) \<and> to_targetWorldId (snd p) = worldId"
proof -
  assume "targets worldId w = p # ps"
  then have "p \<in> set (targets worldId w)" by simp
  then show ?thesis by (simp add: targets_def)
qed

lemma public_step:
  assumes "proxy_inv w" "targets worldId w = p # ps" "worldSn \<noteq> 0"
  shows "case set_world (fst p) worldSn (snd p) w of (t1, w1) \<Rightarrow>
    Teleport_Check t1 w1 =
      (if \<not> IsCompleted (to_FlagPlayerSync (snd p)) then Some (False, w1, [])
       else map_option (\<lambda>pl. (True, w\<lparr>wp_objects := sm_erase (fst p) (wp_objects w)\<rparr>, [WorldProxyHelp_Teleport pl (wp_sn w) worldSn]))
              (GetPlayerBySn (fst p) (wp_collector w)))"
proof -
  have mem: "p \<in> set (wp_objects w)" using targets_mem [OF assms(2)] by simp
  then have "to_playerSn (snd p) = fst p" using proxy_inv_find [OF assms(1), of "fst p" "snd p"] by simp
  then show ?thesis using assms(3)
    by (cases "GetPlayerBySn (fst p) (wp_collector w)")
       (auto simp: set_world_def Teleport_Check_def Let_def dest: GetPlayerBySn_sn)
qed

lemma targets_erase:
  assumes "proxy_inv w" "targets worldId w = p # ps"
  shows "targets worldId (w\<lparr>wp_objects := sm_erase (fst p) (wp_objects w)\<rparr>) = ps"
proof -
  have "sm_wf (wp_objects w)" using assms(1) by (simp add: proxy_inv_def)
  then have "sm_wf (targets worldId w)" by (simp add: targets_def)
  then have "filter (\<lambda>q. fst q \<noteq> fst p) (targets worldId w) = ps"
    unfolding assms(2) by (auto simp: sm_wf_Cons filter_id_conv)
  moreover have "targets worldId (w\<lparr>wp_objects := sm_erase (fst p) (wp_objects w)\<rparr>) = filter (\<lambda>q. fst q \<noteq> fst p) (targets worldId w)"
    by (simp add: targets_def sm_erase_def filter_filter conj_commute)
  ultimately show ?thesis by simp
qed

lemma proxy_inv_erase: "proxy_inv w \<Longrightarrow> proxy_inv (w\<lparr>wp_objects := sm_erase k (wp_objects w)\<rparr>)"
  by (auto simp: proxy_inv_def)

lemma proxy_inv_assign:
  "proxy_inv w \<Longrightarrow> to_playerSn t = k \<Longrightarrow> proxy_inv (w\<lparr>wp_objects := sm_assign k t (wp_objects w)\<rparr>)"
  by (auto simp: proxy_inv_def)

lemma public_loop_all:
  "proxy_inv w \<Longrightarrow> worldSn \<noteq> 0 \<Longrightarrow> \<forall>p\<in>set (targets worldId w). synced w p \<Longrightarrow>
   public_loop worldId worldSn w es =
     Some (w\<lparr>wp_objects := filter (\<lambda>p. to_targetWorldId (snd p) \<noteq> worldId) (wp_objects w)\<rparr>,
           es @ map (teleport_of w worldSn) (targets worldId w))"
proof (induction "targets worldId w" arbitrary: w es)
  case Nil
  have "filter (\<lambda>p. to_targetWorldId (snd p) \<noteq> worldId) (wp_objects w) = wp_objects w"
    using Nil.hyps [symmetric] by (auto simp: targets_def filter_id_conv filter_empty_conv)
  then show ?case using Nil.hyps
    by (subst public_loop.simps) (simp add: sm_find_if_targets flip: Nil.hyps)
next
  case (Cons p ps)
  let ?w1 = "w\<lparr>wp_objects := sm_erase (fst p) (wp_objects w)\<rparr>"
  have t: "targets worldId w = p # ps" using Cons.hyps(2) by simp
  then have sp: "synced w p" using Cons.prems(3) by simp
  then obtain pl where pl: "GetPlayerBySn (fst p) (wp_collector w) = Some pl" by (auto simp: synced_def)
  have ih: "public_loop worldId worldSn ?w1 (es @ [teleport_of w worldSn p]) =
     Some (?w1\<lparr>wp_objects := filter (\<lambda>p. to_targetWorldId (snd p) \<noteq> worldId) (wp_objects ?w1)\<rparr>,
           (es @ [teleport_of w worldSn p]) @ map (teleport_of ?w1 worldSn) ps)"
    using Cons.hyps(1) [of ?w1 "es @ [teleport_of w worldSn p]"] targets_erase [OF Cons.prems(1) t]
      proxy_inv_erase [OF Cons.prems(1)] Cons.prems(2,3) t by (simp add: synced_def)
  have "p \<in> set (wp_objects w)" "to_targetWorldId (snd p) = worldId"
    using targets_mem [OF t] by simp_all
  then have "filter (\<lambda>q. to_targetWorldId (snd q) \<noteq> worldId) (sm_erase (fst p) (wp_objects w))
      = filter (\<lambda>q. to_targetWorldId (snd q) \<noteq> worldId) (wp_objects w)"
    using sm_erase_is_remove [of "wp_objects w" "fst p" "snd p" "\<lambda>q. to_targetWorldId (snd q) = worldId"] Cons.prems(1)
    by (simp add: proxy_inv_def)
  moreover have "map (teleport_of ?w1 worldSn) ps = map (teleport_of w worldSn) ps" by (simp add: teleport_of_def)
  ultimately show ?case
    using public_step [OF Cons.prems(1) t Cons.prems(2)] sp pl ih t
    by (subst public_loop.simps) (simp add: sm_find_if_targets synced_def teleport_of_def split_beta)
qed

lemma public_loop_returns:
  "public_loop worldId worldSn w es = Some r \<Longrightarrow> proxy_inv w \<Longrightarrow> worldSn \<noteq> 0
   \<Longrightarrow> \<forall>p\<in>set (targets worldId w). synced w p"
proof (induction rule: public_loop.raw_induct [rotated, consumes 1])
  case (1 loop worldId worldSn w es r)
  show ?case
  proof (cases "targets worldId w")
    case (Cons p ps)
    let ?t1 = "(snd p)\<lparr>to_FlagWorld := SetValue worldSn (to_FlagWorld (snd p))\<rparr>"
    let ?w1 = "w\<lparr>wp_objects := sm_assign (fst p) ?t1 (wp_objects w)\<rparr>"
    have mem: "p \<in> set (wp_objects w)" "to_targetWorldId (snd p) = worldId"
      using targets_mem [OF Cons] by simp_all
    then have sn: "to_playerSn (snd p) = fst p" using proxy_inv_find [OF 1(3), of "fst p" "snd p"] by simp
    have sw: "set_world (fst p) worldSn (snd p) w = (?t1, ?w1)" by (simp add: set_world_def Let_def)
    obtain b w2 es2 where ch: "Teleport_Check ?t1 ?w1 = Some (b, w2, es2)" and rec: "loop worldId worldSn w2 (es @ es2) = Some r"
      using 1(2) Cons sw by (auto simp: sm_find_if_targets split_beta split: bind_splits)
    have step: "Teleport_Check ?t1 ?w1 =
      (if \<not> IsCompleted (to_FlagPlayerSync (snd p)) then Some (False, ?w1, [])
       else map_option (\<lambda>pl. (True, w\<lparr>wp_objects := sm_erase (fst p) (wp_objects w)\<rparr>, [WorldProxyHelp_Teleport pl (wp_sn w) worldSn]))
              (GetPlayerBySn (fst p) (wp_collector w)))"
      using public_step [OF 1(3) Cons 1(4)] sw by simp
    show ?thesis
    proof (cases "IsCompleted (to_FlagPlayerSync (snd p))")
      case False
      then have "w2 = ?w1" using ch step by simp
      moreover have "proxy_inv ?w1" using 1(3) sn by (intro proxy_inv_assign) simp_all
      ultimately have "\<forall>q\<in>set (targets worldId ?w1). synced ?w1 q" using 1(1) [OF rec] 1(4) by blast
      moreover have "(fst p, ?t1) \<in> set (targets worldId ?w1)"
      proof -
        have "sm_find (sm_assign (fst p) ?t1 (wp_objects w)) (fst p) = Some ?t1" by simp
        then have "(fst p, ?t1) \<in> set (wp_objects ?w1)" by (simp add: map_of_SomeD del: find_sm_assign)
        then show ?thesis using mem(2) by (simp add: targets_def)
      qed
      ultimately have "synced ?w1 (fst p, ?t1)" by blast
      with False show ?thesis by (simp add: synced_def)
    next
      case True
      then have w2: "w2 = w\<lparr>wp_objects := sm_erase (fst p) (wp_objects w)\<rparr>" "GetPlayerBySn (fst p) (wp_collector w) \<noteq> None"
        using ch step by auto
      have "\<forall>q\<in>set (targets worldId w2). synced w2 q" using 1(1) [OF rec] w2(1) proxy_inv_erase [OF 1(3)] 1(4) by blast
      then have "\<forall>q\<in>set ps. synced w q" using targets_erase [OF 1(3) Cons] w2(1) by (simp add: synced_def)
      moreover have "synced w p" using True w2(2) by (simp add: synced_def)
      ultimately show ?thesis using Cons by simp
    qed
  qed simp
qed

section \<open>Properties\<close>

text \<open>C35: when the proxy of a public world was created, each world proxy lets its waiting players
  teleport. It does so, once for each of them and in the order of their numbers, if every player
  that waits for this world has already had its data synchronised and is still connected; if one
  of them has not, the handler never returns (it finds the same player for ever) or follows a
  null pointer, and the whole thread with it.\<close>

theorem Broadcast_public_world:
  assumes "proxy_inv w" and "worldSn \<noteq> 0" and "is_public worlds worldId"
  shows "Teleport_HandleBroadcastCreateWorldProxy worlds worldId worldSn w =
    (if \<forall>p\<in>set (targets worldId w). synced w p
     then Some (w\<lparr>wp_objects := filter (\<lambda>p. to_targetWorldId (snd p) \<noteq> worldId) (wp_objects w)\<rparr>,
                map (teleport_of w worldSn) (targets worldId w))
     else None)"
proof -
  have loop: "Teleport_HandleBroadcastCreateWorldProxy worlds worldId worldSn w = public_loop worldId worldSn w []"
    using assms(3) by (auto simp: Teleport_HandleBroadcastCreateWorldProxy_def is_public_def split: option.splits)
  show ?thesis
  proof (cases "\<forall>p\<in>set (targets worldId w). synced w p")
    case True
    then show ?thesis using loop public_loop_all [OF assms(1,2) True, of "[]"] by simp
  next
    case False
    then have "public_loop worldId worldSn w [] = None"
      using public_loop_returns [OF _ assms(1,2)] by (metis option.exhaust)
    with False loop show ?thesis by simp
  qed
qed

text \<open>C36: the game process lets a client in exactly when the token the client sent is a prefix of
  the token on record, for only the length of the client's token is compared: the empty token
  opens every account, and the player whose number comes with the answer is loaded.\<close>

theorem login_token_prefix:
  assumes "collector_inv (lb_collector b)"
    and "sm_find (pc_players (lb_collector b)) (sk_Socket (ni_socketKey pPacket)) = None"
    and "HandleLoginByToken pPacket account own (g, b) = Some (g1, b1, es)"
    and "CHR 0x00 \<notin> set own" and "CHR 0x00 \<notin> set token"
  shows "\<exists>i. HandleGameTokenToRedisRs account token player_sn b1 = Some (b1,
     if \<exists>rest. token = own @ rest
     then [ToIdentify C2G_LoginByTokenRs (P_LoginByTokenRs LGRC_OK) i, ToApp G2DB_QueryPlayer (P_QueryPlayer player_sn) APP_DB_MGR 0]
     else [ToIdentify C2G_LoginByTokenRs (P_LoginByTokenRs LGRC_TOKEN_WRONG) i])"
proof -
  let ?s = "sk_Socket (ni_socketKey pPacket)"
  obtain p0 c1 es0 where add: "Collector_AddPlayer pPacket account (lb_collector b) = Some (p0, c1, es0)"
    using assms(2) by (simp add: Collector_AddPlayer_Some)
  have p0: "p0 = fst (Player_Awake_account pPacket account)" "py_token p0 = None" "py_account p0 = account"
    "py_onlineGame p0 = None" "socket_of p0 = ?s"
    using add by (simp_all add: Collector_AddPlayer_Some) (simp_all add: Player_Awake_account_def Player_free_def Let_def)
  define q where "q = Add_OnlineInGame (OnlineInGame_Awake_version account 1) (Add_Token own p0)"
  have q: "py_token q = Some own" "socket_of q = ?s"
    using p0 by (simp_all add: q_def Add_OnlineInGame_def Add_Token_def)
  have b1: "b1 = b\<lparr>lb_collector := set_player q c1\<rparr>"
    using assms(3) add p0(3) by (simp add: HandleLoginByToken_def Let_def q_def)
  have "GetPlayerByAccount account (lb_collector b1) = (Some q, lb_collector b1)"
    using add q(2) by (simp add: b1 GetPlayerByAccount_def set_player_def Collector_AddPlayer_Some)
  then show ?thesis using q(1) IsTokenValid_prefix [OF assms(4,5)]
    by (intro exI [of _ "py_identify q"]) (simp add: HandleGameTokenToRedisRs_def Let_def)
qed

section \<open>Instances\<close>

definition sample_player :: Player where
  "sample_player = (fst (Player_Awake_account (sample_client 5) ''bob''))\<lparr>py_playerSn := 7\<rparr>"

definition sample_proxy :: "bool \<Rightarrow> WorldProxy" where
  "sample_proxy is_synced = \<lparr>wp_worldId = 9, wp_sn = 100, wp_spaceAppId = 1,
     wp_collector = PlayerCollector_new\<lparr>pc_players := [(5, sample_player)], pc_accounts := [(''bob'', 5)]\<rparr>,
     wp_objects = [(7, (TeleportObject_Awake 3 7)\<lparr>to_FlagPlayerSync :=
        \<lparr>tf_Flag = (if is_synced then TF_Completed else TF_Waiting), tf_Value = is_synced\<rparr>\<rparr>)], wp_removed = False\<rparr>"

lemma sample_proxy_facts [simp]:
  "proxy_inv (sample_proxy b)" "is_public sample_table 3"
  "\<forall>p\<in>set (targets 3 (sample_proxy True)). synced (sample_proxy True) p"
  "\<exists>p\<in>set (targets 3 (sample_proxy False)). \<not> synced (sample_proxy False) p"
  by (simp_all add: proxy_inv_def sample_proxy_def TeleportObject_Awake_def targets_def synced_def IsCompleted_def is_public_def
      GetPlayerBySn_def sm_find_if_def sample_player_def sm_wf_Cons)

theorem Broadcast_public_world_witness:
  "Teleport_HandleBroadcastCreateWorldProxy sample_table 3 200 (sample_proxy False) = None
   \<and> map_option (\<lambda>(w, es). (wp_objects w, es)) (Teleport_HandleBroadcastCreateWorldProxy sample_table 3 200 (sample_proxy True))
     = Some ([], [WorldProxyHelp_Teleport sample_player 100 200])"
proof
  show "Teleport_HandleBroadcastCreateWorldProxy sample_table 3 200 (sample_proxy False) = None"
    using Broadcast_public_world [of "sample_proxy False" 200 sample_table 3] sample_proxy_facts(4) by auto
  show "map_option (\<lambda>(w, es). (wp_objects w, es)) (Teleport_HandleBroadcastCreateWorldProxy sample_table 3 200 (sample_proxy True))
     = Some ([], [WorldProxyHelp_Teleport sample_player 100 200])"
  proof -
    have "Teleport_HandleBroadcastCreateWorldProxy sample_table 3 200 (sample_proxy True)
      = Some ((sample_proxy True)\<lparr>wp_objects := filter (\<lambda>p. to_targetWorldId (snd p) \<noteq> 3) (wp_objects (sample_proxy True))\<rparr>,
              map (teleport_of (sample_proxy True) 200) (targets 3 (sample_proxy True)))"
      using Broadcast_public_world [of "sample_proxy True" 200 sample_table 3] sample_proxy_facts(3) by simp
    then show ?thesis
      by (simp only: option.map prod.case)
         (simp add: targets_def sample_proxy_def TeleportObject_Awake_def teleport_of_def GetPlayerBySn_def sm_find_if_def sample_player_def)
  qed
qed

definition sample_globals :: GameGlobals where
  "sample_globals = \<lparr>gg_worlds = sample_table, gg_locator = \<lparr>wl_publics = [], wl_worlds = []\<rparr>, gg_spaces = [], gg_sockets = [],
     gg_appType = APP_GAME, gg_appId = 1\<rparr>"

definition sample_lobby :: Lobby where
  "sample_lobby = \<lparr>lb_worldId = 1, lb_sn = 50, lb_collector = PlayerCollector_new, lb_waitingForWorld = [], lb_waitingForDungeon = []\<rparr>"

theorem login_token_prefix_witness:
  "\<exists>g1 b1 es i. HandleLoginByToken (sample_client 6) ''alice'' '''' (sample_globals, sample_lobby) = Some (g1, b1, es)
     \<and> HandleGameTokenToRedisRs ''alice'' ''0f3a'' 42 b1 = Some (b1,
         [ToIdentify C2G_LoginByTokenRs (P_LoginByTokenRs LGRC_OK) i, ToApp G2DB_QueryPlayer (P_QueryPlayer 42) APP_DB_MGR 0])"
proof -
  obtain g1 b1 es where h: "HandleLoginByToken (sample_client 6) ''alice'' '''' (sample_globals, sample_lobby) = Some (g1, b1, es)"
    by (simp add: HandleLoginByToken_def Collector_AddPlayer_def sample_lobby_def PlayerCollector_new_def Player_Awake_account_def Let_def)
  have "collector_inv (lb_collector sample_lobby)"
    "sm_find (pc_players (lb_collector sample_lobby)) (sk_Socket (ni_socketKey (sample_client 6))) = None"
    by (simp add: sample_lobby_def) (simp add: sample_lobby_def PlayerCollector_new_def)
  from login_token_prefix [OF this h, of "''0f3a''" 42] h show ?thesis by auto
qed

end
