(* ===== verification/Space_World.thy ===== *)
theory Space_World
  imports Players
begin

text \<open>
  \<open>apps/space\<close>: a world with its players (\<open>world.cpp\<close>), the movement along way points
  (\<open>move_component.cpp\<close>, \<open>move_system.cpp\<close>), the creation of worlds
  (\<open>world_operator_component.cpp\<close>) and the count of players (\<open>world_gather.cpp\<close>). \<open>None\<close> is a null
  pointer that is followed. The arithmetic on floats is an argument.
\<close>

section \<open>Movement\<close>

record float_ops =
  fo_scale :: "Vector3 \<Rightarrow> Vector3 \<Rightarrow> float32 \<times> float32"
  fo_reached :: "u64 \<Rightarrow> float32 \<Rightarrow> Vector3 \<Rightarrow> Vector3 \<Rightarrow> bool"
  fo_step :: "u64 \<Rightarrow> float32 \<Rightarrow> MoveVector3 \<Rightarrow> Vector3 \<Rightarrow> float32 \<times> float32"

text \<open>\<open>scale\<close>: the direction to the target. \<open>reached\<close>: the distance is below what is covered in the
  time. \<open>step\<close>: the new X and Z.\<close>

definition MoveVector3_Update :: "float_ops \<Rightarrow> Vector3 \<Rightarrow> Vector3 \<Rightarrow> MoveVector3 \<Rightarrow> MoveVector3" where
  "MoveVector3_Update ops target position v =
     (let (sx, sz) = fo_scale ops target position in v\<lparr>mv_Target := target, mv_ScaleX := sx, mv_ScaleZ := sz\<rparr>)"

definition Move_Update_targets :: "float_ops \<Rightarrow> Vector3 list \<Rightarrow> Vector3 \<Rightarrow> MoveComponent \<Rightarrow> MoveComponent" where
  "Move_Update_targets ops targets curPosition c =
     (case targets of
        [] \<Rightarrow> c
      | v3 # rest \<Rightarrow> c\<lparr>mc_vector3 := MoveVector3_Update ops v3 curPosition (mc_vector3 c), mc_targets := rest\<rparr>)"

text \<open>The result: stopped, the component, the position (written to the current last world).\<close>

definition Move_Update :: "float_ops \<Rightarrow> u64 \<Rightarrow> float32 \<Rightarrow> Vector3 \<Rightarrow> MoveComponent \<Rightarrow> bool \<times> MoveComponent \<times> Vector3" where
  "Move_Update ops timeElapsed speed curPosition c =
     (if fo_reached ops timeElapsed speed curPosition (mv_Target (mc_vector3 c)) then
        (let curPosition1 = mv_Target (mc_vector3 c) in
         case mc_targets c of
           v3 # rest \<Rightarrow>
             (False, c\<lparr>mc_vector3 := MoveVector3_Update ops v3 curPosition1 (mc_vector3 c), mc_targets := rest\<rparr>, curPosition1)
         | [] \<Rightarrow> (True, c, curPosition1))
      else
        (let (x, z) = fo_step ops timeElapsed speed (mc_vector3 c) curPosition
         in (False, c, curPosition\<lparr>v_X := x, v_Z := z\<rparr>)))"

text \<open>\<open>MoveSystem::Update\<close> for one player that has a \<open>MoveComponent\<close>; a stopped one loses it.\<close>

definition Move_player :: "float_ops \<Rightarrow> u64 \<Rightarrow> float32 \<Rightarrow> Player \<Rightarrow> Player option" where
  "Move_player ops timeElapsed speed p =
     (case py_move p of
        None \<Rightarrow> Some p
      | Some c \<Rightarrow> do {
          lm \<leftarrow> py_lastMap p;
          cur \<leftarrow> GetCur lm;
          let (isStop, c1, pos) = Move_Update ops timeElapsed speed (lw_Position cur) c;
          Some (p\<lparr>py_lastMap := Some (SetCurPosition pos lm), py_move := (if isStop then None else Some c1)\<rparr>) })"

text \<open>The gate of \<open>MoveSystem::Update\<close>: every half second; the new \<open>_lastTime\<close> and the elapsed time.\<close>

definition MoveSystem_due :: "u64 \<Rightarrow> u64 \<Rightarrow> (u64 \<times> u64) option" where
  "MoveSystem_due curTime lastTime =
     (let timeElapsed = curTime - lastTime in if timeElapsed < 500 then None else Some (curTime, timeElapsed))"

text \<open>The moving players of one thread, in the order of the collection. \<open>found\<close>: the collection of
  move components exists. The speed is 2.0.\<close>

fun Move_players :: "float_ops \<Rightarrow> u64 \<Rightarrow> Player list \<Rightarrow> Player list option" where
  "Move_players ops timeElapsed [] = Some []"
| "Move_players ops timeElapsed (p # ps) = do {
     q \<leftarrow> Move_player ops timeElapsed 0x40000000 p;
     qs \<leftarrow> Move_players ops timeElapsed ps;
     Some (q # qs) }"

definition MoveSystem_Update :: "float_ops \<Rightarrow> u64 \<Rightarrow> bool \<Rightarrow> u64 \<times> Player list \<Rightarrow> (u64 \<times> Player list) option" where
  "MoveSystem_Update ops curTime found s =
     (case MoveSystem_due curTime (fst s) of
        None \<Rightarrow> Some s
      | Some (lastTime, timeElapsed) \<Rightarrow>
          if \<not> found then Some s else map_option (Pair lastTime) (Move_players ops timeElapsed (snd s)))"

section \<open>\<open>class World\<close>\<close>

record World =
  sw_worldId :: int
  sw_sn :: u64
  sw_manager :: PlayerManagerComponent
  sw_addPlayer :: "u64 sset"

definition World_Awake :: "int \<Rightarrow> u64 \<Rightarrow> World" where
  "World_Awake worldId sn = \<lparr>sw_worldId = worldId, sw_sn = sn, sw_manager = \<lparr>mg_players = [], mg_released = []\<rparr>, sw_addPlayer = []\<rparr>"

definition World_BackToPool :: "World \<Rightarrow> World" where
  "World_BackToPool w = w\<lparr>sw_addPlayer := []\<rparr>"

definition World_GetPlayer :: "NetIdentify \<Rightarrow> World \<Rightarrow> Player option" where
  "World_GetPlayer pIdentify w =
     (case GetTagValue TagPlayer (ni_tagKey pIdentify) of
        None \<Rightarrow> None
      | Some t \<Rightarrow> Manager_GetPlayerBySn (KeyInt64 t) (sw_manager w))"

definition World_HandleNetworkDisconnect :: "NetIdentify \<Rightarrow> World \<Rightarrow> World \<times> send list" where
  "World_HandleNetworkDisconnect pPacket w =
     (case GetTagValue TagPlayer (ni_tagKey pPacket) of
        Some pTagPlayer \<Rightarrow>
          (case Manager_GetPlayerBySn (KeyInt64 pTagPlayer) (sw_manager w) of
             None \<Rightarrow> (w, [])
           | Some pPlayer \<Rightarrow>
               (w\<lparr>sw_manager := Manager_RemovePlayerBySn (KeyInt64 pTagPlayer) (sw_manager w)\<rparr>, [save_player pPlayer]))
      | None \<Rightarrow>
          (case GetTagValue TagApp (ni_tagKey pPacket) of
             None \<Rightarrow> (w, [])
           | Some _ \<Rightarrow> (let (m, es) = Manager_RemoveAllPlayers pPacket (sw_manager w) in (w\<lparr>sw_manager := m\<rparr>, es))))"

definition SyncWorldToGather :: "World \<Rightarrow> send list" where
  "SyncWorldToGather w =
     [Dispatch MI_WorldSyncToGather (P_WorldSyncToGather (sw_sn w) (sw_worldId w) (Manager_OnlineSize (sw_manager w))) None]"

definition CreateProtoRoleAppear :: "Player \<Rightarrow> Role option" where
  "CreateProtoRoleAppear pPlayer = do {
     gender \<leftarrow> py_gender pPlayer;
     lm \<leftarrow> py_lastMap pPlayer;
     cur \<leftarrow> GetCur lm;
     Some \<lparr>role_name = py_name pPlayer, role_sn = py_playerSn pPlayer, role_gender = gender, role_position = lw_Position cur\<rparr> }"

definition BroadcastPacket :: "int \<Rightarrow> app_msg \<Rightarrow> World \<Rightarrow> send list" where
  "BroadcastPacket msgId proto w = map (\<lambda>(sn, p). ToIdentify msgId proto (py_identify p)) (mg_players (sw_manager w))"

definition BroadcastPacket_to :: "int \<Rightarrow> app_msg \<Rightarrow> u64 sset \<Rightarrow> World \<Rightarrow> send list" where
  "BroadcastPacket_to msgId proto players w =
     concat (map (\<lambda>one. case Manager_GetPlayerBySn one (sw_manager w) of
         None \<Rightarrow> [] | Some pPlayer \<Rightarrow> [ToIdentify msgId proto (py_identify pPlayer)]) players)"

fun roles_of :: "Player list \<Rightarrow> Role list option" where
  "roles_of [] = Some []"
| "roles_of (p # ps) = do { r \<leftarrow> CreateProtoRoleAppear p; rs \<leftarrow> roles_of ps; Some (r # rs) }"

definition SyncAppearTimer :: "World \<Rightarrow> (World \<times> send list) option" where
  "SyncAppearTimer w =
     (if sw_addPlayer w = [] then Some (w, [])
      else do {
        protoNewAppear \<leftarrow> roles_of (List.map_filter (\<lambda>sn. Manager_GetPlayerBySn sn (sw_manager w)) (sw_addPlayer w));
        let es1 = (if protoNewAppear \<noteq> [] then BroadcastPacket S2C_RoleAppear (P_RoleAppear protoNewAppear) w else []);
        protoOther \<leftarrow> roles_of (map snd (filter (\<lambda>one. fst one \<notin> set (sw_addPlayer w)) (mg_players (sw_manager w))));
        let es2 = (if protoOther \<noteq> [] then BroadcastPacket_to S2C_RoleAppear (P_RoleAppear protoOther) (sw_addPlayer w) w else []);
        Some (w\<lparr>sw_addPlayer := []\<rparr>, es1 @ es2) })"

definition HandleSyncPlayer :: "ResourceWorldMgr \<Rightarrow> NetIdentify \<Rightarrow> Player_proto \<Rightarrow> World \<Rightarrow> (World \<times> send list) option" where
  "HandleSyncPlayer worlds pPacket proto_player w =
     (let playerSn = pp_sn proto_player in
      case Manager_AddPlayer playerSn (sw_sn w) pPacket (sw_manager w) of
        None \<Rightarrow> Some (w, [])
      | Some (p0, m1) \<Rightarrow> do {
          p1 \<leftarrow> Player_ParserFromProto worlds playerSn proto_player p0;
          p2 \<leftarrow> Add_LastMap worlds (Add_Detail p1);
          lm \<leftarrow> py_lastMap p2;
          lm1 \<leftarrow> LastMap_EnterWorld worlds (sw_worldId w) (sw_sn w) lm;
          pLastMap \<leftarrow> GetCur lm1;
          let p3 = p2\<lparr>py_lastMap := Some lm1\<rparr>;
          Some (w\<lparr>sw_manager := Manager_set_player playerSn p3 m1, sw_addPlayer := ss_insert playerSn (sw_addPlayer w)\<rparr>,
                [ToIdentify S2C_EnterWorld (P_EnterWorld (sw_worldId w) (lw_Position pLastMap)) (py_identify p3)]) })"

definition HandleRequestSyncPlayer :: "Player \<Rightarrow> send list" where
  "HandleRequestSyncPlayer pPlayer =
     [ToIdentify S2G_SyncPlayer (P_SyncPlayer (py_account pPlayer) (Player_SerializeToProto pPlayer)) (py_identify pPlayer)]"

definition HandleG2SRemovePlayer :: "Player \<Rightarrow> u64 \<Rightarrow> World \<Rightarrow> World \<times> send list" where
  "HandleG2SRemovePlayer pPlayer player_sn w =
     (if player_sn \<noteq> py_playerSn pPlayer then (w, [])
      else let w1 = w\<lparr>sw_manager := Manager_RemovePlayerBySn (py_playerSn pPlayer) (sw_manager w)\<rparr>
           in (w1, BroadcastPacket S2C_RoleDisAppear (P_RoleDisAppear (py_playerSn pPlayer)) w1))"

text \<open>\<open>pooled\<close> is the object that \<open>AddComponent\<close> takes from the pool.\<close>

definition HandleMove :: "float_ops \<Rightarrow> MoveComponent \<Rightarrow> Player \<Rightarrow> Vector3 list \<Rightarrow> World \<Rightarrow> (World \<times> send list) option" where
  "HandleMove ops pooled pPlayer positions w = do {
     let c = (case py_move pPlayer of Some c \<Rightarrow> c | None \<Rightarrow> MoveComponent_Awake pooled);
     lm \<leftarrow> py_lastMap pPlayer;
     cur \<leftarrow> GetCur lm;
     let p1 = pPlayer\<lparr>py_move := Some (Move_Update_targets ops positions (lw_Position cur) c)\<rparr>;
     let w1 = w\<lparr>sw_manager := Manager_set_player (py_playerSn pPlayer) p1 (sw_manager w)\<rparr>;
     Some (w1, BroadcastPacket S2C_Move (P_Move (py_playerSn pPlayer) positions) w1) }"

section \<open>\<open>class WorldGather\<close> and \<open>class WorldOperatorComponent\<close>\<close>

definition SyncSpaceInfo :: "int \<Rightarrow> app_type \<Rightarrow> (u64, int) smap \<Rightarrow> send list" where
  "SyncSpaceInfo appId appType maps =
     (let online = foldl (\<lambda>v p. v + snd p) 0 maps;
          proto = P_AppInfoSync \<lparr>ais_app_id = appId, ais_app_type = appType, ais_online = online\<rparr>
      in [ToAllApp MI_AppInfoSync proto APP_GAME, ToApp MI_AppInfoSync proto APP_APPMGR 0])"

definition WorldGather_BackToPool :: "(u64, int) smap \<Rightarrow> (u64, int) smap" where
  "WorldGather_BackToPool maps = []"

definition HandleWorldSyncToGather :: "u64 \<Rightarrow> int \<Rightarrow> (u64, int) smap \<Rightarrow> (u64, int) smap" where
  "HandleWorldSyncToGather world_sn online maps = sm_assign world_sn online maps"

text \<open>The result: the world to be created (serial number, id) and the messages.\<close>

definition HandleCreateWorld :: "ResourceWorldMgr \<Rightarrow> int \<Rightarrow> u64 \<Rightarrow> int \<Rightarrow> Global
    \<Rightarrow> (Global \<times> (u64 \<times> int) \<times> send list) option" where
  "HandleCreateWorld worlds worldId lastWorldSn gameAppId g = do {
     let (worldSn, g1) = GenerateSN g;
     pWorldRes \<leftarrow> GetResource worlds worldId;
     let proto = P_BroadcastCreateWorld worldId worldSn lastWorldSn;
     let cur = g_appType g1;
     let es1 = (if \<not> has_role cur APP_APPMGR then [ToApp MI_BroadcastCreateWorld proto APP_APPMGR 0] else []);
     let es2 = (if \<not> has_role cur APP_GAME then
                  (if gameAppId \<noteq> 0 then [ToApp MI_BroadcastCreateWorld proto APP_GAME gameAppId]
                   else [ToAllApp MI_BroadcastCreateWorld proto APP_GAME]) else []);
     let es3 = (if has_role cur APP_GAME \<or> has_role cur APP_APPMGR
                then [Dispatch MI_BroadcastCreateWorld proto None] else []);
     Some (g1, (worldSn, worldId), es1 @ es2 @ es3) }"

section \<open>The invariant of a world\<close>

text \<open>A player is filed under its own serial number, and its identity carries that number and the
  serial number of the world.\<close>

definition world_inv :: "World \<Rightarrow> bool" where
  "world_inv w \<longleftrightarrow> sm_wf (mg_players (sw_manager w)) \<and> ss_wf (sw_addPlayer w) \<and>
     (\<forall>(sn, p)\<in>set (mg_players (sw_manager w)). py_playerSn p = sn
        \<and> GetTagValue TagPlayer (ni_tagKey (py_identify p)) = Some \<lparr>KeyStr = '''', KeyInt64 = sn\<rparr>
        \<and> GetTagValue TagEntity (ni_tagKey (py_identify p)) = Some \<lparr>KeyStr = '''', KeyInt64 = sw_sn w\<rparr>)"

lemma world_inv_Awake [simp]: "world_inv (World_Awake worldId sn)"
  by (simp add: world_inv_def World_Awake_def)

lemma world_inv_BackToPool [wf_intros]: "world_inv w \<Longrightarrow> world_inv (World_BackToPool w)"
  by (simp add: world_inv_def World_BackToPool_def)

lemma set_sm_erase_subset: "set (sm_erase k m) \<subseteq> set m"
  by (auto simp: sm_erase_def)

lemma world_inv_Remove [wf_intros]:
  "world_inv w \<Longrightarrow> world_inv (w\<lparr>sw_manager := Manager_RemovePlayerBySn sn (sw_manager w)\<rparr>)"
  using set_sm_erase_subset [of sn "mg_players (sw_manager w)"]
  by (auto simp: world_inv_def Manager_RemovePlayerBySn_def split: option.splits)

text \<open>A write through a \<open>Player*\<close> that keeps number and identity.\<close>

lemma world_inv_set_player:
  assumes "world_inv w" "sm_find (mg_players (sw_manager w)) sn = Some p"
    and "py_playerSn p' = py_playerSn p" "py_identify p' = py_identify p"
  shows "world_inv (w\<lparr>sw_manager := Manager_set_player sn p' (sw_manager w)\<rparr>)"
proof -
  have "(sn, p) \<in> set (mg_players (sw_manager w))" using assms(2) by (rule map_of_SomeD)
  then show ?thesis
    using assms set_sm_assign_subset [of sn p' "mg_players (sw_manager w)"]
    by (fastforce simp: world_inv_def Manager_set_player_def)
qed

lemma RemoveAllPlayers_filter:
  "fst (RemoveAllPlayers i m) = filter (\<lambda>(sn, p). socket_of p \<noteq> sk_Socket (ni_socketKey i)) m"
  "fst (snd (RemoveAllPlayers i m)) = map snd (filter (\<lambda>(sn, p). socket_of p = sk_Socket (ni_socketKey i)) m)"
  "snd (snd (RemoveAllPlayers i m)) = map (\<lambda>(sn, p). save_player p)
     (filter (\<lambda>(sn, p). socket_of p = sk_Socket (ni_socketKey i)) m)"
  by (induction i m rule: RemoveAllPlayers.induct) (auto simp: split_beta Let_def)

lemma World_HandleNetworkDisconnect_inv [wf_intros]:
  assumes "world_inv w"
  shows "world_inv (fst (World_HandleNetworkDisconnect i w))"
proof -
  have "world_inv (w\<lparr>sw_manager := fst (Manager_RemoveAllPlayers i (sw_manager w))\<rparr>)"
    using assms by (auto simp: world_inv_def Manager_RemoveAllPlayers_def split_beta Let_def RemoveAllPlayers_filter)
  then show ?thesis
    using assms by (auto simp: World_HandleNetworkDisconnect_def split_beta Let_def intro: wf_intros split: option.splits)
qed

lemma SyncAppearTimer_frame:
  "SyncAppearTimer w = Some (w', es) \<Longrightarrow> w' = w\<lparr>sw_addPlayer := []\<rparr>"
  by (auto simp: SyncAppearTimer_def Let_def split: if_splits option.splits Option.bind_splits)

lemma SyncAppearTimer_inv [wf_intros]:
  "world_inv w \<Longrightarrow> SyncAppearTimer w = Some (w', es) \<Longrightarrow> world_inv w'"
  by (auto dest!: SyncAppearTimer_frame simp: world_inv_def)

lemma HandleG2SRemovePlayer_inv [wf_intros]:
  "world_inv w \<Longrightarrow> world_inv (fst (HandleG2SRemovePlayer p sn w))"
  by (auto simp: HandleG2SRemovePlayer_def Let_def intro: wf_intros)

lemma HandleMove_inv:
  assumes "world_inv w" "sm_find (mg_players (sw_manager w)) (py_playerSn p) = Some p"
    and "HandleMove ops pooled p positions w = Some (w', es)"
  shows "world_inv w'"
  using assms(3) by (auto simp: HandleMove_def Let_def split: Option.bind_splits
      intro!: world_inv_set_player [OF assms(1,2)])

lemma Move_player_frame:
  assumes "Move_player ops t s p = Some p'"
  shows "py_playerSn p' = py_playerSn p \<and> py_identify p' = py_identify p"
  using assms by (auto simp: Move_player_def Let_def split_beta split: option.splits Option.bind_splits)

lemma ParserFromProto_frame:
  assumes "Player_ParserFromProto worlds sn proto p = Some p'"
  shows "py_playerSn p' = sn \<and> py_identify p' = py_identify p"
  using assms by (auto simp: Player_ParserFromProto_def Let_def split: option.splits Option.bind_splits)

lemma Add_LastMap_frame:
  assumes "Add_LastMap worlds p = Some p'"
  shows "py_playerSn p' = py_playerSn p \<and> py_identify p' = py_identify p"
  using assms by (auto simp: Add_LastMap_def split: option.splits)

lemma Add_Detail_frame [simp]:
  "py_playerSn (Add_Detail p) = py_playerSn p" "py_identify (Add_Detail p) = py_identify p"
  by (auto simp: Add_Detail_def split: option.splits)


text \<open>What a player that arrives leaves in the world.\<close>

lemma HandleSyncPlayer_new:
  assumes "HandleSyncPlayer worlds i proto w = Some (w', es)"
    and "sm_find (mg_players (sw_manager w)) (pp_sn proto) = None"
  obtains p pos where "py_playerSn p = pp_sn proto"
    "py_identify p = py_identify (Player_Awake_sn i (pp_sn proto) (sw_sn w))"
    "w' = w\<lparr>sw_manager := (sw_manager w)\<lparr>mg_players := sm_assign (pp_sn proto) p
             (sm_assign (pp_sn proto) (Player_Awake_sn i (pp_sn proto) (sw_sn w)) (mg_players (sw_manager w)))\<rparr>,
           sw_addPlayer := ss_insert (pp_sn proto) (sw_addPlayer w)\<rparr>"
    "es = [ToIdentify S2C_EnterWorld (P_EnterWorld (sw_worldId w) pos) (py_identify p)]"
proof -
  let ?p0 = "Player_Awake_sn i (pp_sn proto) (sw_sn w)"
  let ?m1 = "(sw_manager w)\<lparr>mg_players := sm_assign (pp_sn proto) ?p0 (mg_players (sw_manager w))\<rparr>"
  have "\<exists>p1. Player_ParserFromProto worlds (pp_sn proto) proto ?p0 = Some p1 \<and>
     (\<exists>p2. Add_LastMap worlds (Add_Detail p1) = Some p2 \<and> (\<exists>lm. py_lastMap p2 = Some lm \<and>
     (\<exists>lm1. LastMap_EnterWorld worlds (sw_worldId w) (sw_sn w) lm = Some lm1 \<and> (\<exists>cur. GetCur lm1 = Some cur \<and>
       w\<lparr>sw_manager := Manager_set_player (pp_sn proto) (p2\<lparr>py_lastMap := Some lm1\<rparr>) ?m1,
         sw_addPlayer := ss_insert (pp_sn proto) (sw_addPlayer w)\<rparr> = w' \<and>
       [ToIdentify S2C_EnterWorld (P_EnterWorld (sw_worldId w) (lw_Position cur)) (py_identify p2)] = es))))"
    using assms by (simp add: HandleSyncPlayer_def Manager_AddPlayer_def Let_def Option.bind_eq_Some_conv)
  then obtain p1 p2 lm1 and cur :: LastWorld where
    p1: "Player_ParserFromProto worlds (pp_sn proto) proto ?p0 = Some p1" and
    p2: "Add_LastMap worlds (Add_Detail p1) = Some p2" and
    w': "w\<lparr>sw_manager := Manager_set_player (pp_sn proto) (p2\<lparr>py_lastMap := Some lm1\<rparr>) ?m1,
         sw_addPlayer := ss_insert (pp_sn proto) (sw_addPlayer w)\<rparr> = w'" and
    es: "[ToIdentify S2C_EnterWorld (P_EnterWorld (sw_worldId w) (lw_Position cur)) (py_identify p2)] = es"
    by blast
  show ?thesis
    by (rule that [of "p2\<lparr>py_lastMap := Some lm1\<rparr>" "lw_Position cur"])
      (use ParserFromProto_frame [OF p1] Add_LastMap_frame [OF p2] in \<open>simp_all flip: w' es add: Manager_set_player_def\<close>)
qed

lemma HandleSyncPlayer_known:
  "sm_find (mg_players (sw_manager w)) (pp_sn proto) = Some p \<Longrightarrow> HandleSyncPlayer worlds i proto w = Some (w, [])"
  by (simp add: HandleSyncPlayer_def Manager_AddPlayer_def)

lemma Player_Awake_sn_tags [simp]:
  "sm_find (ni_tagKey (py_identify (Player_Awake_sn i sn worldSn))) TagPlayer = Some \<lparr>KeyStr = '''', KeyInt64 = sn\<rparr>"
  "sm_find (ni_tagKey (py_identify (Player_Awake_sn i sn worldSn))) TagEntity = Some \<lparr>KeyStr = '''', KeyInt64 = worldSn\<rparr>"
  "py_playerSn (Player_Awake_sn i sn worldSn) = sn"
  by (simp_all add: Player_Awake_sn_def Player_free_def)

lemma HandleSyncPlayer_inv:
  assumes inv: "world_inv w" and h: "HandleSyncPlayer worlds i proto w = Some (w', es)"
  shows "world_inv w'"
proof (cases "sm_find (mg_players (sw_manager w)) (pp_sn proto)")
  case None
  obtain p pos where p: "py_playerSn p = pp_sn proto"
    "py_identify p = py_identify (Player_Awake_sn i (pp_sn proto) (sw_sn w))"
    "w' = w\<lparr>sw_manager := (sw_manager w)\<lparr>mg_players := sm_assign (pp_sn proto) p
             (sm_assign (pp_sn proto) (Player_Awake_sn i (pp_sn proto) (sw_sn w)) (mg_players (sw_manager w)))\<rparr>,
           sw_addPlayer := ss_insert (pp_sn proto) (sw_addPlayer w)\<rparr>"
    by (rule HandleSyncPlayer_new [OF h None])
  let ?p0 = "Player_Awake_sn i (pp_sn proto) (sw_sn w)"
  have sub: "set (sm_assign (pp_sn proto) p (sm_assign (pp_sn proto) ?p0 (mg_players (sw_manager w))))
      \<subseteq> {(pp_sn proto, p), (pp_sn proto, ?p0)} \<union> set (mg_players (sw_manager w))"
    using set_sm_assign_subset [of "pp_sn proto" p "sm_assign (pp_sn proto) ?p0 (mg_players (sw_manager w))"]
      set_sm_assign_subset [of "pp_sn proto" ?p0 "mg_players (sw_manager w)"] by blast
  have "py_playerSn q = sn
      \<and> sm_find (ni_tagKey (py_identify q)) TagPlayer = Some \<lparr>KeyStr = '''', KeyInt64 = sn\<rparr>
      \<and> sm_find (ni_tagKey (py_identify q)) TagEntity = Some \<lparr>KeyStr = '''', KeyInt64 = sw_sn w\<rparr>"
    if "(sn, q) \<in> set (mg_players (sw_manager w'))" for sn q
  proof (cases "(sn, q) \<in> set (mg_players (sw_manager w))")
    case True
    then show ?thesis using inv by (auto simp: world_inv_def)
  next
    case False
    have "(sn, q) = (pp_sn proto, p) \<or> (sn, q) = (pp_sn proto, ?p0)"
      using subsetD [OF sub, of "(sn, q)"] that False p(3) by simp
    then show ?thesis using p(1,2) by (elim disjE) simp_all
  qed
  then show ?thesis using inv by (auto simp: world_inv_def p(3))
next
  case (Some p)
  then show ?thesis using h inv by (simp add: HandleSyncPlayer_known)
qed

text \<open>What happens to a world: arrivals, moves and their ticks, departures, closed connections and
  the timer that makes the new players visible.\<close>

inductive world_reach :: "float_ops \<Rightarrow> ResourceWorldMgr \<Rightarrow> World \<Rightarrow> bool" for ops worlds where
  Awake: "world_reach ops worlds (World_Awake worldId sn)"
| Arrive: "world_reach ops worlds w \<Longrightarrow> HandleSyncPlayer worlds i proto w = Some (w', es) \<Longrightarrow> world_reach ops worlds w'"
| Appear: "world_reach ops worlds w \<Longrightarrow> SyncAppearTimer w = Some (w', es) \<Longrightarrow> world_reach ops worlds w'"
| Move: "world_reach ops worlds w \<Longrightarrow> Manager_GetPlayerBySn (py_playerSn p) (sw_manager w) = Some p
    \<Longrightarrow> HandleMove ops pooled p positions w = Some (w', es) \<Longrightarrow> world_reach ops worlds w'"
| Tick: "world_reach ops worlds w \<Longrightarrow> Manager_GetPlayerBySn sn (sw_manager w) = Some p
    \<Longrightarrow> Move_player ops t speed p = Some p'
    \<Longrightarrow> world_reach ops worlds (w\<lparr>sw_manager := Manager_set_player sn p' (sw_manager w)\<rparr>)"
| Leave: "world_reach ops worlds w \<Longrightarrow> world_reach ops worlds (fst (HandleG2SRemovePlayer p sn w))"
| Closed: "world_reach ops worlds w \<Longrightarrow> world_reach ops worlds (fst (World_HandleNetworkDisconnect i w))"
| Back: "world_reach ops worlds w \<Longrightarrow> world_reach ops worlds (World_BackToPool w)"

lemma world_reach_inv: "world_reach ops worlds w \<Longrightarrow> world_inv w"
proof (induction rule: world_reach.induct)
  case (Arrive w i proto w' es)
  then show ?case using HandleSyncPlayer_inv by blast
next
  case (Move w p pooled positions w' es)
  then show ?case using HandleMove_inv by (auto simp: Manager_GetPlayerBySn_def)
next
  case (Tick w sn p t speed p')
  then show ?case using world_inv_set_player Move_player_frame by (auto simp: Manager_GetPlayerBySn_def)
qed (auto intro: wf_intros)

section \<open>Who sees whom\<close>

lemma roles_of_sn:
  "roles_of ps = Some rs \<Longrightarrow> map role_sn rs = map py_playerSn ps"
  by (induction ps arbitrary: rs) (auto simp: CreateProtoRoleAppear_def split: Option.bind_splits)

lemma BroadcastPacket_mem:
  "e \<in> set (BroadcastPacket msgId proto w) \<longleftrightarrow>
     (\<exists>(sn, p)\<in>set (mg_players (sw_manager w)). e = ToIdentify msgId proto (py_identify p))"
  by (auto simp: BroadcastPacket_def)

lemma BroadcastPacket_to_mem:
  "e \<in> set (BroadcastPacket_to msgId proto sns w) \<longleftrightarrow>
     (\<exists>sn\<in>set sns. \<exists>p. sm_find (mg_players (sw_manager w)) sn = Some p \<and> e = ToIdentify msgId proto (py_identify p))"
  by (induction sns) (auto simp: BroadcastPacket_to_def Manager_GetPlayerBySn_def split: option.splits, metis)

definition shows_role :: "send list \<Rightarrow> Player \<Rightarrow> u64 \<Rightarrow> bool" where
  "shows_role es p sn \<longleftrightarrow> (\<exists>rs. ToIdentify S2C_RoleAppear (P_RoleAppear rs) (py_identify p) \<in> set es \<and> sn \<in> role_sn ` set rs)"

lemma world_inv_player:
  assumes "world_inv w" "sm_find (mg_players (sw_manager w)) sn = Some p"
  shows "py_playerSn p = sn"
    "sm_find (ni_tagKey (py_identify p)) TagPlayer = Some \<lparr>KeyStr = '''', KeyInt64 = sn\<rparr>"
  using assms(1) map_of_SomeD [OF assms(2)] by (auto simp: world_inv_def)

lemma world_inv_identify_inj:
  assumes "world_inv w" "sm_find (mg_players (sw_manager w)) a = Some p" "sm_find (mg_players (sw_manager w)) b = Some q"
    and "py_identify p = py_identify q"
  shows "a = b"
  using world_inv_player(2) [OF assms(1,2)] world_inv_player(2) [OF assms(1,3)] assms(4) by simp


lemma SyncAppearTimer_roles:
  assumes "world_inv w" "SyncAppearTimer w = Some (w', es)"
    and p: "sm_find (mg_players (sw_manager w)) sp = Some p" and q: "sm_find (mg_players (sw_manager w)) sq = Some q"
  shows "shows_role es p sq \<longleftrightarrow> sp \<in> set (sw_addPlayer w) \<or> sq \<in> set (sw_addPlayer w)"
proof (cases "sw_addPlayer w = []")
  case True
  then show ?thesis using assms by (auto simp: SyncAppearTimer_def shows_role_def)
next
  case False
  let ?M = "mg_players (sw_manager w)" and ?A = "sw_addPlayer w"
  obtain new old where
    new: "roles_of (List.map_filter (\<lambda>sn. Manager_GetPlayerBySn sn (sw_manager w)) ?A) = Some new" and
    old: "roles_of (map snd (filter (\<lambda>one. fst one \<notin> set ?A) ?M)) = Some old" and
    es: "es = (if new \<noteq> [] then BroadcastPacket S2C_RoleAppear (P_RoleAppear new) w else [])
            @ (if old \<noteq> [] then BroadcastPacket_to S2C_RoleAppear (P_RoleAppear old) ?A w else [])"
    using assms(2) False by (auto simp: SyncAppearTimer_def Let_def split: Option.bind_splits)
  have sq_new: "sq \<in> role_sn ` set new \<longleftrightarrow> sq \<in> set ?A"
  proof -
    have "role_sn ` set new = py_playerSn ` {r. \<exists>sn\<in>set ?A. sm_find ?M sn = Some r}"
      using arg_cong [OF roles_of_sn [OF new], of set]
      by (force simp: Manager_GetPlayerBySn_def map_filter_def image_iff)
    then show ?thesis using world_inv_player(1) [OF assms(1)] q by (auto simp: image_iff)
  qed
  have sq_old: "sq \<in> role_sn ` set old \<longleftrightarrow> sq \<notin> set ?A"
  proof -
    have "role_sn ` set old = py_playerSn ` snd ` {x \<in> set ?M. fst x \<notin> set ?A}"
      using arg_cong [OF roles_of_sn [OF old], of set] by (simp add: image_image)
    moreover have "py_playerSn (snd x) = fst x" if "x \<in> set ?M" for x
      using that assms(1) by (auto simp: world_inv_def)
    moreover have "(sq, q) \<in> set ?M" using q by (rule map_of_SomeD)
    ultimately show ?thesis by (force simp: image_iff)
  qed
  have to_new: "(\<exists>sn\<in>set ?A. \<exists>p'. sm_find ?M sn = Some p' \<and> py_identify p = py_identify p') \<longleftrightarrow> sp \<in> set ?A"
    using world_inv_identify_inj [OF assms(1) p] p by metis
  have all: "\<exists>(sn, p')\<in>set ?M. py_identify p = py_identify p'" using map_of_SomeD [OF p] by blast
  have "ToIdentify S2C_RoleAppear (P_RoleAppear rs) (py_identify p) \<in> set es \<longleftrightarrow>
     rs \<noteq> [] \<and> (rs = new \<or> rs = old \<and> sp \<in> set ?A)" for rs
    using all to_new by (auto simp: es BroadcastPacket_mem BroadcastPacket_to_mem)
  then have "shows_role es p sq \<longleftrightarrow> (\<exists>rs. (rs = new \<or> rs = old \<and> sp \<in> set ?A) \<and> sq \<in> role_sn ` set rs)"
    unfolding shows_role_def by (metis empty_iff image_is_empty set_empty)
  then have "shows_role es p sq \<longleftrightarrow> (sq \<in> role_sn ` set new) \<or> (sq \<in> role_sn ` set old \<and> sp \<in> set ?A)"
    by blast
  then show ?thesis using sq_new sq_old by blast
qed



section \<open>Properties\<close>

text \<open>C37: in every world that arrivals, moves, departures, closed connections and timers can reach, a
  player that is filed under a serial number carries that number and the world's in its
  identity, so that a packet with this identity is dispatched to this player again.\<close>

theorem world_identities:
  assumes "world_reach ops worlds w" and "Manager_GetPlayerBySn sn (sw_manager w) = Some p"
  shows "py_playerSn p = sn \<and> World_GetPlayer (py_identify p) w = Some p
    \<and> GetTagValue TagEntity (ni_tagKey (py_identify p)) = Some \<lparr>KeyStr = '''', KeyInt64 = sw_sn w\<rparr>"
proof -
  have "world_inv w" using assms(1) by (rule world_reach_inv)
  then show ?thesis using assms(2) world_inv_player [of w sn p] map_of_SomeD [of "mg_players (sw_manager w)" sn p]
    by (auto simp: Manager_GetPlayerBySn_def World_GetPlayer_def world_inv_def)
qed

text \<open>C38: the timer of a world clears the set of new players, and shows a player to another one (or to
  itself) exactly when one of the two is new: every pair that met before is left alone, and no
  player that is online is missed.\<close>

theorem SyncAppearTimer_visibility:
  assumes "world_reach ops worlds w" and "SyncAppearTimer w = Some (w', es)"
    and "Manager_GetPlayerBySn sp (sw_manager w) = Some p" and "Manager_GetPlayerBySn sq (sw_manager w) = Some q"
  shows "sw_addPlayer w' = [] \<and> sw_manager w' = sw_manager w \<and>
    (shows_role es p sq \<longleftrightarrow> sp \<in> set (sw_addPlayer w) \<or> sq \<in> set (sw_addPlayer w))"
  using SyncAppearTimer_frame [OF assms(2)]
    SyncAppearTimer_roles [OF world_reach_inv [OF assms(1)] assms(2)] assms(3,4)
  by (simp add: Manager_GetPlayerBySn_def)

section \<open>Instances\<close>

definition sample_arrival :: "u64 \<Rightarrow> Player_proto" where
  "sample_arrival sn = Player_default\<lparr>pp_sn := sn\<rparr>"

definition sample_world1 :: World where
  "sample_world1 = fst (the (HandleSyncPlayer sample_table (sample_client 5) (sample_arrival 7) (World_Awake 3 100)))"

definition sample_world2 :: World where
  "sample_world2 = fst (the (SyncAppearTimer sample_world1))"

definition sample_world3 :: World where
  "sample_world3 = fst (the (HandleSyncPlayer sample_table (sample_client 6) (sample_arrival 8) sample_world2))"

lemmas arrival_defs = HandleSyncPlayer_def Manager_AddPlayer_def Player_ParserFromProto_def Add_LastMap_def Add_Detail_def
  LastMap_ParserFromProto_def LastMap_EnterWorld_def GetCur_def GetLastPublicMap_def GetInitMap_def
  Player_Awake_sn_def Player_free_def sample_arrival_def Player_default_def sample_world_row_def
  LastWorld_default_def LastMap_new_def Manager_set_player_def IsType_def World_Awake_def EnterDungeon_def

lemma sample_world_steps:
  "HandleSyncPlayer sample_table (sample_client 5) (sample_arrival 7) (World_Awake 3 100) \<noteq> None"
  "SyncAppearTimer sample_world1 \<noteq> None"
  "HandleSyncPlayer sample_table (sample_client 6) (sample_arrival 8) sample_world2 \<noteq> None"
  "SyncAppearTimer sample_world3 \<noteq> None"
  by code_simp+

lemma sample_world3_reach: "world_reach ops sample_table sample_world3"
  using world_reach.Arrive [OF world_reach.Appear [OF world_reach.Arrive [OF world_reach.Awake]]] sample_world_steps
  by (fastforce simp: sample_world1_def sample_world2_def sample_world3_def)


definition sample_member :: "u64 \<Rightarrow> Player" where
  "sample_member sn = the (Manager_GetPlayerBySn sn (sw_manager sample_world3))"

lemma sample_members:
  "Manager_GetPlayerBySn 7 (sw_manager sample_world3) = Some (sample_member 7)"
  "Manager_GetPlayerBySn 8 (sw_manager sample_world3) = Some (sample_member 8)"
  "SyncAppearTimer sample_world3 = Some (the (SyncAppearTimer sample_world3))"
proof -
  have "Manager_GetPlayerBySn 7 (sw_manager sample_world3) \<noteq> None" by code_simp
  then show "Manager_GetPlayerBySn 7 (sw_manager sample_world3) = Some (sample_member 7)" by (simp add: sample_member_def)
  have "Manager_GetPlayerBySn 8 (sw_manager sample_world3) \<noteq> None" by code_simp
  then show "Manager_GetPlayerBySn 8 (sw_manager sample_world3) = Some (sample_member 8)" by (simp add: sample_member_def)
  show "SyncAppearTimer sample_world3 = Some (the (SyncAppearTimer sample_world3))"
    using sample_world_steps(4) by simp
qed

lemma sample_world3_new: "sw_addPlayer sample_world3 = [8]" "sw_sn sample_world3 = 100"
  by code_simp+

definition sample_ops :: float_ops where
  "sample_ops = \<lparr>fo_scale = \<lambda>_ _. (0, 0), fo_reached = \<lambda>_ _ _ _. True, fo_step = \<lambda>_ _ _ v. (v_X v, v_Z v)\<rparr>"

theorem world_identities_witness:
  "World_GetPlayer (py_identify (sample_member 7)) sample_world3 = Some (sample_member 7)
   \<and> GetTagValue TagEntity (ni_tagKey (py_identify (sample_member 7))) = Some \<lparr>KeyStr = '''', KeyInt64 = 100\<rparr>"
  using world_identities [OF sample_world3_reach [of sample_ops] sample_members(1)] sample_world3_new(2) by simp

theorem SyncAppearTimer_visibility_witness:
  "let es = snd (the (SyncAppearTimer sample_world3)) in
     shows_role es (sample_member 7) 8 \<and> shows_role es (sample_member 8) 7 \<and> \<not> shows_role es (sample_member 7) 7"
proof -
  have t: "SyncAppearTimer sample_world3 = Some (fst (the (SyncAppearTimer sample_world3)), snd (the (SyncAppearTimer sample_world3)))"
    using sample_members(3) by simp
  note v = SyncAppearTimer_visibility [OF sample_world3_reach [of sample_ops] t]
  show ?thesis
    using v [OF sample_members(1) sample_members(2)] v [OF sample_members(2) sample_members(1)]
      v [OF sample_members(1) sample_members(1)] sample_world3_new(1)
    by (simp add: Let_def)
qed

end
