(* ===== verification/Redis_Store.thy ===== *)
theory Redis_Store
  imports Players
begin

text \<open>
  The Redis clients: \<open>redis_connector.cpp\<close> with \<open>strutil::format\<close>, and the handlers of the login
  process (\<open>redis_login.cpp\<close>) and of the game process (\<open>redis_game.cpp\<close>). The server behind
  \<open>redisCommand\<close> is an argument \<open>exec\<close>: it takes the command text and its data, and gives a reply
  (\<open>None\<close> is a null pointer: the connection broke) and the new data. What the code relies on is
  \<open>redis_ok\<close>. A result \<open>None\<close> of a handler is a null pointer that is followed, or the exception of
  \<open>std::stoi\<close>.
\<close>

section \<open>\<open>strutil::format\<close>\<close>

text \<open>The text that \<open>c_str()\<close> of the result shows. The inner buffer of an empty \<open>std::string\<close> holds 15
  characters; a text of exactly 15 is not given a larger one, and \<open>vsnprintf\<close> cuts it.\<close>

definition strutil_format :: "string \<Rightarrow> string" where
  "strutil_format text = (if length text > 15 then text else take 14 text)"

lemma strutil_format_id [simp]: "length text \<noteq> 15 \<Longrightarrow> strutil_format text = text"
  by (auto simp: strutil_format_def)

section \<open>\<open>class RedisConnector\<close>\<close>

datatype redis_reply =
    REDIS_REPLY_STATUS string
  | REDIS_REPLY_INTEGER int
  | REDIS_REPLY_STRING string
  | REDIS_REPLY_NIL
  | REDIS_REPLY_ERROR string

type_synonym 'd redis_exec = "string \<Rightarrow> 'd \<Rightarrow> redis_reply option \<times> 'd"

text \<open>\<open>rd_context\<close>: \<open>_pRedisContext\<close> is not null. \<open>rd_data\<close>: the data of the server.\<close>

record 'd Redis =
  rd_ip :: string
  rd_port :: int
  rd_context :: bool
  rd_data :: 'd

text \<open>A command whose reply is used without a test.\<close>

definition redisCommand :: "'d redis_exec \<Rightarrow> string \<Rightarrow> 'd Redis \<Rightarrow> (redis_reply \<times> 'd Redis) option" where
  "redisCommand exec command r =
     (if \<not> rd_context r then None
      else case exec command (rd_data r) of
             (None, _) \<Rightarrow> None
           | (Some pRedisReply, d) \<Rightarrow> Some (pRedisReply, r\<lparr>rd_data := d\<rparr>))"

definition is_status :: "string \<Rightarrow> redis_reply \<Rightarrow> bool" where
  "is_status expected reply =
     (case reply of REDIS_REPLY_STATUS str \<Rightarrow> strncmp_eq str expected (length expected) | _ \<Rightarrow> False)"

definition Ping :: "'d redis_exec \<Rightarrow> 'd Redis \<Rightarrow> bool \<times> 'd Redis" where
  "Ping exec r =
     (if \<not> rd_context r then (False, r)
      else case exec ''PING'' (rd_data r) of
             (None, d) \<Rightarrow> (False, r\<lparr>rd_data := d\<rparr>)
           | (Some reply, d) \<Rightarrow> (is_status ''PONG'' reply, r\<lparr>rd_data := d\<rparr>))"

text \<open>\<open>reachable\<close>: the outcome of \<open>redisConnectWithTimeout\<close>.\<close>

definition Redis_Connect :: "(string \<Rightarrow> int \<Rightarrow> bool) \<Rightarrow> 'd redis_exec \<Rightarrow> 'd Redis \<Rightarrow> bool \<times> 'd Redis" where
  "Redis_Connect reachable exec r =
     (if \<not> reachable (rd_ip r) (rd_port r) then (False, r)
      else case exec (strutil_format ''select 1'') (rd_data r) of
             (None, d) \<Rightarrow> (False, r\<lparr>rd_data := d\<rparr>)
           | (Some reply, d) \<Rightarrow>
               if \<not> is_status ''OK'' reply then (False, r\<lparr>rd_data := d\<rparr>)
               else Ping exec (r\<lparr>rd_context := True, rd_data := d\<rparr>))"

definition Redis_Disconnect :: "'d Redis \<Rightarrow> 'd Redis" where
  "Redis_Disconnect r = r\<lparr>rd_context := False\<rparr>"

definition Redis_BackToPool :: "'d Redis \<Rightarrow> 'd Redis" where
  "Redis_BackToPool r = Redis_Disconnect r"

definition CheckPing :: "(string \<Rightarrow> int \<Rightarrow> bool) \<Rightarrow> 'd redis_exec \<Rightarrow> 'd Redis \<Rightarrow> 'd Redis" where
  "CheckPing reachable exec r =
     (let (alive, r1) = Ping exec r
      in if alive then r1 else snd (Redis_Connect reachable exec (Redis_Disconnect r1)))"

text \<open>\<open>config\<close> is the entry of the Redis server in the configuration.\<close>

definition Redis_Awake :: "(string \<Rightarrow> int \<Rightarrow> bool) \<Rightarrow> 'd redis_exec \<Rightarrow> (string \<times> int) option \<Rightarrow> 'd Redis \<Rightarrow> 'd Redis" where
  "Redis_Awake reachable exec config r =
     (case config of
        None \<Rightarrow> r
      | Some (ip, port) \<Rightarrow> snd (Redis_Connect reachable exec (r\<lparr>rd_ip := ip, rd_port := port\<rparr>)))"

definition Setex_command :: "'d redis_exec \<Rightarrow> string \<Rightarrow> 'd Redis \<Rightarrow> (bool \<times> 'd Redis) option" where
  "Setex_command exec command r = do {
     (reply, r1) \<leftarrow> redisCommand exec command r;
     Some (is_status ''OK'' reply, r1) }"

definition Setex :: "'d redis_exec \<Rightarrow> string \<Rightarrow> string \<Rightarrow> int \<Rightarrow> 'd Redis \<Rightarrow> (bool \<times> 'd Redis) option" where
  "Setex exec key v timeout r =
     Setex_command exec (strutil_format (''SETEX '' @ c_str key @ '' '' @ show_int timeout @ '' '' @ c_str v)) r"

definition Setex_uint64 :: "'d redis_exec \<Rightarrow> string \<Rightarrow> u64 \<Rightarrow> int \<Rightarrow> 'd Redis \<Rightarrow> (bool \<times> 'd Redis) option" where
  "Setex_uint64 exec key v timeout r =
     Setex_command exec (strutil_format (''SETEX '' @ c_str key @ '' '' @ show_int timeout @ '' '' @ show_nat (unat v))) r"

definition SetnxExpire :: "'d redis_exec \<Rightarrow> string \<Rightarrow> int \<Rightarrow> int \<Rightarrow> 'd Redis \<Rightarrow> (bool \<times> 'd Redis) option" where
  "SetnxExpire exec key v timeout r =
     (if \<not> rd_context r then Some (False, r)
      else do {
        (reply, r1) \<leftarrow> redisCommand exec (strutil_format (''SETNX '' @ c_str key @ '' '' @ show_int v)) r;
        (if reply \<noteq> REDIS_REPLY_INTEGER 1 then Some (False, r1)
         else do {
           (reply2, r2) \<leftarrow> redisCommand exec (strutil_format (''EXPIRE '' @ c_str key @ '' '' @ show_int timeout)) r1;
           Some (reply2 = REDIS_REPLY_INTEGER 1, r2) }) })"

definition Redis_Delete :: "'d redis_exec \<Rightarrow> string \<Rightarrow> 'd Redis \<Rightarrow> 'd Redis option" where
  "Redis_Delete exec key r = map_option snd (redisCommand exec (strutil_format (''del '' @ c_str key)) r)"

text \<open>\<open>static_cast<int>\<close> keeps the low 32 bits.\<close>

definition Redis_GetInt :: "'d redis_exec \<Rightarrow> string \<Rightarrow> 'd Redis \<Rightarrow> (int \<times> 'd Redis) option" where
  "Redis_GetInt exec key r = do {
     (reply, r1) \<leftarrow> redisCommand exec (strutil_format (''get '' @ c_str key)) r;
     nRs \<leftarrow> (case reply of
          REDIS_REPLY_INTEGER i \<Rightarrow> Some (sint (word_of_int i :: 32 word))
        | REDIS_REPLY_STRING str \<Rightarrow> stoi (c_str str)
        | _ \<Rightarrow> Some 0);
     Some (nRs, r1) }"

definition Redis_GetString :: "'d redis_exec \<Rightarrow> string \<Rightarrow> 'd Redis \<Rightarrow> (string \<times> 'd Redis) option" where
  "Redis_GetString exec key r = do {
     (reply, r1) \<leftarrow> redisCommand exec (strutil_format (''get '' @ c_str key)) r;
     Some ((case reply of REDIS_REPLY_STRING str \<Rightarrow> c_str str | _ \<Rightarrow> ''''), r1) }"

section \<open>Keys\<close>

definition RedisKeyAccountTokey :: string where "RedisKeyAccountTokey = ''engine::token::''"
definition RedisKeyAccountOnlineLogin :: string where "RedisKeyAccountOnlineLogin = ''engine::online::login::''"
definition RedisKeyAccountOnlineGame :: string where "RedisKeyAccountOnlineGame = ''engine::online::game::''"

abbreviation (input) RedisKeyAccountTokeyTimeout :: int where "RedisKeyAccountTokeyTimeout \<equiv> 2 * 60"
abbreviation (input) RedisKeyAccountOnlineLoginTimeout :: int where "RedisKeyAccountOnlineLoginTimeout \<equiv> 6 * 60"
abbreviation (input) RedisKeyAccountOnlineGameTimeout :: int where "RedisKeyAccountOnlineGameTimeout \<equiv> 6 * 60"

section \<open>\<open>class RedisLogin\<close>\<close>

abbreviation (input) SOTR_Offline :: int where "SOTR_Offline \<equiv> 0"
abbreviation (input) SOTR_Online :: int where "SOTR_Online \<equiv> 1"

definition HandleAccountSyncOnlineToRedis :: "'d redis_exec \<Rightarrow> int \<Rightarrow> string \<Rightarrow> 'd Redis \<Rightarrow> 'd Redis option" where
  "HandleAccountSyncOnlineToRedis exec appId account r =
     map_option snd (Setex exec (RedisKeyAccountOnlineLogin @ account) (show_int appId) RedisKeyAccountOnlineLoginTimeout r)"

definition HandleAccountDeleteOnlineToRedis :: "'d redis_exec \<Rightarrow> string \<Rightarrow> 'd Redis \<Rightarrow> 'd Redis option" where
  "HandleAccountDeleteOnlineToRedis exec account r = Redis_Delete exec (RedisKeyAccountOnlineLogin @ account) r"

text \<open>\<open>enc\<close> is \<open>SerializeToString\<close> of a \<open>TokenInfo\<close>, \<open>uuid\<close> the result of \<open>GenerateUUID\<close>.\<close>

definition HandleLoginTokenToRedis :: "(string \<Rightarrow> u64 \<Rightarrow> string) \<Rightarrow> 'd redis_exec \<Rightarrow> string \<Rightarrow> string \<Rightarrow> u64 \<Rightarrow> 'd Redis
    \<Rightarrow> ('d Redis \<times> send list) option" where
  "HandleLoginTokenToRedis enc exec uuid account playerSn r = do {
     (ok, r1) \<leftarrow> Setex exec (RedisKeyAccountTokey @ account) (enc uuid playerSn) RedisKeyAccountTokeyTimeout r;
     let token = (if \<not> ok then '''' else uuid);
     Some (r1, [Dispatch MI_LoginTokenToRedisRs (P_LoginTokenToRedisRs (c_str account) (c_str token)) None]) }"

definition HandleAccountQueryOnline :: "'d redis_exec \<Rightarrow> int \<Rightarrow> string \<Rightarrow> 'd Redis \<Rightarrow> ('d Redis \<times> send list) option" where
  "HandleAccountQueryOnline exec appId account r = do {
     (isSet, r1) \<leftarrow> SetnxExpire exec (RedisKeyAccountOnlineLogin @ account) appId RedisKeyAccountOnlineLoginTimeout r;
     (version, r2) \<leftarrow> Redis_GetInt exec (RedisKeyAccountOnlineGame @ account) r1;
     let code = (if \<not> isSet then SOTR_Online else if version \<noteq> 0 then SOTR_Online else SOTR_Offline);
     Some (r2, [Dispatch MI_AccountQueryOnlineToRedisRs (P_AccountQueryOnlineToRedisRs (c_str account) code) None]) }"

section \<open>\<open>class RedisGame\<close>\<close>

definition HandlePlayerSyncOnlineToRedis :: "'d redis_exec \<Rightarrow> string \<Rightarrow> int \<Rightarrow> 'd Redis \<Rightarrow> 'd Redis option" where
  "HandlePlayerSyncOnlineToRedis exec account curValue r = do {
     let key = RedisKeyAccountOnlineGame @ account;
     (onlineVersion, r1) \<leftarrow> Redis_GetInt exec key r;
     (if curValue < onlineVersion then Some r1
      else map_option snd (Setex_uint64 exec key (word_of_int curValue) RedisKeyAccountOnlineGameTimeout r1)) }"

definition HandlePlayerDeleteOnlineToRedis :: "'d redis_exec \<Rightarrow> string \<Rightarrow> int \<Rightarrow> 'd Redis \<Rightarrow> 'd Redis option" where
  "HandlePlayerDeleteOnlineToRedis exec account curValue r = do {
     let key = RedisKeyAccountOnlineGame @ account;
     (onlineVersion, r1) \<leftarrow> Redis_GetInt exec key r;
     (if curValue < onlineVersion then Some r1 else Redis_Delete exec key r1) }"

text \<open>\<open>dec\<close> is \<open>ParseFromString\<close>.\<close>

definition HandleGameTokenToRedis :: "(string \<Rightarrow> string \<times> u64) \<Rightarrow> 'd redis_exec \<Rightarrow> string \<Rightarrow> 'd Redis
    \<Rightarrow> ('d Redis \<times> send list) option" where
  "HandleGameTokenToRedis dec exec account r = do {
     (tokenValue, r1) \<leftarrow> Redis_GetString exec (RedisKeyAccountTokey @ account) r;
     let (token, player_sn) = dec tokenValue;
     r2 \<leftarrow> Redis_Delete exec (RedisKeyAccountTokey @ account) r1;
     Some (r2, [Dispatch MI_GameTokenToRedisRs (P_GameTokenToRedisRs (c_str account) token player_sn) None]) }"


section \<open>What the code relies on\<close>

text \<open>A word of a command: no blank, no percent sign (the text is used as a format), no NUL.\<close>

definition plain_text :: "string \<Rightarrow> bool" where
  "plain_text s = list_all (\<lambda>c. c \<noteq> CHR '' '' \<and> c \<noteq> CHR ''%'' \<and> c \<noteq> CHR 0x00) s"

text \<open>The documented answers of a server without a failure, while no key expires; \<open>look\<close> is the value
  of a key.\<close>

definition redis_ok :: "'d redis_exec \<Rightarrow> ('d \<Rightarrow> string \<Rightarrow> string option) \<Rightarrow> bool" where
  "redis_ok exec look \<longleftrightarrow> (\<forall>d k. k \<noteq> [] \<and> plain_text k \<longrightarrow>
     (\<forall>v n. v \<noteq> [] \<and> plain_text v \<longrightarrow> (\<exists>d'. exec (''SETEX '' @ k @ '' '' @ show_nat n @ '' '' @ v) d = (Some (REDIS_REPLY_STATUS ''OK''), d')
        \<and> look d' = (look d)(k \<mapsto> v))) \<and>
     (\<forall>v. v \<noteq> [] \<and> plain_text v \<longrightarrow> (\<exists>d'. exec (''SETNX '' @ k @ '' '' @ v) d = (Some (REDIS_REPLY_INTEGER (if look d k = None then 1 else 0)), d')
        \<and> look d' = (if look d k = None then (look d)(k \<mapsto> v) else look d))) \<and>
     (\<forall>n. \<exists>d'. exec (''EXPIRE '' @ k @ '' '' @ show_nat n) d = (Some (REDIS_REPLY_INTEGER (if look d k = None then 0 else 1)), d')
        \<and> look d' = look d) \<and>
     (\<exists>d'. exec (''get '' @ k) d = (Some (case look d k of None \<Rightarrow> REDIS_REPLY_NIL | Some v \<Rightarrow> REDIS_REPLY_STRING v), d')
        \<and> look d' = look d) \<and>
     (\<exists>d'. exec (''del '' @ k) d = (Some (REDIS_REPLY_INTEGER (if look d k = None then 0 else 1)), d')
        \<and> look d' = (look d)(k := None)))"

lemma redis_ok_SETNX:
  "redis_ok exec look \<Longrightarrow> k \<noteq> [] \<Longrightarrow> plain_text k \<Longrightarrow> v \<noteq> [] \<Longrightarrow> plain_text v \<Longrightarrow>
   \<exists>d'. exec (''SETNX '' @ k @ '' '' @ v) d = (Some (REDIS_REPLY_INTEGER (if look d k = None then 1 else 0)), d')
     \<and> look d' = (if look d k = None then (look d)(k \<mapsto> v) else look d)"
  by (simp only: redis_ok_def) blast

lemma plain_append [simp]: "plain_text (a @ b) \<longleftrightarrow> plain_text a \<and> plain_text b"
  by (simp add: plain_text_def)

lemma plain_c_str [simp]: "plain_text s \<Longrightarrow> c_str s = s"
  by (rule c_str_id) (auto simp: plain_text_def list_all_iff)

lemma plain_show_nat [simp]: "plain_text (show_nat n)"
proof (induction n rule: show_nat.induct)
  case (1 n)
  have d: "plain_text [char_of (48 + m)]" if "m < 10" for m :: nat
  proof -
    have "m \<in> {0,1,2,3,4,5,6,7,8,9}" using that by auto
    then show ?thesis by (auto simp: plain_text_def) code_simp+
  qed
  show ?case
    by (subst show_nat.simps) (use 1 d in auto)
qed

lemma show_nat_not_Nil [simp]: "show_nat n \<noteq> []"
  by (subst show_nat.simps) simp

lemma plain_keys [simp]:
  "plain_text RedisKeyAccountTokey" "plain_text RedisKeyAccountOnlineLogin" "plain_text RedisKeyAccountOnlineGame"
  by code_simp+

text \<open>A key is long enough for every command not to be cut.\<close>

definition redis_key :: "string \<Rightarrow> bool" where
  "redis_key k \<longleftrightarrow> plain_text k \<and> length k \<ge> 12"

lemma redis_keys [simp]:
  "plain_text a \<Longrightarrow> redis_key (RedisKeyAccountTokey @ a)"
  "plain_text a \<Longrightarrow> redis_key (RedisKeyAccountOnlineLogin @ a)"
  "plain_text a \<Longrightarrow> redis_key (RedisKeyAccountOnlineGame @ a)"
  by (auto simp: redis_key_def) (simp_all add: RedisKeyAccountTokey_def RedisKeyAccountOnlineLogin_def RedisKeyAccountOnlineGame_def)

lemma key_neq [simp]:
  "RedisKeyAccountOnlineGame \<noteq> RedisKeyAccountOnlineLogin" "RedisKeyAccountOnlineLogin \<noteq> RedisKeyAccountOnlineGame"
  "RedisKeyAccountTokey \<noteq> RedisKeyAccountOnlineLogin" "RedisKeyAccountOnlineLogin \<noteq> RedisKeyAccountTokey"
  "RedisKeyAccountTokey \<noteq> RedisKeyAccountOnlineGame" "RedisKeyAccountOnlineGame \<noteq> RedisKeyAccountTokey"
  "RedisKeyAccountTokey @ a \<noteq> RedisKeyAccountOnlineLogin @ b" "RedisKeyAccountOnlineLogin @ b \<noteq> RedisKeyAccountTokey @ a"
  "RedisKeyAccountOnlineGame @ a \<noteq> RedisKeyAccountOnlineLogin @ b" "RedisKeyAccountOnlineLogin @ b \<noteq> RedisKeyAccountOnlineGame @ a"
  "RedisKeyAccountTokey @ a \<noteq> RedisKeyAccountOnlineGame @ b" "RedisKeyAccountOnlineGame @ b \<noteq> RedisKeyAccountTokey @ a"
  by (simp_all add: RedisKeyAccountTokey_def RedisKeyAccountOnlineLogin_def RedisKeyAccountOnlineGame_def)

section \<open>The operations on such a server\<close>

abbreviation look_in :: "('d \<Rightarrow> string \<Rightarrow> string option) \<Rightarrow> 'd Redis \<Rightarrow> string \<Rightarrow> string option" where
  "look_in look r \<equiv> look (rd_data r)"

lemma show_int_nat: "0 \<le> n \<Longrightarrow> show_int n = show_nat (nat n)"
  by (simp add: show_int_def)

lemma key_parts: "redis_key k \<Longrightarrow> k \<noteq> [] \<and> plain_text k" "redis_key k \<Longrightarrow> 12 \<le> length k"
  by (auto simp: redis_key_def)

lemma is_status_OK [simp]: "is_status ''OK'' (REDIS_REPLY_STATUS ''OK'')"
  by (simp add: is_status_def)

lemma Setex_command_ok:
  assumes ok: "redis_ok exec look" "rd_context r" and k: "redis_key k" and v: "v \<noteq> []" "plain_text v"
  shows "\<exists>r'. Setex_command exec (strutil_format (''SETEX '' @ k @ '' '' @ show_nat n @ '' '' @ v)) r = Some (True, r') \<and> rd_context r'
    \<and> look_in look r' = (look_in look r)(k \<mapsto> v)"
proof -
  obtain d' where "exec (''SETEX '' @ k @ '' '' @ show_nat n @ '' '' @ v) (rd_data r) = (Some (REDIS_REPLY_STATUS ''OK''), d')"
      "look d' = (look_in look r)(k \<mapsto> v)"
    using ok(1) key_parts(1) [OF k] v unfolding redis_ok_def by blast
  moreover have "strutil_format (''SETEX '' @ k @ '' '' @ show_nat n @ '' '' @ v) = ''SETEX '' @ k @ '' '' @ show_nat n @ '' '' @ v"
    using key_parts(2) [OF k] by simp
  ultimately show ?thesis using ok(2) by (simp add: Setex_command_def redisCommand_def)
qed

lemma Setex_ok:
  assumes "redis_ok exec look" "rd_context r" "redis_key k" "v \<noteq> []" "plain_text v" "0 \<le> n"
  shows "\<exists>r'. Setex exec k v n r = Some (True, r') \<and> rd_context r' \<and> look_in look r' = (look_in look r)(k \<mapsto> v)"
  using Setex_command_ok [OF assms(1-5), of "nat n"] assms(3,5,6) by (simp add: Setex_def show_int_nat key_parts)

lemma Setex_uint64_ok:
  assumes "redis_ok exec look" "rd_context r" "redis_key k" "0 \<le> n"
  shows "\<exists>r'. Setex_uint64 exec k w n r = Some (True, r') \<and> rd_context r' \<and> look_in look r' = (look_in look r)(k \<mapsto> show_nat (unat w))"
  using Setex_command_ok [OF assms(1-3), of "show_nat (unat w)" "nat n"] assms(3,4) by (simp add: Setex_uint64_def show_int_nat key_parts)

lemma Redis_Delete_ok:
  assumes ok: "redis_ok exec look" "rd_context r" and k: "redis_key k"
  shows "\<exists>r'. Redis_Delete exec k r = Some r' \<and> rd_context r' \<and> look_in look r' = (look_in look r)(k := None)"
proof -
  obtain d' reply where "exec (''del '' @ k) (rd_data r) = (Some reply, d')" "look d' = (look_in look r)(k := None)"
    using ok(1) key_parts(1) [OF k] unfolding redis_ok_def by blast
  moreover have "strutil_format (''del '' @ k) = ''del '' @ k" using key_parts(2) [OF k] by simp
  ultimately show ?thesis using ok(2) key_parts(1) [OF k] by (simp add: Redis_Delete_def redisCommand_def)
qed

lemma get_ok:
  assumes ok: "redis_ok exec look" "rd_context r" and k: "redis_key k"
  shows "\<exists>r'. redisCommand exec (strutil_format (''get '' @ k)) r =
       Some (case look_in look r k of None \<Rightarrow> REDIS_REPLY_NIL | Some v \<Rightarrow> REDIS_REPLY_STRING v, r')
     \<and> rd_context r' \<and> look_in look r' = look_in look r"
proof -
  obtain d' where "exec (''get '' @ k) (rd_data r) =
      (Some (case look_in look r k of None \<Rightarrow> REDIS_REPLY_NIL | Some v \<Rightarrow> REDIS_REPLY_STRING v), d')" "look d' = look_in look r"
    using ok(1) key_parts(1) [OF k] unfolding redis_ok_def by blast
  moreover have "strutil_format (''get '' @ k) = ''get '' @ k" using key_parts(2) [OF k] by simp
  ultimately show ?thesis using ok(2) by (simp add: redisCommand_def)
qed

lemma Redis_GetString_ok:
  assumes "redis_ok exec look" "rd_context r" "redis_key k"
  shows "\<exists>r'. Redis_GetString exec k r = Some (case look_in look r k of None \<Rightarrow> '''' | Some v \<Rightarrow> c_str v, r')
     \<and> rd_context r' \<and> look_in look r' = look_in look r"
  using get_ok [OF assms] key_parts(1) [OF assms(3)] by (auto simp: Redis_GetString_def split: option.splits)

lemma SetnxExpire_ok:
  assumes ok: "redis_ok exec look" "rd_context r" and k: "redis_key k" and n: "0 \<le> v" "0 \<le> n"
  shows "\<exists>r'. SetnxExpire exec k v n r = Some (look_in look r k = None, r') \<and> rd_context r'
     \<and> look_in look r' = (if look_in look r k = None then (look_in look r)(k \<mapsto> show_int v) else look_in look r)"
proof -
  obtain d1 where d1: "exec (''SETNX '' @ k @ '' '' @ show_int v) (rd_data r) =
      (Some (REDIS_REPLY_INTEGER (if look_in look r k = None then 1 else 0)), d1)"
      "look d1 = (if look_in look r k = None then (look_in look r)(k \<mapsto> show_int v) else look_in look r)"
    using redis_ok_SETNX [OF ok(1), of k "show_int v" "rd_data r"] key_parts(1) [OF k] show_int_nat [OF n(1)] by auto
  obtain d2 where d2: "exec (''EXPIRE '' @ k @ '' '' @ show_int n) d1 =
      (Some (REDIS_REPLY_INTEGER (if look d1 k = None then 0 else 1)), d2)" "look d2 = look d1"
    using ok(1) key_parts(1) [OF k] unfolding redis_ok_def show_int_nat [OF n(2)] by blast
  show ?thesis
    using ok(2) key_parts [OF k] d1 d2 by (auto simp: SetnxExpire_def redisCommand_def)
qed


section \<open>Versions\<close>

lemma digit_facts:
  assumes "m < 10"
  shows "isdigit (char_of (48 + m))" "(of_char (char_of (48 + m)) :: int) = int (48 + m)"
    "\<not> isspace (char_of (48 + m))" "char_of (48 + m) \<noteq> CHR ''-''" "char_of (48 + m) \<noteq> CHR ''+''"
proof -
  have n: "(of_char (char_of (48 + m :: nat)) :: nat) = 48 + m" using assms by simp
  then show "isdigit (char_of (48 + m))" using assms by (simp add: isdigit_def)
  show "(of_char (char_of (48 + m)) :: int) = int (48 + m)"
    using n by (metis of_nat_of_char)
  show "char_of (48 + m) \<noteq> CHR ''-''" "char_of (48 + m) \<noteq> CHR ''+''"
    using n by (auto dest!: arg_cong [of _ _ "of_char :: char \<Rightarrow> nat"])
  have "char_of (48 + m) \<noteq> CHR '' ''" using n by (auto dest!: arg_cong [of _ _ "of_char :: char \<Rightarrow> nat"])
  then show "\<not> isspace (char_of (48 + m))" using n assms by (simp add: isspace_def)
qed

lemma digits_value_append: "digits_value (s @ [c]) = digits_value s * 10 + (of_char c - 48)"
  by (simp add: digits_value_def)

lemma show_nat_digits: "list_all isdigit (show_nat n)" and digits_value_show_nat: "digits_value (show_nat n) = int n"
proof (induction n rule: show_nat.induct)
  case (1 n)
  have small: "list_all isdigit (show_nat n) \<and> digits_value (show_nat n) = int n" if "n < 10"
    using that digit_facts [of n] by (subst (1 2) show_nat.simps) (simp add: digits_value_def)
  have big: "list_all isdigit (show_nat n) \<and> digits_value (show_nat n) = int n" if n: "\<not> n < 10"
  proof -
    have "show_nat n = show_nat (n div 10) @ [char_of (48 + n mod 10)]" using n by (subst show_nat.simps) simp
    then show ?thesis using 1 n digit_facts [of "n mod 10"] by (simp add: digits_value_append zdiv_int zmod_int)
  qed
  { case 1 then show ?case using small big by blast }
  { case 2 then show ?case using small big by blast }
qed

lemma hd_show_nat: "\<exists>m<10::nat. hd (show_nat n) = char_of (48 + m)"
proof (induction n rule: show_nat.induct)
  case (1 n)
  show ?case
    by (subst show_nat.simps) (use 1 in auto)
qed

lemma takeWhile_show_nat: "takeWhile isdigit (show_nat n) = show_nat n"
  using show_nat_digits [of n] by (simp add: list_all_iff)

lemma stoi_show_nat:
  assumes "n < 2 ^ 31"
  shows "stoi (show_nat n) = Some (int n)"
proof -
  obtain m :: nat where m: "m < 10" "hd (show_nat n) = char_of (48 + m)" using hd_show_nat by blast
  obtain c s where cs: "show_nat n = c # s" by (cases "show_nat n") auto
  have "dropWhile isspace (show_nat n) = show_nat n" using cs m digit_facts(3) [OF m(1)] by simp
  then show ?thesis
    using assms m digit_facts(4,5) [OF m(1)] by (simp add: stoi_def Let_def digits_value_show_nat takeWhile_show_nat)
qed

text \<open>Every online flag of a game is a version as the program writes it.\<close>

definition versions_ok :: "(string \<Rightarrow> string option) \<Rightarrow> bool" where
  "versions_ok m \<longleftrightarrow> (\<forall>a v. m (RedisKeyAccountOnlineGame @ a) = Some v \<longrightarrow> (\<exists>n<2 ^ 31. v = show_nat n))"

definition version_of :: "(string \<Rightarrow> string option) \<Rightarrow> string \<Rightarrow> int" where
  "version_of m a = (case m (RedisKeyAccountOnlineGame @ a) of None \<Rightarrow> 0 | Some v \<Rightarrow> the (stoi v))"

lemma versions_ok_update [simp]:
  "versions_ok m \<Longrightarrow> versions_ok (m(k := None))"
  "versions_ok m \<Longrightarrow> versions_ok (m(RedisKeyAccountTokey @ a \<mapsto> v))"
  "versions_ok m \<Longrightarrow> versions_ok (m(RedisKeyAccountOnlineLogin @ a \<mapsto> v))"
  "versions_ok m \<Longrightarrow> n < 2 ^ 31 \<Longrightarrow> versions_ok (m(RedisKeyAccountOnlineGame @ a \<mapsto> show_nat n))"
  by (auto simp: versions_ok_def)

lemma version_of_flag:
  "m (RedisKeyAccountOnlineGame @ a) = Some (show_nat n) \<Longrightarrow> n < 2 ^ 31 \<Longrightarrow> version_of m a = int n"
  by (simp add: version_of_def stoi_show_nat)

lemma Redis_GetInt_ok:
  assumes "redis_ok exec look" "rd_context r" "plain_text a" "versions_ok (look_in look r)"
  shows "\<exists>r'. Redis_GetInt exec (RedisKeyAccountOnlineGame @ a) r = Some (version_of (look_in look r) a, r')
     \<and> rd_context r' \<and> look_in look r' = look_in look r"
proof -
  let ?k = "RedisKeyAccountOnlineGame @ a"
  obtain r' where r': "redisCommand exec (strutil_format (''get '' @ ?k)) r =
       Some (case look_in look r ?k of None \<Rightarrow> REDIS_REPLY_NIL | Some v \<Rightarrow> REDIS_REPLY_STRING v, r')"
     "rd_context r'" "look_in look r' = look_in look r"
    using get_ok [OF assms(1,2) redis_keys(3) [OF assms(3)]] by blast
  show ?thesis
  proof (cases "look_in look r ?k")
    case None
    then show ?thesis using r' assms(3) by (simp add: Redis_GetInt_def version_of_def)
  next
    case (Some v)
    then obtain n where "n < 2 ^ 31" "v = show_nat n" using assms(4) by (auto simp: versions_ok_def)
    then show ?thesis using r' assms(3) Some by (simp add: Redis_GetInt_def version_of_def stoi_show_nat)
  qed
qed

section \<open>The handlers on such a server\<close>

lemma QueryOnline_ok:
  assumes ok: "redis_ok exec look" "rd_context r" "plain_text a" "versions_ok (look_in look r)" and app: "0 \<le> appId"
  shows "\<exists>r'. HandleAccountQueryOnline exec appId a r = Some (r', [Dispatch MI_AccountQueryOnlineToRedisRs
       (P_AccountQueryOnlineToRedisRs a (if look_in look r (RedisKeyAccountOnlineLogin @ a) = None \<and> version_of (look_in look r) a = 0
          then SOTR_Offline else SOTR_Online)) None])
     \<and> rd_context r' \<and> look_in look r' = (if look_in look r (RedisKeyAccountOnlineLogin @ a) = None
          then (look_in look r)(RedisKeyAccountOnlineLogin @ a \<mapsto> show_int appId) else look_in look r)"
proof -
  let ?k = "RedisKeyAccountOnlineLogin @ a"
  let ?b = "look_in look r ?k = None"
  obtain r1 where r1: "SetnxExpire exec ?k appId RedisKeyAccountOnlineLoginTimeout r = Some (?b, r1)" "rd_context r1"
      "look_in look r1 = (if ?b then (look_in look r)(?k \<mapsto> show_int appId) else look_in look r)"
    using SetnxExpire_ok [OF ok(1,2) redis_keys(2) [OF ok(3)] app, of RedisKeyAccountOnlineLoginTimeout] by auto
  have v: "versions_ok (look_in look r1)" "version_of (look_in look r1) a = version_of (look_in look r) a"
    using ok(4) r1(3) by (auto simp: version_of_def)
  obtain r2 where "Redis_GetInt exec (RedisKeyAccountOnlineGame @ a) r1 = Some (version_of (look_in look r) a, r2)" "rd_context r2"
      "look_in look r2 = look_in look r1"
    using Redis_GetInt_ok [OF ok(1) r1(2) ok(3) v(1)] v(2) by auto
  then show ?thesis using r1 ok(3) by (auto simp: HandleAccountQueryOnline_def Let_def)
qed

lemma SyncOnline_ok:
  assumes ok: "redis_ok exec look" "rd_context r" "plain_text a" "versions_ok (look_in look r)" and v: "0 \<le> v" "v < 2 ^ 31"
  shows "\<exists>r'. HandlePlayerSyncOnlineToRedis exec a v r = Some r' \<and> rd_context r' \<and> look_in look r' =
     (if v < version_of (look_in look r) a then look_in look r
      else (look_in look r)(RedisKeyAccountOnlineGame @ a \<mapsto> show_nat (nat v)))"
proof -
  let ?k = "RedisKeyAccountOnlineGame @ a"
  obtain r1 where r1: "Redis_GetInt exec ?k r = Some (version_of (look_in look r) a, r1)" "rd_context r1"
      "look_in look r1 = look_in look r"
    using Redis_GetInt_ok [OF ok] by blast
  obtain r2 where r2: "Setex_uint64 exec ?k (word_of_int v) RedisKeyAccountOnlineGameTimeout r1 = Some (True, r2)" "rd_context r2"
      "look_in look r2 = (look_in look r1)(?k \<mapsto> show_nat (unat (word_of_int v :: u64)))"
    using Setex_uint64_ok [OF ok(1) r1(2) redis_keys(3) [OF ok(3)], of RedisKeyAccountOnlineGameTimeout] by auto
  have "unat (word_of_int v :: u64) = nat v" using v by (simp add: unat_eq_nat_uint uint_word_of_int)
  then show ?thesis using r1 r2 by (auto simp: HandlePlayerSyncOnlineToRedis_def Let_def)
qed

lemma DeleteOnline_ok:
  assumes ok: "redis_ok exec look" "rd_context r" "plain_text a" "versions_ok (look_in look r)"
  shows "\<exists>r'. HandlePlayerDeleteOnlineToRedis exec a v r = Some r' \<and> rd_context r' \<and> look_in look r' =
     (if v < version_of (look_in look r) a then look_in look r else (look_in look r)(RedisKeyAccountOnlineGame @ a := None))"
proof -
  let ?k = "RedisKeyAccountOnlineGame @ a"
  obtain r1 where r1: "Redis_GetInt exec ?k r = Some (version_of (look_in look r) a, r1)" "rd_context r1"
      "look_in look r1 = look_in look r"
    using Redis_GetInt_ok [OF ok] by blast
  obtain r2 where "Redis_Delete exec ?k r1 = Some r2" "rd_context r2" "look_in look r2 = (look_in look r1)(?k := None)"
    using Redis_Delete_ok [OF ok(1) r1(2) redis_keys(3) [OF ok(3)]] by blast
  then show ?thesis using r1 by (auto simp: HandlePlayerDeleteOnlineToRedis_def Let_def)
qed


lemma LoginToken_ok:
  assumes ok: "redis_ok exec look" "rd_context r" "plain_text a" and t: "plain_text uuid" "enc uuid sn \<noteq> []" "plain_text (enc uuid sn)"
  shows "\<exists>r'. HandleLoginTokenToRedis enc exec uuid a sn r =
       Some (r', [Dispatch MI_LoginTokenToRedisRs (P_LoginTokenToRedisRs a uuid) None]) \<and> rd_context r'
     \<and> look_in look r' = (look_in look r)(RedisKeyAccountTokey @ a \<mapsto> enc uuid sn)"
  using Setex_ok [OF ok(1,2) redis_keys(1) [OF ok(3)] t(2,3), of RedisKeyAccountTokeyTimeout] ok(3) t(1)
  by (auto simp: HandleLoginTokenToRedis_def)

lemma GameToken_ok:
  assumes ok: "redis_ok exec look" "rd_context r" "plain_text a"
  defines "v \<equiv> (case look_in look r (RedisKeyAccountTokey @ a) of None \<Rightarrow> '''' | Some v \<Rightarrow> c_str v)"
  shows "\<exists>r'. HandleGameTokenToRedis dec exec a r = Some (r', [Dispatch MI_GameTokenToRedisRs
       (P_GameTokenToRedisRs a (fst (dec v)) (snd (dec v))) None]) \<and> rd_context r'
     \<and> look_in look r' = (look_in look r)(RedisKeyAccountTokey @ a := None)"
proof -
  let ?k = "RedisKeyAccountTokey @ a"
  obtain r1 where r1: "Redis_GetString exec ?k r = Some (v, r1)" "rd_context r1" "look_in look r1 = look_in look r"
    using Redis_GetString_ok [OF ok(1,2) redis_keys(1) [OF ok(3)]] unfolding v_def by blast
  obtain r2 where "Redis_Delete exec ?k r1 = Some r2" "rd_context r2" "look_in look r2 = (look_in look r1)(?k := None)"
    using Redis_Delete_ok [OF ok(1) r1(2) redis_keys(1) [OF ok(3)]] by blast
  then show ?thesis using r1 ok(3) by (auto simp: HandleGameTokenToRedis_def Let_def split_beta)
qed

text \<open>What the processes do with the common server; \<open>appId\<close>, \<open>uuid\<close> are those of the caller.\<close>

datatype redis_op =
    Op_QueryOnline int string
  | Op_SyncLogin int string
  | Op_DeleteLogin string
  | Op_LoginToken string string u64
  | Op_SyncGame string int
  | Op_DeleteGame string int
  | Op_GameToken string

fun redis_step :: "(string \<Rightarrow> u64 \<Rightarrow> string) \<Rightarrow> (string \<Rightarrow> string \<times> u64) \<Rightarrow> 'd redis_exec \<Rightarrow> redis_op \<Rightarrow> 'd Redis \<Rightarrow> 'd Redis option" where
  "redis_step enc dec exec (Op_QueryOnline appId a) r = map_option fst (HandleAccountQueryOnline exec appId a r)"
| "redis_step enc dec exec (Op_SyncLogin appId a) r = HandleAccountSyncOnlineToRedis exec appId a r"
| "redis_step enc dec exec (Op_DeleteLogin a) r = HandleAccountDeleteOnlineToRedis exec a r"
| "redis_step enc dec exec (Op_LoginToken uuid a sn) r = map_option fst (HandleLoginTokenToRedis enc exec uuid a sn r)"
| "redis_step enc dec exec (Op_SyncGame a v) r = HandlePlayerSyncOnlineToRedis exec a v r"
| "redis_step enc dec exec (Op_DeleteGame a v) r = HandlePlayerDeleteOnlineToRedis exec a v r"
| "redis_step enc dec exec (Op_GameToken a) r = map_option fst (HandleGameTokenToRedis dec exec a r)"

fun redis_run :: "(string \<Rightarrow> u64 \<Rightarrow> string) \<Rightarrow> (string \<Rightarrow> string \<times> u64) \<Rightarrow> 'd redis_exec \<Rightarrow> redis_op list \<Rightarrow> 'd Redis \<Rightarrow> 'd Redis option" where
  "redis_run enc dec exec [] r = Some r"
| "redis_run enc dec exec (x # xs) r = Option.bind (redis_step enc dec exec x r) (redis_run enc dec exec xs)"

text \<open>Calls with arguments that survive the command line.\<close>

fun op_ok :: "(string \<Rightarrow> u64 \<Rightarrow> string) \<Rightarrow> redis_op \<Rightarrow> bool" where
  "op_ok enc (Op_QueryOnline appId a) = (0 \<le> appId \<and> plain_text a)"
| "op_ok enc (Op_SyncLogin appId a) = (0 \<le> appId \<and> plain_text a)"
| "op_ok enc (Op_DeleteLogin a) = plain_text a"
| "op_ok enc (Op_LoginToken uuid a sn) = (plain_text a \<and> plain_text uuid \<and> enc uuid sn \<noteq> [] \<and> plain_text (enc uuid sn))"
| "op_ok enc (Op_SyncGame a v) = (plain_text a \<and> 0 \<le> v \<and> v < 2 ^ 31)"
| "op_ok enc (Op_DeleteGame a v) = plain_text a"
| "op_ok enc (Op_GameToken a) = plain_text a"

lemma redis_step_ok:
  assumes "redis_ok exec look" "rd_context r" "versions_ok (look_in look r)" "op_ok enc x" "x \<noteq> Op_DeleteLogin a"
  shows "\<exists>r'. redis_step enc dec exec x r = Some r' \<and> rd_context r' \<and> versions_ok (look_in look r')
    \<and> (look_in look r (RedisKeyAccountOnlineLogin @ a) \<noteq> None \<longrightarrow> look_in look r' (RedisKeyAccountOnlineLogin @ a) \<noteq> None)"
proof (cases x)
  case (Op_QueryOnline appId b)
  then show ?thesis using QueryOnline_ok [OF assms(1,2) _ assms(3), of b appId] assms(3,4) by (auto split: if_splits)
next
  case (Op_SyncLogin appId b)
  then show ?thesis
    using Setex_ok [OF assms(1,2) redis_keys(2), of b "show_int appId" RedisKeyAccountOnlineLoginTimeout] assms(3,4)
    by (auto simp: HandleAccountSyncOnlineToRedis_def show_int_nat)
next
  case (Op_DeleteLogin b)
  then show ?thesis using Redis_Delete_ok [OF assms(1,2) redis_keys(2), of b] assms(3-5)
    by (auto simp: HandleAccountDeleteOnlineToRedis_def)
next
  case (Op_LoginToken uuid b sn)
  then show ?thesis using LoginToken_ok [OF assms(1,2), of b uuid enc sn] assms(3,4) by auto
next
  case (Op_SyncGame b v)
  then show ?thesis using SyncOnline_ok [OF assms(1,2) _ assms(3), of b v] assms(3,4) by (auto split: if_splits)
next
  case (Op_DeleteGame b v)
  then show ?thesis using DeleteOnline_ok [OF assms(1,2) _ assms(3), of b v] assms(3,4) by (auto split: if_splits)
next
  case (Op_GameToken b)
  then show ?thesis using GameToken_ok [OF assms(1,2), of b dec] assms(3,4) by auto
qed

lemma redis_run_ok:
  assumes "redis_ok exec look" "rd_context r" "versions_ok (look_in look r)" "\<forall>x\<in>set xs. op_ok enc x" "Op_DeleteLogin a \<notin> set xs"
  shows "\<exists>r'. redis_run enc dec exec xs r = Some r' \<and> rd_context r' \<and> versions_ok (look_in look r')
    \<and> (look_in look r (RedisKeyAccountOnlineLogin @ a) \<noteq> None \<longrightarrow> look_in look r' (RedisKeyAccountOnlineLogin @ a) \<noteq> None)"
  using assms
proof (induction xs arbitrary: r)
  case (Cons x xs)
  obtain r1 where r1: "redis_step enc dec exec x r = Some r1" "rd_context r1" "versions_ok (look_in look r1)"
    "look_in look r (RedisKeyAccountOnlineLogin @ a) \<noteq> None \<longrightarrow> look_in look r1 (RedisKeyAccountOnlineLogin @ a) \<noteq> None"
    using redis_step_ok [OF Cons.prems(1-3), of enc x a dec] Cons.prems(4,5) by auto
  show ?case using Cons.IH [OF Cons.prems(1) r1(2,3)] Cons.prems(4,5) r1 by auto
qed simp

section \<open>Properties\<close>

text \<open>Between two processes that share the server, a login that was told that its account is offline
  keeps the account: after any further calls that do not withdraw its login flag, every later
  query of the account returns and answers that it is online.\<close>

theorem login_exclusive:
  assumes "redis_ok exec look" "rd_context r" "versions_ok (look_in look r)"
    and "plain_text a" "0 \<le> app1" "0 \<le> app2" "\<forall>x\<in>set xs. op_ok enc x" "Op_DeleteLogin a \<notin> set xs"
    and "HandleAccountQueryOnline exec app1 a r =
      Some (r1, [Dispatch MI_AccountQueryOnlineToRedisRs (P_AccountQueryOnlineToRedisRs a SOTR_Offline) None])"
  shows "\<exists>r2 r3. redis_run enc dec exec xs r1 = Some r2 \<and> HandleAccountQueryOnline exec app2 a r2 =
      Some (r3, [Dispatch MI_AccountQueryOnlineToRedisRs (P_AccountQueryOnlineToRedisRs a SOTR_Online) None])"
proof -
  let ?k = "RedisKeyAccountOnlineLogin @ a"
  obtain r' where r': "HandleAccountQueryOnline exec app1 a r = Some (r', [Dispatch MI_AccountQueryOnlineToRedisRs
       (P_AccountQueryOnlineToRedisRs a (if look_in look r ?k = None \<and> version_of (look_in look r) a = 0
          then SOTR_Offline else SOTR_Online)) None])" "rd_context r'"
     "look_in look r' = (if look_in look r ?k = None then (look_in look r)(?k \<mapsto> show_int app1) else look_in look r)"
    using QueryOnline_ok [OF assms(1,2,4,3,5)] by blast
  have r1: "r1 = r'" "look_in look r1 ?k \<noteq> None" "versions_ok (look_in look r1)"
    using r'(1,3) assms(3,9) by auto
  obtain r2 where r2: "redis_run enc dec exec xs r1 = Some r2" "rd_context r2" "versions_ok (look_in look r2)" "look_in look r2 ?k \<noteq> None"
    using redis_run_ok [OF assms(1) _ r1(3) assms(7,8)] r'(2) r1(1,2) by auto
  obtain r3 where "HandleAccountQueryOnline exec app2 a r2 =
      Some (r3, [Dispatch MI_AccountQueryOnlineToRedisRs (P_AccountQueryOnlineToRedisRs a SOTR_Online) None])"
    using QueryOnline_ok [OF assms(1) r2(2) assms(4) r2(3) assms(6)] r2(4) by auto
  then show ?thesis using r2(1) by blast
qed




section \<open>Instances\<close>

text \<open>A server that keeps its keys in a map.\<close>

definition sample_redis :: "string \<Rightarrow> (string, string) smap \<Rightarrow> redis_reply option \<times> (string, string) smap" where
  "sample_redis command d =
     (case strutil_split command CHR '' '' of
        [c, k] \<Rightarrow>
          if c = ''get'' then (Some (case sm_find d k of None \<Rightarrow> REDIS_REPLY_NIL | Some v \<Rightarrow> REDIS_REPLY_STRING v), d)
          else if c = ''del'' then (Some (REDIS_REPLY_INTEGER (if sm_find d k = None then 0 else 1)), sm_erase k d)
          else (Some (REDIS_REPLY_ERROR ''''), d)
      | [c, k, v] \<Rightarrow>
          if c = ''SETNX'' then (if sm_find d k = None then (Some (REDIS_REPLY_INTEGER 1), sm_assign k v d) else (Some (REDIS_REPLY_INTEGER 0), d))
          else if c = ''EXPIRE'' then (Some (REDIS_REPLY_INTEGER (if sm_find d k = None then 0 else 1)), d)
          else (Some (REDIS_REPLY_ERROR ''''), d)
      | [c, k, n, v] \<Rightarrow> if c = ''SETEX'' then (Some (REDIS_REPLY_STATUS ''OK''), sm_assign k v d) else (Some (REDIS_REPLY_ERROR ''''), d)
      | _ \<Rightarrow> (Some (REDIS_REPLY_ERROR ''''), d))"

lemma plain_no_blank: "plain_text a \<Longrightarrow> CHR '' '' \<notin> set a"
  by (auto simp: plain_text_def list_all_iff)

lemma split_words:
  assumes "plain_text a" "a \<noteq> []"
  shows "strutil_split a CHR '' '' = [a]" "strutil_split (a @ CHR '' '' # s) CHR '' '' = a # strutil_split s CHR '' ''"
proof -
  show "strutil_split a CHR '' '' = [a]"
    using assms(2) str_find_none [OF plain_no_blank [OF assms(1)]] by (subst strutil_split_def) (simp add: split_from.simps)
  have "split_from (a @ CHR '' '' # s) CHR '' '' = a # split_from s CHR '' ''"
    using assms(2) str_find_append [OF plain_no_blank [OF assms(1)], of s] by (subst split_from.simps) simp
  moreover have "split_from s CHR '' '' = strutil_split s CHR '' ''"
    by (cases "s = []") (simp_all add: strutil_split_def split_from.simps)
  ultimately show "strutil_split (a @ CHR '' '' # s) CHR '' '' = a # strutil_split s CHR '' ''"
    by (simp add: strutil_split_def)
qed

lemma split_commands:
  assumes "plain_text k" "k \<noteq> []" "plain_text v" "v \<noteq> []"
  shows "strutil_split (''SETEX '' @ k @ '' '' @ show_nat n @ '' '' @ v) CHR '' '' = [''SETEX'', k, show_nat n, v]"
    "strutil_split (''SETNX '' @ k @ '' '' @ v) CHR '' '' = [''SETNX'', k, v]"
    "strutil_split (''EXPIRE '' @ k @ '' '' @ show_nat n) CHR '' '' = [''EXPIRE'', k, show_nat n]"
    "strutil_split (''get '' @ k) CHR '' '' = [''get'', k]"
    "strutil_split (''del '' @ k) CHR '' '' = [''del'', k]"
proof -
  have cmd: "plain_text ''SETEX''" "plain_text ''SETNX''" "plain_text ''EXPIRE''" "plain_text ''get''" "plain_text ''del''"
    by code_simp+
  note w = split_words(2) [OF cmd(1)] split_words(2) [OF cmd(2)] split_words(2) [OF cmd(3)] split_words(2) [OF cmd(4)]
    split_words(2) [OF cmd(5)] split_words [OF assms(1,2)] split_words [OF assms(3,4)] split_words [OF plain_show_nat show_nat_not_Nil]
  show "strutil_split (''SETEX '' @ k @ '' '' @ show_nat n @ '' '' @ v) CHR '' '' = [''SETEX'', k, show_nat n, v]"
    "strutil_split (''SETNX '' @ k @ '' '' @ v) CHR '' '' = [''SETNX'', k, v]"
    "strutil_split (''EXPIRE '' @ k @ '' '' @ show_nat n) CHR '' '' = [''EXPIRE'', k, show_nat n]"
    "strutil_split (''get '' @ k) CHR '' '' = [''get'', k]"
    "strutil_split (''del '' @ k) CHR '' '' = [''del'', k]"
    using w by simp_all
qed

lemma sample_redis_ok: "redis_ok sample_redis sm_find"
  unfolding redis_ok_def
proof (intro allI impI conjI; elim conjE)
  fix d :: "(string, string) smap" and k v :: string and n :: nat
  assume k: "k \<noteq> []" "plain_text k"
  show "\<exists>d'. sample_redis (''get '' @ k) d = (Some (case sm_find d k of None \<Rightarrow> REDIS_REPLY_NIL | Some v \<Rightarrow> REDIS_REPLY_STRING v), d')
        \<and> sm_find d' = sm_find d"
    using split_commands(4) [OF k(2,1) k(2,1)] by (simp only: sample_redis_def list.case if_True) simp
  show "\<exists>d'. sample_redis (''del '' @ k) d = (Some (REDIS_REPLY_INTEGER (if sm_find d k = None then 0 else 1)), d')
        \<and> sm_find d' = (sm_find d)(k := None)"
    using split_commands(5) [OF k(2,1) k(2,1)] by (simp only: sample_redis_def list.case) simp
  show "\<exists>d'. sample_redis (''EXPIRE '' @ k @ '' '' @ show_nat n) d = (Some (REDIS_REPLY_INTEGER (if sm_find d k = None then 0 else 1)), d')
        \<and> sm_find d' = sm_find d"
    using split_commands(3) [OF k(2,1) k(2,1), of n] by (simp only: sample_redis_def list.case) simp
  assume v: "v \<noteq> []" "plain_text v"
  show "\<exists>d'. sample_redis (''SETEX '' @ k @ '' '' @ show_nat n @ '' '' @ v) d = (Some (REDIS_REPLY_STATUS ''OK''), d')
        \<and> sm_find d' = (sm_find d)(k \<mapsto> v)"
    using split_commands(1) [OF k(2,1) v(2,1), of n] by (simp only: sample_redis_def list.case) simp
  show "\<exists>d'. sample_redis (''SETNX '' @ k @ '' '' @ v) d = (Some (REDIS_REPLY_INTEGER (if sm_find d k = None then 1 else 0)), d')
        \<and> sm_find d' = (if sm_find d k = None then (sm_find d)(k \<mapsto> v) else sm_find d)"
    using split_commands(2) [OF k(2,1) v(2,1)] by (simp only: sample_redis_def list.case) simp
qed

definition sample_redis0 :: "(string, string) smap Redis" where
  "sample_redis0 = \<lparr>rd_ip = ''127.0.0.1'', rd_port = 6379, rd_context = True, rd_data = []\<rparr>"

definition sample_enc :: "string \<Rightarrow> u64 \<Rightarrow> string" where
  "sample_enc token sn = CHR ''T'' # show_nat (unat sn) @ CHR '':'' # token"

definition sample_dec :: "string \<Rightarrow> string \<times> u64" where
  "sample_dec s = (if s = [] then ('''', 0) else (drop 1 (dropWhile isdigit (drop 1 s)), of_nat (nat (digits_value (takeWhile isdigit (drop 1 s))))))"


lemma sample_redis0_facts [simp]:
  "rd_context sample_redis0" "versions_ok (look_in sm_find sample_redis0)" "version_of (\<lambda>k. None) a = 0"
  "rd_data sample_redis0 = []"
  by (simp_all add: sample_redis0_def versions_ok_def version_of_def)

lemma sample_plain_text: "plain_text ''bob''" "plain_text ''eve''" "plain_text ''u-1''" "plain_text (sample_enc ''u-1'' 7)"
    "sample_enc ''u-1'' 7 \<noteq> []" "sample_dec (sample_enc ''u-1'' 7) = (''u-1'', 7)" "sample_dec '''' = ('''', 0)"
  by code_simp+

theorem login_exclusive_witness:
  "\<exists>r1 r2 r3. HandleAccountQueryOnline sample_redis 1 ''bob'' sample_redis0 =
      Some (r1, [Dispatch MI_AccountQueryOnlineToRedisRs (P_AccountQueryOnlineToRedisRs ''bob'' SOTR_Offline) None])
    \<and> redis_run sample_enc sample_dec sample_redis [Op_SyncLogin 1 ''bob'', Op_DeleteLogin ''eve''] r1 = Some r2
    \<and> HandleAccountQueryOnline sample_redis 2 ''bob'' r2 =
      Some (r3, [Dispatch MI_AccountQueryOnlineToRedisRs (P_AccountQueryOnlineToRedisRs ''bob'' SOTR_Online) None])"
proof -
  obtain r1 where r1: "HandleAccountQueryOnline sample_redis 1 ''bob'' sample_redis0 =
      Some (r1, [Dispatch MI_AccountQueryOnlineToRedisRs (P_AccountQueryOnlineToRedisRs ''bob'' SOTR_Offline) None])"
    using QueryOnline_ok [OF sample_redis_ok sample_redis0_facts(1) sample_plain_text(1) sample_redis0_facts(2), of 1] by auto
  have ops: "\<forall>x\<in>set [Op_SyncLogin 1 ''bob'', Op_DeleteLogin ''eve'']. op_ok sample_enc x"
    by (simp add: sample_plain_text)
  show ?thesis
    using login_exclusive [OF sample_redis_ok sample_redis0_facts(1,2) sample_plain_text(1) _ _ ops _ r1, of 2 sample_dec] r1 by auto
qed



end
