(* ===== verification/Login_Account.thy ===== *)
theory Login_Account
  imports Redis_Store Sync_Apps
begin

text \<open>
  The login process (\<open>apps/login/account.cpp\<close>): the check of an account, the list of its players,
  the choice of one and its token. \<open>None\<close> is a null pointer that is followed, or an exception of
  the JSON library, whose answer is the argument \<open>json\<close>.
\<close>

abbreviation (input) SPRC_OK :: int where "SPRC_OK \<equiv> 0"
abbreviation (input) SPRC_NotFound :: int where "SPRC_NotFound \<equiv> 1"
abbreviation (input) GameToken_OK :: int where "GameToken_OK \<equiv> 0"
abbreviation (input) GameToken_NO_GAME :: int where "GameToken_NO_GAME \<equiv> 1"

section \<open>\<open>class Account\<close>\<close>

record Account =
  ac_collector :: PlayerCollectorComponent
  ac_apps :: apps
  ac_method :: string
  ac_httpIp :: string
  ac_httpPort :: int

text \<open>\<open>info\<close> is the result of \<open>ParseUrl\<close>: host, port, method.\<close>

definition Account_Awake :: "(string \<times> int \<times> string) option \<Rightarrow> Account" where
  "Account_Awake info =
     (let a = \<lparr>ac_collector = PlayerCollector_new, ac_apps = [], ac_method = '''', ac_httpIp = '''', ac_httpPort = 0\<rparr>
      in case info of None \<Rightarrow> a
         | Some (host, port, mothed) \<Rightarrow> a\<lparr>ac_httpIp := host, ac_httpPort := port, ac_method := mothed\<rparr>)"

definition Account_BackToPool :: "Account \<Rightarrow> Account" where
  "Account_BackToPool s = s\<lparr>ac_apps := []\<rparr>"

definition SyncAppInfoToAppMgr :: "int \<Rightarrow> app_type \<Rightarrow> Account \<Rightarrow> send list" where
  "SyncAppInfoToAppMgr appId appType s =
     [ToApp MI_AppInfoSync (P_AppInfoSync \<lparr>ais_app_id = appId, ais_app_type = appType, ais_online = OnlineSize (ac_collector s)\<rparr>)
        APP_APPMGR 0]"

definition HandleAppInfoListSync :: "(app_type \<Rightarrow> int \<Rightarrow> (string \<times> int) option) \<Rightarrow> AppInfoSync list \<Rightarrow> Account \<Rightarrow> Account" where
  "HandleAppInfoListSync endpoint protos s =
     s\<lparr>ac_apps := foldl (\<lambda>apps one. Sync_Parse endpoint one INVALID_SOCKET apps) [] protos\<rparr>"

definition Account_HandleNetworkConnected :: "NetIdentify \<Rightarrow> Account \<Rightarrow> (Account \<times> send list) option" where
  "Account_HandleNetworkConnected pPacket s =
     (case GetTagValue TagAccount (ni_tagKey pPacket) of
        None \<Rightarrow> Some (s, [])
      | Some pTagValue \<Rightarrow>
          if sk_NetType (ni_socketKey pPacket) \<noteq> HttpConnector then Some (s, [])
          else (let (found, c) = GetPlayerByAccount (KeyStr pTagValue) (ac_collector s); s1 = s\<lparr>ac_collector := c\<rparr> in
            case found of
              None \<Rightarrow> Some (s1, [])
            | Some pPlayer \<Rightarrow> do {
                pPlayerCAccount \<leftarrow> py_accountC pPlayer;
                let httpIndentify = \<lparr>ni_socketKey = SocketKey_CopyFrom (ni_socketKey pPacket) SocketKey_None,
                      ni_tagKey = TagKey_CopyFrom (ni_tagKey (py_identify pPlayer)) []\<rparr>;
                Some (s1, [HttpRequest httpIndentify (ac_httpIp s) (ac_httpPort s) (ac_method s)
                   [(''account'', py_account pPlayer), (''password'', pa_password pPlayerCAccount)]]) }))"

definition Account_HandleNetworkDisconnect :: "NetIdentify \<Rightarrow> Account \<Rightarrow> Account" where
  "Account_HandleNetworkDisconnect pPacket s =
     (if sk_NetType (ni_socketKey pPacket) \<noteq> TcpListen then s
      else s\<lparr>ac_collector := RemovePlayerBySocket (sk_Socket (ni_socketKey pPacket)) (ac_collector s)\<rparr>)"

definition SocketDisconnect :: "NetIdentify \<Rightarrow> send list" where
  "SocketDisconnect pIdentify =
     [ToIdentify C2L_AccountCheckRs (P_AccountCheckRs ARC_LOGGING) pIdentify,
      Dispatch MI_NetworkRequestDisconnect P_None (Some pIdentify)]"

definition HandleAccountCheck :: "NetIdentify \<Rightarrow> string \<Rightarrow> string \<Rightarrow> Account \<Rightarrow> Account \<times> send list" where
  "HandleAccountCheck pPacket account password s =
     (let (found, c) = GetPlayerByAccount account (ac_collector s); s1 = s\<lparr>ac_collector := c\<rparr> in
      case found of
        Some _ \<Rightarrow> (s1, SocketDisconnect pPacket)
      | None \<Rightarrow> (case Collector_AddPlayer pPacket account c of
            None \<Rightarrow> (s1, SocketDisconnect pPacket)
          | Some (pPlayer, c1, es) \<Rightarrow>
              (s1\<lparr>ac_collector := set_player (Add_Account password pPlayer) c1\<rparr>,
               es @ [Dispatch MI_AccountQueryOnlineToRedis (P_AccountQueryOnlineToRedis (c_str account)) None])))"

definition HandleAccountQueryOnlineToRedisRs :: "string \<Rightarrow> int \<Rightarrow> Account \<Rightarrow> Account \<times> send list" where
  "HandleAccountQueryOnlineToRedisRs account code s =
     (let (found, c) = GetPlayerByAccount account (ac_collector s); s1 = s\<lparr>ac_collector := c\<rparr> in
      case found of
        None \<Rightarrow> (s1, [])
      | Some pPlayer \<Rightarrow>
          if code \<noteq> SOTR_Offline then (s1, [ToIdentify C2L_AccountCheckRs (P_AccountCheckRs ARC_ONLINE) (py_identify pPlayer)])
          else (s1\<lparr>ac_collector := set_player (Add_OnlineInLogin (py_account pPlayer) pPlayer) c\<rparr>,
                [Connect_to (CreateConnect HttpConnector TagAccount \<lparr>KeyStr = py_account pPlayer, KeyInt64 = 0\<rparr>
                   (c_str (ac_httpIp s)) (ac_httpPort s))]))"

definition HandleQueryPlayerListRs :: "string \<Rightarrow> PlayerLittle list \<Rightarrow> Account \<Rightarrow> Account \<times> send list" where
  "HandleQueryPlayerListRs account players s =
     (let (found, c) = GetPlayerByAccount account (ac_collector s); s1 = s\<lparr>ac_collector := c\<rparr> in
      case found of
        None \<Rightarrow> (s1, [])
      | Some pPlayer \<Rightarrow>
          (let pPlayer1 = (if players \<noteq> [] then
                 pPlayer\<lparr>py_protoList := Some (ProtoList_Parse players (case py_protoList pPlayer of None \<Rightarrow> [] | Some l \<Rightarrow> l))\<rparr>
               else pPlayer)
           in (s1\<lparr>ac_collector := set_player pPlayer1 c\<rparr>,
               [ToIdentify L2C_PlayerList (P_PlayerList account players) (py_identify pPlayer)])))"

definition HandleCreatePlayer :: "NetIdentify \<Rightarrow> string \<Rightarrow> int \<Rightarrow> Global \<Rightarrow> Account \<Rightarrow> Global \<times> send list" where
  "HandleCreatePlayer pPacket name gender g s =
     (case GetPlayerBySocket (sk_Socket (ni_socketKey pPacket)) (ac_collector s) of
        None \<Rightarrow> (g, [])
      | Some pPlayer \<Rightarrow>
          (let (sn, g1) = GenerateSN g;
               pProtoPlayer = Player_default\<lparr>pp_sn := sn, pp_name := name, pp_base := \<lparr>pb_gender = gender, pb_level = 0\<rparr>\<rparr>
           in (g1, [ToApp L2DB_CreatePlayer (P_CreatePlayerToDB (c_str (py_account pPlayer)) pProtoPlayer) APP_DB_MGR 0])))"

definition HandleCreatePlayerRs :: "NetIdentify \<Rightarrow> int \<Rightarrow> Account \<Rightarrow> send list" where
  "HandleCreatePlayerRs pPacket code s =
     (case GetPlayerBySocket (sk_Socket (ni_socketKey pPacket)) (ac_collector s) of
        None \<Rightarrow> []
      | Some pPlayer \<Rightarrow> [ToIdentify C2L_CreatePlayerRs (P_CreatePlayerRs code) (py_identify pPlayer)])"

definition RequestToken :: "Player \<Rightarrow> send list option" where
  "RequestToken pPlayer = do {
     pLoginInfo \<leftarrow> py_accountC pPlayer;
     Some [Dispatch MI_LoginTokenToRedis (P_LoginTokenToRedis (c_str (py_account pPlayer)) (pa_selectPlayerSn pLoginInfo)) None] }"

text \<open>\<open>reparse\<close>: what \<open>ParseFromIstream\<close> reads as a \<open>Player\<close> from the stored \<open>PlayerLittle\<close>.\<close>

definition HandleSelectPlayer :: "(PlayerLittle \<Rightarrow> Player_proto) \<Rightarrow> NetIdentify \<Rightarrow> u64 \<Rightarrow> Account \<Rightarrow> (Account \<times> send list) option" where
  "HandleSelectPlayer reparse pPacket selectPlayerSn s =
     (case GetPlayerBySocket (sk_Socket (ni_socketKey pPacket)) (ac_collector s) of
        None \<Rightarrow> Some (s, [])
      | Some pPlayer \<Rightarrow> do {
          pPlayerLoginInfo \<leftarrow> py_accountC pPlayer;
          let p1 = pPlayer\<lparr>py_accountC := Some (SetSelectPlayerSn selectPlayerSn pPlayerLoginInfo)\<rparr>;
          let little = Option.bind (py_protoList p1) (GetProto selectPlayerSn);
          (case little of
             None \<Rightarrow> Some (s\<lparr>ac_collector := set_player p1 (ac_collector s)\<rparr>,
                 [ToIdentify C2L_SelectPlayerRs (P_SelectPlayerRs SPRC_NotFound) (py_identify p1)])
           | Some pOpStream \<Rightarrow> do {
               let p2 = Player_ParseFromStream selectPlayerSn (reparse pOpStream) p1;
               es \<leftarrow> RequestToken p2;
               Some (s\<lparr>ac_collector := set_player p2 (ac_collector s)\<rparr>, es) }) })"

definition ProcessMsg :: "int \<Rightarrow> int" where
  "ProcessMsg httpcode =
     (if httpcode = 0 then ARC_OK
      else if httpcode = 2 then ARC_NOT_FOUND_ACCOUNT
      else if httpcode = 3 then ARC_PASSWORD_WRONG
      else ARC_UNKONWN)"

text \<open>\<open>json body\<close>: \<open>None\<close> is a text that does not parse, \<open>Some None\<close> an exception, else the number
  \<open>value["returncode"].asInt()\<close>.\<close>

definition HandleHttpOuterResponse :: "(string \<Rightarrow> int option option) \<Rightarrow> ResourceWorldMgr \<Rightarrow> NetIdentify \<Rightarrow> int \<Rightarrow> string
    \<Rightarrow> Account \<Rightarrow> (Account \<times> send list) option" where
  "HandleHttpOuterResponse json worlds pPacket statusCode body s =
     (case GetTagValue TagAccount (ni_tagKey pPacket) of
        None \<Rightarrow> Some (s, [])
      | Some pTagValue \<Rightarrow>
          (let (found, c) = GetPlayerByAccount (KeyStr pTagValue) (ac_collector s); s1 = s\<lparr>ac_collector := c\<rparr> in
           case found of
             None \<Rightarrow> Some (s1, [])
           | Some pPlayer \<Rightarrow> do {
               rsCode \<leftarrow> (if statusCode = 200 then
                     (case json body of None \<Rightarrow> Some ARC_TIMEOUT | Some r \<Rightarrow> map_option ProcessMsg r)
                   else Some ARC_TIMEOUT);
               let es1 = [Dispatch MI_NetworkRequestDisconnect P_None (Some pPacket)];
               let es2 = (case GetRolesMap worlds of
                     Some pRolesMap \<Rightarrow> [ToIdentify S2C_EnterWorld (P_EnterWorld (rb_id pRolesMap) Vector3_Zero) (py_identify pPlayer)]
                   | None \<Rightarrow> []);
               let es3 = (if rsCode = ARC_OK
                     then [ToApp L2DB_QueryPlayerList (P_QueryPlayerList (c_str (py_account pPlayer))) APP_DB_MGR 0]
                     else [ToIdentify C2L_AccountCheckRs (P_AccountCheckRs rsCode) (py_identify pPlayer)]);
               Some (s1, es1 @ es2 @ es3) }))"

definition HandleTokenToRedisRs :: "string \<Rightarrow> string \<Rightarrow> Account \<Rightarrow> Account \<times> send list" where
  "HandleTokenToRedisRs account token s =
     (let (found, c) = GetPlayerByAccount account (ac_collector s); s1 = s\<lparr>ac_collector := c\<rparr> in
      case found of
        None \<Rightarrow> (s1, [])
      | Some pPlayer \<Rightarrow>
          (case GetOneApp APP_GAME (ac_apps s1) of
             None \<Rightarrow> (s1, [ToIdentify L2C_GameToken (P_GameToken GameToken_NO_GAME '''' '''' 0) (py_identify pPlayer)])
           | Some (info, apps) \<Rightarrow>
               (s1\<lparr>ac_apps := apps\<rparr>,
                [ToIdentify L2C_GameToken (P_GameToken GameToken_OK token (c_str (ai_Ip info)) (ai_Port info)) (py_identify pPlayer)])))"

end
