(* ===== verification/Login_Cluster.thy ===== *)
theory Login_Cluster
  imports Login_Account "HOL-Library.Multiset"
begin

text \<open>
  Several login processes that share one Redis server: the handlers of \<open>account.cpp\<close> and of
  \<open>redis_login.cpp\<close>, \<open>redis_game.cpp\<close> as the steps of one system, with the messages between them in a
  bag, so that they may arrive in any order. The invariant counts who owns the login flag of an
  account; its consequence is that no two clients pass the check with the same account.
\<close>

section \<open>The messages between the account handlers and the Redis handlers\<close>

datatype flight =
    F_Query nat string
  | F_Reply nat string int
  | F_Delete string
  | F_Refresh nat string

text \<open>\<open>n\<close> is the process; its two threads exchange these messages by \<open>DispatchPacket\<close>.\<close>

fun flight_of :: "nat \<Rightarrow> send \<Rightarrow> flight option" where
  "flight_of n (Dispatch msgId (P_AccountQueryOnlineToRedis a) i) = Some (F_Query n a)"
| "flight_of n (Dispatch msgId (P_AccountQueryOnlineToRedisRs a code) i) = Some (F_Reply n a code)"
| "flight_of n (Dispatch msgId (P_AccountDeleteOnlineToRedis a) i) = Some (F_Delete a)"
| "flight_of n (Dispatch msgId (P_AccountSyncOnlineToRedis a) i) = Some (F_Refresh n a)"
| "flight_of n _ = None"

definition flights :: "nat \<Rightarrow> send list \<Rightarrow> flight multiset" where
  "flights n es = mset (List.map_filter (flight_of n) es)"

lemma flights_simps [simp]:
  "flights n [] = {#}"
  "flights n (e # es) = (case flight_of n e of None \<Rightarrow> flights n es | Some f \<Rightarrow> add_mset f (flights n es))"
  "flights n (es @ es') = flights n es + flights n es'"
  by (auto simp: flights_def List.map_filter_def split: option.splits)

section \<open>The steps\<close>

record 'd cluster =
  cl_accounts :: "Account list"
  cl_redis :: "'d Redis"
  cl_msgs :: "flight multiset"

text \<open>The parameters: the JSON library, the table of worlds, the reading of a stored player, the
  configuration.\<close>

record account_env =
  ae_json :: "string \<Rightarrow> int option option"
  ae_worlds :: ResourceWorldMgr
  ae_reparse :: "PlayerLittle \<Rightarrow> Player_proto"
  ae_endpoint :: "app_type \<Rightarrow> int \<Rightarrow> (string \<times> int) option"

text \<open>The handlers of one process that a client, the database, the HTTP connection or a closed
  connection calls.\<close>

inductive account_event :: "account_env \<Rightarrow> Account \<Rightarrow> Account \<Rightarrow> send list \<Rightarrow> bool" for env where
  Connected: "Account_HandleNetworkConnected i s = Some (s', es) \<Longrightarrow> account_event env s s' es"
| Closed: "account_event env s (Account_HandleNetworkDisconnect i s) []"
| Check: "plain_text a \<Longrightarrow> HandleAccountCheck i a pw s = (s', es) \<Longrightarrow> account_event env s s' es"
| PlayerList: "HandleQueryPlayerListRs a players s = (s', es) \<Longrightarrow> account_event env s s' es"
| Select: "HandleSelectPlayer (ae_reparse env) i sn s = Some (s', es) \<Longrightarrow> account_event env s s' es"
| Http: "HandleHttpOuterResponse (ae_json env) (ae_worlds env) i status body s = Some (s', es) \<Longrightarrow> account_event env s s' es"
| Token: "HandleTokenToRedisRs a token s = (s', es) \<Longrightarrow> account_event env s s' es"
| Apps: "account_event env s (HandleAppInfoListSync (ae_endpoint env) protos s) []"

definition online_players :: "string \<Rightarrow> Account \<Rightarrow> nat" where
  "online_players a s = length (filter (\<lambda>(k, p). py_onlineLogin p = Some a) (pc_players (ac_collector s)))"

inductive login_step :: "(string \<Rightarrow> u64 \<Rightarrow> string) \<Rightarrow> (string \<Rightarrow> string \<times> u64) \<Rightarrow> 'd redis_exec \<Rightarrow> account_env
    \<Rightarrow> 'd cluster \<Rightarrow> 'd cluster \<Rightarrow> bool" for enc dec exec env where
  Event: "n < length (cl_accounts c) \<Longrightarrow> account_event env (cl_accounts c ! n) s' es \<Longrightarrow>
    login_step enc dec exec env c (c\<lparr>cl_accounts := (cl_accounts c)[n := s'], cl_msgs := cl_msgs c + flights n es\<rparr>)"
| Reply: "n < length (cl_accounts c) \<Longrightarrow> F_Reply n a code \<in># cl_msgs c \<Longrightarrow>
    HandleAccountQueryOnlineToRedisRs a code (cl_accounts c ! n) = (s', es) \<Longrightarrow>
    login_step enc dec exec env c (c\<lparr>cl_accounts := (cl_accounts c)[n := s'],
       cl_msgs := cl_msgs c - {#F_Reply n a code#} + flights n es\<rparr>)"
| Release: "n < length (cl_accounts c) \<Longrightarrow> pc_released (ac_collector (cl_accounts c ! n)) = p # ps \<Longrightarrow>
    login_step enc dec exec env c (c\<lparr>cl_accounts := (cl_accounts c)[n := (cl_accounts c ! n)\<lparr>ac_collector :=
         (ac_collector (cl_accounts c ! n))\<lparr>pc_released := ps\<rparr>\<rparr>],
       cl_msgs := cl_msgs c + flights n (Player_release p)\<rparr>)"
| Timer: "n < length (cl_accounts c) \<Longrightarrow> (k, p) \<in> set (pc_players (ac_collector (cl_accounts c ! n))) \<Longrightarrow>
    py_onlineLogin p = Some a \<Longrightarrow>
    login_step enc dec exec env c (c\<lparr>cl_msgs := cl_msgs c + flights n (OnlineInLogin_SetOnlineFlag a)\<rparr>)"
| Query: "F_Query n a \<in># cl_msgs c \<Longrightarrow> HandleAccountQueryOnline exec (int n) a (cl_redis c) = Some (r', es) \<Longrightarrow>
    login_step enc dec exec env c (c\<lparr>cl_redis := r', cl_msgs := cl_msgs c - {#F_Query n a#} + flights n es\<rparr>)"
| Delete: "F_Delete a \<in># cl_msgs c \<Longrightarrow> HandleAccountDeleteOnlineToRedis exec a (cl_redis c) = Some r' \<Longrightarrow>
    login_step enc dec exec env c (c\<lparr>cl_redis := r', cl_msgs := cl_msgs c - {#F_Delete a#}\<rparr>)"
| Refresh: "F_Refresh n a \<in># cl_msgs c \<Longrightarrow> HandleAccountSyncOnlineToRedis exec (int n) a (cl_redis c) = Some r' \<Longrightarrow>
    login_step enc dec exec env c (c\<lparr>cl_redis := r', cl_msgs := cl_msgs c - {#F_Refresh n a#}\<rparr>)"
| Other: "op_ok enc x \<Longrightarrow> x = Op_LoginToken uuid a sn \<or> x = Op_SyncGame a v \<or> x = Op_DeleteGame a v \<or> x = Op_GameToken a \<Longrightarrow>
    redis_step enc dec exec x (cl_redis c) = Some r' \<Longrightarrow>
    login_step enc dec exec env c (c\<lparr>cl_redis := r'\<rparr>)"

definition cluster_init :: "(string \<times> int \<times> string) option list \<Rightarrow> 'd Redis \<Rightarrow> 'd cluster" where
  "cluster_init infos r = \<lparr>cl_accounts = map Account_Awake infos, cl_redis = r, cl_msgs = {#}\<rparr>"

section \<open>Who holds the flag of an account\<close>

text \<open>Every player of a process, the removed ones included that wait for their release.\<close>

definition members :: "Account \<Rightarrow> Player multiset" where
  "members s = mset (map snd (pc_players (ac_collector s))) + mset (pc_released (ac_collector s))"

definition holders :: "string \<Rightarrow> Account \<Rightarrow> nat" where
  "holders a s = size (filter_mset (\<lambda>p. py_onlineLogin p = Some a) (members s))"

fun grants :: "string \<Rightarrow> flight \<Rightarrow> bool" where
  "grants a (F_Reply n b code) = (b = a \<and> code = SOTR_Offline)"
| "grants a (F_Delete b) = (b = a)"
| "grants a _ = False"

definition tokens :: "string \<Rightarrow> 'd cluster \<Rightarrow> nat" where
  "tokens a c = sum_list (map (holders a) (cl_accounts c)) + size (filter_mset (grants a) (cl_msgs c))"

lemma mset_values_assign:
  assumes "sm_wf m"
  shows "mset (map snd (sm_assign k v m)) = add_mset v (mset (map snd m) -
     (case sm_find m k of None \<Rightarrow> {#} | Some w \<Rightarrow> {#w#}))"
  using assms
proof (induction m)
  case (Cons p m)
  obtain i w where p: "p = (i, w)" by (cases p)
  have wf: "sm_wf m" "\<And>j u. (j, u) \<in> set m \<Longrightarrow> i < j" using Cons.prems by (auto simp: sm_wf_Cons p)
  have none: "sm_find m k = None" if "k \<le> i" using that wf(2) by (force simp: map_of_eq_None_iff)
  have mem: "u \<in># mset (map snd m)" if "sm_find m k = Some u" for u
    using map_of_SomeD [OF that] by force
  show ?case
    using Cons.IH [OF wf(1)] none mem by (auto simp: p split: option.splits)
qed simp

lemma mset_values_erase:
  assumes "sm_wf m" "sm_find m k = Some v"
  shows "mset (map snd m) = add_mset v (mset (map snd (sm_erase k m)))"
  using assms
proof (induction m)
  case (Cons p m)
  obtain i w where p: "p = (i, w)" by (cases p)
  have wf: "sm_wf m" "\<And>j u. (j, u) \<in> set m \<Longrightarrow> i < j" using Cons.prems by (auto simp: sm_wf_Cons p)
  show ?case
  proof (cases "k = i")
    case True
    then have "sm_erase k m = m" using wf(2) by (force simp: sm_erase_def filter_id_conv)
    then show ?thesis using True Cons.prems(2) by (simp add: p sm_erase_def)
  next
    case False
    then show ?thesis using Cons.IH [OF wf(1)] Cons.prems(2) by (simp add: p sm_erase_def)
  qed
qed simp

lemma members_find:
  assumes "sm_find (pc_players (ac_collector s)) k = Some p"
  shows "p \<in># members s"
  using map_of_SomeD [OF assms] by (force simp: members_def)


definition holds :: "string \<Rightarrow> Player \<Rightarrow> nat" where
  "holds a p = (if py_onlineLogin p = Some a then 1 else 0)"

lemma holders_add: "members s' = add_mset p M \<Longrightarrow> holders a s' = holds a p + size (filter_mset (\<lambda>p. py_onlineLogin p = Some a) M)"
  by (simp add: holders_def holds_def)

definition acc_ok :: "Account \<Rightarrow> bool" where
  "acc_ok s \<longleftrightarrow> collector_inv (ac_collector s) \<and>
     (\<forall>p\<in>#members s. case py_onlineLogin p of None \<Rightarrow> True | Some a \<Rightarrow> plain_text a)"

lemma members_set_player:
  assumes "collector_inv (ac_collector s)" "sm_find (pc_players (ac_collector s)) (socket_of p') = Some p"
  shows "members (s\<lparr>ac_collector := set_player p' (ac_collector s)\<rparr>) = add_mset p' (members s - {#p#})"
proof -
  have "p \<in># mset (map snd (pc_players (ac_collector s)))" using map_of_SomeD [OF assms(2)] by force
  then show ?thesis
    using assms mset_values_assign [of "pc_players (ac_collector s)" "socket_of p'" p']
    by (simp add: members_def set_player_def collector_inv_def)
qed

lemma set_player_ok:
  assumes "acc_ok s" "sm_find (pc_players (ac_collector s)) (socket_of p') = Some p" "py_account p' = py_account p"
    and "case py_onlineLogin p' of None \<Rightarrow> True | Some a \<Rightarrow> plain_text a"
  shows "acc_ok (s\<lparr>ac_collector := set_player p' (ac_collector s)\<rparr>)"
    and "holders a (s\<lparr>ac_collector := set_player p' (ac_collector s)\<rparr>) + holds a p = holders a s + holds a p'"
proof -
  have inv: "collector_inv (ac_collector s)" using assms(1) by (simp add: acc_ok_def)
  note m = members_set_player [OF inv assms(2)]
  have p: "p \<in># members s" using members_find [OF assms(2)] .
  have "collector_inv (set_player p' (ac_collector s))" using inv assms(2,3) by (rule collector_inv_set)
  then show "acc_ok (s\<lparr>ac_collector := set_player p' (ac_collector s)\<rparr>)"
    using assms(1,4) by (auto simp: acc_ok_def m dest: in_diffD)
  have "members s = add_mset p (members s - {#p#})" using p by simp
  then have "holders a s = holds a p + size (filter_mset (\<lambda>p. py_onlineLogin p = Some a) (members s - {#p#}))"
    by (rule holders_add)
  then show "holders a (s\<lparr>ac_collector := set_player p' (ac_collector s)\<rparr>) + holds a p = holders a s + holds a p'"
    using holders_add [OF m, of a] by simp
qed

lemma set_player_same:
  assumes "acc_ok s" "sm_find (pc_players (ac_collector s)) (socket_of p) = Some p"
    and "py_account p' = py_account p" "py_onlineLogin p' = py_onlineLogin p" "py_identify p' = py_identify p"
  shows "acc_ok (s\<lparr>ac_collector := set_player p' (ac_collector s)\<rparr>)
    \<and> holders a (s\<lparr>ac_collector := set_player p' (ac_collector s)\<rparr>) = holders a s"
proof -
  have f: "sm_find (pc_players (ac_collector s)) (socket_of p') = Some p" using assms(2,5) by simp
  have "case py_onlineLogin p' of None \<Rightarrow> True | Some a \<Rightarrow> plain_text a"
    using assms(1,4) members_find [OF assms(2)] by (auto simp: acc_ok_def)
  note r = set_player_ok [OF assms(1) f assms(3) this]
  show ?thesis using r(1) r(2) [of a] assms(4) by (simp add: holds_def)
qed

lemma remove_ok:
  assumes "acc_ok s"
  shows "acc_ok (s\<lparr>ac_collector := RemovePlayerBySocket k (ac_collector s)\<rparr>)
    \<and> members (s\<lparr>ac_collector := RemovePlayerBySocket k (ac_collector s)\<rparr>) = members s"
proof -
  let ?s' = "s\<lparr>ac_collector := RemovePlayerBySocket k (ac_collector s)\<rparr>"
  have inv: "collector_inv (ac_collector s)" using assms by (simp add: acc_ok_def)
  have "members ?s' = members s"
  proof (cases "sm_find (pc_players (ac_collector s)) k")
    case (Some p)
    then have "socket_of p = k" using inv by (auto simp: collector_inv_def)
    then show ?thesis
      using Some inv mset_values_erase [of "pc_players (ac_collector s)" k p]
      by (simp add: RemovePlayerBySocket_def Collector_RemovePlayer_def members_def collector_inv_def)
  qed (simp add: RemovePlayerBySocket_def)
  moreover have "collector_inv (ac_collector ?s')" using inv by (auto intro: collector_inv_BySocket)
  ultimately show ?thesis using assms by (simp add: acc_ok_def)
qed

lemma holders_cong: "members s' = members s \<Longrightarrow> holders a s' = holders a s"
  by (simp add: holders_def)

lemma acc_ok_apps [simp]:
  "acc_ok (s\<lparr>ac_apps := x\<rparr>) = acc_ok s" "holders a (s\<lparr>ac_apps := x\<rparr>) = holders a s"
  by (simp_all add: acc_ok_def holders_def members_def)

lemma same_collector [simp]: "s\<lparr>ac_collector := ac_collector s\<rparr> = s"
  by simp

lemma by_account:
  assumes "acc_ok s"
  shows "\<exists>found. GetPlayerByAccount a (ac_collector s) = (found, ac_collector s)
    \<and> (\<forall>p. found = Some p \<longrightarrow> py_account p = a \<and> sm_find (pc_players (ac_collector s)) (socket_of p) = Some p)"
  using assms GetPlayerByAccount_inv [of "ac_collector s" a] by (cases "GetPlayerByAccount a (ac_collector s)") (auto simp: acc_ok_def)

lemma by_socket:
  assumes "acc_ok s" "GetPlayerBySocket k (ac_collector s) = Some p"
  shows "sm_find (pc_players (ac_collector s)) (socket_of p) = Some p"
  using assms by (auto simp: acc_ok_def collector_inv_def GetPlayerBySocket_def)


text \<open>A step of a process that leaves its holders alone and sends nothing but queries.\<close>

definition quiet :: "Account \<Rightarrow> Account \<Rightarrow> send list \<Rightarrow> bool" where
  "quiet s s' es \<longleftrightarrow> acc_ok s' \<and> (\<forall>a. holders a s' = holders a s)
     \<and> (\<forall>n. \<forall>f\<in>#flights n es. \<exists>b. f = F_Query n b \<and> plain_text b)"

lemma quiet_refl: "acc_ok s \<Longrightarrow> \<forall>e\<in>set es. \<forall>n. flight_of n e = None \<Longrightarrow> quiet s s es"
  by (induction es) (auto simp: quiet_def)

lemma no_flights: "\<forall>e\<in>set es. flight_of n e = None \<Longrightarrow> flights n es = {#}"
  by (induction es) auto

lemma quiet_set:
  assumes "acc_ok s" "sm_find (pc_players (ac_collector s)) (socket_of p) = Some p"
    and "py_account p' = py_account p" "py_onlineLogin p' = py_onlineLogin p" "py_identify p' = py_identify p"
    and "\<forall>n. flights n es = {#}"
  shows "quiet s (s\<lparr>ac_collector := set_player p' (ac_collector s)\<rparr>) es"
  using set_player_same [OF assms(1-5)] assms(6) by (simp add: quiet_def)

lemma HandleAccountCheck_quiet:
  assumes ok: "acc_ok s" and a: "plain_text a" and h: "HandleAccountCheck i a pw s = (s', es)"
  shows "quiet s s' es"
proof -
  let ?c = "ac_collector s"
  obtain found where g: "GetPlayerByAccount a (ac_collector s) = (found, ac_collector s)"
    and pl: "\<And>p. found = Some p \<Longrightarrow> py_account p = a \<and> sm_find (pc_players (ac_collector s)) (socket_of p) = Some p"
    using by_account [OF ok, of a] by blast
  have quiet_sd: "quiet s s (SocketDisconnect i)" using ok by (intro quiet_refl) (auto simp: SocketDisconnect_def)
  show ?thesis
  proof (cases "found = None \<and> Collector_AddPlayer i a ?c \<noteq> None")
    case False
    then have "s' = s \<and> es = SocketDisconnect i"
      using h g by (auto simp: HandleAccountCheck_def Let_def split: option.splits)
    then show ?thesis using quiet_sd by simp
  next
    case True
    then obtain p c1 es1 where add: "Collector_AddPlayer i a ?c = Some (p, c1, es1)" by (metis prod_cases3 not_Some_eq)
    have s': "s' = s\<lparr>ac_collector := set_player (Add_Account pw p) c1\<rparr>"
      and es: "es = es1 @ [Dispatch MI_AccountQueryOnlineToRedis (P_AccountQueryOnlineToRedis (c_str a)) None]"
      using h g True add by (auto simp: HandleAccountCheck_def Let_def)
    let ?s1 = "s\<lparr>ac_collector := c1\<rparr>" and ?k = "sk_Socket (ni_socketKey i)"
    have inv: "collector_inv ?c" using ok by (simp add: acc_ok_def)
    note c1 = collector_inv_Add [OF inv add]
    have p: "py_onlineLogin p = None" "es1 = [Dispatch MI_NetworkListenKey P_None (Some (py_identify p))]"
      and new: "sm_find (pc_players ?c) ?k = None" "pc_players c1 = sm_assign ?k p (pc_players ?c)" "pc_released c1 = pc_released ?c"
      using add by (auto simp: Collector_AddPlayer_Some Player_Awake_account_def Player_free_def Let_def)
    have "members ?s1 = add_mset p (members s)"
      using mset_values_assign [of "pc_players ?c" ?k p] inv new by (simp add: members_def collector_inv_def)
    then have s1: "acc_ok ?s1" "holders b ?s1 = holders b s" for b
      using ok c1 p(1) by (auto simp: acc_ok_def holders_def)
    have q: "py_account (Add_Account pw p) = py_account p" "py_onlineLogin (Add_Account pw p) = py_onlineLogin p"
      "py_identify (Add_Account pw p) = py_identify p"
      by (auto simp: Add_Account_def split: option.splits)
    have f: "sm_find (pc_players (ac_collector ?s1)) (socket_of p) = Some p" using c1 by simp
    show ?thesis
      using set_player_same [OF s1(1) f q] s1(2) s' es p(2) a by (auto simp: quiet_def)
  qed
qed

lemma Connected_quiet:
  assumes ok: "acc_ok s" and Connected: "Account_HandleNetworkConnected i s = Some (s', es)"
  shows "quiet s s' es"
proof -
  show ?thesis
  proof (cases "GetTagValue TagAccount (ni_tagKey i)")
    case None
    then show ?thesis using Connected ok by (auto simp: Account_HandleNetworkConnected_def intro: quiet_refl)
  next
    case (Some t)
    obtain found where g: "GetPlayerByAccount (KeyStr t) (ac_collector s) = (found, ac_collector s)"
    and pl: "\<And>p. found = Some p \<Longrightarrow> py_account p = (KeyStr t) \<and> sm_find (pc_players (ac_collector s)) (socket_of p) = Some p"
    using by_account [OF ok, of "KeyStr t"] by blast
    have "s' = s \<and> (\<forall>e\<in>set es. \<forall>n. flight_of n e = None)"
      using Connected Some g
      by (cases found) (auto simp: Account_HandleNetworkConnected_def Let_def split: if_splits Option.bind_splits)
    then show ?thesis using quiet_refl [OF ok] by simp
  qed
qed

lemma PlayerList_quiet:
  assumes ok: "acc_ok s" and PlayerList: "HandleQueryPlayerListRs a players s = (s', es)"
  shows "quiet s s' es"
proof -
  obtain found where g: "GetPlayerByAccount a (ac_collector s) = (found, ac_collector s)"
    and pl: "\<And>p. found = Some p \<Longrightarrow> py_account p = a \<and> sm_find (pc_players (ac_collector s)) (socket_of p) = Some p"
    using by_account [OF ok, of a] by blast
  show ?thesis
  proof (cases found)
    case None
    then show ?thesis using PlayerList g ok
      by (auto simp: HandleQueryPlayerListRs_def intro!: quiet_refl)
  next
    case (Some p)
    have "quiet s (s\<lparr>ac_collector := set_player p' (ac_collector s)\<rparr>) [ToIdentify L2C_PlayerList m j]"
      if "py_account p' = py_account p" "py_onlineLogin p' = py_onlineLogin p" "py_identify p' = py_identify p" for p' m j
      using quiet_set [OF ok conjunct2 [OF pl [OF Some]] that] by simp
    then show ?thesis using PlayerList g Some
      by (auto simp: HandleQueryPlayerListRs_def Let_def)
  qed
qed

lemma Select_quiet:
  assumes ok: "acc_ok s" and Select: "HandleSelectPlayer (ae_reparse env) i sn s = Some (s', es)"
  shows "quiet s s' es"
proof -
  show ?thesis
  proof (cases "GetPlayerBySocket (sk_Socket (ni_socketKey i)) (ac_collector s)")
    case None
    then show ?thesis using Select ok by (auto simp: HandleSelectPlayer_def intro!: quiet_refl)
  next
    case (Some p)
    have "quiet s (s\<lparr>ac_collector := set_player p' (ac_collector s)\<rparr>) es"
      if "py_account p' = py_account p" "py_onlineLogin p' = py_onlineLogin p" "py_identify p' = py_identify p"
        "\<forall>e\<in>set es. \<forall>n. flight_of n e = None" for p' es
      using quiet_set [OF ok by_socket [OF ok Some] that(1-3)] no_flights that(4) by auto
    then show ?thesis using Select Some
      by (auto simp: HandleSelectPlayer_def RequestToken_def Player_ParseFromStream_def Let_def split: option.splits Option.bind_splits)
  qed
qed

lemma Http_quiet:
  assumes ok: "acc_ok s" and Http: "HandleHttpOuterResponse (ae_json env) (ae_worlds env) i status body s = Some (s', es)"
  shows "quiet s s' es"
proof -
  show ?thesis
  proof (cases "GetTagValue TagAccount (ni_tagKey i)")
    case None
    then show ?thesis using Http ok by (auto simp: HandleHttpOuterResponse_def intro: quiet_refl)
  next
    case (Some t)
    obtain found where g: "GetPlayerByAccount (KeyStr t) (ac_collector s) = (found, ac_collector s)"
    and pl: "\<And>p. found = Some p \<Longrightarrow> py_account p = (KeyStr t) \<and> sm_find (pc_players (ac_collector s)) (socket_of p) = Some p"
    using by_account [OF ok, of "KeyStr t"] by blast
    have "s' = s \<and> (\<forall>e\<in>set es. \<forall>n. flight_of n e = None)"
      using Http Some g
      by (cases found; cases "GetRolesMap (ae_worlds env)")
        (auto simp: HandleHttpOuterResponse_def Let_def split: Option.bind_splits if_split_asm)
    then show ?thesis using quiet_refl [OF ok] by simp
  qed
qed

lemma Token_quiet:
  assumes ok: "acc_ok s" and Token: "HandleTokenToRedisRs a token s = (s', es)"
  shows "quiet s s' es"
proof -
  obtain found where g: "GetPlayerByAccount a (ac_collector s) = (found, ac_collector s)"
    and pl: "\<And>p. found = Some p \<Longrightarrow> py_account p = a \<and> sm_find (pc_players (ac_collector s)) (socket_of p) = Some p"
    using by_account [OF ok, of a] by blast
  have "quiet s (s\<lparr>ac_apps := x\<rparr>) [ToIdentify L2C_GameToken m j]" for x m j
    using ok by (simp add: quiet_def)
  moreover have "quiet s s [ToIdentify L2C_GameToken m j]" "quiet s s []" for m j
    using ok by (auto intro: quiet_refl)
  ultimately show ?thesis using Token g
    by (auto simp: HandleTokenToRedisRs_def split: option.splits)
qed

lemma Closed_quiet:
  assumes ok: "acc_ok s"
  shows "quiet s (Account_HandleNetworkDisconnect i s) []"
proof -
  have "quiet s (s\<lparr>ac_collector := RemovePlayerBySocket k (ac_collector s)\<rparr>) []" for k
    using remove_ok [OF ok, of k] holders_cong [OF conjunct2 [OF remove_ok [OF ok, of k]]] by (simp add: quiet_def)
  moreover have "quiet s s []" using ok by (intro quiet_refl) auto
  ultimately show ?thesis by (simp add: Account_HandleNetworkDisconnect_def)
qed

lemma account_event_quiet:
  assumes "account_event env s s' es" and ok: "acc_ok s"
  shows "quiet s s' es"
  using assms(1)
proof cases
  case Connected
  then show ?thesis by (rule Connected_quiet [OF ok])
next
  case Closed
  then show ?thesis using Closed_quiet [OF ok] by simp
next
  case Check
  then show ?thesis using HandleAccountCheck_quiet [OF ok] by blast
next
  case PlayerList
  then show ?thesis by (rule PlayerList_quiet [OF ok])
next
  case Select
  then show ?thesis by (rule Select_quiet [OF ok])
next
  case Http
  then show ?thesis by (rule Http_quiet [OF ok])
next
  case Token
  then show ?thesis by (rule Token_quiet [OF ok])
next
  case Apps
  then show ?thesis using ok by (simp add: quiet_def HandleAppInfoListSync_def)
qed


lemma Reply_ok:
  assumes ok: "acc_ok s" and b: "plain_text b" and h: "HandleAccountQueryOnlineToRedisRs b code s = (s', es)"
  shows "acc_ok s' \<and> (\<forall>n. flights n es = {#}) \<and> (\<forall>a. holders a s' \<le> holders a s + (if a = b \<and> code = SOTR_Offline then 1 else 0))"
proof -
  obtain found where g: "GetPlayerByAccount b (ac_collector s) = (found, ac_collector s)"
    and pl: "\<And>p. found = Some p \<Longrightarrow> py_account p = b \<and> sm_find (pc_players (ac_collector s)) (socket_of p) = Some p"
    using by_account [OF ok, of b] by blast
  show ?thesis
  proof (cases "found = None \<or> code \<noteq> SOTR_Offline")
    case True
    then have "s' = s \<and> (\<forall>n. flights n es = {#})"
      using h g by (auto simp: HandleAccountQueryOnlineToRedisRs_def split: option.splits)
    then show ?thesis using ok by simp
  next
    case False
    then obtain p where p: "found = Some p" by auto
    note pf = pl [OF p]
    let ?q = "Add_OnlineInLogin (py_account p) p"
    have s': "s' = s\<lparr>ac_collector := set_player ?q (ac_collector s)\<rparr>" "\<forall>n. flights n es = {#}"
      using h g False p by (auto simp: HandleAccountQueryOnlineToRedisRs_def)
    have q: "py_account ?q = py_account p" "py_identify ?q = py_identify p"
      and online: "py_onlineLogin ?q = (case py_onlineLogin p of None \<Rightarrow> Some b | Some x \<Rightarrow> Some x)"
      using pf by (auto simp: Add_OnlineInLogin_def split: option.splits)
    have f: "sm_find (pc_players (ac_collector s)) (socket_of ?q) = Some p" using pf q(2) by simp
    have "case py_onlineLogin ?q of None \<Rightarrow> True | Some a \<Rightarrow> plain_text a"
      using ok members_find [of s "socket_of p" p] pf b by (auto simp: online acc_ok_def split: option.splits)
    note r = set_player_ok [OF ok f q(1) this]
    have "holders a s' \<le> holders a s + (if a = b \<and> code = SOTR_Offline then 1 else 0)" for a
      using r(2) [of a] False s'(1) by (auto simp: holds_def online split: option.splits if_splits)
    then show ?thesis using r(1) s' by blast
  qed
qed

section \<open>The invariant\<close>

fun flight_account :: "flight \<Rightarrow> string" where
  "flight_account (F_Query n a) = a"
| "flight_account (F_Reply n a code) = a"
| "flight_account (F_Delete a) = a"
| "flight_account (F_Refresh n a) = a"

definition cluster_inv :: "('d \<Rightarrow> string \<Rightarrow> string option) \<Rightarrow> 'd cluster \<Rightarrow> bool" where
  "cluster_inv look c \<longleftrightarrow> rd_context (cl_redis c) \<and> versions_ok (look_in look (cl_redis c))
     \<and> (\<forall>s\<in>set (cl_accounts c). acc_ok s) \<and> (\<forall>f\<in>#cl_msgs c. plain_text (flight_account f))
     \<and> (\<forall>a. tokens a c \<le> 1 \<and> (tokens a c = 1 \<longrightarrow> look_in look (cl_redis c) (RedisKeyAccountOnlineLogin @ a) \<noteq> None))"

lemma sum_holders_update:
  assumes "n < length xs"
  shows "sum_list (map (holders a) (xs[n := s'])) + holders a (xs ! n) = sum_list (map (holders a) xs) + holders a s'"
  using assms
proof (induction xs arbitrary: n)
  case (Cons x xs)
  then show ?case by (cases n) auto
qed simp

lemma set_accounts_update:
  "n < length xs \<Longrightarrow> \<forall>s\<in>set xs. acc_ok s \<Longrightarrow> acc_ok s' \<Longrightarrow> \<forall>s\<in>set (xs[n := s']). acc_ok s"
  using set_update_subset_insert [of xs n s'] by blast

text \<open>A step that gives no account another owner, and withdraws no flag.\<close>

lemma cluster_inv_fewer:
  assumes "cluster_inv look c" "rd_context (cl_redis c')" "versions_ok (look_in look (cl_redis c'))"
    and "\<forall>s\<in>set (cl_accounts c'). acc_ok s" "\<forall>f\<in>#cl_msgs c'. plain_text (flight_account f)"
    and "\<And>a. tokens a c' \<le> tokens a c"
    and "\<And>a. look_in look (cl_redis c) (RedisKeyAccountOnlineLogin @ a) \<noteq> None \<Longrightarrow>
       look_in look (cl_redis c') (RedisKeyAccountOnlineLogin @ a) \<noteq> None"
  shows "cluster_inv look c'"
proof -
  have "tokens a c' \<le> 1 \<and> (tokens a c' = 1 \<longrightarrow> look_in look (cl_redis c') (RedisKeyAccountOnlineLogin @ a) \<noteq> None)" for a
  proof -
    have "tokens a c \<le> 1" "tokens a c = 1 \<Longrightarrow> look_in look (cl_redis c) (RedisKeyAccountOnlineLogin @ a) \<noteq> None"
      using assms(1) by (simp_all add: cluster_inv_def)
    then show ?thesis using assms(6) [of a] assms(7) [of a] by (cases "tokens a c' = 1") auto
  qed
  then show ?thesis using assms(2-5) by (simp add: cluster_inv_def)
qed

lemma size_grants_diff:
  assumes "f \<in># M"
  shows "size (filter_mset (grants a) M) = size (filter_mset (grants a) (M - {#f#})) + (if grants a f then 1 else 0)"
proof -
  obtain N where "M = add_mset f N" using multi_member_split [OF assms] by blast
  then show ?thesis by simp
qed


lemma quiet_grants: "quiet s s' es \<Longrightarrow> size (filter_mset (grants a) (flights n es)) = 0"
proof -
  assume "quiet s s' es"
  then have "\<not> grants a f" if "f \<in># flights n es" for f using that by (fastforce simp: quiet_def)
  then have "filter_mset (grants a) (flights n es) = filter_mset (\<lambda>f. False) (flights n es)" by (intro filter_mset_cong) auto
  then show ?thesis by simp
qed

lemma cluster_invD:
  assumes "cluster_inv look c"
  shows "rd_context (cl_redis c)" and "versions_ok (look_in look (cl_redis c))" and "\<forall>s\<in>set (cl_accounts c). acc_ok s"
    and "\<forall>f\<in>#cl_msgs c. plain_text (flight_account f)" and "\<forall>f\<in>#cl_msgs c - {#g#}. plain_text (flight_account f)"
    and "tokens a c \<le> 1" and "tokens a c = 1 \<Longrightarrow> look_in look (cl_redis c) (RedisKeyAccountOnlineLogin @ a) \<noteq> None"
  using assms by (auto simp: cluster_inv_def dest: in_diffD)

lemma Event_inv:
  assumes inv: "cluster_inv look c"
    and Event: "c' = c\<lparr>cl_accounts := (cl_accounts c)[n := s'], cl_msgs := cl_msgs c + flights n es\<rparr>" "n < length (cl_accounts c)" "account_event env (cl_accounts c ! n) s' es"
  shows "cluster_inv look c'"
proof -
  note ctx = cluster_invD(1,2) [OF inv] and acc = cluster_invD(3) [OF inv] and msgs = cluster_invD(4) [OF inv]
    and rest = cluster_invD(5) [OF inv] and tok = cluster_invD(6,7) [OF inv]
  have q: "quiet (cl_accounts c ! n) s' es" using account_event_quiet [OF Event(3)] acc Event(2) by simp
  have "tokens a c' = tokens a c" for a
    using sum_holders_update [OF Event(2), of a s'] q quiet_grants [OF q] by (simp add: Event(1) tokens_def quiet_def)
  then show ?thesis
    using cluster_inv_fewer [OF inv, of c'] ctx msgs q set_accounts_update [OF Event(2) acc, of s']
    by (fastforce simp: Event(1) quiet_def)
qed

lemma Reply_inv:
  assumes inv: "cluster_inv look c"
    and Reply: "c' = c\<lparr>cl_accounts := (cl_accounts c)[n := s'], cl_msgs := cl_msgs c - {#F_Reply n a code#} + flights n es\<rparr>" "n < length (cl_accounts c)" "F_Reply n a code \<in># cl_msgs c" "HandleAccountQueryOnlineToRedisRs a code (cl_accounts c ! n) = (s', es)"
  shows "cluster_inv look c'"
proof -
  note ctx = cluster_invD(1,2) [OF inv] and acc = cluster_invD(3) [OF inv] and msgs = cluster_invD(4) [OF inv]
    and rest = cluster_invD(5) [OF inv] and tok = cluster_invD(6,7) [OF inv]
  have b: "plain_text a" using msgs Reply(3) by force
  have r: "acc_ok s'" "flights n es = {#}"
      "holders b s' \<le> holders b (cl_accounts c ! n) + (if b = a \<and> code = SOTR_Offline then 1 else 0)" for b
    using Reply_ok [OF _ b Reply(4)] acc Reply(2) by simp_all
  have "tokens b c' \<le> tokens b c" for b
    using sum_holders_update [OF Reply(2), of b s'] r(3) [of b] size_grants_diff [OF Reply(3), of b]
    by (auto simp: Reply(1) tokens_def r(2) split: if_splits)
  then show ?thesis
    using cluster_inv_fewer [OF inv, of c'] ctx rest set_accounts_update [OF Reply(2) acc r(1)]
    by (simp add: Reply(1) r(2))
qed

lemma Release_inv:
  assumes inv: "cluster_inv look c"
    and Release: "c' = c\<lparr>cl_accounts := (cl_accounts c)[n := (cl_accounts c ! n)\<lparr>ac_collector := (ac_collector (cl_accounts c ! n))\<lparr>pc_released := ps\<rparr>\<rparr>], cl_msgs := cl_msgs c + flights n (Player_release p)\<rparr>" "n < length (cl_accounts c)" "pc_released (ac_collector (cl_accounts c ! n)) = p # ps"
  shows "cluster_inv look c'"
proof -
  note ctx = cluster_invD(1,2) [OF inv] and acc = cluster_invD(3) [OF inv] and msgs = cluster_invD(4) [OF inv]
    and rest = cluster_invD(5) [OF inv] and tok = cluster_invD(6,7) [OF inv]
  let ?s = "cl_accounts c ! n"
  let ?s' = "?s\<lparr>ac_collector := (ac_collector ?s)\<lparr>pc_released := ps\<rparr>\<rparr>"
  have m: "members ?s = add_mset p (members ?s')" using Release(3) by (simp add: members_def)
  have s: "acc_ok ?s" using acc Release(2) by simp
  have s': "acc_ok ?s'" using s m by (simp add: acc_ok_def collector_inv_def)
  have h: "holders a ?s = holds a p + holders a ?s'" for a
    using holders_add [OF m, of a] by (simp add: holders_def)
  have fl: "flights n (Player_release p) = (case py_onlineLogin p of None \<Rightarrow> {#} | Some a \<Rightarrow> {#F_Delete a#})"
    by (auto simp: Player_release_def OnlineInGame_BackToPool_def OnlineInLogin_BackToPool_def split: option.splits)
  have plain: "\<forall>f\<in>#flights n (Player_release p). plain_text (flight_account f)"
    using s m by (auto simp: fl acc_ok_def split: option.splits)
  have "size (filter_mset (grants a) (flights n (Player_release p))) = holds a p" for a
    by (auto simp: fl holds_def split: option.splits)
  then have "tokens a c' = tokens a c" for a
    using sum_holders_update [OF Release(2), of a ?s'] h [of a] by (simp add: Release(1) tokens_def)
  then show ?thesis
    using cluster_inv_fewer [OF inv, of c'] ctx msgs plain set_accounts_update [OF Release(2) acc s']
    by (auto simp: Release(1))
qed

lemma Timer_inv:
  assumes inv: "cluster_inv look c"
    and Timer: "c' = c\<lparr>cl_msgs := cl_msgs c + flights n (OnlineInLogin_SetOnlineFlag a)\<rparr>" "n < length (cl_accounts c)" "(k, p) \<in> set (pc_players (ac_collector (cl_accounts c ! n)))" "py_onlineLogin p = Some a"
  shows "cluster_inv look c'"
proof -
  note ctx = cluster_invD(1,2) [OF inv] and acc = cluster_invD(3) [OF inv] and msgs = cluster_invD(4) [OF inv]
    and rest = cluster_invD(5) [OF inv] and tok = cluster_invD(6,7) [OF inv]
  have "p \<in># members (cl_accounts c ! n)" using Timer(3) by (force simp: members_def)
  then have "plain_text a" using acc Timer(2,4) by (auto simp: acc_ok_def dest!: bspec [of _ _ "cl_accounts c ! n"])
  then show ?thesis
    using cluster_inv_fewer [OF inv, of c'] ctx acc msgs
    by (auto simp: Timer(1) tokens_def OnlineInLogin_SetOnlineFlag_def)
qed

lemma Query_inv:
  assumes ok: "redis_ok exec look" and inv: "cluster_inv look c"
    and Query: "c' = c\<lparr>cl_redis := r', cl_msgs := cl_msgs c - {#F_Query n a#} + flights n es\<rparr>" "F_Query n a \<in># cl_msgs c" "HandleAccountQueryOnline exec (int n) a (cl_redis c) = Some (r', es)"
  shows "cluster_inv look c'"
proof -
  note ctx = cluster_invD(1,2) [OF inv] and acc = cluster_invD(3) [OF inv] and msgs = cluster_invD(4) [OF inv]
    and rest = cluster_invD(5) [OF inv] and tok = cluster_invD(6,7) [OF inv]
  have a: "plain_text a" using msgs Query(2) by force
  let ?k = "RedisKeyAccountOnlineLogin @ a" and ?m = "look_in look (cl_redis c)"
  let ?code = "if ?m ?k = None \<and> version_of ?m a = 0 then SOTR_Offline else SOTR_Online"
  have r: "es = [Dispatch MI_AccountQueryOnlineToRedisRs (P_AccountQueryOnlineToRedisRs a ?code) None]" "rd_context r'"
      "look_in look r' = (if ?m ?k = None then ?m(?k \<mapsto> show_int (int n)) else ?m)"
    using QueryOnline_ok [OF ok ctx(1) a ctx(2), of "int n"] Query(3) by auto
  have v: "versions_ok (look_in look r')" using ctx(2) r(3) by simp
  have "tokens b c' = tokens b c + (if b = a \<and> ?code = SOTR_Offline then 1 else 0)" for b
    using size_grants_diff [OF Query(2), of b] by (simp add: Query(1) tokens_def r(1))
  moreover have "tokens a c = 0" if "?code = SOTR_Offline"
    using that tok [of a] by (cases "tokens a c = 1") (auto split: if_splits)
  ultimately have "tokens b c' \<le> 1 \<and> (tokens b c' = 1 \<longrightarrow> look_in look r' (RedisKeyAccountOnlineLogin @ b) \<noteq> None)" for b
    using tok [of b] r(3) by (auto split: if_splits)
  then show ?thesis using r(2) v acc rest [of "F_Query n a"] a by (auto simp: Query(1) r(1) cluster_inv_def)
qed

lemma Delete_inv:
  assumes ok: "redis_ok exec look" and inv: "cluster_inv look c"
    and Delete: "c' = c\<lparr>cl_redis := r', cl_msgs := cl_msgs c - {#F_Delete a#}\<rparr>" "F_Delete a \<in># cl_msgs c" "HandleAccountDeleteOnlineToRedis exec a (cl_redis c) = Some r'"
  shows "cluster_inv look c'"
proof -
  note ctx = cluster_invD(1,2) [OF inv] and acc = cluster_invD(3) [OF inv] and msgs = cluster_invD(4) [OF inv]
    and rest = cluster_invD(5) [OF inv] and tok = cluster_invD(6,7) [OF inv]
  have a: "plain_text a" using msgs Delete(2) by force
  let ?k = "RedisKeyAccountOnlineLogin @ a" and ?m = "look_in look (cl_redis c)"
  have r: "rd_context r'" "look_in look r' = ?m(?k := None)"
    using Redis_Delete_ok [OF ok ctx(1) redis_keys(2) [OF a]] Delete(3) by (auto simp: HandleAccountDeleteOnlineToRedis_def)
  have "tokens b c = tokens b c' + (if b = a then 1 else 0)" for b
    using size_grants_diff [OF Delete(2), of b] by (simp add: Delete(1) tokens_def)
  then have "tokens b c' \<le> 1 \<and> (tokens b c' = 1 \<longrightarrow> look_in look r' (RedisKeyAccountOnlineLogin @ b) \<noteq> None)" for b
    using tok [of b] r(2) by (cases "b = a") auto
  then show ?thesis using r ctx(2) acc rest [of "F_Delete a"] by (simp add: Delete(1) cluster_inv_def)
qed

lemma Refresh_inv:
  assumes ok: "redis_ok exec look" and inv: "cluster_inv look c"
    and Refresh: "c' = c\<lparr>cl_redis := r', cl_msgs := cl_msgs c - {#F_Refresh n a#}\<rparr>" "F_Refresh n a \<in># cl_msgs c" "HandleAccountSyncOnlineToRedis exec (int n) a (cl_redis c) = Some r'"
  shows "cluster_inv look c'"
proof -
  note ctx = cluster_invD(1,2) [OF inv] and acc = cluster_invD(3) [OF inv] and msgs = cluster_invD(4) [OF inv]
    and rest = cluster_invD(5) [OF inv] and tok = cluster_invD(6,7) [OF inv]
  have a: "plain_text a" using msgs Refresh(2) by force
  have r: "rd_context r'" "look_in look r' = (look_in look (cl_redis c))(RedisKeyAccountOnlineLogin @ a \<mapsto> show_int (int n))"
    using Setex_ok [OF ok ctx(1) redis_keys(2) [OF a], of "show_int (int n)" RedisKeyAccountOnlineLoginTimeout] Refresh(3)
    by (auto simp: HandleAccountSyncOnlineToRedis_def show_int_nat)
  have "tokens b c' = tokens b c" for b
    using size_grants_diff [OF Refresh(2), of b] by (simp add: Refresh(1) tokens_def)
  then show ?thesis
    using cluster_inv_fewer [OF inv, of c'] ctx acc rest [of "F_Refresh n a"] r by (simp add: Refresh(1))
qed

lemma Other_inv:
  assumes ok: "redis_ok exec look" and inv: "cluster_inv look c"
    and Other: "c' = c\<lparr>cl_redis := r'\<rparr>" "op_ok enc x" "x = Op_LoginToken uuid a sn \<or> x = Op_SyncGame a v \<or> x = Op_DeleteGame a v \<or> x = Op_GameToken a" "redis_step enc dec exec x (cl_redis c) = Some r'"
  shows "cluster_inv look c'"
proof -
  note ctx = cluster_invD(1,2) [OF inv] and acc = cluster_invD(3) [OF inv] and msgs = cluster_invD(4) [OF inv]
    and rest = cluster_invD(5) [OF inv] and tok = cluster_invD(6,7) [OF inv]
  have r: "rd_context r' \<and> versions_ok (look_in look r') \<and>
     (look_in look (cl_redis c) (RedisKeyAccountOnlineLogin @ b) \<noteq> None \<longrightarrow> look_in look r' (RedisKeyAccountOnlineLogin @ b) \<noteq> None)" for b
    using redis_step_ok [OF ok ctx Other(2), of b dec] Other(3,4) by auto
  then show ?thesis
    using cluster_inv_fewer [OF inv, of c'] acc msgs by (simp add: Other(1) tokens_def)
qed

lemma login_step_inv:
  assumes step: "login_step enc dec exec env c c'" and ok: "redis_ok exec look" and inv: "cluster_inv look c"
  shows "cluster_inv look c'"
  using step
proof cases
  case Event
  then show ?thesis by (rule Event_inv [OF inv])
next
  case Reply
  then show ?thesis by (rule Reply_inv [OF inv])
next
  case Release
  then show ?thesis by (rule Release_inv [OF inv])
next
  case Timer
  then show ?thesis by (rule Timer_inv [OF inv])
next
  case Query
  then show ?thesis by (rule Query_inv [OF ok inv])
next
  case Delete
  then show ?thesis by (rule Delete_inv [OF ok inv])
next
  case Refresh
  then show ?thesis by (rule Refresh_inv [OF ok inv])
next
  case Other
  then show ?thesis by (rule Other_inv [OF ok inv])
qed


section \<open>Properties\<close>

lemma cluster_init_inv:
  assumes "rd_context r" "versions_ok (look_in look r)"
  shows "cluster_inv look (cluster_init infos r)"
proof -
  have m: "members (Account_Awake info) = {#}" for info
    by (auto simp: members_def Account_Awake_def Let_def PlayerCollector_new_def split: option.splits)
  have c: "collector_inv (ac_collector (Account_Awake info))" for info
    by (auto simp: Account_Awake_def Let_def split: option.splits)
  have "tokens a (cluster_init infos r) = 0" for a
    by (simp add: tokens_def cluster_init_def holders_def m comp_def)
  then show ?thesis using assms m c by (auto simp: cluster_inv_def cluster_init_def acc_ok_def)
qed

lemma online_players_holders: "online_players a s \<le> holders a s"
proof -
  have "online_players a s = size (filter_mset (\<lambda>p. py_onlineLogin p = Some a) (mset (map snd (pc_players (ac_collector s)))))"
    by (simp add: online_players_def filter_map o_def case_prod_unfold del: mset_map mset_filter flip: mset_filter)
  then show ?thesis by (simp add: holders_def members_def)
qed

interpretation cluster: invariant_system "login_step enc dec exec env" "\<lambda>c. redis_ok exec look \<longrightarrow> cluster_inv look c"
  for enc dec exec env look
  by unfold_locales (blast intro: login_step_inv)


section \<open>An instance\<close>

definition sample_env :: account_env where
  "sample_env = \<lparr>ae_json = \<lambda>b. None, ae_worlds = sample_table, ae_reparse = \<lambda>l. Player_default, ae_endpoint = \<lambda>t i. None\<rparr>"

definition sample_login0 :: Account where
  "sample_login0 = Account_Awake (Some (''127.0.0.1'', 80, ''check''))"

definition sample_login1 :: Account where
  "sample_login1 = fst (HandleAccountCheck (sample_client 5) ''bob'' ''pw'' sample_login0)"

definition sample_login2 :: Account where
  "sample_login2 = fst (HandleAccountQueryOnlineToRedisRs ''bob'' SOTR_Offline sample_login1)"

lemma sample_logins:
  "flights 0 (snd (HandleAccountCheck (sample_client 5) ''bob'' ''pw'' sample_login0)) = {#F_Query 0 ''bob''#}"
  "online_players ''bob'' sample_login0 = 0" "online_players ''bob'' sample_login2 = 1"
proof -
  have "snd (HandleAccountCheck (sample_client 5) ''bob'' ''pw'' sample_login0) =
      [Dispatch MI_NetworkListenKey P_None (Some (py_identify (fst (Player_Awake_account (sample_client 5) ''bob'')))),
       Dispatch MI_AccountQueryOnlineToRedis (P_AccountQueryOnlineToRedis ''bob'') None]"
    by code_simp
  then show "flights 0 (snd (HandleAccountCheck (sample_client 5) ''bob'' ''pw'' sample_login0)) = {#F_Query 0 ''bob''#}"
    by simp
  show "online_players ''bob'' sample_login0 = 0" "online_players ''bob'' sample_login2 = 1"
    by code_simp+
qed

lemma sample_run:
  "\<exists>c. (login_step sample_enc sample_dec sample_redis sample_env)\<^sup>*\<^sup>*
      (cluster_init [Some (''127.0.0.1'', 80, ''check''), Some (''127.0.0.1'', 80, ''check'')] sample_redis0) c
    \<and> cl_accounts c = [sample_login2, sample_login0]"
proof -
  let ?step = "login_step sample_enc sample_dec sample_redis sample_env"
  let ?c0 = "cluster_init [Some (''127.0.0.1'', 80, ''check''), Some (''127.0.0.1'', 80, ''check'')] sample_redis0"
  have a0: "cl_accounts ?c0 = [sample_login0, sample_login0]" by (simp add: cluster_init_def sample_login0_def)
  define c1 where "c1 = ?c0\<lparr>cl_accounts := [sample_login1, sample_login0], cl_msgs := {#F_Query 0 ''bob''#}\<rparr>"
  have "account_event sample_env sample_login0 sample_login1
      (snd (HandleAccountCheck (sample_client 5) ''bob'' ''pw'' sample_login0))"
    using account_event.Check [OF sample_plain_text(1)] by (simp add: sample_login1_def)
  then have s1: "?step ?c0 c1"
    using login_step.Event [of 0 ?c0] a0 sample_logins(1) by (force simp: c1_def cluster_init_def)
  obtain r' where r': "HandleAccountQueryOnline sample_redis (int 0) ''bob'' sample_redis0 = Some (r',
      [Dispatch MI_AccountQueryOnlineToRedisRs (P_AccountQueryOnlineToRedisRs ''bob'' SOTR_Offline) None])"
    using QueryOnline_ok [OF sample_redis_ok sample_redis0_facts(1) sample_plain_text(1) sample_redis0_facts(2), of 0] by auto
  define c2 where "c2 = c1\<lparr>cl_redis := r', cl_msgs := {#F_Reply 0 ''bob'' SOTR_Offline#}\<rparr>"
  have s2: "?step c1 c2"
    using login_step.Query [of 0 "''bob''" c1 sample_redis r'] r' by (force simp: c1_def c2_def cluster_init_def)
  have "HandleAccountQueryOnlineToRedisRs ''bob'' SOTR_Offline sample_login1 =
      (sample_login2, snd (HandleAccountQueryOnlineToRedisRs ''bob'' SOTR_Offline sample_login1))"
    by (simp add: sample_login2_def)
  then have "\<exists>c3. ?step c2 c3 \<and> cl_accounts c3 = [sample_login2, sample_login0]"
    using login_step.Reply [of 0 c2 "''bob''" SOTR_Offline sample_login2] by (force simp: c2_def c1_def)
  then show ?thesis using s1 s2 by (meson rtranclp.rtrancl_into_rtrancl rtranclp.rtrancl_refl)
qed


end
