(* ===== verification/Yaml_Config.thy ===== *)
theory Yaml_Config
  imports Thread_Mgr
begin

text \<open>
  The configuration (\<open>libserver/yaml.h\<close>, \<open>libserver/yaml.cpp\<close>): the sections of the file, one for a
  type of process, become objects of a class hierarchy, from which the processes read addresses and
  numbers of threads. The parser of the file is the library yaml-cpp: the model starts from its tree of
  nodes, and \<open>lib\<close> converts a node to a string or a number. A result \<open>None\<close> of a load is the exception
  of a conversion or of a missing node.
\<close>

section \<open>Nodes\<close>

datatype yaml = Y_Scalar string | Y_Seq "yaml list" | Y_Map "(string \<times> yaml) list"

record yaml_lib =
  y_string :: "yaml \<Rightarrow> string option"
  y_int :: "yaml \<Rightarrow> int option"

text \<open>\<open>node[key]\<close>: \<open>None\<close> is an undefined node, which no conversion accepts.\<close>

fun sub_node :: "yaml \<Rightarrow> string \<Rightarrow> yaml option" where
  "sub_node (Y_Map m) key = map_of m key"
| "sub_node _ key = None"

fun sub_nodes :: "yaml option \<Rightarrow> yaml list" where
  "sub_nodes (Some (Y_Seq ns)) = ns"
| "sub_nodes _ = []"

definition string_at :: "yaml_lib \<Rightarrow> yaml \<Rightarrow> string \<Rightarrow> string option" where
  "string_at lib node key = Option.bind (sub_node node key) (y_string lib)"

definition int_at :: "yaml_lib \<Rightarrow> yaml \<Rightarrow> string \<Rightarrow> int option" where
  "int_at lib node key = Option.bind (sub_node node key) (y_int lib)"

text \<open>A number that may be left out.\<close>

definition int_or :: "int \<Rightarrow> yaml_lib \<Rightarrow> yaml \<Rightarrow> string \<Rightarrow> int option" where
  "int_or missing lib node key = (if sub_node node key = None then Some missing else int_at lib node key)"

section \<open>The classes\<close>

text \<open>The part that \<open>CommonConfig\<close> adds to \<open>AppConfig\<close>, and an entry of a list of processes.\<close>

record CommonConfig =
  cf_Ip :: string
  cf_Port :: int
  cf_HttpPort :: int

definition CommonConfig_new :: CommonConfig where
  "CommonConfig_new = \<lparr>cf_Ip = ''127.0.0.1'', cf_Port = 6661, cf_HttpPort = 5051\<rparr>"

record AppListForOneConfig = CommonConfig +
  cf_Id :: int

record DBConfig =
  db_DBType :: string
  db_Ip :: string
  db_Port :: int
  db_User :: string
  db_Password :: string
  db_DatabaseName :: string
  db_CharacterSet :: string
  db_Collation :: string

definition DBConfig_new :: DBConfig where
  "DBConfig_new = \<lparr>db_DBType = '''', db_Ip = ''127.0.0.1'', db_Port = 3306, db_User = '''', db_Password = '''',
     db_DatabaseName = '''', db_CharacterSet = '''', db_Collation = ''''\<rparr>"

text \<open>The dynamic classes: \<open>CommonConfig\<close> itself, \<open>SpaceConfig\<close>, \<open>GameConfig\<close>, \<open>LoginConfig\<close> (all of them
  \<open>AppListConfig\<close>s), \<open>DBMgrConfig\<close> (a \<open>CommonConfig\<close>) and \<open>RobotConfig\<close>.\<close>

datatype YamlConfig =
    Common_Config AppConfig CommonConfig
  | Space_Config AppConfig "AppListForOneConfig list"
  | Game_Config AppConfig "AppListForOneConfig list"
  | Login_Config AppConfig "AppListForOneConfig list" string string
  | DBMgr_Config AppConfig CommonConfig "DBConfig list"
  | Robot_Config AppConfig

text \<open>The casts to \<open>AppListConfig\<close>, \<open>CommonConfig\<close> and \<open>AppConfig\<close>.\<close>

fun as_AppList :: "YamlConfig \<Rightarrow> AppListForOneConfig list option" where
  "as_AppList (Space_Config a apps) = Some apps"
| "as_AppList (Game_Config a apps) = Some apps"
| "as_AppList (Login_Config a apps u m) = Some apps"
| "as_AppList _ = None"

fun as_Common :: "YamlConfig \<Rightarrow> CommonConfig option" where
  "as_Common (Common_Config a c) = Some c"
| "as_Common (DBMgr_Config a c dbs) = Some c"
| "as_Common _ = None"

fun as_AppConfig :: "YamlConfig \<Rightarrow> AppConfig" where
  "as_AppConfig (Common_Config a c) = a"
| "as_AppConfig (Space_Config a apps) = a"
| "as_AppConfig (Game_Config a apps) = a"
| "as_AppConfig (Login_Config a apps u m) = a"
| "as_AppConfig (DBMgr_Config a c dbs) = a"
| "as_AppConfig (Robot_Config a) = a"

definition GetOne :: "int \<Rightarrow> AppListForOneConfig list \<Rightarrow> AppListForOneConfig option" where
  "GetOne i apps = find (\<lambda>one. cf_Id one = i) apps"

definition GetDBConfig :: "string \<Rightarrow> DBConfig list \<Rightarrow> DBConfig option" where
  "GetDBConfig dbType dbs = find (\<lambda>db. db_DBType db = dbType) dbs"

section \<open>\<open>class Yaml\<close>: loading\<close>

fun mapM :: "('a \<Rightarrow> 'b option) \<Rightarrow> 'a list \<Rightarrow> 'b list option" where
  "mapM f [] = Some []"
| "mapM f (x # xs) = do { y \<leftarrow> f x; ys \<leftarrow> mapM f xs; Some (y # ys) }"

definition LoadAppList :: "yaml_lib \<Rightarrow> yaml \<Rightarrow> AppListForOneConfig list option" where
  "LoadAppList lib node = mapM (\<lambda>n. do {
     i \<leftarrow> int_at lib n ''id'';
     ip \<leftarrow> string_at lib n ''ip'';
     port \<leftarrow> int_at lib n ''port'';
     Some \<lparr>cf_Ip = ip, cf_Port = port, cf_HttpPort = cf_HttpPort CommonConfig_new, cf_Id = i\<rparr> }) (sub_nodes (sub_node node ''apps''))"

definition ascii_lower :: "char \<Rightarrow> char" where
  "ascii_lower c = (if 65 \<le> (of_char c :: nat) \<and> of_char c \<le> (90 :: nat) then char_of (of_char c + 32 :: nat) else c)"

definition db_entry :: "yaml_lib \<Rightarrow> string \<times> yaml \<Rightarrow> DBConfig \<Rightarrow> DBConfig option" where
  "db_entry lib = (\<lambda>(key, v) one.
     if key = ''type'' then map_option (\<lambda>s. one\<lparr>db_DBType := map ascii_lower s\<rparr>) (y_string lib v)
     else if key = ''ip'' then map_option (\<lambda>s. one\<lparr>db_Ip := s\<rparr>) (y_string lib v)
     else if key = ''port'' then map_option (\<lambda>n. one\<lparr>db_Port := n\<rparr>) (y_int lib v)
     else if key = ''user'' then map_option (\<lambda>s. one\<lparr>db_User := s\<rparr>) (y_string lib v)
     else if key = ''password'' then map_option (\<lambda>s. one\<lparr>db_Password := s\<rparr>) (y_string lib v)
     else if key = ''character_set'' then map_option (\<lambda>s. one\<lparr>db_CharacterSet := s\<rparr>) (y_string lib v)
     else if key = ''collation'' then map_option (\<lambda>s. one\<lparr>db_Collation := s\<rparr>) (y_string lib v)
     else if key = ''database_name'' then map_option (\<lambda>s. one\<lparr>db_DatabaseName := s\<rparr>) (y_string lib v)
     else Some one)"

fun map_entries :: "yaml \<Rightarrow> (string \<times> yaml) list" where
  "map_entries (Y_Map m) = m"
| "map_entries _ = []"

definition LoadDbConfig :: "yaml_lib \<Rightarrow> yaml \<Rightarrow> DBConfig option" where
  "LoadDbConfig lib node = fold (\<lambda>e one. Option.bind one (db_entry lib e)) (map_entries node) (Some DBConfig_new)"

definition load_common :: "yaml_lib \<Rightarrow> yaml \<Rightarrow> CommonConfig option" where
  "load_common lib node = do {
     ip \<leftarrow> string_at lib node ''ip'';
     port \<leftarrow> int_at lib node ''port'';
     http \<leftarrow> int_or (cf_HttpPort CommonConfig_new) lib node ''http_port'';
     Some \<lparr>cf_Ip = ip, cf_Port = port, cf_HttpPort = http\<rparr> }"

definition load_threads :: "yaml_lib \<Rightarrow> yaml \<Rightarrow> AppConfig option" where
  "load_threads lib node = do {
     logic \<leftarrow> int_or 0 lib node ''thread_logic'';
     mysql \<leftarrow> int_or 0 lib node ''thread_mysql'';
     listening \<leftarrow> int_or 0 lib node ''thread_listen'';
     connecting \<leftarrow> int_or 0 lib node ''thread_connector'';
     Some \<lparr>ac_LogicThreadNum = logic, ac_MysqlThreadNum = mysql, ac_ListenThreadNum = listening, ac_ConnectThreadNum = connecting\<rparr> }"

text \<open>The objects are built before the common parts are read; all of it throws before anything is stored.\<close>

definition load_section :: "yaml_lib \<Rightarrow> app_type \<Rightarrow> yaml \<Rightarrow> YamlConfig option" where
  "load_section lib appType node =
     (if appType = APP_SPACE then do {
        apps \<leftarrow> LoadAppList lib node; a \<leftarrow> load_threads lib node; Some (Space_Config a apps) }
      else if appType = APP_GAME then do {
        apps \<leftarrow> LoadAppList lib node; a \<leftarrow> load_threads lib node; Some (Game_Config a apps) }
      else if appType = APP_LOGIN then do {
        url \<leftarrow> string_at lib node ''url_login''; meth \<leftarrow> string_at lib node ''url_method'';
        apps \<leftarrow> LoadAppList lib node; a \<leftarrow> load_threads lib node; Some (Login_Config a apps url meth) }
      else if appType = APP_DB_MGR then do {
        dbs \<leftarrow> mapM (LoadDbConfig lib) (sub_nodes (sub_node node ''dbs''));
        c \<leftarrow> load_common lib node; a \<leftarrow> load_threads lib node; Some (DBMgr_Config a c dbs) }
      else if appType = APP_ROBOT then do { a \<leftarrow> load_threads lib node; Some (Robot_Config a) }
      else do { c \<leftarrow> load_common lib node; a \<leftarrow> load_threads lib node; Some (Common_Config a c) })"

type_synonym configs = "(app_type, YamlConfig) smap"

text \<open>A section that is missing is reported and left out.\<close>

definition LoadConfig :: "yaml_lib \<Rightarrow> yaml \<Rightarrow> app_type \<Rightarrow> configs \<Rightarrow> configs option" where
  "LoadConfig lib config appType cs =
     (case sub_node config (GetAppName appType) of
        None \<Rightarrow> Some cs
      | Some node \<Rightarrow> map_option (\<lambda>c. sm_insert appType c cs) (load_section lib appType node))"

definition config_types :: "app_type list" where
  "config_types = [APP_ALLINONE, APP_LOGIN, APP_GAME, APP_SPACE, APP_ROBOT, APP_DB_MGR, APP_APPMGR]"

definition Yaml_Awake :: "yaml_lib \<Rightarrow> yaml \<Rightarrow> configs option" where
  "Yaml_Awake lib config = fold (\<lambda>t cs. Option.bind cs (LoadConfig lib config t)) config_types (Some [])"

definition Yaml_BackToPool :: "configs \<Rightarrow> configs" where
  "Yaml_BackToPool cs = []"

section \<open>\<open>class Yaml\<close>: reading\<close>

definition GetConfig :: "app_type \<Rightarrow> configs \<Rightarrow> YamlConfig option" where
  "GetConfig appType cs = sm_find cs appType"

text \<open>The address of a process: of the entry with its number in a list, else of the section.\<close>

definition GetIPEndPoint :: "app_type \<Rightarrow> int \<Rightarrow> configs \<Rightarrow> (string \<times> int) option" where
  "GetIPEndPoint appType appId cs = do {
     c \<leftarrow> GetConfig appType cs;
     (case as_AppList c of
        Some apps \<Rightarrow> map_option (\<lambda>one. (cf_Ip one, cf_Port one)) (GetOne appId apps)
      | None \<Rightarrow> map_option (\<lambda>one. (cf_Ip one, cf_Port one)) (as_Common c)) }"


section \<open>What was loaded\<close>

lemma LoadConfig_find:
  "LoadConfig lib config t cs = Some cs' \<Longrightarrow>
   sm_find cs' = (if sm_find cs t = None \<and> sub_node config (GetAppName t) \<noteq> None
     then (sm_find cs)(t := Option.bind (sub_node config (GetAppName t)) (load_section lib t)) else sm_find cs)
   \<and> (\<forall>node. sub_node config (GetAppName t) = Some node \<longrightarrow> load_section lib t node \<noteq> None)"
  by (auto simp: LoadConfig_def sm_insert_def split: option.splits)

lemma fold_None: "fold (\<lambda>t cs. Option.bind cs (LoadConfig lib config t)) ts None = None"
  by (induction ts) simp_all

lemma loaded_find:
  "fold (\<lambda>t cs. Option.bind cs (LoadConfig lib config t)) ts (Some cs) = Some cs' \<Longrightarrow> distinct ts \<Longrightarrow>
   sm_find cs' a = (if a \<in> set ts \<and> sm_find cs a = None then Option.bind (sub_node config (GetAppName a)) (load_section lib a) else sm_find cs a)
   \<and> (a \<in> set ts \<longrightarrow> (\<forall>node. sub_node config (GetAppName a) = Some node \<longrightarrow> load_section lib a node \<noteq> None))"
proof (induction ts arbitrary: cs)
  case (Cons t ts)
  obtain cs1 where one: "LoadConfig lib config t cs = Some cs1"
      "fold (\<lambda>t cs. Option.bind cs (LoadConfig lib config t)) ts (Some cs1) = Some cs'"
    using Cons.prems(1) by (cases "LoadConfig lib config t cs") (auto simp: fold_None)
  have rest: "sm_find cs' a = (if a \<in> set ts \<and> sm_find cs1 a = None
        then Option.bind (sub_node config (GetAppName a)) (load_section lib a) else sm_find cs1 a)
      \<and> (a \<in> set ts \<longrightarrow> (\<forall>node. sub_node config (GetAppName a) = Some node \<longrightarrow> load_section lib a node \<noteq> None))"
    using Cons.IH [OF one(2)] Cons.prems(2) by simp
  show ?case
  proof (cases "a = t")
    case True
    then show ?thesis using rest LoadConfig_find [OF one(1)] Cons.prems(2) by (cases "sub_node config (GetAppName t)") auto
  next
    case False
    then have "sm_find cs1 a = sm_find cs a" using LoadConfig_find [OF one(1)] by (simp split: if_splits)
    then show ?thesis using rest False by simp
  qed
qed simp

lemma types_distinct: "distinct config_types"
  by (simp add: config_types_def APP_ALLINONE_def APP_APPMGR_def)

lemma GetConfig_loaded:
  assumes "Yaml_Awake lib config = Some cs" and "t \<in> set config_types"
  shows "GetConfig t cs = Option.bind (sub_node config (GetAppName t)) (load_section lib t)"
    and "sub_node config (GetAppName t) = Some node \<Longrightarrow> load_section lib t node \<noteq> None"
  using loaded_find [OF assms(1) [unfolded Yaml_Awake_def] types_distinct, of t] assms(2) by (simp_all add: GetConfig_def)

section \<open>Properties\<close>

text \<open>The addresses that the processes use are those of the file. When the file could be loaded, a
  process of a listed type (login, game, space) has the address of the first entry of its
  section with its number, and none if there is no such entry; the processes that are one of a kind have
  the address of their section; robots have none, nor has a type without a section.\<close>

theorem GetIPEndPoint_of_file:
  assumes "Yaml_Awake lib config = Some cs" and "appType \<in> set config_types"
  shows "(case sub_node config (GetAppName appType) of
      None \<Rightarrow> GetIPEndPoint appType appId cs = None
    | Some node \<Rightarrow>
        if appType \<in> {APP_LOGIN, APP_GAME, APP_SPACE} then \<exists>apps. LoadAppList lib node = Some apps
          \<and> GetIPEndPoint appType appId cs = map_option (\<lambda>one. (cf_Ip one, cf_Port one)) (find (\<lambda>one. cf_Id one = appId) apps)
        else if appType = APP_ROBOT then GetIPEndPoint appType appId cs = None
        else \<exists>ip port. string_at lib node ''ip'' = Some ip \<and> int_at lib node ''port'' = Some port
          \<and> GetIPEndPoint appType appId cs = Some (ip, port))"
proof (cases "sub_node config (GetAppName appType)")
  case None
  then show ?thesis using GetConfig_loaded(1) [OF assms] by (simp add: GetIPEndPoint_def)
next
  case (Some node)
  obtain c where c: "load_section lib appType node = Some c" using GetConfig_loaded(2) [OF assms Some] by blast
  then have "GetConfig appType cs = Some c" using GetConfig_loaded(1) [OF assms] Some by simp
  then show ?thesis using c Some
    by (auto simp: GetIPEndPoint_def load_section_def load_common_def GetOne_def Option.bind_eq_Some_conv split: if_splits)
qed

definition sample_lib :: yaml_lib where
  "sample_lib = \<lparr>y_string = (\<lambda>n. case n of Y_Scalar s \<Rightarrow> Some s | _ \<Rightarrow> None),
     y_int = (\<lambda>n. case n of Y_Scalar s \<Rightarrow> Some (int (length s)) | _ \<Rightarrow> None)\<rparr>"

text \<open>Numbers in unary, by the length of the text.\<close>

definition sample_yaml :: yaml where
  "sample_yaml = Y_Map
     [(''game'', Y_Map [(''apps'', Y_Seq [Y_Map [(''id'', Y_Scalar ''xx''), (''ip'', Y_Scalar ''host''), (''port'', Y_Scalar ''xxx'')]])]),
      (''appmgr'', Y_Map [(''ip'', Y_Scalar ''manager''), (''port'', Y_Scalar ''xxxx'')])]"

theorem GetIPEndPoint_of_file_witness:
  "\<exists>cs. Yaml_Awake sample_lib sample_yaml = Some cs \<and> GetIPEndPoint APP_GAME 2 cs = Some (''host'', 3)
     \<and> GetIPEndPoint APP_GAME 1 cs = None"
proof -
  obtain cs where cs: "Yaml_Awake sample_lib sample_yaml = Some cs"
    by (cases "Yaml_Awake sample_lib sample_yaml")
      (simp_all add: Yaml_Awake_def config_types_def LoadConfig_def sample_yaml_def GetAppName_def load_section_def LoadAppList_def
        load_threads_def load_common_def int_or_def int_at_def string_at_def sample_lib_def APP_ALLINONE_def APP_APPMGR_def)
  have game: "sub_node sample_yaml (GetAppName APP_GAME) =
      Some (Y_Map [(''apps'', Y_Seq [Y_Map [(''id'', Y_Scalar ''xx''), (''ip'', Y_Scalar ''host''), (''port'', Y_Scalar ''xxx'')]])])"
    by (simp add: sample_yaml_def GetAppName_def APP_ALLINONE_def)
  have "APP_GAME \<in> set config_types" by (simp add: config_types_def)
  note endpoint = GetIPEndPoint_of_file [OF cs this]
  show ?thesis using cs endpoint [of 1] endpoint [of 2]
    by (simp add: game LoadAppList_def int_at_def string_at_def sample_lib_def)
qed

end
