(* ===== verification/Mysql_Store.thy ===== *)
theory Mysql_Store
  imports Redis_Store Http_Message Yaml_Config
begin

text \<open>
  The database process (\<open>apps/dbmgr\<close>): the connection to MySQL (\<open>mysql_base.cpp\<close>,
  \<open>mysql_connector.cpp\<close>), its prepared statements with their hand-made parameter buffer, the
  handlers of players (\<open>mysql_msg.cpp\<close>) and the creation of the tables (\<open>mysql_table_update.cpp\<close>).
  The client library and the server behind it are the argument \<open>lib\<close>; \<open>enc\<close> and \<open>dec\<close> are
  protobuf's. A result \<open>None\<close> is a null pointer that is followed, or memory written beyond its end.
\<close>

section \<open>The library\<close>

datatype sql_param = Param_Uint64 u64 | Param_Int int | Param_String "byte list" | Param_Blob "byte list"

type_synonym row = "byte list option list"

text \<open>Each function takes the data of the library and gives them back; the first result of \<open>ml_init\<close>
  and \<open>ml_connect\<close> is whether the pointer is not null, of the others whether the call succeeded.
  \<open>ml_query\<close> also gives the stored result and the number of affected rows.\<close>

record 'd mysql_lib =
  ml_init :: "'d \<Rightarrow> bool \<times> 'd"
  ml_connect :: "string option \<Rightarrow> 'd \<Rightarrow> bool \<times> 'd"
  ml_errno :: "'d \<Rightarrow> int"
  ml_ping :: "'d \<Rightarrow> 'd"
  ml_select_db :: "string \<Rightarrow> 'd \<Rightarrow> bool \<times> 'd"
  ml_charset :: "string \<Rightarrow> 'd \<Rightarrow> bool \<times> 'd"
  ml_query :: "string \<Rightarrow> 'd \<Rightarrow> bool \<times> row list option \<times> nat \<times> 'd"
  ml_prepare :: "string \<Rightarrow> 'd \<Rightarrow> bool \<times> 'd"
  ml_execute :: "string \<Rightarrow> sql_param list \<Rightarrow> 'd \<Rightarrow> bool \<times> 'd"

section \<open>\<open>struct DatabaseStmt\<close>\<close>

abbreviation (input) MAX_BIND_BUFFER :: nat where "MAX_BIND_BUFFER \<equiv> 40960"
abbreviation (input) MAX_BIND_STR :: nat where "MAX_BIND_STR \<equiv> 30000"

datatype DatabaseStmtKey = Create | Save

instantiation DatabaseStmtKey :: linorder
begin

definition less_eq_DatabaseStmtKey :: "DatabaseStmtKey \<Rightarrow> DatabaseStmtKey \<Rightarrow> bool" where
  "less_eq_DatabaseStmtKey a b = (a = Create \<or> b = Save)"

definition less_DatabaseStmtKey :: "DatabaseStmtKey \<Rightarrow> DatabaseStmtKey \<Rightarrow> bool" where
  "less_DatabaseStmtKey a b = (a = Create \<and> b = Save)"

instance
proof
  fix a b c :: DatabaseStmtKey
  show "(a < b) = (a \<le> b \<and> \<not> b \<le> a)" "a \<le> b \<or> b \<le> a" "a \<le> a"
    by (cases a; cases b; simp add: less_eq_DatabaseStmtKey_def less_DatabaseStmtKey_def)+
  show "a \<le> b \<Longrightarrow> b \<le> c \<Longrightarrow> a \<le> c" "a \<le> b \<Longrightarrow> b \<le> a \<Longrightarrow> a = b"
    by (cases a; cases b; cases c; simp add: less_eq_DatabaseStmtKey_def)+
qed

end

datatype field_type = MYSQL_TYPE_LONGLONG | MYSQL_TYPE_LONG | MYSQL_TYPE_STRING | MYSQL_TYPE_BLOB

text \<open>\<open>mb_buffer\<close>: an offset into the statement's buffer, or memory of the caller. \<open>mb_length\<close>: the
  offset of the length that the library reads.\<close>

datatype bind_buffer = At nat | Outside "byte list"

record MYSQL_BIND =
  mb_buffer_type :: field_type
  mb_buffer :: bind_buffer
  mb_length :: "nat option"
  mb_buffer_length :: nat

record DatabaseStmt =
  ds_sql :: string
  ds_count :: nat
  ds_bind :: "MYSQL_BIND list"
  ds_bind_buffer :: "byte list"
  ds_bind_index :: nat
  ds_bind_buffer_index :: nat

text \<open>\<open>ds_bind\<close> holds the first \<open>ds_bind_index\<close> entries of the array of \<open>ds_count\<close>.\<close>

definition param_count :: "string \<Rightarrow> nat" where
  "param_count sql = length (filter (\<lambda>c. c = CHR ''?'' \<or> c = CHR ''@'') sql)"

text \<open>\<open>Some (None, _)\<close> is the result \<open>nullptr\<close>.\<close>

definition CreateStmt :: "'d mysql_lib \<Rightarrow> string \<Rightarrow> 'd \<Rightarrow> DatabaseStmt option \<times> 'd" where
  "CreateStmt lib sql d =
     (let (ok, d1) = ml_prepare lib sql d in
      if \<not> ok then (None, d1)
      else (Some \<lparr>ds_sql = sql, ds_count = param_count sql, ds_bind = [],
                 ds_bind_buffer = (if param_count sql > 0 then new_bytes MAX_BIND_BUFFER else []),
                 ds_bind_index = 0, ds_bind_buffer_index = 0\<rparr>, d1))"

definition ClearStmtParam :: "DatabaseStmt \<Rightarrow> DatabaseStmt" where
  "ClearStmtParam stmt = stmt\<lparr>ds_bind := [], ds_bind_index := 0, ds_bind_buffer_index := 0\<rparr>"

definition put_bind :: "MYSQL_BIND \<Rightarrow> (nat \<times> byte list) list \<Rightarrow> nat \<Rightarrow> DatabaseStmt \<Rightarrow> DatabaseStmt option" where
  "put_bind b writes n stmt =
     (if ds_bind_index stmt < ds_count stmt then
        map_option (\<lambda>mem. stmt\<lparr>ds_bind := ds_bind stmt @ [b], ds_bind_buffer := mem,
            ds_bind_index := ds_bind_index stmt + 1, ds_bind_buffer_index := ds_bind_buffer_index stmt + n\<rparr>)
          (fold (\<lambda>(off, bs) m. Option.bind m (\<lambda>mem. mem_write mem off bs)) writes (Some (ds_bind_buffer stmt)))
      else None)"

definition AddParamBlob :: "byte list \<Rightarrow> DatabaseStmt \<Rightarrow> DatabaseStmt option" where
  "AddParamBlob v stmt =
     (let at = ds_bind_buffer_index stmt + 8
      in put_bind \<lparr>mb_buffer_type = MYSQL_TYPE_BLOB, mb_buffer = Outside v, mb_length = Some at, mb_buffer_length = length v\<rparr>
           [(at, le_enc 8 (length v))] 16 stmt)"

definition AddParamUint64 :: "u64 \<Rightarrow> DatabaseStmt \<Rightarrow> DatabaseStmt option" where
  "AddParamUint64 v stmt =
     (let at = ds_bind_buffer_index stmt
      in put_bind \<lparr>mb_buffer_type = MYSQL_TYPE_LONGLONG, mb_buffer = At at, mb_length = None, mb_buffer_length = 0\<rparr>
           [(at, le_enc 8 (unat v))] 8 stmt)"

definition AddParamInt :: "int \<Rightarrow> DatabaseStmt \<Rightarrow> DatabaseStmt option" where
  "AddParamInt v stmt =
     (let at = ds_bind_buffer_index stmt
      in put_bind \<lparr>mb_buffer_type = MYSQL_TYPE_LONG, mb_buffer = At at, mb_length = None, mb_buffer_length = 0\<rparr>
           [(at, le_enc 8 (unat (word_of_int v :: u64)))] 8 stmt)"

text \<open>\<open>strncpy\<close> of \<open>len + 1\<close> characters: the last one is the end of the string, or one more of a
  string that is too long.\<close>

definition AddParamStr :: "string \<Rightarrow> DatabaseStmt \<Rightarrow> DatabaseStmt option" where
  "AddParamStr v stmt =
     (let s = bytes_of (c_str v);
          len = (if length s \<ge> MAX_BIND_STR then MAX_BIND_STR - 1 else length s);
          at = ds_bind_buffer_index stmt
      in put_bind \<lparr>mb_buffer_type = MYSQL_TYPE_STRING, mb_buffer = At at, mb_length = Some (at + len + 1), mb_buffer_length = len\<rparr>
           [(at, take (len + 1) (s @ [0])), (at + len + 1, le_enc 8 len)] (len + 1 + 8) stmt)"

text \<open>What the library reads when a statement is executed.\<close>

definition bind_length :: "byte list \<Rightarrow> MYSQL_BIND \<Rightarrow> nat option" where
  "bind_length mem b = (case mb_length b of None \<Rightarrow> Some (mb_buffer_length b) | Some at \<Rightarrow> map_option le_dec (mem_read mem at 8))"

definition bind_value :: "byte list \<Rightarrow> MYSQL_BIND \<Rightarrow> sql_param option" where
  "bind_value mem b =
     (case mb_buffer_type b of
        MYSQL_TYPE_LONGLONG \<Rightarrow> (case mb_buffer b of
            At at \<Rightarrow> map_option (\<lambda>bs. Param_Uint64 (of_nat (le_dec bs))) (mem_read mem at 8) | Outside v \<Rightarrow> None)
      | MYSQL_TYPE_LONG \<Rightarrow> (case mb_buffer b of
            At at \<Rightarrow> map_option (\<lambda>bs. Param_Int (sint (of_nat (le_dec bs) :: 32 word))) (mem_read mem at 4) | Outside v \<Rightarrow> None)
      | MYSQL_TYPE_STRING \<Rightarrow> Option.bind (bind_length mem b) (\<lambda>n. case mb_buffer b of
            At at \<Rightarrow> map_option Param_String (mem_read mem at n) | Outside v \<Rightarrow> map_option Param_String (mem_read v 0 n))
      | MYSQL_TYPE_BLOB \<Rightarrow> Option.bind (bind_length mem b) (\<lambda>n. case mb_buffer b of
            At at \<Rightarrow> map_option Param_Blob (mem_read mem at n) | Outside v \<Rightarrow> map_option Param_Blob (mem_read v 0 n)))"

fun bind_values :: "byte list \<Rightarrow> MYSQL_BIND list \<Rightarrow> sql_param list option" where
  "bind_values mem [] = Some []"
| "bind_values mem (b # bs) = do { v \<leftarrow> bind_value mem b; vs \<leftarrow> bind_values mem bs; Some (v # vs) }"

definition ExecuteStmt :: "'d mysql_lib \<Rightarrow> DatabaseStmt \<Rightarrow> 'd \<Rightarrow> (bool \<times> 'd) option" where
  "ExecuteStmt lib stmt d = do {
     params \<leftarrow> bind_values (ds_bind_buffer stmt) (ds_bind stmt);
     Some (ml_execute lib (ds_sql stmt) params d) }"

section \<open>\<open>class MysqlBase\<close>\<close>

text \<open>\<open>ms_pMysql\<close>: the pointer is not null. \<open>ms_pMysqlRes\<close>: the rows that are not fetched yet.\<close>

record 'd Mysql =
  ms_pMysql :: bool
  ms_pMysqlRes :: "row list option"
  ms_mapStmt :: "(DatabaseStmtKey, DatabaseStmt option) smap"
  ms_isRunning :: bool
  ms_lib :: 'd

definition MysqlBase_Disconnect :: "'d Mysql \<Rightarrow> 'd Mysql" where
  "MysqlBase_Disconnect s = s\<lparr>ms_pMysqlRes := None, ms_pMysql := False\<rparr>"

text \<open>\<open>CleanStmts\<close> follows every pointer of the map.\<close>

definition CleanStmts :: "'d Mysql \<Rightarrow> 'd Mysql option" where
  "CleanStmts s = (if list_all (\<lambda>(k, one). one \<noteq> None) (ms_mapStmt s) then Some (s\<lparr>ms_mapStmt := []\<rparr>) else None)"

definition Mysql_Disconnect :: "'d Mysql \<Rightarrow> 'd Mysql option" where
  "Mysql_Disconnect s = map_option MysqlBase_Disconnect (CleanStmts s)"

text \<open>\<open>ConnectInit\<close> calls the virtual \<open>Disconnect\<close>.\<close>

definition ConnectInit :: "'d mysql_lib \<Rightarrow> ('d Mysql \<Rightarrow> 'd Mysql option) \<Rightarrow> 'd Mysql \<Rightarrow> (bool \<times> 'd Mysql) option" where
  "ConnectInit lib disconnect s = do {
     s1 \<leftarrow> disconnect s;
     let (ok, d) = ml_init lib (ms_lib s1);
     (if \<not> ok then Some (False, s1\<lparr>ms_lib := d\<rparr>)
      else Some (True, s1\<lparr>ms_lib := d, ms_pMysql := True, ms_pMysqlRes := None\<rparr>)) }"

definition CheckMysqlError :: "'d mysql_lib \<Rightarrow> 'd Mysql \<Rightarrow> int" where
  "CheckMysqlError lib s = (let mysqlerrno = ml_errno lib (ms_lib s) in if mysqlerrno > 0 then mysqlerrno else 0)"

definition mysql_ping :: "'d mysql_lib \<Rightarrow> 'd Mysql \<Rightarrow> 'd Mysql option" where
  "mysql_ping lib s = (if ms_pMysql s then Some (s\<lparr>ms_lib := ml_ping lib (ms_lib s)\<rparr>) else None)"

text \<open>A statement that yields no result leaves \<open>_pMysqlRes\<close> null.\<close>

definition Mysql_Query :: "'d mysql_lib \<Rightarrow> string \<Rightarrow> 'd Mysql \<Rightarrow> (bool \<times> nat \<times> 'd Mysql) option" where
  "Mysql_Query lib sql s =
     (if \<not> ms_pMysql s then None
      else let (ok, res, affected_rows, d) = ml_query lib sql (ms_lib s)
           in if \<not> ok then Some (False, 0, s\<lparr>ms_lib := d, ms_pMysqlRes := None\<rparr>)
              else Some (True, affected_rows, s\<lparr>ms_lib := d, ms_pMysqlRes := res\<rparr>))"

definition Fetch :: "'d Mysql \<Rightarrow> row option \<times> 'd Mysql" where
  "Fetch s = (case ms_pMysqlRes s of
     None \<Rightarrow> (None, s)
   | Some [] \<Rightarrow> (None, s)
   | Some (r # rs) \<Rightarrow> (Some r, s\<lparr>ms_pMysqlRes := Some rs\<rparr>))"

text \<open>Columns, counted from 0; a NULL of the database is \<open>None\<close>.\<close>

definition until_nul :: "byte list \<Rightarrow> byte list" where
  "until_nul bs = takeWhile (\<lambda>b. b \<noteq> 0) bs"

definition text_of :: "byte list \<Rightarrow> string" where
  "text_of bs = map (\<lambda>b. char_of (unat b)) (until_nul bs)"

definition Row_GetInt :: "row \<Rightarrow> nat \<Rightarrow> int" where
  "Row_GetInt row index = (case row ! index of None \<Rightarrow> 0 | Some v \<Rightarrow> atoi (until_nul v))"

definition Row_GetUint64 :: "row \<Rightarrow> nat \<Rightarrow> u64" where
  "Row_GetUint64 row index = (case row ! index of None \<Rightarrow> 0 | Some v \<Rightarrow> word_of_int (max (- (2 ^ 63)) (min (2 ^ 63 - 1) (atoi (until_nul v)))))"

text \<open>A null pointer given to \<open>set_name\<close> is followed.\<close>

definition Row_GetString :: "row \<Rightarrow> nat \<Rightarrow> string option" where
  "Row_GetString row index = map_option text_of (row ! index)"

text \<open>\<open>GetBlob\<close> into a \<open>std::string\<close>: the bytes are copied whole, then assigned as a C string.\<close>

definition Row_GetBlob :: "row \<Rightarrow> nat \<Rightarrow> byte list" where
  "Row_GetBlob row index = (case row ! index of None \<Rightarrow> [] | Some v \<Rightarrow> until_nul v)"

section \<open>\<open>class MysqlConnector\<close>: the connection\<close>

definition create_sql :: string where
  "create_sql = ''insert into player ( sn, account, name, savetime, createtime ) value ( ?, ?, ?, now(), now() )''"

definition save_sql :: string where
  "save_sql = ''update player set base=?, misc=?, savetime=now() where sn = ?''"

text \<open>\<open>insert\<close> keeps a statement that is there already.\<close>

definition InitStmts :: "'d mysql_lib \<Rightarrow> 'd Mysql \<Rightarrow> 'd Mysql" where
  "InitStmts lib s =
     (let (stmt1, d1) = CreateStmt lib create_sql (ms_lib s);
          (stmt2, d2) = CreateStmt lib save_sql d1
      in s\<lparr>ms_mapStmt := sm_insert Save stmt2 (sm_insert Create stmt1 (ms_mapStmt s)), ms_lib := d2\<rparr>)"

definition GetStmt :: "DatabaseStmtKey \<Rightarrow> 'd Mysql \<Rightarrow> DatabaseStmt option" where
  "GetStmt stmtKey s = (case sm_find (ms_mapStmt s) stmtKey of None \<Rightarrow> None | Some stmt \<Rightarrow> stmt)"

text \<open>A change of a statement through its pointer.\<close>

definition set_stmt :: "DatabaseStmtKey \<Rightarrow> DatabaseStmt \<Rightarrow> 'd Mysql \<Rightarrow> 'd Mysql" where
  "set_stmt k stmt s = s\<lparr>ms_mapStmt := sm_assign k (Some stmt) (ms_mapStmt s)\<rparr>"

definition Mysql_Connect :: "'d mysql_lib \<Rightarrow> string \<Rightarrow> 'd Mysql \<Rightarrow> (bool \<times> 'd Mysql) option" where
  "Mysql_Connect lib dbName s = do {
     (ok, s1) \<leftarrow> ConnectInit lib Mysql_Disconnect s;
     (if \<not> ok then Some (False, s1)
      else do {
        let s2 = s1\<lparr>ms_lib := snd (ml_connect lib (Some dbName) (ms_lib s1))\<rparr>;
        (if CheckMysqlError lib s2 > 0 then map_option (Pair False) (Mysql_Disconnect s2)
         else do {
           s3 \<leftarrow> mysql_ping lib s2;
           (if CheckMysqlError lib s3 > 0 then map_option (Pair False) (Mysql_Disconnect s3)
            else Some (True, (InitStmts lib s3)\<lparr>ms_isRunning := True\<rparr>)) }) }) }"

definition Mysql_ReConnect :: "'d mysql_lib \<Rightarrow> string \<Rightarrow> 'd Mysql \<Rightarrow> 'd Mysql option" where
  "Mysql_ReConnect lib dbName s = do {
     (ok, s1) \<leftarrow> ConnectInit lib Mysql_Disconnect s;
     (if \<not> ok then Some s1
      else do {
        let (connected, d) = ml_connect lib (Some dbName) (ms_lib s1);
        let s2 = s1\<lparr>ms_lib := d\<rparr>;
        (if \<not> connected then Some s2
         else do {
           let s3 = s2\<lparr>ms_lib := snd (ml_select_db lib dbName (ms_lib s2))\<rparr>;
           (if CheckMysqlError lib s3 \<noteq> 0 then Mysql_Disconnect s3
            else Some ((InitStmts lib s3)\<lparr>ms_isRunning := True\<rparr>)) }) }) }"

definition Mysql_CheckPing :: "'d mysql_lib \<Rightarrow> string \<Rightarrow> 'd Mysql \<Rightarrow> 'd Mysql option" where
  "Mysql_CheckPing lib dbName s = do {
     s1 \<leftarrow> (if ms_isRunning s then do {
              s1 \<leftarrow> mysql_ping lib s;
              (if CheckMysqlError lib s1 \<noteq> 0 then Mysql_Disconnect s1 else Some s1) }
            else Some s);
     (if \<not> ms_isRunning s1 then Mysql_ReConnect lib dbName s1 else Some s1) }"

definition Mysql_Awake :: "'d mysql_lib \<Rightarrow> string option \<Rightarrow> 'd Mysql \<Rightarrow> 'd Mysql option" where
  "Mysql_Awake lib dbName s = (case dbName of None \<Rightarrow> Some s | Some db \<Rightarrow> map_option snd (Mysql_Connect lib db s))"

definition Mysql_BackToPool :: "'d Mysql \<Rightarrow> 'd Mysql option" where
  "Mysql_BackToPool s = Mysql_Disconnect s"


section \<open>\<open>mysql_msg.cpp\<close>\<close>

text \<open>Protobuf's encoding of the two blobs; decoding is total, it leaves what it could read.\<close>

record proto_codec =
  co_enc_base :: "PlayerBase \<Rightarrow> byte list"
  co_enc_misc :: "PlayerMisc \<Rightarrow> byte list"
  co_dec_base :: "byte list \<Rightarrow> PlayerBase"
  co_dec_misc :: "byte list \<Rightarrow> PlayerMisc"

abbreviation (input) CPR_Create_OK :: int where "CPR_Create_OK \<equiv> 0"
abbreviation (input) CPR_Unkonwn :: int where "CPR_Unkonwn \<equiv> 1"

text \<open>The rows of the result, fetched until there is none: a player of the list each. A world that the
  blob does not hold is the default of the message, as elsewhere.\<close>

definition player_of_row :: "proto_codec \<Rightarrow> row \<Rightarrow> PlayerLittle option" where
  "player_of_row c row = do {
     name \<leftarrow> Row_GetString row 1;
     let base = co_dec_base c (Row_GetBlob row 2);
     let misc = co_dec_misc c (Row_GetBlob row 4);
     Some \<lparr>pl_sn = Row_GetUint64 row 0, pl_name = name, pl_gender = pb_gender base, pl_level = pb_level base,
           pl_last_world = pm_last_world misc, pl_last_dungeon = pm_last_dungeon misc\<rparr> }"

function player_rows :: "proto_codec \<Rightarrow> 'd Mysql \<Rightarrow> (PlayerLittle list \<times> 'd Mysql) option" where
  "player_rows c s =
     (case Fetch s of
        (None, s1) \<Rightarrow> Some ([], s1)
      | (Some row, s1) \<Rightarrow> do {
          p \<leftarrow> player_of_row c row;
          (ps, s2) \<leftarrow> player_rows c s1;
          Some (p # ps, s2) })"
  by pat_completeness auto

termination
  by (relation "measure (\<lambda>(c, s). case ms_pMysqlRes s of None \<Rightarrow> 0 | Some rows \<Rightarrow> length rows)")
    (auto simp: Fetch_def split: option.splits list.splits)

declare player_rows.simps [simp del]

definition list_sql :: "string \<Rightarrow> string" where
  "list_sql account = strutil_format (''select sn, name, base, item, misc from player where account = '' @ [CHR 0x27] @ c_str account @ [CHR 0x27])"

definition QueryPlayerList :: "'d mysql_lib \<Rightarrow> proto_codec \<Rightarrow> string \<Rightarrow> NetIdentify \<Rightarrow> 'd Mysql \<Rightarrow> ('d Mysql \<times> send list) option" where
  "QueryPlayerList lib c account identify s = do {
     (ok, affected_rows, s1) \<leftarrow> Mysql_Query lib (list_sql account) s;
     (if \<not> ok then Some (s1, [])
      else do {
        (players, s2) \<leftarrow> (if affected_rows > 0 then player_rows c s1 else Some ([], s1));
        Some (s2, [ToIdentify L2DB_QueryPlayerListRs (P_PlayerList (c_str account) players) identify]) }) }"

definition HandleQueryPlayerList :: "'d mysql_lib \<Rightarrow> proto_codec \<Rightarrow> NetIdentify \<Rightarrow> string \<Rightarrow> 'd Mysql \<Rightarrow> ('d Mysql \<times> send list) option" where
  "HandleQueryPlayerList lib c pPacket account s = QueryPlayerList lib c account pPacket s"

definition player_sql :: "u64 \<Rightarrow> string" where
  "player_sql sn = strutil_format (''select sn, name, account, base, item, misc from player where sn = '' @ show_nat (unat sn))"

definition HandleQueryPlayer :: "'d mysql_lib \<Rightarrow> proto_codec \<Rightarrow> NetIdentify \<Rightarrow> u64 \<Rightarrow> 'd Mysql \<Rightarrow> ('d Mysql \<times> send list) option" where
  "HandleQueryPlayer lib c pPacket player_sn s = do {
     (ok, affected_rows, s1) \<leftarrow> Mysql_Query lib (player_sql player_sn) s;
     (if \<not> ok then Some (s1, [])
      else do {
        let (row, s2) = (if affected_rows > 0 then Fetch s1 else (None, s1));
        rs \<leftarrow> (case row of
            None \<Rightarrow> Some (P_QueryPlayerRs '''' Player_default)
          | Some row \<Rightarrow> do {
              name \<leftarrow> Row_GetString row 1;
              account \<leftarrow> Row_GetString row 2;
              Some (P_QueryPlayerRs account
                \<lparr>pp_sn = Row_GetUint64 row 0, pp_name = name, pp_base = co_dec_base c (Row_GetBlob row 3),
                 pp_misc = co_dec_misc c (Row_GetBlob row 5)\<rparr>) });
        Some (s2, [ToIdentify G2DB_QueryPlayerRs rs pPacket]) }) }"

definition OnSavePlayer :: "'d mysql_lib \<Rightarrow> proto_codec \<Rightarrow> DatabaseStmt \<Rightarrow> Player_proto \<Rightarrow> 'd Mysql \<Rightarrow> (bool \<times> 'd Mysql) option" where
  "OnSavePlayer lib c stmtSave player s = do {
     stmt1 \<leftarrow> AddParamBlob (co_enc_base c (pp_base player)) (ClearStmtParam stmtSave);
     stmt2 \<leftarrow> AddParamBlob (co_enc_misc c (pp_misc player)) stmt1;
     stmt3 \<leftarrow> AddParamUint64 (pp_sn player) stmt2;
     (ok, d) \<leftarrow> ExecuteStmt lib stmt3 (ms_lib s);
     Some (ok, (set_stmt Save stmt3 s)\<lparr>ms_lib := d\<rparr>) }"

definition HandleSavePlayer :: "'d mysql_lib \<Rightarrow> proto_codec \<Rightarrow> Player_proto \<Rightarrow> 'd Mysql \<Rightarrow> 'd Mysql option" where
  "HandleSavePlayer lib c player s =
     (case GetStmt Save s of None \<Rightarrow> Some s | Some stmt \<Rightarrow> map_option snd (OnSavePlayer lib c stmt player s))"

text \<open>The parameters of the new player, added to the cleared statement.\<close>

definition create_params :: "string \<Rightarrow> Player_proto \<Rightarrow> DatabaseStmt \<Rightarrow> DatabaseStmt option" where
  "create_params account player stmt = do {
     stmt1 \<leftarrow> AddParamUint64 (pp_sn player) (ClearStmtParam stmt);
     stmt2 \<leftarrow> AddParamStr account stmt1;
     AddParamStr (pp_name player) stmt2 }"

text \<open>The second test of a null pointer looks at the first statement again; \<open>stmtSave\<close> is followed as it is.\<close>

definition Db_HandleCreatePlayer :: "'d mysql_lib \<Rightarrow> proto_codec \<Rightarrow> NetIdentify \<Rightarrow> string \<Rightarrow> Player_proto \<Rightarrow> 'd Mysql
    \<Rightarrow> ('d Mysql \<times> send list) option" where
  "Db_HandleCreatePlayer lib c pPacket account player s =
     (case GetStmt Create s of
        None \<Rightarrow> Some (s, [])
      | Some stmt \<Rightarrow> do {
          let stmtSave = GetStmt Save s;
          stmt1 \<leftarrow> create_params account player stmt;
          (ok, d) \<leftarrow> ExecuteStmt lib stmt1 (ms_lib s);
          let s1 = (set_stmt Create stmt1 s)\<lparr>ms_lib := d\<rparr>;
          (if \<not> ok then Some (s1, [ToIdentify L2DB_CreatePlayerRs (P_CreatePlayerToDBRs (c_str account) CPR_Unkonwn) pPacket])
           else do {
             save \<leftarrow> stmtSave;
             (_, s2) \<leftarrow> OnSavePlayer lib c save player s1;
             QueryPlayerList lib c account pPacket s2 }) })"


section \<open>\<open>class MysqlTableUpdate\<close>\<close>

abbreviation (input) ER_BAD_DB_ERROR :: int where "ER_BAD_DB_ERROR \<equiv> 1049"

text \<open>A sequence of statements; the first that fails ends it.\<close>

fun Query_all :: "'d mysql_lib \<Rightarrow> string list \<Rightarrow> 'd Mysql \<Rightarrow> (bool \<times> 'd Mysql) option" where
  "Query_all lib [] s = Some (True, s)"
| "Query_all lib (sql # sqls) s = do {
     (ok, _, s1) \<leftarrow> Mysql_Query lib sql s;
     (if ok then Query_all lib sqls s1 else Some (False, s1)) }"

definition create_version :: "string \<Rightarrow> string" where
  "create_version charset = strutil_format (''CREATE TABLE IF NOT EXISTS `version` (`version` int(11) NOT NULL,'' @
     ''PRIMARY KEY (`version`)) ENGINE=InnoDB DEFAULT CHARSET='' @ c_str charset @ '';'')"

definition create_player :: "string \<Rightarrow> string" where
  "create_player charset = strutil_format (''CREATE TABLE IF NOT EXISTS `player` (`sn` bigint(20) NOT NULL,'' @
     ''`name` char(32) NOT NULL,`account` char(64) NOT NULL,`base` blob,`item` blob,`misc` blob,'' @
     ''`savetime` datetime default NULL,`createtime` datetime default NULL,PRIMARY KEY  (`sn`),'' @
     ''UNIQUE KEY `NAME` (`name`),KEY `ACCOUNT` (`account`)) ENGINE=InnoDB DEFAULT CHARSET='' @ c_str charset @ '';'')"

definition insert_version :: string where
  "insert_version = ''insert into `version` VALUES ('' @ [CHR 0x27] @ ''0'' @ [CHR 0x27] @ '')''"

definition CreateDatabaseIfNotExist :: "'d mysql_lib \<Rightarrow> DBConfig \<Rightarrow> 'd Mysql \<Rightarrow> (bool \<times> 'd Mysql) option" where
  "CreateDatabaseIfNotExist lib cfg s = do {
     (ok, s1) \<leftarrow> Query_all lib [strutil_format (''CREATE DATABASE IF NOT EXISTS '' @ c_str (db_DatabaseName cfg) @ '';'')] s;
     (if \<not> ok then Some (False, s1)
      else do {
        let (selected, d) = ml_select_db lib (c_str (db_DatabaseName cfg)) (ms_lib s1);
        (if \<not> selected then Some (False, s1\<lparr>ms_lib := d\<rparr>)
         else do {
           let (charset, d2) = ml_charset lib (c_str (db_CharacterSet cfg)) d;
           (if \<not> charset then Some (False, s1\<lparr>ms_lib := d2\<rparr>)
            else Query_all lib
              [strutil_format (''ALTER DATABASE CHARACTER SET '' @ c_str (db_CharacterSet cfg) @ '' COLLATE '' @ c_str (db_Collation cfg)),
               create_version (db_CharacterSet cfg), create_player (db_CharacterSet cfg), insert_version]
              (s1\<lparr>ms_lib := d2\<rparr>)) }) }) }"

text \<open>\<open>_update_func\<close>: \<open>None\<close> is an empty function. An index beyond the vector is not checked.\<close>

type_synonym 'd db_update = "'d Mysql \<Rightarrow> (bool \<times> 'd Mysql) option"

definition Update00 :: "'d db_update" where
  "Update00 s = Some (True, s)"

function update_from :: "'d mysql_lib \<Rightarrow> 'd db_update option list \<Rightarrow> int \<Rightarrow> int \<Rightarrow> 'd Mysql \<Rightarrow> (bool \<times> 'd Mysql) option" where
  "update_from lib update_func target i s =
     (if i > target then Some (True, s)
      else if i < 0 \<or> nat i \<ge> length update_func then None
      else case update_func ! nat i of
        None \<Rightarrow> update_from lib update_func target (i + 1) s
      | Some f \<Rightarrow> do {
          (done, s1) \<leftarrow> f s;
          (if \<not> done then Some (False, s1)
           else do {
             (ok, _, s2) \<leftarrow> Mysql_Query lib (strutil_format (''update `version` set version = '' @ show_int i)) s1;
             (if \<not> ok then Some (False, s2) else update_from lib update_func target (i + 1) s2) }) })"
  by pat_completeness auto

termination
  by (relation "measure (\<lambda>(lib, update_func, target, i, s). nat (target - i + 1))") auto

declare update_from.simps [simp del]

definition UpdateToVersion :: "'d mysql_lib \<Rightarrow> 'd db_update option list \<Rightarrow> int \<Rightarrow> 'd Mysql \<Rightarrow> (bool \<times> 'd Mysql) option" where
  "UpdateToVersion lib update_func target s = do {
     (ok, _, s1) \<leftarrow> Mysql_Query lib ''select version from `version`'' s;
     (if \<not> ok then Some (False, s1)
      else case Fetch s1 of
        (None, s2) \<Rightarrow> Some (False, s2)
      | (Some row, s2) \<Rightarrow>
          (let version = Row_GetInt row 0
           in if version = target then Some (True, s2) else update_from lib update_func target (version + 1) s2)) }"

text \<open>\<open>Check\<close>: here \<open>Disconnect\<close> is the one of \<open>MysqlBase\<close>; \<open>_version\<close> is 0.\<close>

definition TableUpdate_Check :: "'d mysql_lib \<Rightarrow> DBConfig option \<Rightarrow> 'd Mysql \<Rightarrow> 'd Mysql option" where
  "TableUpdate_Check lib pDbCfg s = do {
     (ok, s1) \<leftarrow> ConnectInit lib (\<lambda>s. Some (MysqlBase_Disconnect s)) s;
     (if \<not> ok then Some s1
      else case pDbCfg of
        None \<Rightarrow> Some s1
      | Some cfg \<Rightarrow> do {
          let (connected, d) = ml_connect lib None (ms_lib s1);
          let s2 = s1\<lparr>ms_lib := (if connected then snd (ml_select_db lib (c_str (db_DatabaseName cfg)) d) else d)\<rparr>;
          let mysqlerrno = CheckMysqlError lib s2;
          (created, s3) \<leftarrow> (if mysqlerrno = ER_BAD_DB_ERROR then do {
                 (created, s3) \<leftarrow> CreateDatabaseIfNotExist lib cfg s2;
                 Some (created, if created then s3\<lparr>ms_lib := snd (ml_select_db lib (c_str (db_DatabaseName cfg)) (ms_lib s3))\<rparr> else s3) }
               else Some (True, s2));
          (if \<not> created \<or> (if mysqlerrno = ER_BAD_DB_ERROR then CheckMysqlError lib s3 else mysqlerrno) > 0
           then Some (MysqlBase_Disconnect s3)
           else do {
             (updated, s4) \<leftarrow> UpdateToVersion lib [Some Update00] 0 s3;
             (if \<not> updated then Some s4
              else do {
                s5 \<leftarrow> mysql_ping lib s4;
                Some (if CheckMysqlError lib s5 > 0 then MysqlBase_Disconnect s5 else s5) }) }) }) }"


section \<open>The parameters of a statement\<close>

text \<open>The library would read \<open>vs\<close>, whatever is written behind the used part of the buffer.\<close>

definition stmt_holds :: "DatabaseStmt \<Rightarrow> sql_param list \<Rightarrow> bool" where
  "stmt_holds stmt vs \<longleftrightarrow> ds_bind_buffer_index stmt \<le> length (ds_bind_buffer stmt) \<and>
     (\<forall>C. length C = length (ds_bind_buffer stmt) - ds_bind_buffer_index stmt \<longrightarrow>
        bind_values (take (ds_bind_buffer_index stmt) (ds_bind_buffer stmt) @ C) (ds_bind stmt) = Some vs)"

text \<open>One more parameter, of \<open>n\<close> bytes of the buffer.\<close>

definition added :: "nat \<Rightarrow> DatabaseStmt \<Rightarrow> DatabaseStmt \<Rightarrow> bool" where
  "added n stmt stmt' \<longleftrightarrow> ds_sql stmt' = ds_sql stmt \<and> ds_count stmt' = ds_count stmt
     \<and> length (ds_bind_buffer stmt') = length (ds_bind_buffer stmt)
     \<and> ds_bind_index stmt' = Suc (ds_bind_index stmt) \<and> ds_bind_buffer_index stmt' = ds_bind_buffer_index stmt + n"

lemma bind_values_append [simp]:
  "bind_values mem (bs @ cs) = do { vs \<leftarrow> bind_values mem bs; ws \<leftarrow> bind_values mem cs; Some (vs @ ws) }"
  by (induction bs) (auto simp: Option.bind_eq_Some_conv split: Option.bind_splits)

lemma stmt_holds_values: "stmt_holds stmt vs \<Longrightarrow> bind_values (ds_bind_buffer stmt) (ds_bind stmt) = Some vs"
  unfolding stmt_holds_def by (metis append_take_drop_id length_drop)

lemma stmt_holds_clear: "stmt_holds (ClearStmtParam stmt) []"
  by (simp add: stmt_holds_def ClearStmtParam_def)

lemma put_bind_stmt_holds:
  assumes "stmt_holds stmt vs" "ds_bind_index stmt < ds_count stmt" "length X = n"
    and fits: "ds_bind_buffer_index stmt + n \<le> length (ds_bind_buffer stmt)"
    and written: "fold (\<lambda>(off, bs) m. Option.bind m (\<lambda>mem. mem_write mem off bs)) ws (Some (ds_bind_buffer stmt)) =
        Some (take (ds_bind_buffer_index stmt) (ds_bind_buffer stmt) @ X
          @ drop (ds_bind_buffer_index stmt + n) (ds_bind_buffer stmt))"
    and read: "\<And>A C. length A = ds_bind_buffer_index stmt \<Longrightarrow> bind_value (A @ X @ C) b = Some v"
  shows "\<exists>stmt'. put_bind b ws n stmt = Some stmt' \<and> added n stmt stmt' \<and> stmt_holds stmt' (vs @ [v])"
  using assms by (auto simp: put_bind_def added_def stmt_holds_def)

lemma AddParamUint64_ok:
  assumes "stmt_holds stmt vs" "ds_bind_index stmt < ds_count stmt"
    and "ds_bind_buffer_index stmt + 8 \<le> length (ds_bind_buffer stmt)"
  shows "\<exists>stmt'. AddParamUint64 v stmt = Some stmt' \<and> added 8 stmt stmt' \<and> stmt_holds stmt' (vs @ [Param_Uint64 v])"
  unfolding AddParamUint64_def Let_def
  by (rule put_bind_stmt_holds [where X = "le_enc 8 (unat v)"])
    (use assms in \<open>auto simp: mem_write_def bind_value_def mem_read_def le_dec_enc_u64\<close>)

lemma AddParamBlob_ok:
  assumes "stmt_holds stmt vs" "ds_bind_index stmt < ds_count stmt"
    and fits: "ds_bind_buffer_index stmt + 16 \<le> length (ds_bind_buffer stmt)" and small: "length v < 2 ^ 64"
  shows "\<exists>stmt'. AddParamBlob v stmt = Some stmt' \<and> added 16 stmt stmt' \<and> stmt_holds stmt' (vs @ [Param_Blob v])"
proof -
  let ?i = "ds_bind_buffer_index stmt" and ?mem = "ds_bind_buffer stmt"
  have split: "take (?i + 8) ?mem = take ?i ?mem @ take 8 (drop ?i ?mem)" by (simp add: take_add)
  show ?thesis unfolding AddParamBlob_def Let_def
    by (rule put_bind_stmt_holds [where X = "take 8 (drop ?i ?mem) @ le_enc 8 (length v)"])
      (use assms split in \<open>auto simp: mem_write_def bind_value_def bind_length_def mem_read_def add.commute\<close>)
qed

text \<open>\<open>AddParamStr\<close> stores at most 29999 characters, the end of the string and a length.\<close>

definition bind_str :: "string \<Rightarrow> byte list" where
  "bind_str v = take (MAX_BIND_STR - 1) (bytes_of (c_str v))"

lemma AddParamStr_ok:
  assumes "stmt_holds stmt vs" "ds_bind_index stmt < ds_count stmt"
    and fits: "ds_bind_buffer_index stmt + length (bind_str v) + 9 \<le> length (ds_bind_buffer stmt)"
  shows "\<exists>stmt'. AddParamStr v stmt = Some stmt' \<and> added (length (bind_str v) + 9) stmt stmt'
     \<and> stmt_holds stmt' (vs @ [Param_String (bind_str v)])"
proof -
  define s where "s = bytes_of (c_str v)"
  define len where "len = (if length s \<ge> MAX_BIND_STR then MAX_BIND_STR - 1 else length s)"
  have bs: "bind_str v = take len s" "len \<le> length s" "length (bind_str v) = len"
    by (auto simp: bind_str_def len_def s_def)
  have len: "len < 2 ^ 64" by (simp add: len_def)
  define t where "t = take (len + 1) (s @ [0])"
  have t: "length t = len + 1" "take len t = take len s" "length (take len s) = len"
    using bs(2) by (auto simp: t_def min_def)
  have "\<exists>stmt'. AddParamStr v stmt = Some stmt' \<and> added (len + 1 + 8) stmt stmt' \<and> stmt_holds stmt' (vs @ [Param_String (take len s)])"
    unfolding AddParamStr_def Let_def s_def [symmetric] len_def [symmetric] t_def [symmetric]
    by (rule put_bind_stmt_holds [where X = "t @ le_enc 8 len"])
      (use assms(1,2) fits bs(3) t len in \<open>auto simp: mem_write_def bind_value_def bind_length_def mem_read_def ac_simps\<close>)
  then show ?thesis unfolding bs(3) unfolding bs(1) by (simp add: add.commute)
qed


lemma AddParamStr_overflow:
  assumes "length (ds_bind_buffer stmt) < ds_bind_buffer_index stmt + length (bind_str v) + 9"
  shows "AddParamStr v stmt = None"
proof -
  define s where "s = bytes_of (c_str v)"
  define len where "len = (if length s \<ge> MAX_BIND_STR then MAX_BIND_STR - 1 else length s)"
  have bs: "length (bind_str v) = len" "len \<le> length s" by (auto simp: bind_str_def len_def s_def)
  show ?thesis
    unfolding AddParamStr_def Let_def s_def [symmetric] len_def [symmetric]
    using assms bs by (auto simp: put_bind_def mem_write_def min_def)
qed

definition stmt_ready :: "nat \<Rightarrow> DatabaseStmt \<Rightarrow> bool" where
  "stmt_ready n stmt \<longleftrightarrow> ds_count stmt = n \<and> length (ds_bind_buffer stmt) = MAX_BIND_BUFFER"

lemma ClearStmtParam_simps [simp]:
  "ds_sql (ClearStmtParam stmt) = ds_sql stmt" "ds_count (ClearStmtParam stmt) = ds_count stmt"
  "ds_bind_buffer (ClearStmtParam stmt) = ds_bind_buffer stmt" "ds_bind_index (ClearStmtParam stmt) = 0"
  "ds_bind_buffer_index (ClearStmtParam stmt) = 0"
  by (simp_all add: ClearStmtParam_def)

lemma create_params_ok:
  assumes ready: "stmt_ready 3 stmt" and fits: "length (bind_str a) + length (bind_str (pp_name p)) + 26 \<le> MAX_BIND_BUFFER"
  shows "\<exists>stmt'. create_params a p stmt = Some stmt' \<and> stmt_ready 3 stmt' \<and> ds_sql stmt' = ds_sql stmt
    \<and> bind_values (ds_bind_buffer stmt') (ds_bind stmt') =
        Some [Param_Uint64 (pp_sn p), Param_String (bind_str a), Param_String (bind_str (pp_name p))]"
proof -
  have c: "ds_count stmt = 3" "length (ds_bind_buffer stmt) = 40960" using ready by (auto simp: stmt_ready_def)
  obtain s1 where s1: "AddParamUint64 (pp_sn p) (ClearStmtParam stmt) = Some s1" "added 8 (ClearStmtParam stmt) s1"
      "stmt_holds s1 ([] @ [Param_Uint64 (pp_sn p)])"
    using AddParamUint64_ok [OF stmt_holds_clear, of stmt] c by auto
  obtain s2 where s2: "AddParamStr a s1 = Some s2" "added (length (bind_str a) + 9) s1 s2"
      "stmt_holds s2 (([] @ [Param_Uint64 (pp_sn p)]) @ [Param_String (bind_str a)])"
    using AddParamStr_ok [OF s1(3), of a] s1(2) c fits by (auto simp: added_def)
  obtain s3 where s3: "AddParamStr (pp_name p) s2 = Some s3" "added (length (bind_str (pp_name p)) + 9) s2 s3"
      "stmt_holds s3 ((([] @ [Param_Uint64 (pp_sn p)]) @ [Param_String (bind_str a)]) @ [Param_String (bind_str (pp_name p))])"
    using AddParamStr_ok [OF s2(3), of "pp_name p"] s1(2) s2(2) c fits by (auto simp: added_def)
  show ?thesis using s1 s2 s3 stmt_holds_values [OF s3(3)] c
    by (auto simp: create_params_def added_def stmt_ready_def)
qed

lemma create_params_overflow:
  assumes ready: "stmt_ready 3 stmt" and over: "MAX_BIND_BUFFER < length (bind_str a) + length (bind_str (pp_name p)) + 26"
  shows "create_params a p stmt = None"
proof -
  have c: "ds_count stmt = 3" "length (ds_bind_buffer stmt) = 40960" using ready by (auto simp: stmt_ready_def)
  obtain s1 where s1: "AddParamUint64 (pp_sn p) (ClearStmtParam stmt) = Some s1" "added 8 (ClearStmtParam stmt) s1"
      "stmt_holds s1 ([] @ [Param_Uint64 (pp_sn p)])"
    using AddParamUint64_ok [OF stmt_holds_clear, of stmt] c by auto
  have "length (bind_str a) + 17 \<le> 40960" by (simp add: bind_str_def)
  then obtain s2 where s2: "AddParamStr a s1 = Some s2" "added (length (bind_str a) + 9) s1 s2"
    using AddParamStr_ok [OF s1(3), of a] s1(2) c by (auto simp: added_def)
  have "AddParamStr (pp_name p) s2 = None"
    using s1(2) s2(2) c over by (intro AddParamStr_overflow) (auto simp: added_def)
  then show ?thesis using s1(1) s2(1) by (simp add: create_params_def)
qed

text \<open>The statement that saves: two blobs and the key.\<close>

lemma OnSavePlayer_ok:
  assumes ready: "stmt_ready 3 stmt" and sql: "ds_sql stmt = save_sql"
    and small: "length (co_enc_base c (pp_base p)) < 2 ^ 64" "length (co_enc_misc c (pp_misc p)) < 2 ^ 64"
  shows "\<exists>stmt'. stmt_ready 3 stmt' \<and> ds_sql stmt' = save_sql \<and> OnSavePlayer lib c stmt p s =
    (let (ok, d) = ml_execute lib save_sql [Param_Blob (co_enc_base c (pp_base p)), Param_Blob (co_enc_misc c (pp_misc p)),
           Param_Uint64 (pp_sn p)] (ms_lib s)
     in Some (ok, (set_stmt Save stmt' s)\<lparr>ms_lib := d\<rparr>))"
proof -
  let ?b = "co_enc_base c (pp_base p)" and ?m = "co_enc_misc c (pp_misc p)"
  have n: "ds_count stmt = 3" "length (ds_bind_buffer stmt) = 40960" using ready by (auto simp: stmt_ready_def)
  obtain s1 where s1: "AddParamBlob ?b (ClearStmtParam stmt) = Some s1" "added 16 (ClearStmtParam stmt) s1" "stmt_holds s1 ([] @ [Param_Blob ?b])"
    using AddParamBlob_ok [OF stmt_holds_clear _ _ small(1), of stmt] n by auto
  obtain s2 where s2: "AddParamBlob ?m s1 = Some s2" "added 16 s1 s2" "stmt_holds s2 (([] @ [Param_Blob ?b]) @ [Param_Blob ?m])"
    using AddParamBlob_ok [OF s1(3) _ _ small(2)] s1(2) n by (auto simp: added_def)
  obtain s3 where s3: "AddParamUint64 (pp_sn p) s2 = Some s3" "added 8 s2 s3"
      "stmt_holds s3 ((([] @ [Param_Blob ?b]) @ [Param_Blob ?m]) @ [Param_Uint64 (pp_sn p)])"
    using AddParamUint64_ok [OF s2(3), of "pp_sn p"] s1(2) s2(2) n by (auto simp: added_def)
  show ?thesis using s1 s2 s3 stmt_holds_values [OF s3(3)] n sql
    by (intro exI [of _ s3]) (auto simp: OnSavePlayer_def ExecuteStmt_def added_def stmt_ready_def split: prod.splits)
qed


section \<open>Text and numbers in a row\<close>

lemma unat_of_char [simp]: "unat (of_char c :: byte) = of_char c"
proof -
  have "unat (of_nat (of_char c) :: byte) = of_char c mod 2 ^ 8" by (simp add: unat_of_nat take_bit_eq_mod del: of_nat_of_char)
  moreover have "of_char c < (256 :: nat)" by simp
  ultimately show ?thesis by (simp only: of_nat_of_char) simp
qed

lemma of_char_zero: "(of_char c :: byte) = 0 \<longleftrightarrow> c = CHR 0x00"
proof -
  have "(of_char c :: byte) = 0 \<longleftrightarrow> unat (of_char c :: byte) = 0" by (rule unat_eq_zero [symmetric])
  also have "\<dots> \<longleftrightarrow> of_char c = (of_char (CHR 0x00) :: nat)" unfolding unat_of_char by simp
  also have "\<dots> \<longleftrightarrow> c = CHR 0x00" by (rule of_char_eq_iff)
  finally show ?thesis .
qed

lemma until_nul_bytes_of [simp]: "until_nul (bytes_of s) = bytes_of (c_str s)"
  by (induction s) (auto simp: until_nul_def bytes_of_def c_str_def of_char_zero)

lemma text_of_bytes_of [simp]: "text_of (bytes_of s) = c_str s"
  by (simp add: text_of_def) (simp add: bytes_of_def map_idI)

lemma atoi_digits_append: "list_all is_digit xs \<Longrightarrow> atoi_digits acc (xs @ ys) = atoi_digits (atoi_digits acc xs) ys"
  by (induction xs arbitrary: acc) auto

lemma digit_byte:
  assumes "m < (10 :: nat)"
  shows "is_digit (of_char (char_of (48 + m)))" "uint (of_char (char_of (48 + m)) :: byte) = 48 + int m"
proof -
  have u: "unat (of_char (char_of (48 + m)) :: byte) = 48 + m" using assms by simp
  show "is_digit (of_char (char_of (48 + m)))" using u assms by (simp add: is_digit_def word_le_nat_alt)
  show "uint (of_char (char_of (48 + m)) :: byte) = 48 + int m" using u by (metis of_nat_add of_nat_numeral uint_nat)
qed

lemma atoi_show_nat [simp]: "atoi (bytes_of (show_nat n)) = int n"
proof -
  have all: "list_all is_digit (bytes_of (show_nat n)) \<and> atoi_digits 0 (bytes_of (show_nat n)) = int n" for n
  proof (induction n rule: show_nat.induct)
    case (1 n)
    show ?case
    proof (cases "n < 10")
      case True
      then show ?thesis using digit_byte [of n] by (simp add: show_nat.simps [of n] bytes_of_def)
    next
      case False
      then show ?thesis using 1 digit_byte [of "n mod 10"]
        by (simp add: show_nat.simps [of n] bytes_of_def atoi_digits_append zdiv_int zmod_int)
    qed
  qed
  obtain c cs where cs: "bytes_of (show_nat n) = c # cs"
    by (cases "show_nat n") (auto simp: bytes_of_def)
  then have "is_digit c" using all [of n] by simp
  then have "c \<noteq> 32 \<and> \<not> (9 \<le> c \<and> c \<le> 13) \<and> c \<noteq> 45 \<and> c \<noteq> 43"
    by (auto simp: is_digit_def word_le_nat_alt)
  then show ?thesis using all [of n] cs by auto
qed


section \<open>A server that answers\<close>

text \<open>A row of the table \<open>player\<close>, as the two statements and the first query see it.\<close>

record player_row =
  pr_name :: "byte list"
  pr_account :: "byte list"
  pr_base :: "byte list option"
  pr_item :: "byte list option"
  pr_misc :: "byte list option"

definition query_row :: "u64 \<Rightarrow> player_row \<Rightarrow> row" where
  "query_row sn r = [Some (bytes_of (show_nat (unat sn))), Some (pr_name r), Some (pr_account r), pr_base r, pr_item r, pr_misc r]"

definition list_row :: "u64 \<Rightarrow> player_row \<Rightarrow> row" where
  "list_row sn r = [Some (bytes_of (show_nat (unat sn))), Some (pr_name r), pr_base r, pr_item r, pr_misc r]"

definition sql_text :: "string \<Rightarrow> bool" where
  "sql_text s \<longleftrightarrow> list_all (\<lambda>c. c \<noteq> CHR '' '' \<and> c \<noteq> CHR ''%'' \<and> c \<noteq> CHR 0x00 \<and> c \<noteq> CHR 0x27 \<and> c \<noteq> CHR 0x5c) s"

text \<open>The documented answers of MySQL while it runs: an insert succeeds or changes nothing (a key that is
  taken, a serial number beyond a signed \<open>bigint\<close>), an update of blobs of at most 65535 bytes
  succeeds and changes the row of the key, the two queries give the rows that match. The text columns
  hold what was inserted when it is within their width. \<open>look\<close> is the table.\<close>

definition mysql_ok :: "'d mysql_lib \<Rightarrow> ('d \<Rightarrow> u64 \<Rightarrow> player_row option) \<Rightarrow> bool" where
  "mysql_ok lib look \<longleftrightarrow> (\<forall>d.
     (\<forall>sn a n. sql_text a \<and> sql_text n \<and> length a \<le> 64 \<and> length n \<le> 32 \<longrightarrow>
        (\<exists>ok d'. ml_execute lib create_sql [Param_Uint64 sn, Param_String (bytes_of a), Param_String (bytes_of n)] d = (ok, d')
           \<and> (if ok then look d sn = None \<and> unat sn < 2 ^ 63 \<and> look d' = (look d)(sn \<mapsto> \<lparr>pr_name = bytes_of n,
                 pr_account = bytes_of a, pr_base = None, pr_item = None, pr_misc = None\<rparr>)
              else look d' = look d))) \<and>
     (\<forall>sn b m. length b < 65536 \<and> length m < 65536 \<longrightarrow>
        (\<exists>d'. ml_execute lib save_sql [Param_Blob b, Param_Blob m, Param_Uint64 sn] d = (True, d')
           \<and> look d' = (look d)(sn := map_option (\<lambda>r. r\<lparr>pr_base := Some b, pr_misc := Some m\<rparr>) (look d sn)))) \<and>
     (\<forall>sn. \<exists>d'. ml_query lib (player_sql sn) d =
          (True, Some (case look d sn of None \<Rightarrow> [] | Some r \<Rightarrow> [query_row sn r]), (if look d sn = None then 0 else 1), d')
        \<and> look d' = look d) \<and>
     (\<forall>a. sql_text a \<longrightarrow> (\<exists>sns d'. ml_query lib (list_sql a) d = (True, Some (map (\<lambda>sn. list_row sn (the (look d sn))) sns), length sns, d')
        \<and> distinct sns \<and> set sns \<subseteq> dom (look d) \<and> {sn. \<exists>r. look d sn = Some r \<and> pr_account r = bytes_of a} \<subseteq> set sns
        \<and> look d' = look d)))"

lemma mysql_ok_laws:
  assumes "mysql_ok lib look"
  shows "sql_text a \<Longrightarrow> sql_text n \<Longrightarrow> length a \<le> 64 \<Longrightarrow> length n \<le> 32 \<Longrightarrow>
      \<exists>ok d'. ml_execute lib create_sql [Param_Uint64 sn, Param_String (bytes_of a), Param_String (bytes_of n)] d = (ok, d')
           \<and> (if ok then look d sn = None \<and> unat sn < 2 ^ 63 \<and> look d' = (look d)(sn \<mapsto> \<lparr>pr_name = bytes_of n,
                 pr_account = bytes_of a, pr_base = None, pr_item = None, pr_misc = None\<rparr>)
              else look d' = look d)"
    and "length b < 65536 \<Longrightarrow> length m < 65536 \<Longrightarrow>
      \<exists>d'. ml_execute lib save_sql [Param_Blob b, Param_Blob m, Param_Uint64 sn] d = (True, d')
           \<and> look d' = (look d)(sn := map_option (\<lambda>r. r\<lparr>pr_base := Some b, pr_misc := Some m\<rparr>) (look d sn))"
    and "\<exists>d'. ml_query lib (player_sql sn) d =
          (True, Some (case look d sn of None \<Rightarrow> [] | Some r \<Rightarrow> [query_row sn r]), (if look d sn = None then 0 else 1), d')
        \<and> look d' = look d"
    and "sql_text a \<Longrightarrow> \<exists>sns d'. ml_query lib (list_sql a) d = (True, Some (map (\<lambda>sn. list_row sn (the (look d sn))) sns), length sns, d')
        \<and> distinct sns \<and> set sns \<subseteq> dom (look d) \<and> {sn. \<exists>r. look d sn = Some r \<and> pr_account r = bytes_of a} \<subseteq> set sns
        \<and> look d' = look d"
  using assms unfolding mysql_ok_def by simp_all

text \<open>A connection with both statements prepared.\<close>

definition connected :: "'d Mysql \<Rightarrow> bool" where
  "connected s \<longleftrightarrow> ms_pMysql s
     \<and> (\<exists>stmt. sm_find (ms_mapStmt s) Create = Some (Some stmt) \<and> stmt_ready 3 stmt \<and> ds_sql stmt = create_sql)
     \<and> (\<exists>stmt. sm_find (ms_mapStmt s) Save = Some (Some stmt) \<and> stmt_ready 3 stmt \<and> ds_sql stmt = save_sql)"

lemma connected_set_stmt:
  "connected s \<Longrightarrow> stmt_ready 3 stmt \<Longrightarrow> ds_sql stmt = (case k of Create \<Rightarrow> create_sql | Save \<Rightarrow> save_sql) \<Longrightarrow>
   connected ((set_stmt k stmt s)\<lparr>ms_lib := d\<rparr>)"
  by (cases k) (auto simp: connected_def set_stmt_def)

lemma connected_lib [simp]: "connected (s\<lparr>ms_lib := d, ms_pMysqlRes := r\<rparr>) = connected s" "connected (s\<lparr>ms_pMysqlRes := r\<rparr>) = connected s"
  by (simp_all add: connected_def)

lemma sql_text_c_str [simp]: "sql_text s \<Longrightarrow> c_str s = s"
  by (rule c_str_id) (auto simp: sql_text_def list_all_iff)

text \<open>The reply of the list: a player for each row.\<close>

definition blob :: "byte list option \<Rightarrow> byte list" where
  "blob v = (case v of None \<Rightarrow> [] | Some b \<Rightarrow> until_nul b)"

definition little_of :: "proto_codec \<Rightarrow> u64 \<Rightarrow> player_row \<Rightarrow> PlayerLittle" where
  "little_of c sn r = \<lparr>pl_sn = Row_GetUint64 (list_row sn r) 0, pl_name = text_of (pr_name r),
     pl_gender = pb_gender (co_dec_base c (blob (pr_base r))), pl_level = pb_level (co_dec_base c (blob (pr_base r))),
     pl_last_world = pm_last_world (co_dec_misc c (blob (pr_misc r))),
     pl_last_dungeon = pm_last_dungeon (co_dec_misc c (blob (pr_misc r)))\<rparr>"

lemma player_of_row [simp]: "player_of_row c (list_row sn r) = Some (little_of c sn r)"
  by (simp add: player_of_row_def little_of_def list_row_def Row_GetString_def Row_GetBlob_def blob_def Let_def split: option.split)

lemma player_rows_map:
  "player_rows c (s\<lparr>ms_pMysqlRes := Some (map (\<lambda>sn. list_row sn (f sn)) sns)\<rparr>)
    = Some (map (\<lambda>sn. little_of c sn (f sn)) sns, s\<lparr>ms_pMysqlRes := Some []\<rparr>)"
  by (induction sns) (subst player_rows.simps, simp add: Fetch_def)+

lemma QueryPlayerList_ok:
  assumes ok: "mysql_ok lib look" and s: "connected s" and a: "sql_text a"
  shows "\<exists>s' sns. QueryPlayerList lib c a identify s =
      Some (s', [ToIdentify L2DB_QueryPlayerListRs (P_PlayerList a (map (\<lambda>sn. little_of c sn (the (look (ms_lib s) sn))) sns)) identify])
    \<and> distinct sns \<and> {sn. \<exists>r. look (ms_lib s) sn = Some r \<and> pr_account r = bytes_of a} \<subseteq> set sns
    \<and> connected s' \<and> look (ms_lib s') = look (ms_lib s)"
proof -
  obtain sns d where q: "ml_query lib (list_sql a) (ms_lib s) =
        (True, Some (map (\<lambda>sn. list_row sn (the (look (ms_lib s) sn))) sns), length sns, d)" "distinct sns"
      "{sn. \<exists>r. look (ms_lib s) sn = Some r \<and> pr_account r = bytes_of a} \<subseteq> set sns" "look d = look (ms_lib s)"
    using mysql_ok_laws(4) [OF ok a, of "ms_lib s"] by blast
  then show ?thesis using s a player_rows_map [where c = c and s = "s\<lparr>ms_lib := d\<rparr>"]
    by (intro exI [of _ "s\<lparr>ms_lib := d, ms_pMysqlRes := Some []\<rparr>"] exI [of _ sns])
      (auto simp: QueryPlayerList_def Mysql_Query_def connected_def)
qed


lemma sn_digits: "unat sn < 2 ^ 63 \<Longrightarrow> Row_GetUint64 (Some (bytes_of (show_nat (unat sn))) # vs) 0 = sn"
proof -
  assume "unat sn < 2 ^ 63"
  then have "int (unat sn) < int (2 ^ 63)" by (simp only: of_nat_less_iff)
  then have "int (unat sn) \<le> 2 ^ 63 - 1" by simp
  then have "min (2 ^ 63 - 1) (int (unat sn)) = int (unat sn)" by (rule min_absorb2)
  moreover have "max (- (2 ^ 63)) (int (unat sn)) = int (unat sn)"
    by (rule max_absorb2, rule order_trans [where y = 0]) simp_all
  ultimately have "max (- (2 ^ 63)) (min (2 ^ 63 - 1) (int (unat sn))) = int (unat sn)" by (simp only:)
  then show ?thesis by (simp add: Row_GetUint64_def)
qed

lemma HandleQueryPlayer_ok:
  assumes ok: "mysql_ok lib look" and s: "ms_pMysql s" and r: "look (ms_lib s) sn = Some r" and sn: "unat sn < 2 ^ 63"
  shows "\<exists>s'. HandleQueryPlayer lib c identify sn s =
      Some (s', [ToIdentify G2DB_QueryPlayerRs (P_QueryPlayerRs (text_of (pr_account r)) \<lparr>pp_sn = sn, pp_name = text_of (pr_name r),
          pp_base = co_dec_base c (blob (pr_base r)), pp_misc = co_dec_misc c (blob (pr_misc r))\<rparr>) identify])
    \<and> look (ms_lib s') = look (ms_lib s)"
proof -
  obtain d where q: "ml_query lib (player_sql sn) (ms_lib s) = (True, Some [query_row sn r], 1, d)" "look d = look (ms_lib s)"
    using mysql_ok_laws(3) [OF ok, of sn "ms_lib s"] r by auto
  have "Row_GetUint64 (query_row sn r) 0 = sn"
    using sn by (simp add: query_row_def sn_digits)
  moreover have "Row_GetString (query_row sn r) 1 = Some (text_of (pr_name r))"
      "Row_GetString (query_row sn r) 2 = Some (text_of (pr_account r))"
      "Row_GetBlob (query_row sn r) 3 = blob (pr_base r)" "Row_GetBlob (query_row sn r) 5 = blob (pr_misc r)"
    by (auto simp: Row_GetString_def Row_GetBlob_def query_row_def blob_def)
  ultimately show ?thesis using q s
    by (intro exI [of _ "s\<lparr>ms_lib := d, ms_pMysqlRes := Some []\<rparr>"]) (simp add: HandleQueryPlayer_def Mysql_Query_def Fetch_def)
qed

text \<open>Saving changes the two blobs of the row, if there is one.\<close>

lemma OnSavePlayer_table:
  assumes ok: "mysql_ok lib look" and s: "connected s" and stmt: "stmt_ready 3 stmt" "ds_sql stmt = save_sql"
    and small: "length (co_enc_base c (pp_base p)) < 65536" "length (co_enc_misc c (pp_misc p)) < 65536"
  shows "\<exists>s'. OnSavePlayer lib c stmt p s = Some (True, s') \<and> connected s'
    \<and> look (ms_lib s') = (look (ms_lib s))(pp_sn p := map_option (\<lambda>r. r\<lparr>pr_base := Some (co_enc_base c (pp_base p)),
        pr_misc := Some (co_enc_misc c (pp_misc p))\<rparr>) (look (ms_lib s) (pp_sn p)))"
proof -
  have "length (co_enc_base c (pp_base p)) < 2 ^ 64" "length (co_enc_misc c (pp_misc p)) < 2 ^ 64" using small by auto
  note saved = OnSavePlayer_ok [OF stmt this, of lib s]
  obtain stmt' where stmt': "stmt_ready 3 stmt'" "ds_sql stmt' = save_sql" "OnSavePlayer lib c stmt p s =
    (let (ok, d) = ml_execute lib save_sql [Param_Blob (co_enc_base c (pp_base p)), Param_Blob (co_enc_misc c (pp_misc p)),
           Param_Uint64 (pp_sn p)] (ms_lib s)
     in Some (ok, (set_stmt Save stmt' s)\<lparr>ms_lib := d\<rparr>))"
    using saved by blast
  obtain d where "ml_execute lib save_sql [Param_Blob (co_enc_base c (pp_base p)), Param_Blob (co_enc_misc c (pp_misc p)),
           Param_Uint64 (pp_sn p)] (ms_lib s) = (True, d)"
      "look d = (look (ms_lib s))(pp_sn p := map_option (\<lambda>r. r\<lparr>pr_base := Some (co_enc_base c (pp_base p)),
        pr_misc := Some (co_enc_misc c (pp_misc p))\<rparr>) (look (ms_lib s) (pp_sn p)))"
    using mysql_ok_laws(2) [OF ok small, of "pp_sn p" "ms_lib s"] by blast
  then show ?thesis using stmt' connected_set_stmt [OF s, of stmt' Save d] by simp
qed

lemma bind_str_short [simp]: "sql_text s \<Longrightarrow> length s \<le> 64 \<Longrightarrow> bind_str s = bytes_of s"
  by (simp add: bind_str_def bytes_of_def)

section \<open>Properties\<close>

text \<open>C17: the parameters of a new player. Whatever the statement was used for before, the calls of
  \<open>AddParam\<close> stay inside its buffer exactly when the account and the name, each cut to 29999 characters,
  have at most 40934 together; then the library reads back the serial number and the two texts. With
  longer ones the second \<open>AddParamStr\<close> writes behind the buffer.\<close>

theorem create_params_bound:
  assumes "stmt_ready 3 stmt"
  shows "(case create_params account player stmt of
      None \<Rightarrow> MAX_BIND_BUFFER < length (bind_str account) + length (bind_str (pp_name player)) + 26
    | Some stmt' \<Rightarrow> length (bind_str account) + length (bind_str (pp_name player)) + 26 \<le> MAX_BIND_BUFFER
        \<and> stmt_ready 3 stmt'
        \<and> bind_values (ds_bind_buffer stmt') (ds_bind stmt') =
            Some [Param_Uint64 (pp_sn player), Param_String (bind_str account), Param_String (bind_str (pp_name player))])"
proof (cases "length (bind_str account) + length (bind_str (pp_name player)) + 26 \<le> MAX_BIND_BUFFER")
  case True
  then show ?thesis using create_params_ok [OF assms True] by auto
next
  case False
  then show ?thesis using create_params_overflow [OF assms, of account player] by auto
qed

definition example_stmt :: DatabaseStmt where
  "example_stmt = \<lparr>ds_sql = create_sql, ds_count = 3, ds_bind = [], ds_bind_buffer = new_bytes MAX_BIND_BUFFER,
     ds_bind_index = 0, ds_bind_buffer_index = 0\<rparr>"

lemma example_stmt_ready: "stmt_ready 3 example_stmt"
  by (simp add: stmt_ready_def example_stmt_def new_bytes_def)

lemma bind_str_replicate: "bind_str (replicate n (CHR ''a'')) = replicate (min 29999 n) (of_char (CHR ''a''))"
proof -
  have "c_str (replicate n (CHR ''a'')) = replicate n (CHR ''a'')" by (rule c_str_id) auto
  then show ?thesis by (simp add: bind_str_def bytes_of_def take_replicate)
qed

theorem create_params_bound_witness:
  "create_params (replicate 30000 (CHR ''a'')) (Player_default\<lparr>pp_name := replicate 10936 (CHR ''a'')\<rparr>) example_stmt = None"
  using create_params_bound [OF example_stmt_ready, of "replicate 30000 (CHR ''a'')" "Player_default\<lparr>pp_name := replicate 10936 (CHR ''a'')\<rparr>"]
  by (simp add: bind_str_replicate split: option.splits)

text \<open>C25: a ping that fails ends the use of the database. \<open>Disconnect\<close> gives the connection and the
  statements back and leaves \<open>_isRunning\<close> true, so \<open>CheckPing\<close> does not reconnect, and whatever the
  server does later, the next ping and the next query follow the null pointer.\<close>

theorem ping_failure_is_final:
  assumes "ms_isRunning s" "ms_pMysql s" "list_all (\<lambda>(k, stmt). stmt \<noteq> None) (ms_mapStmt s)"
    and "ml_errno lib (ml_ping lib (ms_lib s)) > 0"
  shows "\<exists>s'. Mysql_CheckPing lib dbName s = Some s' \<and> ms_isRunning s' \<and> ms_mapStmt s' = []
    \<and> (\<forall>later d. Mysql_CheckPing later dbName (s'\<lparr>ms_lib := d\<rparr>) = None)
    \<and> (\<forall>later d sql. Mysql_Query later sql (s'\<lparr>ms_lib := d\<rparr>) = None)"
  using assms
  by (auto simp: Mysql_CheckPing_def mysql_ping_def CheckMysqlError_def Mysql_Disconnect_def CleanStmts_def
      MysqlBase_Disconnect_def Mysql_Query_def Let_def)


text \<open>A server whose ping fails once: its data are the error number of the last call.\<close>

definition dead_server :: "int mysql_lib" where
  "dead_server = \<lparr>ml_init = Pair True, ml_connect = (\<lambda>_. Pair True), ml_errno = (\<lambda>d. d), ml_ping = (\<lambda>_. 2006),
     ml_select_db = (\<lambda>_. Pair True), ml_charset = (\<lambda>_. Pair True), ml_query = (\<lambda>_ _. (False, None, 0, 2006)),
     ml_prepare = (\<lambda>_. Pair True), ml_execute = (\<lambda>_ _. Pair False)\<rparr>"

theorem ping_failure_is_final_witness:
  "\<exists>s'. Mysql_CheckPing dead_server ''game'' \<lparr>ms_pMysql = True, ms_pMysqlRes = None, ms_mapStmt = [(Create, Some example_stmt)],
        ms_isRunning = True, ms_lib = 0\<rparr> = Some s'
     \<and> Mysql_CheckPing dead_server ''game'' (s'\<lparr>ms_lib := 0\<rparr>) = None"
  using ping_failure_is_final [of "\<lparr>ms_pMysql = True, ms_pMysqlRes = None, ms_mapStmt = [(Create, Some example_stmt)],
        ms_isRunning = True, ms_lib = 0\<rparr>" dead_server "''game''"]
  by (auto simp: dead_server_def)

text \<open>C11: a new player, and what the database knows of it. On a server that answers, creating a player
  either changes nothing and says so to the sender, or it replies the players of the account, the new one
  among them; a query of its serial number then gives the account and the player, its two blobs
  read back from their encodings up to the first byte 0 of each: what an encoding holds behind such a
  byte (a \<open>float\<close> coordinate has one) is lost.\<close>

theorem created_player_query:
  assumes ok: "mysql_ok lib look" and s: "connected s"
    and plain: "sql_text a" "length a \<le> 64" "sql_text (pp_name p)" "length (pp_name p) \<le> 32"
    and small: "length (co_enc_base c (pp_base p)) < 65536" "length (co_enc_misc c (pp_misc p)) < 65536"
  shows "\<exists>s' reply. Db_HandleCreatePlayer lib c sender a p s = Some (s', [reply]) \<and> connected s' \<and>
    (reply = ToIdentify L2DB_CreatePlayerRs (P_CreatePlayerToDBRs a CPR_Unkonwn) sender \<and> look (ms_lib s') = look (ms_lib s)
     \<or> (\<exists>players. reply = ToIdentify L2DB_QueryPlayerListRs (P_PlayerList a players) sender
          \<and> (\<exists>pl\<in>set players. pl_sn pl = pp_sn p \<and> pl_name pl = pp_name p))
       \<and> (\<exists>s''. HandleQueryPlayer lib c asker (pp_sn p) s' = Some (s'', [ToIdentify G2DB_QueryPlayerRs (P_QueryPlayerRs a
             (p\<lparr>pp_base := co_dec_base c (until_nul (co_enc_base c (pp_base p))),
               pp_misc := co_dec_misc c (until_nul (co_enc_misc c (pp_misc p)))\<rparr>)) asker])))"
proof -
  let ?sn = "pp_sn p" and ?new = "\<lparr>pr_name = bytes_of (pp_name p), pr_account = bytes_of a, pr_base = None, pr_item = None, pr_misc = None\<rparr>"
  obtain stmt save where stmts: "sm_find (ms_mapStmt s) Create = Some (Some stmt)" "stmt_ready 3 stmt" "ds_sql stmt = create_sql"
      "sm_find (ms_mapStmt s) Save = Some (Some save)" "stmt_ready 3 save" "ds_sql save = save_sql"
    using s by (auto simp: connected_def)
  have strs: "bind_str a = bytes_of a" "bind_str (pp_name p) = bytes_of (pp_name p)" using plain by simp_all
  then obtain stmt1 where stmt1: "create_params a p stmt = Some stmt1" "stmt_ready 3 stmt1" "ds_sql stmt1 = create_sql"
      "bind_values (ds_bind_buffer stmt1) (ds_bind stmt1) = Some [Param_Uint64 ?sn, Param_String (bytes_of a), Param_String (bytes_of (pp_name p))]"
    using create_params_ok [OF stmts(2), of a p] plain stmts(3) by (auto simp: bytes_of_def)
  obtain inserted d where d: "ml_execute lib create_sql [Param_Uint64 ?sn, Param_String (bytes_of a), Param_String (bytes_of (pp_name p))] (ms_lib s) = (inserted, d)"
      "if inserted then look (ms_lib s) ?sn = None \<and> unat ?sn < 2 ^ 63 \<and> look d = (look (ms_lib s))(?sn \<mapsto> ?new) else look d = look (ms_lib s)"
    using mysql_ok_laws(1) [OF ok plain(1,3,2,4), of ?sn "ms_lib s"] by blast
  let ?s1 = "(set_stmt Create stmt1 s)\<lparr>ms_lib := d\<rparr>"
  have s1: "connected ?s1" using connected_set_stmt [OF s stmt1(2)] stmt1(3) by simp
  have exec: "ExecuteStmt lib stmt1 (ms_lib s) = Some (inserted, d)" using stmt1 d(1) by (simp add: ExecuteStmt_def)
  show ?thesis
  proof (cases "inserted")
    case False
    then show ?thesis using s1 d(2) stmts(1) stmt1(1) exec plain(1)
      by (intro exI [of _ ?s1] exI [of _ "ToIdentify L2DB_CreatePlayerRs (P_CreatePlayerToDBRs a CPR_Unkonwn) sender"])
        (simp add: Db_HandleCreatePlayer_def GetStmt_def)
  next
    case True
    obtain s2 where s2: "OnSavePlayer lib c save p ?s1 = Some (True, s2)" "connected s2"
        "look (ms_lib s2) ?sn = Some (?new\<lparr>pr_base := Some (co_enc_base c (pp_base p)), pr_misc := Some (co_enc_misc c (pp_misc p))\<rparr>)"
      using OnSavePlayer_table [OF ok s1 stmts(5,6) small] True d(2) by auto
    obtain s3 sns where s3: "QueryPlayerList lib c a sender s2 =
          Some (s3, [ToIdentify L2DB_QueryPlayerListRs (P_PlayerList a (map (\<lambda>sn. little_of c sn (the (look (ms_lib s2) sn))) sns)) sender])"
        "?sn \<in> set sns" "connected s3" "look (ms_lib s3) = look (ms_lib s2)"
      using QueryPlayerList_ok [OF ok s2(2) plain(1), of c sender] s2(3) by fastforce
    have created: "Db_HandleCreatePlayer lib c sender a p s =
          Some (s3, [ToIdentify L2DB_QueryPlayerListRs (P_PlayerList a (map (\<lambda>sn. little_of c sn (the (look (ms_lib s2) sn))) sns)) sender])"
      using stmts(1,4) stmt1(1) exec True s2(1) s3(1) by (simp add: Db_HandleCreatePlayer_def GetStmt_def)
    have sn: "unat ?sn < 2 ^ 63" using True d(2) by simp
    note row = s2(3) [folded s3(4)]
    have p: "p\<lparr>pp_base := b, pp_misc := m\<rparr> = \<lparr>pp_sn = ?sn, pp_name = pp_name p, pp_base = b, pp_misc = m\<rparr>" for b m
      by (cases p) simp
    obtain s4 where s4: "HandleQueryPlayer lib c asker ?sn s3 = Some (s4, [ToIdentify G2DB_QueryPlayerRs (P_QueryPlayerRs a
             (p\<lparr>pp_base := co_dec_base c (until_nul (co_enc_base c (pp_base p))),
               pp_misc := co_dec_misc c (until_nul (co_enc_misc c (pp_misc p)))\<rparr>)) asker])"
      using HandleQueryPlayer_ok [OF ok _ _ sn, of s3 _ c asker] s3(3) row plain(1,3) unfolding p
      by (simp add: connected_def blob_def) blast
    have "pl_sn (little_of c ?sn (the (look (ms_lib s2) ?sn))) = ?sn \<and> pl_name (little_of c ?sn (the (look (ms_lib s2) ?sn))) = pp_name p"
      using s2(3) sn plain(3) by (simp add: little_of_def list_row_def sn_digits)
    then have listed: "\<exists>pl\<in>set (map (\<lambda>sn. little_of c sn (the (look (ms_lib s2) sn))) sns). pl_sn pl = ?sn \<and> pl_name pl = pp_name p"
      unfolding set_map by (rule bexI [OF _ imageI [OF s3(2)]])
    show ?thesis
      by (intro exI [of _ s3] exI conjI, rule created, rule s3(3), rule disjI2, intro conjI exI, rule refl, rule listed)
        (rule s4)
  qed
qed


text \<open>A server in memory: the table is an ordered map, a query is recognised by its text.\<close>

definition table_query :: "string \<Rightarrow> (u64, player_row) smap \<Rightarrow> bool \<times> row list option \<times> nat \<times> (u64, player_row) smap" where
  "table_query sql t =
     (if take 66 sql = ''select sn, name, account, base, item, misc from player where sn = ''
      then let sn = word_of_int (atoi (bytes_of (drop 66 sql)))
           in (True, Some (case sm_find t sn of None \<Rightarrow> [] | Some r \<Rightarrow> [query_row sn r]), if sm_find t sn = None then 0 else 1, t)
      else let sns = remdups (map fst (filter (\<lambda>(sn, r). pr_account r = bytes_of (butlast (drop 63 sql))) t))
           in (True, Some (map (\<lambda>sn. list_row sn (the (sm_find t sn))) sns), length sns, t))"

fun table_execute :: "string \<Rightarrow> sql_param list \<Rightarrow> (u64, player_row) smap \<Rightarrow> bool \<times> (u64, player_row) smap" where
  "table_execute sql [Param_Uint64 sn, Param_String a, Param_String n] t =
     (if sm_find t sn = None \<and> unat sn < 2 ^ 63
      then (True, sm_assign sn \<lparr>pr_name = n, pr_account = a, pr_base = None, pr_item = None, pr_misc = None\<rparr> t) else (False, t))"
| "table_execute sql [Param_Blob b, Param_Blob m, Param_Uint64 sn] t =
     (True, case sm_find t sn of None \<Rightarrow> t | Some r \<Rightarrow> sm_assign sn (r\<lparr>pr_base := Some b, pr_misc := Some m\<rparr>) t)"
| "table_execute sql params t = (False, t)"

definition table_server :: "(u64, player_row) smap mysql_lib" where
  "table_server = \<lparr>ml_init = Pair True, ml_connect = (\<lambda>_. Pair True), ml_errno = (\<lambda>_. 0), ml_ping = (\<lambda>d. d),
     ml_select_db = (\<lambda>_. Pair True), ml_charset = (\<lambda>_. Pair True), ml_query = table_query,
     ml_prepare = (\<lambda>_. Pair True), ml_execute = table_execute\<rparr>"

lemma mysql_ok_table_server: "mysql_ok table_server sm_find"
proof -
  have q: "table_query (player_sql sn) t =
      (True, Some (case sm_find t sn of None \<Rightarrow> [] | Some r \<Rightarrow> [query_row sn r]), if sm_find t sn = None then 0 else 1, t)" for sn t
    by (simp add: table_query_def player_sql_def Let_def)
  have l: "table_query (list_sql a) t = (let sns = remdups (map fst (filter (\<lambda>(sn, r). pr_account r = bytes_of a) t))
           in (True, Some (map (\<lambda>sn. list_row sn (the (sm_find t sn))) sns), length sns, t))" if "sql_text a" for a t
    using that by (simp add: table_query_def list_sql_def butlast_append)
  have dom: "fst ` set t = dom (sm_find t)" for t :: "(u64, player_row) smap"
    by (simp add: dom_map_of_conv_image_fst)
  have found: "sm_find t sn = Some r \<Longrightarrow> (sn, r) \<in> set t" for sn r and t :: "(u64, player_row) smap"
    by (rule map_of_SomeD)
  show ?thesis
    unfolding mysql_ok_def
  proof (intro allI conjI impI, goal_cases)
    case (1 d sn a n)
    then show ?case by (simp add: table_server_def) blast
  next
    case (2 d sn b m)
    then show ?case by (auto simp: table_server_def fun_eq_iff split: option.split)
  next
    case (3 d sn)
    then show ?case by (simp add: table_server_def q)
  next
    case (4 d a)
    let ?sns = "remdups (map fst (filter (\<lambda>(sn, r). pr_account r = bytes_of a) d))"
    have "set ?sns \<subseteq> fst ` set d" by auto
    then have "set ?sns \<subseteq> dom (sm_find d)" by (simp only: dom)
    moreover have "{sn. \<exists>r. sm_find d sn = Some r \<and> pr_account r = bytes_of a} \<subseteq> set ?sns"
      using found by force
    ultimately show ?case using 4 l [of a d]
      by (intro exI [of _ ?sns] exI [of _ d]) (simp add: table_server_def Let_def)
  qed
qed

text \<open>An encoding that shows what is lost: the level is the first byte of the base, the version of the
  misc follows a zero byte, as the coordinates of a position may.\<close>

definition example_codec :: proto_codec where
  "example_codec = \<lparr>co_enc_base = (\<lambda>b. [word_of_int (pb_level b)]),
     co_enc_misc = (\<lambda>m. [0, word_of_int (pm_online_version m)]),
     co_dec_base = (\<lambda>bs. \<lparr>pb_gender = 0, pb_level = (if bs = [] then 0 else uint (hd bs))\<rparr>),
     co_dec_misc = (\<lambda>bs. (pp_misc Player_default)\<lparr>pm_online_version := (if length bs = 2 then uint (bs ! 1) else 0)\<rparr>)\<rparr>"

definition example_player :: Player_proto where
  "example_player = Player_default\<lparr>pp_sn := 7, pp_name := ''hero'', pp_base := \<lparr>pb_gender = 0, pb_level = 5\<rparr>,
     pp_misc := (pp_misc Player_default)\<lparr>pm_online_version := 9\<rparr>\<rparr>"

definition example_connection :: "(u64, player_row) smap Mysql" where
  "example_connection = \<lparr>ms_pMysql = True, ms_pMysqlRes = None,
     ms_mapStmt = [(Create, Some example_stmt), (Save, Some (example_stmt\<lparr>ds_sql := save_sql\<rparr>))], ms_isRunning = True, ms_lib = []\<rparr>"

lemma example_connected: "connected example_connection"
  by (simp add: connected_def example_connection_def example_stmt_def stmt_ready_def new_bytes_def)

theorem created_player_query_witness:
  "\<exists>s' reply. Db_HandleCreatePlayer table_server example_codec NetIdentify_new ''acc'' example_player example_connection = Some (s', [reply])
     \<and> connected s'"
  using created_player_query [OF mysql_ok_table_server example_connected, of "''acc''" example_player example_codec NetIdentify_new]
  by (fastforce simp: sql_text_def example_player_def example_codec_def)

end
