(* ===== verification/Delivery.thy ===== *)
theory Delivery
  imports Network
begin

text \<open>
  From the queue of one process to the handlers of another: the sending half of \<open>network.cpp\<close> and
  \<open>connect_obj.cpp\<close> composed with the receiving half, through a TCP connection that delivers the
  bytes in order and in any pieces. No definition of its own, only what the parts give together.
\<close>

text \<open>C2: messages reach the peer. A process with a connection \<open>k\<close> whose send buffer is empty works off
  its queue and sends; the kernel has room for the frames. However TCP cuts the bytes into pieces,
  \<open>Recv\<close> of the peer then dispatches exactly the packets that were queued for this connection, in
  order, each with its number, its body and its entity tags, and nothing stays behind.\<close>

theorem queued_messages_reach_the_peer:
  assumes queue: "GetReaderCache (nw_sendMsgList s) = []" "GetWriterCache (nw_sendMsgList s) = ps"
    and bounds: "send_ok (length ps) s"
      "\<forall>p\<in>set ps. 0 \<le> sk_Socket (p_socketKey p) \<and> sk_Socket (p_socketKey p) < MAX_CLIENT \<and> frame_fits p"
    and sender: "nw_connects s k = Some c" "co_state c = CS_Connected" "netbuf_data (co_sendBuffer c) = []"
    and messages: "\<forall>p\<in>set (packets_for k c ps). plain_message p"
    and room: "length (concat (map frame_bytes (packets_for k c ps))) \<le> kroom"
      "length (concat (map frame_bytes (packets_for k c ps))) + 24 + 2 * ADDITIONAL_SIZE < 2 ^ 31"
    and peer: "co_state d = CS_Connected" "IsTcp (ce_networkType env')" "\<And>n. pool_packet (ce_fresh env' n)"
      "GetTagValue TagAccount (ni_tagKey d) = None" "netbuf_wf (co_recvBuffer d)" "netbuf_data (co_recvBuffer d) = []"
      "b_bufferSize (co_recvBuffer d) + ADDITIONAL_SIZE < 2 ^ 31"
  shows "\<exists>s1 c1 c2 loc2 r sent es. OnNetworkUpdate (s, io) = Some (s1, io_emit (map CFree ps) io)
    \<and> nw_connects s1 k = Some c1 \<and> ConnectObj_Send env loc kroom c1 = Some (True, c2, loc2, r, sent, es)
    \<and> netbuf_data (co_sendBuffer c2) = []
    \<and> (\<forall>pieces. only_bytes pieces \<and> kernel_bytes pieces = sent \<longrightarrow>
        (\<exists>b ds. ConnectObj_Recv env' loc' pieces d = Some (True, d\<lparr>co_recvBuffer := b\<rparr>, loc', [], ds)
          \<and> netbuf_data b = [] \<and> list_all2 (delivers (NetIdentify.truncate d)) (packets_for k c ps) ds))"
proof -
  let ?bytes = "concat (map frame_bytes (packets_for k c ps))"
  obtain s1 where s1: "OnNetworkUpdate (s, io) = Some (s1, io_emit (map CFree ps) io)"
      "after_packets ps k (nw_connects s k) (nw_connects s1 k)"
    using OnNetworkUpdate_ok [OF queue bounds, of io] by blast
  then obtain b where b: "nw_connects s1 k = Some (c\<lparr>co_sendBuffer := b\<rparr>)" "netbuf_wf b" "netbuf_data b = ?bytes"
    using sender by (auto simp: after_packets_def)
  have fits: "nb_dataSize b \<le> kroom" using room(1) b(3) length_netbuf_data [OF b(2)] by simp
  obtain c2 loc2 r es where sent: "ConnectObj_Send env loc kroom (c\<lparr>co_sendBuffer := b\<rparr>) = Some (True, c2, loc2, r, ?bytes, es)"
      "netbuf_data (co_sendBuffer c2) = []"
    using Send_stream [of "c\<lparr>co_sendBuffer := b\<rparr>" env loc kroom] b sender(2) fits by auto
  have received: "\<forall>pieces. only_bytes pieces \<and> kernel_bytes pieces = ?bytes \<longrightarrow>
      (\<exists>b ds. ConnectObj_Recv env' loc' pieces d = Some (True, d\<lparr>co_recvBuffer := b\<rparr>, loc', [], ds)
        \<and> netbuf_data b = [] \<and> list_all2 (delivers (NetIdentify.truncate d)) (packets_for k c ps) ds)"
  proof (intro allI impI)
    fix pieces assume p: "only_bytes pieces \<and> kernel_bytes pieces = ?bytes"
    have "nb_dataSize (co_recvBuffer d) = 0" using length_netbuf_data [OF peer(5)] peer(6) by simp
    then obtain b ds where "ConnectObj_Recv env' loc' pieces d = Some (True, d\<lparr>co_recvBuffer := b\<rparr>, loc', [], ds)
      \<and> netbuf_wf b \<and> netbuf_data b = [] \<and> list_all2 (delivers (NetIdentify.truncate d)) (packets_for k c ps) ds"
      using Recv_stream [OF peer(1-5,7), of pieces "packets_for k c ps" "[]" loc'] p peer(6) room(2) messages
      by (auto simp: incomplete_def)
    then show "\<exists>b ds. ConnectObj_Recv env' loc' pieces d = Some (True, d\<lparr>co_recvBuffer := b\<rparr>, loc', [], ds)
        \<and> netbuf_data b = [] \<and> list_all2 (delivers (NetIdentify.truncate d)) (packets_for k c ps) ds" by blast
  qed
  show ?thesis
    by (intro exI conjI, rule s1(1), rule b(1), rule sent(1), rule sent(2), rule received)
qed

text \<open>One message, read in two pieces.\<close>

definition sample_delivery :: packet where
  "sample_delivery = sample_packet\<lparr>p_socketKey := \<lparr>sk_Socket = 7, sk_NetType = TcpListen\<rparr>\<rparr>"

definition delivery_net :: Network where
  "delivery_net = sample_net\<lparr>nw_connects := (\<lambda>_. None)(7 \<mapsto> sample_conn)\<rparr>"

theorem queued_messages_reach_the_peer_witness:
  "\<exists>s1 c1 c2 loc2 r sent es b ds. OnNetworkUpdate (delivery_net, sample_io) = Some (s1, io_emit [CFree sample_delivery] sample_io)
    \<and> nw_connects s1 7 = Some c1 \<and> ConnectObj_Send sample_env sample_locator 100 c1 = Some (True, c2, loc2, r, sent, es)
    \<and> ConnectObj_Recv sample_env sample_locator [Bytes (take 9 sent), Bytes (drop 9 sent)] sample_conn
       = Some (True, sample_conn\<lparr>co_recvBuffer := b\<rparr>, sample_locator, [], ds)
    \<and> list_all2 (delivers (NetIdentify.truncate sample_conn)) [sample_delivery] ds"
proof -
  let ?b = "NetworkBuffer_new 64"
  have c: "nw_connects delivery_net 7 = Some sample_conn" by (simp add: delivery_net_def)
  have queue: "GetReaderCache (nw_sendMsgList delivery_net) = []" "GetWriterCache (nw_sendMsgList delivery_net) = [sample_delivery]"
    by (simp_all add: delivery_net_def sample_net_def sample_delivery_def CacheSwap_new_def GetReaderCache_def GetWriterCache_def
        writer_emplace_back_def)
  have packets: "packets_for 7 sample_conn [sample_delivery] = [sample_delivery]"
    by (simp add: packets_for_def sample_delivery_def sample_conn_simps CompareTags_def CompareTags_on_def GetTagValue_def)
  have same: "frame_bytes sample_delivery = frame_bytes sample_packet" "plain_message sample_delivery = plain_message sample_packet"
    by (simp_all add: sample_delivery_def sample_packet_def frame_bytes_def frame_head_def packet_data_def plain_message_def
        frame_fits_def packet_wf_def size_ok_def)
  then have frame: "length (frame_bytes sample_delivery) = 27" and plain: "plain_message sample_delivery"
    using sample_plain by (simp_all add: sample_frame)
  have b: "netbuf_wf ?b" "netbuf_data ?b = []" "b_bufferSize ?b = 64"
    by (rule netbuf_wf_new, simp_all) (simp_all add: NetworkBuffer_new_def netbuf_data_def ring_bytes_def)
  have "send_ok 1 delivery_net"
    using b by (auto simp: send_ok_def delivery_net_def sample_conn_simps ADDITIONAL_SIZE_def)
  moreover have "frame_fits sample_delivery" using plain by (simp add: plain_message_def)
  moreover have "\<And>n. pool_packet (ce_fresh sample_env n)" "IsTcp (ce_networkType sample_env)"
    by (simp_all add: sample_env_def pool_packet_new IsTcp_def)
  ultimately obtain s1 c1 c2 loc2 r sent es where e:
    "OnNetworkUpdate (delivery_net, sample_io) = Some (s1, io_emit (map CFree [sample_delivery]) sample_io)"
    "nw_connects s1 7 = Some c1" "ConnectObj_Send sample_env sample_locator 100 c1 = Some (True, c2, loc2, r, sent, es)"
    "\<forall>pieces. only_bytes pieces \<and> kernel_bytes pieces = sent \<longrightarrow>
        (\<exists>b ds. ConnectObj_Recv sample_env sample_locator pieces sample_conn
             = Some (True, sample_conn\<lparr>co_recvBuffer := b\<rparr>, sample_locator, [], ds)
          \<and> netbuf_data b = [] \<and> list_all2 (delivers (NetIdentify.truncate sample_conn)) (packets_for 7 sample_conn [sample_delivery]) ds)"
    using queued_messages_reach_the_peer [OF queue, of 7 sample_conn 100 sample_conn sample_env sample_io sample_env sample_locator sample_locator]
      c packets frame plain b
    by (auto simp: sample_conn_simps ADDITIONAL_SIZE_def MAX_CLIENT_def sample_delivery_def)
  have "only_bytes [Bytes (take 9 sent), Bytes (drop 9 sent)]" "kernel_bytes [Bytes (take 9 sent), Bytes (drop 9 sent)] = sent"
    by (simp_all add: only_bytes_def)
  then show ?thesis using e packets by (simp only: list.map) blast
qed

end
