(* ===== verification/Robots.thy ===== *)
theory Robots
  imports Players "HOL-Library.Signed_Division"
begin

text \<open>
  The robots of \<open>tools/robots\<close>, clients that log in and walk through the processes: the state
  machine (\<open>libserver/state_template.h\<close>, \<open>libserver/robot_state_type.h\<close>), the states
  (\<open>robot_state.cpp\<close>, \<open>robot_state_http.cpp\<close>, \<open>robot_state_login.cpp\<close>, \<open>robot_state_game.cpp\<close>), the
  robot (\<open>robot.cpp\<close>), the collection with its handlers (\<open>robot_collection.cpp\<close>), the manager that
  follows their progress (\<open>robot_mgr.cpp\<close>), the locator and the console commands. A result
  \<open>None\<close> is a null pointer that is followed. The configuration of the manager of applications is the
  argument \<open>appmgr\<close> (address, port of HTTP), the JSON library the argument \<open>json\<close>.
\<close>

section \<open>\<open>RobotStateType\<close>\<close>

datatype RobotStateType =
    Http_Connecting | Http_Connected
  | Login_Connecting | Login_Connected | Login_Logined | Login_SelectPlayer
  | Game_Connecting | Game_Connected | Game_Logined
  | Space_EnterWorld | End_state

fun state_no :: "RobotStateType \<Rightarrow> int" where
  "state_no Http_Connecting = 0"
| "state_no Http_Connected = 1"
| "state_no Login_Connecting = 2"
| "state_no Login_Connected = 3"
| "state_no Login_Logined = 4"
| "state_no Login_SelectPlayer = 5"
| "state_no Game_Connecting = 6"
| "state_no Game_Connected = 7"
| "state_no Game_Logined = 8"
| "state_no Space_EnterWorld = 9"
| "state_no End_state = 10"

instantiation RobotStateType :: linorder
begin

definition less_eq_RobotStateType :: "RobotStateType \<Rightarrow> RobotStateType \<Rightarrow> bool" where
  "less_eq_RobotStateType a b = (state_no a \<le> state_no b)"

definition less_RobotStateType :: "RobotStateType \<Rightarrow> RobotStateType \<Rightarrow> bool" where
  "less_RobotStateType a b = (state_no a < state_no b)"

lemma state_no_inject [simp]: "state_no a = state_no b \<longleftrightarrow> a = b"
  by (cases a; cases b) simp_all

instance
  by standard (auto simp: less_eq_RobotStateType_def less_RobotStateType_def)

end

definition RobotStateTypeName :: "string list" where
  "RobotStateTypeName =
     [''[Http ] Connecting  :'', ''[Http ] Connected   :'', ''[Login] Connecting  :'', ''[Login] Connected   :'',
      ''[Login] Logined     :'', ''[Login] SelectPlayer:'', ''[Game ] Connecting  :'', ''[Game ] Connected   :'',
      ''[Game ] Logined     :'', ''[Space] EnterWorld  :'']"

definition RobotStateTypeShortName :: "string list" where
  "RobotStateTypeShortName =
     [''Http-Connecting'', ''Http-Connected'', ''Login-Connecting'', ''Login-Connected'', ''Login-Logined'',
      ''Login-SelectPlayer'', ''Game-Connecting'', ''Game-Connected'', ''Game-Logined'', ''Space-EnterWorld'']"

text \<open>The states travel as numbers; these are not checked.\<close>

definition GetRobotStateTypeShortName :: "int \<Rightarrow> string" where
  "GetRobotStateTypeShortName s = (if s \<le> - 1 \<or> s \<ge> 10 then ''unknown'' else RobotStateTypeShortName ! nat s)"

definition GetRobotStateTypeName :: "int \<Rightarrow> string" where
  "GetRobotStateTypeName s = (if s \<le> - 1 \<or> s \<ge> 10 then ''unknown'' else RobotStateTypeName ! nat s)"

section \<open>\<open>class Robot\<close>\<close>

abbreviation (input) C2L_AccountCheck :: int where "C2L_AccountCheck \<equiv> 1000"
abbreviation (input) C2L_CreatePlayer :: int where "C2L_CreatePlayer \<equiv> 1014"
abbreviation (input) C2L_SelectPlayer :: int where "C2L_SelectPlayer \<equiv> 1018"
abbreviation (input) C2G_LoginByToken :: int where "C2G_LoginByToken \<equiv> 1100"
abbreviation (input) C2G_EnterWorld :: int where "C2G_EnterWorld \<equiv> 1116"
abbreviation (input) MI_RobotSyncState :: int where "MI_RobotSyncState \<equiv> 5001"

datatype robot_msg =
    M_AccountCheck string string
  | M_CreatePlayer string int
  | M_SelectPlayer u64
  | M_LoginByToken string string
  | M_EnterWorld int
  | M_RobotSyncState "(string \<times> int) list"

text \<open>What a robot does outside: a message to a connection, one to the main thread, one to the
  networks of the process, a request for a connection, a request of HTTP.\<close>

datatype robot_send =
    R_Packet int robot_msg NetIdentify
  | R_Main int robot_msg
  | R_Dispatch int NetIdentify
  | R_Connect NetworkConnect
  | R_Http NetIdentify string int string

record RobotComponentGameToken =
  rt_token :: string
  rt_gameIp :: string
  rt_gamePort :: int

text \<open>The part of \<open>Player\<close> that a robot uses, its two components, and the state machine: \<open>ro_pState\<close>
  is the type of the state object, \<open>ro_dynCreateMap\<close> the registered types.\<close>

record Robot =
  ro_sn :: u64
  ro_identify :: NetIdentify
  ro_account :: string
  ro_worldId :: int
  ro_login :: "(string \<times> int) option"
  ro_token :: "RobotComponentGameToken option"
  ro_pState :: "RobotStateType option"
  ro_defaultState :: RobotStateType
  ro_dynCreateMap :: "RobotStateType list"

definition GetSocketKey :: "Robot \<Rightarrow> SocketKey" where
  "GetSocketKey r = ni_socketKey (ro_identify r)"

definition set_socket_key :: "SocketKey \<Rightarrow> Robot \<Rightarrow> Robot" where
  "set_socket_key k r = r\<lparr>ro_identify := (ro_identify r)\<lparr>ni_socketKey := k\<rparr>\<rparr>"

definition RegisterState :: "Robot \<Rightarrow> Robot" where
  "RegisterState r = r\<lparr>ro_dynCreateMap :=
     [Http_Connecting, Http_Connected, Login_Connecting, Login_Connected, Login_Logined, Login_SelectPlayer,
      Game_Connecting, Game_Connected, Game_Logined, Space_EnterWorld]\<rparr>"

definition InitStateTemplateMgr :: "RobotStateType \<Rightarrow> Robot \<Rightarrow> Robot" where
  "InitStateTemplateMgr defaultState r = RegisterState (r\<lparr>ro_defaultState := defaultState\<rparr>)"

text \<open>A robot as its pool holds it. \<open>BackToPool\<close> does not touch the state object, nor the world.\<close>

definition Robot_free :: Robot where
  "Robot_free = \<lparr>ro_sn = 0, ro_identify = NetIdentify_new, ro_account = '''', ro_worldId = 0, ro_login = None, ro_token = None,
     ro_pState = None, ro_defaultState = Http_Connecting, ro_dynCreateMap = []\<rparr>"

definition Robot_Awake :: "u64 \<Rightarrow> string \<Rightarrow> Robot \<Rightarrow> Robot \<times> robot_send list" where
  "Robot_Awake sn account r =
     (let r1 = r\<lparr>ro_sn := sn, ro_account := account,
                 ro_identify := (ro_identify r)\<lparr>ni_tagKey := AddTag_str TagAccount account []\<rparr>\<rparr>
      in (InitStateTemplateMgr Http_Connecting r1, [R_Dispatch MI_NetworkListenKey (ro_identify r1)]))"

definition Robot_BackToPool :: "Robot \<Rightarrow> Robot" where
  "Robot_BackToPool r = r\<lparr>ro_account := '''', ro_identify := NetIdentify_new, ro_login := None, ro_token := None\<rparr>"

definition NetworkDisconnect :: "Robot \<Rightarrow> Robot \<times> robot_send list" where
  "NetworkDisconnect r =
     (if sk_Socket (GetSocketKey r) = INVALID_SOCKET then (r, [])
      else (set_socket_key (SocketKey_Clear (GetSocketKey r)) r, [R_Dispatch MI_NetworkRequestDisconnect (ro_identify r)]))"

section \<open>The states\<close>

definition account_connect :: "NetworkType \<Rightarrow> Robot \<Rightarrow> string \<Rightarrow> int \<Rightarrow> robot_send" where
  "account_connect t r ip port = R_Connect (CreateConnect t TagAccount \<lparr>KeyStr = ro_account r, KeyInt64 = 0\<rparr> ip port)"

definition HttpConnecting_OnEnterState :: "(string \<times> int) option \<Rightarrow> Robot \<Rightarrow> (Robot \<times> robot_send list) option" where
  "HttpConnecting_OnEnterState appmgr r = do {
     (ip, port) \<leftarrow> appmgr;
     Some (r, [account_connect HttpConnector r ip port]) }"

definition HttpConnected_OnEnterState :: "(string \<times> int) option \<Rightarrow> Robot \<Rightarrow> (Robot \<times> robot_send list) option" where
  "HttpConnected_OnEnterState appmgr r = do {
     (ip, port) \<leftarrow> appmgr;
     Some (r, [R_Http (ro_identify r) ip port ''/login'']) }"

definition LoginConnecting_OnEnterState :: "Robot \<Rightarrow> (Robot \<times> robot_send list) option" where
  "LoginConnecting_OnEnterState r =
     (let (r1, es) = NetworkDisconnect r in do {
        (ip, port) \<leftarrow> ro_login r1;
        Some (r1, es @ [account_connect TcpConnector r1 ip port]) })"

definition LoginConnected_OnEnterState :: "Robot \<Rightarrow> (Robot \<times> robot_send list) option" where
  "LoginConnected_OnEnterState r =
     Some (r, [R_Packet C2L_AccountCheck (M_AccountCheck (c_str (ro_account r)) ''e10adc3949ba59abbe56e057f20f883e'') (ro_identify r)])"

definition GameConnecting_OnEnterState :: "Robot \<Rightarrow> (Robot \<times> robot_send list) option" where
  "GameConnecting_OnEnterState r =
     (let (r1, es) = NetworkDisconnect r in do {
        token \<leftarrow> ro_token r1;
        Some (r1, es @ [account_connect TcpConnector r1 (rt_gameIp token) (rt_gamePort token)]) })"

definition GameConnected_OnEnterState :: "Robot \<Rightarrow> (Robot \<times> robot_send list) option" where
  "GameConnected_OnEnterState r = do {
     token \<leftarrow> ro_token r;
     Some (r, [R_Packet C2G_LoginByToken (M_LoginByToken (c_str (ro_account r)) (c_str (rt_token token))) (ro_identify r)]) }"

lemmas OnEnterState_defs = HttpConnecting_OnEnterState_def HttpConnected_OnEnterState_def LoginConnecting_OnEnterState_def
  LoginConnected_OnEnterState_def GameConnecting_OnEnterState_def GameConnected_OnEnterState_def

text \<open>The virtual function; the other states do nothing when they are entered.\<close>

fun OnEnterState :: "(string \<times> int) option \<Rightarrow> RobotStateType \<Rightarrow> Robot \<Rightarrow> (Robot \<times> robot_send list) option" where
  "OnEnterState appmgr Http_Connecting r = HttpConnecting_OnEnterState appmgr r"
| "OnEnterState appmgr Http_Connected r = HttpConnected_OnEnterState appmgr r"
| "OnEnterState appmgr Login_Connecting r = LoginConnecting_OnEnterState r"
| "OnEnterState appmgr Login_Connected r = LoginConnected_OnEnterState r"
| "OnEnterState appmgr Game_Connecting r = GameConnecting_OnEnterState r"
| "OnEnterState appmgr Game_Connected r = GameConnected_OnEnterState r"
| "OnEnterState appmgr _ r = Some (r, [])"

text \<open>\<open>RobotState::EnterState\<close>: the manager in the main thread hears of every state first.\<close>

definition EnterState :: "(string \<times> int) option \<Rightarrow> RobotStateType \<Rightarrow> Robot \<Rightarrow> (Robot \<times> robot_send list) option" where
  "EnterState appmgr st r = do {
     (r1, es) \<leftarrow> OnEnterState appmgr st r;
     Some (r1, R_Main MI_RobotSyncState (M_RobotSyncState [(ro_account r, state_no st)]) # es) }"

definition HttpConnecting_OnUpdate :: "Robot \<Rightarrow> RobotStateType" where
  "HttpConnecting_OnUpdate r =
     (if sk_Socket (GetSocketKey r) \<noteq> INVALID_SOCKET \<and> sk_NetType (GetSocketKey r) = HttpConnector then Http_Connected else Http_Connecting)"

definition LoginConnecting_OnUpdate :: "Robot \<Rightarrow> RobotStateType" where
  "LoginConnecting_OnUpdate r =
     (if sk_Socket (GetSocketKey r) \<noteq> INVALID_SOCKET \<and> sk_NetType (GetSocketKey r) = TcpConnector then Login_Connected else Login_Connecting)"

definition GameConnecting_OnUpdate :: "Robot \<Rightarrow> RobotStateType" where
  "GameConnecting_OnUpdate r =
     (if sk_Socket (GetSocketKey r) \<noteq> INVALID_SOCKET \<and> sk_NetType (GetSocketKey r) = TcpConnector then Game_Connected else Game_Connecting)"

definition OnUpdate :: "RobotStateType \<Rightarrow> Robot \<Rightarrow> RobotStateType" where
  "OnUpdate st r = (case st of
     Http_Connecting \<Rightarrow> HttpConnecting_OnUpdate r
   | Login_Connecting \<Rightarrow> LoginConnecting_OnUpdate r
   | Game_Connecting \<Rightarrow> GameConnecting_OnUpdate r
   | _ \<Rightarrow> st)"

lemmas OnUpdate_defs = OnUpdate_def HttpConnecting_OnUpdate_def LoginConnecting_OnUpdate_def GameConnecting_OnUpdate_def

definition RobotState_Update :: "RobotStateType \<Rightarrow> Robot \<Rightarrow> RobotStateType" where
  "RobotState_Update st r =
     (if st > Login_Connecting \<and> st \<noteq> Game_Connecting \<and> sk_Socket (GetSocketKey r) = INVALID_SOCKET then Login_Connecting
      else OnUpdate st r)"

section \<open>\<open>class StateTemplateMgr\<close>\<close>

text \<open>\<open>LeaveState\<close> does nothing in any state of a robot.\<close>

definition ChangeState :: "(string \<times> int) option \<Rightarrow> RobotStateType \<Rightarrow> Robot \<Rightarrow> (Robot \<times> robot_send list) option" where
  "ChangeState appmgr stateType r =
     (if ro_pState r = Some stateType then Some (r, [])
      else if stateType \<notin> set (ro_dynCreateMap r) then Some (r, [])
      else EnterState appmgr stateType (r\<lparr>ro_pState := Some stateType\<rparr>))"

definition UpdateState :: "(string \<times> int) option \<Rightarrow> Robot \<Rightarrow> (Robot \<times> robot_send list) option" where
  "UpdateState appmgr r = do {
     (r1, es1) \<leftarrow> (if ro_pState r = None then ChangeState appmgr (ro_defaultState r) r else Some (r, []));
     st \<leftarrow> ro_pState r1;
     let curState = RobotState_Update st r1;
     (if curState \<noteq> st then do {
        (r2, es2) \<leftarrow> ChangeState appmgr curState r1;
        Some (r2, es1 @ es2) }
      else Some (r1, es1)) }"

definition Robot_EnterWorld :: "(string \<times> int) option \<Rightarrow> int \<Rightarrow> Robot \<Rightarrow> (Robot \<times> robot_send list) option" where
  "Robot_EnterWorld appmgr worldId r = do {
     let r1 = r\<lparr>ro_worldId := worldId\<rparr>;
     st \<leftarrow> ro_pState r1;
     (if st = Space_EnterWorld then Some (r1, []) else ChangeState appmgr Space_EnterWorld r1) }"


section \<open>\<open>class RobotLocator\<close>\<close>

type_synonym RobotLocator = "(u64, NetIdentify) smap"

definition Robot_RegisterToLocator :: "Robot \<Rightarrow> RobotLocator \<Rightarrow> RobotLocator" where
  "Robot_RegisterToLocator r loc = sm_assign (ro_sn r)
     \<lparr>ni_socketKey = SocketKey_CopyFrom (GetSocketKey r) SocketKey_None, ni_tagKey = ni_tagKey (ro_identify r)\<rparr> loc"

definition GetRobotNetIdentify :: "RobotLocator \<Rightarrow> NetIdentify option" where
  "GetRobotNetIdentify loc = (case loc of [] \<Rightarrow> None | (sn, i) # _ \<Rightarrow> Some i)"

section \<open>\<open>class RobotCollection\<close>: the handlers of one robot\<close>

definition Robot_HandleNetworkConnected :: "SocketKey \<Rightarrow> Robot \<Rightarrow> RobotLocator \<Rightarrow> Robot \<times> RobotLocator" where
  "Robot_HandleNetworkConnected key r loc =
     (let r1 = set_socket_key (SocketKey_CopyFrom key (GetSocketKey r)) r
      in (r1, Robot_RegisterToLocator r1 loc))"

text \<open>The end of the HTTP connection may be heard of after the next one was made.\<close>

definition Robot_HandleNetworkDisconnect :: "SocketKey \<Rightarrow> Robot \<Rightarrow> Robot" where
  "Robot_HandleNetworkDisconnect key r =
     (if sk_NetType (GetSocketKey r) \<noteq> sk_NetType key then r
      else set_socket_key (SocketKey_Clear (GetSocketKey r)) r)"

abbreviation (input) LHRC_OK :: int where "LHRC_OK \<equiv> 0"
abbreviation (input) GameToken_ReturnCode_OK :: int where "GameToken_ReturnCode_OK \<equiv> 0"

text \<open>\<open>json\<close>: \<open>None\<close> is text that does not parse, \<open>Some None\<close> a value of the wrong kind, for which the
  library throws; else the return code, the address and the port. A component that is there already
  is kept.\<close>

definition Robot_HandleHttpOuterResponse :: "(string \<times> int) option \<Rightarrow> (string \<Rightarrow> (int \<times> string \<times> int) option option) \<Rightarrow> int \<Rightarrow> string
    \<Rightarrow> Robot \<Rightarrow> (Robot \<times> robot_send list) option" where
  "Robot_HandleHttpOuterResponse appmgr json status_code body r =
     (if status_code \<noteq> 200 then Some (r, [])
      else case json body of
        None \<Rightarrow> Some (r, [])
      | Some v \<Rightarrow> do {
          (returncode, ip, port) \<leftarrow> v;
          (if returncode = LHRC_OK then
             ChangeState appmgr Login_Connecting (r\<lparr>ro_login := (if ro_login r = None then Some (ip, port) else ro_login r)\<rparr>)
           else Some (r, [])) })"

text \<open>The name of a return code is looked up; a number that has no name is a null pointer.\<close>

definition Robot_HandleAccountCheckRs :: "(string \<times> int) option \<Rightarrow> int \<Rightarrow> Robot \<Rightarrow> (Robot \<times> robot_send list) option" where
  "Robot_HandleAccountCheckRs appmgr return_code r =
     (if return_code = ARC_OK then ChangeState appmgr Login_Logined r
      else if return_code \<in> {ARC_UNKONWN, ARC_NOT_FOUND_ACCOUNT, ARC_PASSWORD_WRONG, ARC_LOGGING, ARC_TIMEOUT, ARC_ONLINE}
      then Some (r, []) else None)"

text \<open>\<open>nGender\<close> is the random number, 0 or 1; \<open>Gender\<close> has \<open>none\<close>, \<open>male\<close>, \<open>female\<close>.\<close>

definition Robot_HandlePlayerList :: "(string \<times> int) option \<Rightarrow> int \<Rightarrow> NetIdentify \<Rightarrow> PlayerLittle list
    \<Rightarrow> Robot \<Rightarrow> (Robot \<times> robot_send list) option" where
  "Robot_HandlePlayerList appmgr nGender pPacket players r =
     (case players of
        [] \<Rightarrow> Some (r, [R_Packet C2L_CreatePlayer (M_CreatePlayer (c_str (ro_account r)) (if nGender = 1 then 1 else 2)) pPacket])
      | player # _ \<Rightarrow> do {
          (r1, es) \<leftarrow> ChangeState appmgr Login_SelectPlayer r;
          Some (r1, R_Packet C2L_SelectPlayer (M_SelectPlayer (pl_sn player)) pPacket # es) })"

definition Robot_HandleGameToken :: "(string \<times> int) option \<Rightarrow> int \<Rightarrow> string \<Rightarrow> string \<Rightarrow> int \<Rightarrow> Robot
    \<Rightarrow> (Robot \<times> robot_send list) option" where
  "Robot_HandleGameToken appmgr return_code token ip port r =
     (if return_code \<noteq> GameToken_ReturnCode_OK then Some (r, [])
      else ChangeState appmgr Game_Connecting
        (r\<lparr>ro_token := Some \<lparr>rt_token = c_str token, rt_gameIp = c_str ip, rt_gamePort = port\<rparr>\<rparr>))"

definition Robot_HandleLoginByTokenRs :: "(string \<times> int) option \<Rightarrow> int \<Rightarrow> Robot \<Rightarrow> (Robot \<times> robot_send list) option" where
  "Robot_HandleLoginByTokenRs appmgr return_code r =
     (if return_code \<noteq> 0 then Some (r, []) else ChangeState appmgr Game_Logined r)"

section \<open>\<open>class RobotCollection\<close>\<close>

text \<open>\<open>fresh\<close> gives the serial number and the pooled object of the robot for an account.\<close>

type_synonym robots = "(string, Robot) smap"

definition CreateRobot :: "(string \<Rightarrow> u64 \<times> Robot) \<Rightarrow> string \<Rightarrow> robots \<Rightarrow> robots \<times> robot_send list" where
  "CreateRobot fresh account rs =
     (let (sn, free) = fresh account; (r, es) = Robot_Awake sn account free in (sm_insert account r rs, es))"

fun CreateRobots :: "(string \<Rightarrow> u64 \<times> Robot) \<Rightarrow> string list \<Rightarrow> robots \<Rightarrow> robots \<times> robot_send list" where
  "CreateRobots fresh [] rs = (rs, [])"
| "CreateRobots fresh (a # as) rs =
     (let (rs1, es1) = CreateRobot fresh a rs; (rs2, es2) = CreateRobots fresh as rs1 in (rs2, es1 @ es2))"

definition robot_accounts :: "string \<Rightarrow> int \<Rightarrow> int \<Rightarrow> string list" where
  "robot_accounts account lo hi =
     (if lo = 0 \<and> hi = 0 then [account] else map (\<lambda>i. account @ show_int i) [lo..hi - 1])"

definition RobotCollection_Awake :: "(string \<Rightarrow> u64 \<times> Robot) \<Rightarrow> string \<Rightarrow> int \<Rightarrow> int \<Rightarrow> robots \<times> robot_send list" where
  "RobotCollection_Awake fresh account lo hi = CreateRobots fresh (robot_accounts account lo hi) []"

definition RobotCollection_BackToPool :: "robots \<Rightarrow> robots" where
  "RobotCollection_BackToPool rs = []"

definition GetMsgObj :: "NetIdentify \<Rightarrow> robots \<Rightarrow> Robot option" where
  "GetMsgObj pIdentify rs =
     (case GetTagValue TagAccount (ni_tagKey pIdentify) of None \<Rightarrow> None | Some v \<Rightarrow> sm_find rs (KeyStr v))"

section \<open>\<open>class RobotMgr\<close>\<close>

text \<open>\<open>rm_curType\<close> is a number like the states; \<open>count\<close> is the number of robots that the console announced.
  The clock of the test is not modelled.\<close>

record RobotMgr =
  rm_isChange :: bool
  rm_curType :: int
  rm_robots :: "(string, int) smap"

definition RobotMgr_Awake :: RobotMgr where
  "RobotMgr_Awake = \<lparr>rm_isChange = False, rm_curType = state_no Http_Connecting, rm_robots = []\<rparr>"

text \<open>The second result: the short name that is printed as over.\<close>

definition NotifyServer :: "nat \<Rightarrow> RobotMgr \<Rightarrow> RobotMgr \<times> string option" where
  "NotifyServer count m =
     (if length (rm_robots m) \<noteq> count then (m, None)
      else if list_ex (\<lambda>(a, st). st < rm_curType m) (rm_robots m) then (m, None)
      else (m\<lparr>rm_curType := rm_curType m + 1\<rparr>, Some (GetRobotStateTypeShortName (rm_curType m))))"

definition HandleRobotState :: "nat \<Rightarrow> (string \<times> int) list \<Rightarrow> RobotMgr \<Rightarrow> RobotMgr \<times> string option" where
  "HandleRobotState count states m =
     NotifyServer count (m\<lparr>rm_robots := fold (\<lambda>(a, st). sm_assign a st) states (rm_robots m), rm_isChange := True\<rparr>)"

text \<open>\<open>ShowInfo\<close>: a line for each state, its name and the number of robots in it.\<close>

definition ShowInfo :: "RobotMgr \<Rightarrow> RobotMgr \<times> (string \<times> nat) list" where
  "ShowInfo m =
     (if rm_curType m \<noteq> state_no End_state then (m, [])
      else if \<not> rm_isChange m then (m, [])
      else (m\<lparr>rm_isChange := False\<rparr>,
            map (\<lambda>st. (GetRobotStateTypeName st, length (filter (\<lambda>(a, s). s = st) (rm_robots m)))) [0..9]))"

section \<open>Console commands\<close>

text \<open>A collection that is created: where (\<open>None\<close> is the main thread), the account, \<open>min\<close>, \<open>max\<close>.\<close>

type_synonym collection = "bool \<times> string \<times> int \<times> int"

definition HandleLogin :: "string \<Rightarrow> collection list \<times> nat" where
  "HandleLogin account = ([(True, account, 0, 0)], 1)"

text \<open>\<open>ceil\<close> is applied to a quotient of integers. \<open>size_t\<close> has 64 bits.\<close>

definition perThreadRobotCnt :: "int \<Rightarrow> int \<Rightarrow> int" where
  "perThreadRobotCnt count threadCnt = (let n = count sdiv threadCnt in if n < 1 then 1 else n)"

fun login_collections :: "string \<Rightarrow> int \<Rightarrow> int \<Rightarrow> int \<Rightarrow> nat \<Rightarrow> collection list" where
  "login_collections account count per i 0 = []"
| "login_collections account count per i (Suc n) =
     (let lo = i * per; hi = (if lo + per > count then count else lo + per)
      in (False, account, lo, hi) # (if hi \<ge> count then [] else login_collections account count per (i + 1) n))"

definition HandleLoginEx :: "int \<Rightarrow> string \<Rightarrow> int \<Rightarrow> (collection list \<times> nat) option" where
  "HandleLoginEx LogicThreadNum account count =
     (if count = 0 then None
      else let threadCnt = (if LogicThreadNum \<le> 0 then 1 else LogicThreadNum)
           in Some (login_collections account count (perThreadRobotCnt count threadCnt) 0 (nat threadCnt),
                    unat (word_of_int count :: u64)))"

definition Robot_HandleEnter :: "ResourceWorldMgr \<Rightarrow> RobotLocator \<Rightarrow> int \<Rightarrow> robot_send list" where
  "Robot_HandleEnter worlds loc worldId =
     (case GetResource worlds worldId of
        None \<Rightarrow> []
      | Some res \<Rightarrow> (case GetRobotNetIdentify loc of
            None \<Rightarrow> []
          | Some i \<Rightarrow> [R_Packet C2G_EnterWorld (M_EnterWorld worldId) i]))"


section \<open>A robot and the servers\<close>

text \<open>The locator of the main thread has no influence on a robot.\<close>

datatype robot_event =
    Ev_Update
  | Ev_Connected SocketKey
  | Ev_Disconnected SocketKey
  | Ev_HttpResponse int string
  | Ev_AccountCheckRs int
  | Ev_PlayerList int NetIdentify "PlayerLittle list"
  | Ev_GameToken int string string int
  | Ev_LoginByTokenRs int
  | Ev_EnterWorld int

fun robot_handle :: "(string \<times> int) option \<Rightarrow> (string \<Rightarrow> (int \<times> string \<times> int) option option) \<Rightarrow> robot_event \<Rightarrow> Robot
    \<Rightarrow> (Robot \<times> robot_send list) option" where
  "robot_handle appmgr json Ev_Update r = UpdateState appmgr r"
| "robot_handle appmgr json (Ev_Connected k) r = Some (fst (Robot_HandleNetworkConnected k r []), [])"
| "robot_handle appmgr json (Ev_Disconnected k) r = Some (Robot_HandleNetworkDisconnect k r, [])"
| "robot_handle appmgr json (Ev_HttpResponse code body) r = Robot_HandleHttpOuterResponse appmgr json code body r"
| "robot_handle appmgr json (Ev_AccountCheckRs code) r = Robot_HandleAccountCheckRs appmgr code r"
| "robot_handle appmgr json (Ev_PlayerList n i players) r = Robot_HandlePlayerList appmgr n i players r"
| "robot_handle appmgr json (Ev_GameToken code token ip port) r = Robot_HandleGameToken appmgr code token ip port r"
| "robot_handle appmgr json (Ev_LoginByTokenRs code) r = Robot_HandleLoginByTokenRs appmgr code r"
| "robot_handle appmgr json (Ev_EnterWorld worldId) r = Robot_EnterWorld appmgr worldId r"

text \<open>The connections a robot asked for, by the number of their type, and the last state it reported.\<close>

definition asks :: "robot_send list \<Rightarrow> int set" where
  "asks es = {nc_network_type c | c. R_Connect c \<in> set es}"

fun reports :: "robot_send list \<Rightarrow> int option \<Rightarrow> int option" where
  "reports [] told = told"
| "reports (R_Main i (M_RobotSyncState [(a, st)]) # es) told = reports es (Some st)"
| "reports (e # es) told = reports es told"

text \<open>What can happen: a connection is made only when one of its type was asked for, a response of HTTP
  and a message of a server come through such a connection; the login process answers with a return
  code that exists, and a body that parses has values of the right kind.\<close>

fun enabled :: "(string \<Rightarrow> (int \<times> string \<times> int) option option) \<Rightarrow> int set \<Rightarrow> robot_event \<Rightarrow> bool" where
  "enabled json asked Ev_Update = True"
| "enabled json asked (Ev_Connected k) = (NetworkType_number (sk_NetType k) \<in> asked)"
| "enabled json asked (Ev_Disconnected k) = True"
| "enabled json asked (Ev_HttpResponse code body) = (NetworkType_number HttpConnector \<in> asked \<and> json body \<noteq> Some None)"
| "enabled json asked (Ev_AccountCheckRs code) = (NetworkType_number TcpConnector \<in> asked \<and> ARC_OK \<le> code \<and> code \<le> ARC_ONLINE)"
| "enabled json asked e = (NetworkType_number TcpConnector \<in> asked)"

inductive robot_step :: "(string \<times> int) option \<Rightarrow> (string \<Rightarrow> (int \<times> string \<times> int) option option)
    \<Rightarrow> Robot \<times> int set \<times> int option \<Rightarrow> Robot \<times> int set \<times> int option \<Rightarrow> bool" for appmgr json where
  robot_event: "enabled json asked e \<Longrightarrow> robot_handle appmgr json e r = Some (r', es) \<Longrightarrow>
    robot_step appmgr json (r, asked, told) (r', asked \<union> asks es, reports es told)"

text \<open>The addresses a state needs are there.\<close>

definition robot_inv :: "Robot \<Rightarrow> int set \<Rightarrow> int option \<Rightarrow> bool" where
  "robot_inv r asked told \<longleftrightarrow>
     set (ro_dynCreateMap r) = - {End_state} \<and> ro_defaultState r = Http_Connecting
     \<and> (ro_pState r = None \<longrightarrow> asked = {})
     \<and> (NetworkType_number TcpConnector \<in> asked \<longrightarrow> ro_login r \<noteq> None)
     \<and> (\<forall>st. ro_pState r = Some st \<longrightarrow> (st > Http_Connected \<longrightarrow> ro_login r \<noteq> None)
          \<and> (st = Game_Connecting \<or> st = Game_Connected \<longrightarrow> ro_token r \<noteq> None))
     \<and> told = map_option state_no (ro_pState r)"

lemma asks_simps [simp]:
  "asks [] = {}" "asks (R_Connect c # es) = insert (nc_network_type c) (asks es)"
  "asks (R_Packet i m n # es) = asks es" "asks (R_Main i m # es) = asks es" "asks (R_Dispatch i n # es) = asks es"
  "asks (R_Http n a p u # es) = asks es"
  by (auto simp: asks_def)

lemma asks_append [simp]: "asks (es @ fs) = asks es \<union> asks fs"
  by (auto simp: asks_def)

lemma set_socket_key_simps [simp]:
  "ro_login (set_socket_key k r) = ro_login r" "ro_token (set_socket_key k r) = ro_token r" "ro_pState (set_socket_key k r) = ro_pState r"
  "ro_dynCreateMap (set_socket_key k r) = ro_dynCreateMap r" "ro_defaultState (set_socket_key k r) = ro_defaultState r"
  "ro_account (set_socket_key k r) = ro_account r"
  by (simp_all add: set_socket_key_def)

lemma robot_inv_socket [simp]: "robot_inv (set_socket_key k r) asked told = robot_inv r asked told"
  by (simp add: robot_inv_def)

lemma NetworkDisconnect_cases:
  obtains "NetworkDisconnect r = (r, [])"
  | k i where "NetworkDisconnect r = (set_socket_key k r, [R_Dispatch MI_NetworkRequestDisconnect i])"
  unfolding NetworkDisconnect_def by (cases "sk_Socket (GetSocketKey r) = INVALID_SOCKET") simp_all

text \<open>A change of state: what it needs, and what it gives.\<close>

definition state_needs :: "RobotStateType \<Rightarrow> Robot \<Rightarrow> bool" where
  "state_needs st r \<longleftrightarrow> (st > Http_Connected \<longrightarrow> ro_login r \<noteq> None) \<and> (st = Game_Connecting \<or> st = Game_Connected \<longrightarrow> ro_token r \<noteq> None)"

lemma ChangeState_ok:
  assumes "robot_inv r asked told" and "appmgr \<noteq> None" and "state_needs st r" and "st \<noteq> End_state"
  shows "\<exists>r' es. ChangeState appmgr st r = Some (r', es) \<and> robot_inv r' (asked \<union> asks es) (reports es told) \<and> ro_pState r' = Some st"
proof (cases "ro_pState r = Some st")
  case True
  then show ?thesis using assms(1) by (simp add: ChangeState_def)
next
  case False
  obtain ip port where app: "appmgr = Some (ip, port)" using assms(2) by auto
  let ?r = "r\<lparr>ro_pState := Some st\<rparr>"
  have reg: "set (ro_dynCreateMap r) = - {End_state}" using assms(1) by (simp add: robot_inv_def)
  then have "ChangeState appmgr st r = EnterState appmgr st ?r" using False assms(4) by (simp add: ChangeState_def)
  moreover have "\<exists>r' es. EnterState appmgr st ?r = Some (r', es) \<and> robot_inv r' (asked \<union> asks es) (reports es told)
      \<and> ro_pState r' = Some st"
    using assms(1,3,4) app
    by (rule_tac NetworkDisconnect_cases [of ?r]; cases st)
      (auto simp: EnterState_def OnEnterState_defs state_needs_def robot_inv_def less_RobotStateType_def account_connect_def CreateConnect_def)
  ultimately show ?thesis by simp
qed


lemma RobotState_Update_needs:
  assumes "robot_inv r asked told" and "ro_pState r = Some st" and "RobotState_Update st r \<noteq> st"
  shows "state_needs (RobotState_Update st r) r \<and> RobotState_Update st r \<noteq> End_state"
  using assms by (cases st) (auto simp: RobotState_Update_def OnUpdate_defs state_needs_def robot_inv_def
      less_RobotStateType_def split: if_splits)

lemma UpdateState_ok:
  assumes inv: "robot_inv r asked told" and app: "appmgr \<noteq> None"
  shows "\<exists>r' es. UpdateState appmgr r = Some (r', es) \<and> robot_inv r' (asked \<union> asks es) (reports es told)"
proof -
  have "state_needs Http_Connecting r" by (simp add: state_needs_def less_RobotStateType_def)
  note started = ChangeState_ok [OF inv app this]
  have "\<exists>r1 es1 st. (if ro_pState r = None then ChangeState appmgr (ro_defaultState r) r else Some (r, [])) = Some (r1, es1)
      \<and> robot_inv r1 (asked \<union> asks es1) (reports es1 told) \<and> ro_pState r1 = Some st"
  proof (cases "ro_pState r")
    case None
    moreover have "ro_defaultState r = Http_Connecting" using inv by (simp add: robot_inv_def)
    ultimately show ?thesis using started by auto
  next
    case (Some st)
    then show ?thesis using inv by (intro exI [of _ r] exI [of _ "[]"] exI [of _ st]) simp
  qed
  then obtain r1 es1 st where first: "(if ro_pState r = None then ChangeState appmgr (ro_defaultState r) r else Some (r, [])) = Some (r1, es1)"
      "robot_inv r1 (asked \<union> asks es1) (reports es1 told)" "ro_pState r1 = Some st"
    by blast
  show ?thesis
  proof (cases "RobotState_Update st r1 = st")
    case True
    then show ?thesis using first by (simp add: UpdateState_def)
  next
    case False
    obtain r2 es2 where "ChangeState appmgr (RobotState_Update st r1) r1 = Some (r2, es2)"
        "robot_inv r2 (asked \<union> asks es1 \<union> asks es2) (reports es2 (reports es1 told))"
      using ChangeState_ok [OF first(2) app] RobotState_Update_needs [OF first(2,3) False] by blast
    moreover have "reports (es1 @ es2) told = reports es2 (reports es1 told)"
      by (induction es1 told rule: reports.induct) auto
    ultimately show ?thesis using first False by (simp add: UpdateState_def Un_assoc)
  qed
qed

text \<open>Giving the robot an address keeps the invariant.\<close>

lemma robot_inv_address:
  "robot_inv r asked told \<Longrightarrow> robot_inv (r\<lparr>ro_login := (if ro_login r = None then Some a else ro_login r)\<rparr>) asked told"
  "robot_inv r asked told \<Longrightarrow> robot_inv (r\<lparr>ro_token := Some t\<rparr>) asked told"
  "robot_inv r asked told \<Longrightarrow> robot_inv (r\<lparr>ro_worldId := w\<rparr>) asked told"
  by (auto simp: robot_inv_def)

lemma robot_handle_ok:
  assumes inv: "robot_inv r asked told" and app: "appmgr \<noteq> None" and enabled: "enabled json asked e"
  shows "\<exists>r' es. robot_handle appmgr json e r = Some (r', es) \<and> robot_inv r' (asked \<union> asks es) (reports es told)"
proof -
  have login: "ro_login r \<noteq> None" and state: "ro_pState r \<noteq> None" if "NetworkType_number TcpConnector \<in> asked"
    using inv that by (auto simp: robot_inv_def)
  have change: "\<exists>r' es. ChangeState appmgr st r1 = Some (r', es) \<and> robot_inv r' (asked \<union> asks es) (reports es told)"
    if "robot_inv r1 asked told" "state_needs st r1" "st \<noteq> End_state" for r1 st
    using ChangeState_ok [OF that(1) app that(2,3)] by blast
  show ?thesis
  proof (cases e)
    case Ev_Update
    then show ?thesis using UpdateState_ok [OF inv app] by simp
  next
    case (Ev_Connected k)
    then show ?thesis using inv by (simp add: Robot_HandleNetworkConnected_def Let_def)
  next
    case (Ev_Disconnected k)
    then show ?thesis using inv by (simp add: Robot_HandleNetworkDisconnect_def)
  next
    case (Ev_HttpResponse code body)
    have "\<exists>r' es. ChangeState appmgr Login_Connecting (r\<lparr>ro_login := (if ro_login r = None then Some a else ro_login r)\<rparr>) = Some (r', es)
        \<and> robot_inv r' (asked \<union> asks es) (reports es told)" for a
      by (rule change [OF robot_inv_address(1) [OF inv]]) (auto simp: state_needs_def)
    then show ?thesis using inv enabled Ev_HttpResponse
      by (auto simp: Robot_HandleHttpOuterResponse_def split: option.splits)
  next
    case (Ev_AccountCheckRs code)
    have "code = ARC_OK \<or> code \<in> {ARC_UNKONWN, ARC_NOT_FOUND_ACCOUNT, ARC_PASSWORD_WRONG, ARC_LOGGING, ARC_TIMEOUT, ARC_ONLINE}"
      using enabled Ev_AccountCheckRs by auto
    then show ?thesis using inv enabled Ev_AccountCheckRs change [OF inv, of Login_Logined] login
      by (auto simp: Robot_HandleAccountCheckRs_def state_needs_def)
  next
    case (Ev_PlayerList n i players)
    then show ?thesis using inv enabled change [OF inv, of Login_SelectPlayer] login
      by (cases players) (auto simp: Robot_HandlePlayerList_def state_needs_def)
  next
    case (Ev_GameToken code token ip port)
    then show ?thesis using inv enabled change [OF robot_inv_address(2) [OF inv], of Game_Connecting] login
      by (auto simp: Robot_HandleGameToken_def state_needs_def)
  next
    case (Ev_LoginByTokenRs code)
    then show ?thesis using inv enabled change [OF inv, of Game_Logined] login
      by (auto simp: Robot_HandleLoginByTokenRs_def state_needs_def)
  next
    case (Ev_EnterWorld worldId)
    then show ?thesis using inv enabled change [OF robot_inv_address(3) [OF inv], of Space_EnterWorld] login state
      by (auto simp: Robot_EnterWorld_def Let_def state_needs_def robot_inv_address)
  qed
qed

interpretation robot: invariant_system "robot_step appmgr json"
    "\<lambda>(r, asked, told). appmgr \<noteq> None \<longrightarrow> robot_inv r asked told" for appmgr json
proof unfold_locales
  fix s s'
  assume "case s of (r, asked, told) \<Rightarrow> appmgr \<noteq> None \<longrightarrow> robot_inv r asked told" "robot_step appmgr json s s'"
  from this(2,1) show "case s' of (r, asked, told) \<Rightarrow> appmgr \<noteq> None \<longrightarrow> robot_inv r asked told"
    by (cases rule: robot_step.cases) (use robot_handle_ok in fastforce)
qed

definition robot_start :: "u64 \<Rightarrow> string \<Rightarrow> Robot \<times> int set \<times> int option" where
  "robot_start sn account = (fst (Robot_Awake sn account Robot_free), {}, None)"

lemma robot_inv_start: "case robot_start sn account of (r, asked, told) \<Rightarrow> robot_inv r asked told"
proof -
  have "x \<noteq> End_state \<Longrightarrow> x = Http_Connecting \<or> x = Http_Connected \<or> x = Login_Connecting \<or> x = Login_Connected \<or> x = Login_Logined
     \<or> x = Login_SelectPlayer \<or> x = Game_Connecting \<or> x = Game_Connected \<or> x = Game_Logined \<or> x = Space_EnterWorld" for x
    by (cases x) simp_all
  then show ?thesis
    by (auto simp: robot_start_def Robot_Awake_def InitStateTemplateMgr_def RegisterState_def robot_inv_def Robot_free_def Let_def)
qed


section \<open>The robots of the command \<open>login -ex\<close>\<close>

definition created_accounts :: "collection list \<Rightarrow> string list" where
  "created_accounts cs = concat (map (\<lambda>(main, account, lo, hi). robot_accounts account lo hi) cs)"

lemma created_range:
  "0 \<le> i \<Longrightarrow> 0 < per \<Longrightarrow> i * per < count \<Longrightarrow> 0 < n \<Longrightarrow>
   created_accounts (login_collections account count per i n) =
     map (\<lambda>j. account @ show_int j) [i * per..min count ((i + int n) * per) - 1]"
proof (induction n arbitrary: i)
  case (Suc n)
  let ?hi = "if i * per + per > count then count else i * per + per"
  have acc: "robot_accounts account (i * per) ?hi = map (\<lambda>j. account @ show_int j) [i * per..?hi - 1]"
    using Suc.prems by (auto simp: robot_accounts_def)
  show ?case
  proof (cases "?hi \<ge> count \<or> n = 0")
    case True
    have "i * per + per \<le> (i + int (Suc n)) * per" using Suc.prems by (simp add: algebra_simps)
    then have "?hi = min count ((i + int (Suc n)) * per)" using True by (auto simp: algebra_simps)
    then show ?thesis using True acc by (cases n) (auto simp: created_accounts_def Let_def)
  next
    case False
    then have hi: "?hi = (i + 1) * per" "(i + 1) * per < count" by (auto simp: algebra_simps split: if_splits)
    have IH: "created_accounts (login_collections account count per (i + 1) n) =
        map (\<lambda>j. account @ show_int j) [(i + 1) * per..min count ((i + 1 + int n) * per) - 1]"
      using False Suc.prems hi by (intro Suc.IH) auto
    have "[i * per..min count ((i + int (Suc n)) * per) - 1] = [i * per..(i + 1) * per - 1] @ [(i + 1) * per..min count ((i + 1 + int n) * per) - 1]"
    proof -
      have "(i + 1) * per \<le> (i + 1 + int n) * per" using Suc.prems by (simp add: mult_right_mono)
      then have "(i + 1) * per - 1 \<le> min count ((i + 1 + int n) * per) - 1" using hi(2) by simp
      moreover have "i * per \<le> (i + 1) * per - 1" using Suc.prems by (simp add: algebra_simps)
      ultimately show ?thesis by (subst upto_split2 [of _ "(i + 1) * per - 1"]) (auto simp: algebra_simps)
    qed
    then show ?thesis using False acc IH hi by (simp add: created_accounts_def Let_def)
  qed
qed simp

lemma sdiv_nonneg: "0 \<le> a \<Longrightarrow> 0 < b \<Longrightarrow> a sdiv b = a div (b :: int)"
  by (simp add: signed_divide_int_def sgn_if)

text \<open>The robots that a command creates.\<close>

lemma HandleLoginEx_accounts:
  assumes "0 < threads" "0 < count"
  shows "\<exists>cs. HandleLoginEx threads account count = Some (cs, unat (word_of_int count :: u64))
    \<and> created_accounts cs = map (\<lambda>j. account @ show_int j) [0..min count (threads * max 1 (count div threads)) - 1]"
proof -
  have per: "perThreadRobotCnt count threads = max 1 (count div threads)"
    using assms by (simp add: perThreadRobotCnt_def sdiv_nonneg Let_def)
  show ?thesis using assms created_range [of 0 "max 1 (count div threads)" count "nat threads" account]
    by (simp add: HandleLoginEx_def Let_def per)
qed

lemma length_keys_subset:
  assumes "sm_wf m" and "fst ` set m \<subseteq> set accounts"
  shows "length m \<le> length accounts"
proof -
  have "length m = card (set (map fst m))" using sm_wf_distinct [OF assms(1)] by (metis distinct_card length_map)
  also have "\<dots> \<le> card (set accounts)" using assms(2) by (intro card_mono) auto
  also have "\<dots> \<le> length accounts" by (rule card_length)
  finally show ?thesis .
qed

lemma threads_times_quotient: "0 < n \<Longrightarrow> n < c \<Longrightarrow> n * (c div n) = c \<longleftrightarrow> n dvd (c :: int)"
  by (metis dvd_mult_div_cancel dvd_triv_left)

section \<open>Properties\<close>

text \<open>C12: a robot runs safely, and the main thread knows where it is. Whatever connections are made or
  lost and whatever the servers answer, in any order, a robot never follows a null pointer:
  it has an address in every state that connects and a token in every state that shows it. The state
  it last reported to the manager is always its state.\<close>

theorem robot_runs_safely:
  assumes "(robot_step appmgr json)\<^sup>*\<^sup>* (robot_start sn account) (r, asked, told)" and "appmgr \<noteq> None" and "enabled json asked e"
  shows "(\<exists>r' es. robot_handle appmgr json e r = Some (r', es)) \<and> told = map_option state_no (ro_pState r)"
proof -
  have inv: "robot_inv r asked told" using robot.run_inv [OF assms(1)] robot_inv_start [of sn account] assms(2) by (simp split: prod.splits)
  then show ?thesis using robot_handle_ok [OF inv assms(2,3)] by (auto simp: robot_inv_def)
qed

text \<open>The command that logs in a number of robots. With \<open>threads\<close> threads it creates the robots 0,
  1, ... up to \<open>threads\<close> times the whole quotient: all of the announced ones only when the number of threads
  divides their number, or there are fewer robots than threads. Else the manager, which compares its
  robots with the announced number, never reports a step of the test.\<close>

theorem HandleLoginEx_rounds_down:
  assumes "0 < threads" and "0 < count" and "count < 2 ^ 64"
  shows "\<exists>cs announced. HandleLoginEx threads account count = Some (cs, announced) \<and> int announced = count
    \<and> created_accounts cs = map (\<lambda>j. account @ show_int j) [0..min count (threads * max 1 (count div threads)) - 1]
    \<and> (length (created_accounts cs) = announced \<longleftrightarrow> count \<le> threads \<or> threads dvd count)
    \<and> (\<not> (count \<le> threads \<or> threads dvd count) \<longrightarrow>
         (\<forall>m. sm_wf (rm_robots m) \<and> fst ` set (rm_robots m) \<subseteq> set (created_accounts cs) \<longrightarrow> NotifyServer announced m = (m, None)))"
proof -
  let ?total = "min count (threads * max 1 (count div threads))" and ?n = "unat (word_of_int count :: u64)"
  have n: "int ?n = count" using assms by (simp add: unat_eq_nat_uint uint_word_of_int)
  obtain cs where cs: "HandleLoginEx threads account count = Some (cs, ?n)"
      "created_accounts cs = map (\<lambda>j. account @ show_int j) [0..?total - 1]"
    using HandleLoginEx_accounts [OF assms(1,2)] by blast
  have pos: "0 < ?total" using assms by (simp add: zero_less_mult_iff)
  have len: "int (length (created_accounts cs)) = ?total" using cs(2) pos by simp
  have all: "?total = count \<longleftrightarrow> count \<le> threads \<or> threads dvd count"
  proof (cases "count \<le> threads")
    case True
    then show ?thesis using assms by (cases "count = threads") (simp_all add: max_def)
  next
    case False
    then have "1 \<le> count div threads" using assms by (simp add: pos_imp_zdiv_pos_iff int_one_le_iff_zero_less)
    moreover have "threads * (count div threads) \<le> count" using assms(1) pos_mod_sign [of threads count] mult_div_mod_eq [of threads count] by linarith
    ultimately show ?thesis using False threads_times_quotient [of threads count] assms by auto
  qed
  have silent: "NotifyServer ?n m = (m, None)"
    if "sm_wf (rm_robots m)" "fst ` set (rm_robots m) \<subseteq> set (created_accounts cs)" "\<not> (count \<le> threads \<or> threads dvd count)" for m
  proof -
    have "?total < count" using that(3) all by linarith
    then have "int (length (created_accounts cs)) < int ?n" using len n by linarith
    then have "length (rm_robots m) < ?n" using length_keys_subset [OF that(1,2)] by linarith
    then show ?thesis by (simp add: NotifyServer_def)
  qed
  have "length (created_accounts cs) = ?n \<longleftrightarrow> ?total = count" using len n by linarith
  then have complete: "length (created_accounts cs) = ?n \<longleftrightarrow> count \<le> threads \<or> threads dvd count" by (simp only: all)
  show ?thesis
    by (intro exI conjI, rule cs(1), rule n, rule cs(2), rule complete) (use silent in blast)
qed


text \<open>The whole way of a robot: HTTP, login process, game process, world.\<close>

fun robot_run :: "(string \<times> int) option \<Rightarrow> (string \<Rightarrow> (int \<times> string \<times> int) option option) \<Rightarrow> robot_event list \<Rightarrow> Robot
    \<Rightarrow> (Robot \<times> robot_send list) option" where
  "robot_run appmgr json [] r = Some (r, [])"
| "robot_run appmgr json (e # events) r = do {
     (r1, es1) \<leftarrow> robot_handle appmgr json e r;
     (r2, es2) \<leftarrow> robot_run appmgr json events r1;
     Some (r2, es1 @ es2) }"

definition walk :: "robot_event list" where
  "walk = [Ev_Update, Ev_Connected \<lparr>sk_Socket = 3, sk_NetType = HttpConnector\<rparr>, Ev_Update, Ev_HttpResponse 200 ''{}'',
     Ev_Connected \<lparr>sk_Socket = 4, sk_NetType = TcpConnector\<rparr>, Ev_Disconnected \<lparr>sk_Socket = 3, sk_NetType = HttpConnector\<rparr>,
     Ev_Update, Ev_AccountCheckRs ARC_OK,
     Ev_PlayerList 0 NetIdentify_new [\<lparr>pl_sn = 77, pl_name = ''hero'', pl_gender = 1, pl_level = 1, pl_last_world = LastWorld_default,
        pl_last_dungeon = LastWorld_default\<rparr>],
     Ev_GameToken GameToken_ReturnCode_OK ''token'' ''game'' 7071, Ev_Connected \<lparr>sk_Socket = 5, sk_NetType = TcpConnector\<rparr>, Ev_Update,
     Ev_LoginByTokenRs 0, Ev_EnterWorld 3]"

definition sample_json :: "string \<Rightarrow> (int \<times> string \<times> int) option option" where
  "sample_json body = Some (Some (LHRC_OK, ''login'', 5401))"

lemma walk_reaches_the_world:
  "map_option (\<lambda>(r, es). (ro_pState r, ro_worldId r, map (\<lambda>e. case e of R_Connect c \<Rightarrow> nc_ip c | _ \<Rightarrow> '''') (filter (\<lambda>e. case e of R_Connect c \<Rightarrow> True | _ \<Rightarrow> False) es)))
     (robot_run (Some (''appmgr'', 5051)) sample_json walk (fst (Robot_Awake 1 ''a'' Robot_free)))
   = Some (Some Space_EnterWorld, 3, [''appmgr'', ''login'', ''game''])"
  by code_simp

text \<open>The first frame of a robot.\<close>

theorem robot_runs_safely_witness:
  "\<exists>r asked told r' es. (robot_step (Some (''appmgr'', 5051)) sample_json)\<^sup>*\<^sup>* (robot_start 1 ''a'') (r, asked, told)
     \<and> robot_handle (Some (''appmgr'', 5051)) sample_json (Ev_Connected \<lparr>sk_Socket = 3, sk_NetType = HttpConnector\<rparr>) r = Some (r', es)
     \<and> told = Some 0"
proof -
  let ?app = "Some (''appmgr'', 5051)" and ?r = "fst (Robot_Awake 1 ''a'' Robot_free)"
    and ?e = "Ev_Connected \<lparr>sk_Socket = 3, sk_NetType = HttpConnector\<rparr>"
  obtain r1 es1 where u: "robot_handle ?app sample_json Ev_Update ?r = Some (r1, es1)" "asks es1 = {8}" "ro_pState r1 = Some Http_Connecting"
    by (simp add: UpdateState_def ChangeState_def EnterState_def OnEnterState_defs OnUpdate_defs Robot_Awake_def InitStateTemplateMgr_def RegisterState_def
        Robot_free_def NetIdentify_new_def SocketKey_None_def Let_def RobotState_Update_def GetSocketKey_def
        less_RobotStateType_def account_connect_def CreateConnect_def)
  have "(robot_step ?app sample_json)\<^sup>*\<^sup>* (robot_start 1 ''a'') (r1, {} \<union> asks es1, reports es1 None)"
    using robot_step.robot_event [OF _ u(1), of "{}" None] by (auto simp: robot_start_def)
  then have steps: "(robot_step ?app sample_json)\<^sup>*\<^sup>* (robot_start 1 ''a'') (r1, {8}, reports es1 None)"
    using u(2) by simp
  have "enabled sample_json {8} ?e" by simp
  from robot_runs_safely [OF steps _ this] show ?thesis using steps u(3) by fastforce
qed

text \<open>Ten robots on four threads: eight are created.\<close>

theorem HandleLoginEx_rounds_down_witness:
  "\<exists>cs. HandleLoginEx 4 ''r'' 10 = Some (cs, 10) \<and> length (created_accounts cs) = 8
     \<and> NotifyServer 10 \<lparr>rm_isChange = True, rm_curType = 0, rm_robots = []\<rparr>
       = (\<lparr>rm_isChange = True, rm_curType = 0, rm_robots = []\<rparr>, None)"
  using HandleLoginEx_rounds_down [of 4 10 "''r''"] by auto

end
