(* ===== verification/Server_App.thy ===== *)
theory Server_App
  imports Thread_Mgr World_Table
begin

text \<open>
  \<open>server_app.{h,cpp}\<close> and the life of a process: the command line, the main loop, the bodies of
  the threads (\<open>Thread::Start\<close>), and the way down (\<open>IsStopAll\<close>, \<open>DestroyThread\<close>,
  \<open>IsDestroyAll\<close>, \<open>Dispose\<close>). A process is a step relation: a step is a turn of the main loop,
  the begin or the end of a thread's body, a signal, a line of the console that stops the process,
  or work of the threads, which changes only queues and packets. \<open>None\<close> is undefined behaviour or
  \<open>std::terminate\<close>.
\<close>

section \<open>The command line\<close>

text \<open>\<open>cmd.find(findcmd)\<close>.\<close>

fun find_text :: "string \<Rightarrow> string \<Rightarrow> nat option" where
  "find_text pat [] = (if pat = [] then Some 0 else None)"
| "find_text pat (c # s) = (if take (length pat) (c # s) = pat then Some 0 else map_option Suc (find_text pat s))"

text \<open>The first argument that holds \<open>-sid=\<close> gives the number of the process; \<open>std::stoi\<close> throws
  when what is left is not a number.\<close>

fun parse_sid :: "string list \<Rightarrow> int option" where
  "parse_sid [] = Some 0"
| "parse_sid (cmd # args) =
     (case find_text ''-sid='' cmd of
        None \<Rightarrow> parse_sid args
      | Some fi1 \<Rightarrow> stoi (take fi1 cmd @ drop (fi1 + length ''-sid='') cmd))"

section \<open>The process\<close>

text \<open>Where the main thread is in \<open>ServerApp::Run\<close>.\<close>

datatype Phase = Running | Stopping | Destroying | Exited

text \<open>\<open>pr_systems\<close>: the threads whose \<open>SystemManager\<close> still has its systems, by type of thread and
  number; \<open>pr_main\<close>: whether the main thread's still has.\<close>

record Process =
  pr_global :: Global
  pr_mgr :: ThreadMgr
  pr_packets :: packets
  pr_systems :: "(ThreadType \<times> u64) set"
  pr_main :: bool
  pr_phase :: Phase

definition ThreadMgr_new :: ThreadMgr where
  "ThreadMgr_new = \<lparr>tm_queue = CacheSwap_new, tm_threads = [], tm_createPackets = CacheSwap_new, tm_packets = CacheSwap_new\<rparr>"

definition thread_keys :: "ThreadMgr \<Rightarrow> (ThreadType \<times> u64) set" where
  "thread_keys m = (\<Union>(ty, c)\<in>set (tm_threads m). (\<lambda>(sn, t). (ty, sn)) ` set (Collector_threads c))"

definition ServerApp_Initialize :: "app_type \<Rightarrow> string list \<Rightarrow> AppConfig \<Rightarrow> u64 \<Rightarrow> Process option" where
  "ServerApp_Initialize appType argv cfg now = do {
     appId \<leftarrow> parse_sid (tl argv);
     (g, m) \<leftarrow> InitializeThread cfg (Global_new appType appId now, ThreadMgr_new);
     Some \<lparr>pr_global = g, pr_mgr = m, pr_packets = \<lambda>_. Packet_new, pr_systems = thread_keys m,
           pr_main = True, pr_phase = Running\<rparr> }"

definition set_stop :: "Process \<Rightarrow> Process" where
  "set_stop p = p\<lparr>pr_global := (pr_global p)\<lparr>g_IsStop := True\<rparr>\<rparr>"

text \<open>Numbers of signals on Linux; \<open>signal\<close> is called for \<open>SIGINT\<close> only, every other signal has its
  default action, which ends the process at once.\<close>

abbreviation (input) SIGINT :: int where "SIGINT \<equiv> 2"
abbreviation (input) SIGQUIT :: int where "SIGQUIT \<equiv> 3"
abbreviation (input) SIGTERM :: int where "SIGTERM \<equiv> 15"
abbreviation (input) SIGSTOP :: int where "SIGSTOP \<equiv> 19"

definition Signalhandler :: "int \<Rightarrow> Process \<Rightarrow> Process" where
  "Signalhandler signalValue p =
     (if signalValue = SIGSTOP \<or> signalValue = SIGQUIT \<or> signalValue = SIGTERM \<or> signalValue = SIGINT
      then set_stop p else p)"

definition registered_signals :: "int list" where
  "registered_signals = [SIGINT]"

text \<open>\<open>SystemManager::Dispose\<close> deletes the systems and sets the pointers to null: a second call goes
  through a null pointer.\<close>

definition SystemManager_Dispose :: "ThreadType \<times> u64 \<Rightarrow> (ThreadType \<times> u64) set \<Rightarrow> (ThreadType \<times> u64) set option" where
  "SystemManager_Dispose k S = (if k \<in> S then Some (S - {k}) else None)"

definition Thread_Dispose :: "ThreadType \<times> u64 \<Rightarrow> Thread \<Rightarrow> (ThreadType \<times> u64) set \<Rightarrow> (ThreadType \<times> u64) set option" where
  "Thread_Dispose k t S = (if th_state t = TS_Destroy then Some S else SystemManager_Dispose k S)"

text \<open>\<open>CacheRefresh::Dispose\<close> on threads; the destructor of a joinable \<open>std::thread\<close> terminates.\<close>

fun dispose_threads :: "ThreadType \<Rightarrow> (u64, Thread) smap \<Rightarrow> (ThreadType \<times> u64) set \<Rightarrow> (ThreadType \<times> u64) set option" where
  "dispose_threads ty [] S = Some S"
| "dispose_threads ty ((sn, t) # m) S = do {
     S1 \<leftarrow> Thread_Dispose (ty, sn) t S;
     (if th_joinable t then None else dispose_threads ty m S1) }"

definition ThreadCollector_Dispose :: "ThreadType \<Rightarrow> ThreadCollector \<Rightarrow> (ThreadType \<times> u64) set \<Rightarrow> (ThreadType \<times> u64) set option" where
  "ThreadCollector_Dispose ty c S =
     Option.bind (dispose_threads ty (cr_adds (tc_threads c)) S) (dispose_threads ty (cr_objs (tc_threads c)))"

fun dispose_collectors :: "(ThreadType, ThreadCollector) smap \<Rightarrow> (ThreadType \<times> u64) set \<Rightarrow> (ThreadType \<times> u64) set option" where
  "dispose_collectors [] S = Some S"
| "dispose_collectors ((ty, c) # cs) S = Option.bind (ThreadCollector_Dispose ty c S) (dispose_collectors cs)"

definition ThreadMgr_Dispose :: "Process \<Rightarrow> Process option" where
  "ThreadMgr_Dispose p =
     (if \<not> pr_main p then None
      else map_option (\<lambda>S. p\<lparr>pr_main := False, pr_systems := S, pr_mgr := (pr_mgr p)\<lparr>tm_threads := []\<rparr>\<rparr>)
             (dispose_collectors (tm_threads (pr_mgr p)) (pr_systems p)))"

text \<open>One turn of the main thread in \<open>ServerApp::Run\<close>: of the loop, or of one of the two waits. The
  systems of the main thread's own frame are in \<open>step_work\<close> below.\<close>

definition main_step :: "(packet \<Rightarrow> ThreadType \<times> bool) \<Rightarrow> u64 \<Rightarrow> Process \<Rightarrow> Process option" where
  "main_step dec now p = (case pr_phase p of
     Running \<Rightarrow>
       (if g_IsStop (pr_global p) then Some (p\<lparr>pr_phase := Stopping\<rparr>)
        else do {
          mh \<leftarrow> UpdateCreatePacket dec (pr_mgr p, pr_packets p);
          (m, h) \<leftarrow> UpdateDispatchPacket mh;
          Some (p\<lparr>pr_global := UpdateTime now (pr_global p), pr_mgr := m, pr_packets := h\<rparr>) })
   | Stopping \<Rightarrow>
       (if ThreadMgr_IsStopAll (pr_mgr p)
        then Some (p\<lparr>pr_mgr := ThreadMgr_DestroyThread (pr_mgr p), pr_phase := Destroying\<rparr>) else Some p)
   | Destroying \<Rightarrow>
       (if ThreadMgr_IsDestroyAll (pr_mgr p)
        then map_option (\<lambda>p1. p1\<lparr>pr_phase := Exited\<rparr>) (ThreadMgr_Dispose p) else Some p)
   | Exited \<Rightarrow> Some p)"

text \<open>The body of a thread: \<open>InitComponent\<close>, then the state; turns of its loop until the process
  stops; then \<open>Dispose\<close> and the state.\<close>

definition on_thread :: "ThreadType \<Rightarrow> u64 \<Rightarrow> (Thread \<Rightarrow> Thread) \<Rightarrow> ThreadMgr \<Rightarrow> ThreadMgr" where
  "on_thread ty sn f m = m\<lparr>tm_threads := map (\<lambda>(ty', c). (ty',
     set_threads (map (\<lambda>(sn', t). (sn', if ty' = ty \<and> sn' = sn then f t else t)) (Collector_threads c)) c)) (tm_threads m)\<rparr>"

definition thread_at :: "ThreadMgr \<Rightarrow> ThreadType \<Rightarrow> u64 \<Rightarrow> Thread option" where
  "thread_at m ty sn = Option.bind (sm_find (tm_threads m) ty) (\<lambda>c. sm_find (Collector_threads c) sn)"

definition Start_begins :: "ThreadType \<Rightarrow> u64 \<Rightarrow> Process \<Rightarrow> Process" where
  "Start_begins ty sn p = p\<lparr>pr_mgr := on_thread ty sn Thread_body_begins (pr_mgr p)\<rparr>"

definition Start_ends :: "ThreadType \<Rightarrow> u64 \<Rightarrow> Thread \<Rightarrow> Process \<Rightarrow> Process option" where
  "Start_ends ty sn t p =
     map_option (\<lambda>S. p\<lparr>pr_systems := S, pr_mgr := on_thread ty sn Thread_body_ends (pr_mgr p)\<rparr>)
       (Thread_Dispose (ty, sn) t (pr_systems p))"

text \<open>What turns of the threads change: the contents of queues.\<close>

definition set_queues :: "(ThreadType \<Rightarrow> u64 \<Rightarrow> addr CacheSwap) \<Rightarrow> ThreadMgr \<Rightarrow> ThreadMgr" where
  "set_queues qs m = m\<lparr>tm_threads := map (\<lambda>(ty, c). (ty,
     set_threads (map (\<lambda>(sn, t). (sn, t\<lparr>th_queue := qs ty sn\<rparr>)) (Collector_threads c)) c)) (tm_threads m)\<rparr>"

inductive process_step :: "(packet \<Rightarrow> ThreadType \<times> bool) \<Rightarrow> Process \<Rightarrow> Process \<Rightarrow> bool" for dec where
  step_main: "main_step dec now p = Some p' \<Longrightarrow> process_step dec p p'"
| step_signal: "v \<in> set registered_signals \<Longrightarrow> process_step dec p (Signalhandler v p)"
| step_exit_line: "process_step dec p (set_stop p)"
| step_begins: "thread_at (pr_mgr p) ty sn = Some t \<Longrightarrow> th_state t = TS_Init \<Longrightarrow> th_joinable t \<Longrightarrow>
    process_step dec p (Start_begins ty sn p)"
| step_ends: "thread_at (pr_mgr p) ty sn = Some t \<Longrightarrow> th_state t = TS_Run \<Longrightarrow> g_IsStop (pr_global p) \<Longrightarrow>
    Start_ends ty sn t p = Some p' \<Longrightarrow> process_step dec p p'"
| step_work: "process_step dec p (p\<lparr>pr_packets := h,
    pr_mgr := (set_queues qs (pr_mgr p))\<lparr>tm_queue := a, tm_createPackets := b, tm_packets := c\<rparr>\<rparr>)"

inductive_cases process_stepE: "process_step dec p p'"


section \<open>What of the threads the life of the process depends on\<close>

type_synonym collector_view = "bool \<times> (u64 \<times> ThreadState \<times> bool) list"

definition cview :: "ThreadCollector \<Rightarrow> collector_view" where
  "cview c = (cr_adds (tc_threads c) = [], map (\<lambda>(sn, t). (sn, th_state t, th_joinable t)) (Collector_threads c))"

definition tview :: "(ThreadType, ThreadCollector) smap \<Rightarrow> (ThreadType \<times> collector_view) list" where
  "tview cs = map (\<lambda>(ty, c). (ty, cview c)) cs"

lemma tview_simps [simp]: "tview [] = []" "tview ((ty, c) # cs) = (ty, cview c) # tview cs"
  by (simp_all add: tview_def)

lemma cview_queue_on [simp]:
  "cview (set_threads (queue_on p P (Collector_threads c)) c) = cview c"
  "cview (c\<lparr>tc_nextThreadSn := n\<rparr>) = cview c"
  by (auto simp: cview_def set_threads_def Collector_threads_def queue_on_def split: if_splits)

lemma sm_wf_fst_cview: "sm_wf (snd (cview c)) = sm_wf (Collector_threads c)" "snd (cview c) = [] \<longleftrightarrow> Collector_threads c = []"
  by (simp_all add: cview_def sm_wf_keys case_prod_unfold comp_def)

lemma collector_wf_cview: "collector_wf c \<longleftrightarrow> sm_wf (snd (cview c)) \<and> snd (cview c) \<noteq> []"
  by (simp add: collector_wf_def sm_wf_fst_cview)

lemma threads_wf_tview: "threads_wf cs \<longleftrightarrow> (\<forall>(ty, a, ts)\<in>set (tview cs). sm_wf ts \<and> ts \<noteq> [])"
  by (auto simp: threads_wf_def tview_def collector_wf_cview split_beta)

lemma sm_wf_tview: "sm_wf (tview cs) = sm_wf cs"
  by (simp add: sm_wf_keys tview_def case_prod_unfold comp_def)

text \<open>Dispatching changes queues only.\<close>

lemma HandlerCreateMessage_view:
  assumes "collector_wf c"
  shows "\<exists>c1 h1. HandlerCreateMessage p a (c, h) = Some (c1, h1) \<and> cview c1 = cview c"
  using assms queue_next_ok [OF assms, of p h]
  by (cases a) (auto simp: HandlerCreateMessage_def queue_all_on)

lemma HandlerMessage_view:
  assumes "collector_wf c"
  shows "\<exists>c1 h1. HandlerMessage p (c, h) = Some (c1, h1) \<and> cview c1 = cview c"
  using queue_next_ok [OF assms, of p h] HandlerCreateMessage_view [OF assms, of p True h]
  by (auto simp: HandlerMessage_def queue_all_on)

lemma handle_all_view:
  "threads_wf cs \<Longrightarrow> \<exists>cs1 h1. handle_all p cs h = Some (cs1, h1) \<and> tview cs1 = tview cs"
proof (induction cs arbitrary: h)
  case (Cons x cs)
  obtain ty c where x: "x = (ty, c)" by (cases x)
  then have "collector_wf c" "threads_wf cs" using Cons.prems by (auto simp: threads_wf_def)
  moreover from HandlerMessage_view [OF this(1)] obtain c1 h1 where "HandlerMessage p (c, h) = Some (c1, h1)" "cview c1 = cview c"
    by blast
  ultimately show ?case using Cons.IH [of h1] by (auto simp: x)
qed simp

lemma dispatch_packets_view:
  "threads_wf (tm_threads m) \<Longrightarrow> \<exists>m1 h1. dispatch_packets ps (m, h) = Some (m1, h1) \<and> tview (tm_threads m1) = tview (tm_threads m)"
proof (induction ps arbitrary: m h)
  case (Cons p ps)
  obtain q h0 where q: "queue_packet p (tm_queue m, h) = (q, h0)" by fastforce
  from handle_all_view [OF Cons.prems, of p h0] obtain cs h1 where
    cs: "handle_all p (tm_threads m) h0 = Some (cs, h1)" "tview cs = tview (tm_threads m)" by blast
  let ?m1 = "m\<lparr>tm_queue := q, tm_threads := cs\<rparr>"
  have "threads_wf (tm_threads ?m1)" using Cons.prems cs(2) by (simp add: threads_wf_tview)
  from Cons.IH [OF this, of "open_ref p h1"] show ?case using cs q by (auto simp: dispatch_packet_def)
qed simp

lemma UpdateDispatchPacket_view:
  assumes "threads_wf (tm_threads m)"
  shows "\<exists>m1 h1. UpdateDispatchPacket (m, h) = Some (m1, h1) \<and> tview (tm_threads m1) = tview (tm_threads m)"
proof -
  let ?l = "if CacheSwap_CanSwap (tm_packets m) then CacheSwap_Swap (tm_packets m) else tm_packets m"
  from dispatch_packets_view [of "m\<lparr>tm_packets := ?l\<rparr>" "GetReaderCache ?l" h] assms
  show ?thesis by (auto simp: UpdateDispatchPacket_def Let_def)
qed

lemma tview_assign:
  assumes "sm_wf cs" and "sm_find cs ty = Some c" and "cview c1 = cview c"
  shows "tview (sm_assign ty c1 cs) = tview cs"
proof -
  have "(ty, c) \<in> set cs" using assms(1,2) by (simp add: sm_find_in_set)
  from sm_assign_present [OF assms(1) this]
  have eq: "sm_assign ty c1 cs = map (\<lambda>(j, u). (j, if j = ty then c1 else u)) cs" .
  have "cview d = cview c1" if "(ty, d) \<in> set cs" for d using that assms by (simp add: sm_find_in_set)
  then show ?thesis unfolding eq tview_def map_map by (intro map_cong refl) (auto split: if_splits)
qed

lemma create_packets_view:
  "threads_wf (tm_threads m) \<Longrightarrow> sm_wf (tm_threads m) \<Longrightarrow>
    \<exists>m1 h1. create_packets dec ps (m, h) = Some (m1, h1) \<and> tview (tm_threads m1) = tview (tm_threads m)"
proof (induction ps arbitrary: m h)
  case (Cons p ps)
  have "\<exists>m1 h1. create_packet dec p (m, h) = Some (m1, h1) \<and> tview (tm_threads m1) = tview (tm_threads m)"
  proof (cases "sm_find (tm_threads m) (fst (dec (h p)))")
    case None
    then show ?thesis by (auto simp: create_packet_def case_prod_unfold Let_def)
  next
    case (Some c)
    then have "collector_wf c" using Cons.prems by (auto simp: threads_wf_def sm_find_in_set [symmetric])
    from HandlerCreateMessage_view [OF this, of p "snd (dec (h p))" h] obtain c1 h1 where
      "HandlerCreateMessage p (snd (dec (h p))) (c, h) = Some (c1, h1)" "cview c1 = cview c" by blast
    then show ?thesis using Some tview_assign [OF Cons.prems(2) Some] by (auto simp: create_packet_def case_prod_unfold)
  qed
  then obtain m1 h1 where m1: "create_packet dec p (m, h) = Some (m1, h1)" "tview (tm_threads m1) = tview (tm_threads m)" by blast
  have "threads_wf (tm_threads m1)" "sm_wf (tm_threads m1)"
    using Cons.prems m1(2) by (simp_all add: threads_wf_tview sm_wf_tview [symmetric])
  from Cons.IH [OF this, of h1] show ?case using m1 by auto
qed simp

lemma UpdateCreatePacket_view:
  assumes "threads_wf (tm_threads m)" and "sm_wf (tm_threads m)"
  shows "\<exists>m1 h1. UpdateCreatePacket dec (m, h) = Some (m1, h1) \<and> tview (tm_threads m1) = tview (tm_threads m)"
proof -
  let ?l = "if CacheSwap_CanSwap (tm_createPackets m) then CacheSwap_Swap (tm_createPackets m) else tm_createPackets m"
  from create_packets_view [of "m\<lparr>tm_createPackets := ?l\<rparr>" dec "GetReaderCache ?l" h] assms
  show ?thesis by (auto simp: UpdateCreatePacket_def Let_def)
qed


section \<open>The invariant of a process\<close>

abbreviation pview :: "Process \<Rightarrow> (ThreadType \<times> collector_view) list" where
  "pview p \<equiv> tview (tm_threads (pr_mgr p))"

definition has_thread :: "(ThreadType \<times> collector_view) list \<Rightarrow> ThreadType \<Rightarrow> u64 \<Rightarrow> ThreadState \<Rightarrow> bool \<Rightarrow> bool" where
  "has_thread V ty sn s j \<longleftrightarrow> (\<exists>r\<in>set V. fst r = ty \<and> (sn, s, j) \<in> set (snd (snd r)))"

definition live :: "(ThreadType \<times> collector_view) list \<Rightarrow> (ThreadType \<times> u64) set" where
  "live V = {(ty, sn). \<exists>s j. has_thread V ty sn s j \<and> s \<noteq> TS_Stop \<and> s \<noteq> TS_Destroy}"

text \<open>Until the threads are destroyed they are joinable, and stopped only when the process stops.\<close>

definition state_ok :: "Process \<Rightarrow> ThreadState \<Rightarrow> bool \<Rightarrow> bool" where
  "state_ok p s j \<longleftrightarrow>
     (if pr_phase p = Running \<or> pr_phase p = Stopping
      then j \<and> s \<noteq> TS_Destroy \<and> (s = TS_Stop \<longrightarrow> g_IsStop (pr_global p)) else \<not> j \<and> s = TS_Destroy)"

definition row_ok :: "ThreadType \<times> collector_view \<Rightarrow> bool" where
  "row_ok r \<longleftrightarrow> fst (snd r) \<and> sm_wf (snd (snd r)) \<and> snd (snd r) \<noteq> []"

definition threads_ok :: "Process \<Rightarrow> (ThreadType \<times> collector_view) list \<Rightarrow> bool" where
  "threads_ok p V \<longleftrightarrow> sm_wf V \<and> list_all row_ok V \<and> (\<forall>ty sn s j. has_thread V ty sn s j \<longrightarrow> state_ok p s j)"

definition proc_inv :: "Process \<Rightarrow> bool" where
  "proc_inv p \<longleftrightarrow> threads_ok p (pview p) \<and> pr_systems p = live (pview p) \<and> (pr_main p \<longleftrightarrow> pr_phase p \<noteq> Exited)
     \<and> (pr_phase p \<noteq> Running \<longrightarrow> g_IsStop (pr_global p)) \<and> (pr_phase p = Exited \<longrightarrow> pview p = [])"

lemma threads_ok_wf: "threads_ok p (pview p) \<Longrightarrow> threads_wf (tm_threads (pr_mgr p)) \<and> sm_wf (tm_threads (pr_mgr p))"
  by (auto simp: threads_ok_def threads_wf_tview sm_wf_tview list_all_iff row_ok_def)

text \<open>How far a stopping process is from its end.\<close>

fun state_rank :: "ThreadState \<Rightarrow> nat" where
  "state_rank TS_Init = 2" | "state_rank TS_Run = 1" | "state_rank TS_Stop = 0" | "state_rank TS_Destroy = 0"

fun phase_rank :: "Phase \<Rightarrow> nat" where
  "phase_rank Running = 3" | "phase_rank Stopping = 2" | "phase_rank Destroying = 1" | "phase_rank Exited = 0"

definition threads_rank :: "(ThreadType \<times> collector_view) list \<Rightarrow> nat" where
  "threads_rank V = (\<Sum>(ty, a, ts)\<leftarrow>V. \<Sum>(sn, s, j)\<leftarrow>ts. state_rank s)"

definition steps_to_exit :: "Process \<Rightarrow> nat" where
  "steps_to_exit p = phase_rank (pr_phase p) + threads_rank (pview p)"

lemma sum_list_one_less:
  fixes f g :: "'a \<Rightarrow> nat"
  assumes "\<And>x. x \<in> set xs \<Longrightarrow> f x \<le> g x" and "y \<in> set xs" and "f y < g y"
  shows "sum_list (map f xs) < sum_list (map g xs)"
  using assms
proof (induction xs)
  case (Cons x xs)
  have "sum_list (map f xs) \<le> sum_list (map g xs)" using Cons.prems(1) by (intro sum_list_mono) simp
  with Cons show ?case by (cases "x = y") (auto simp: add_le_less_mono add_less_le_mono)
qed simp

section \<open>The steps on views\<close>

definition set_state :: "ThreadType \<Rightarrow> u64 \<Rightarrow> ThreadState \<Rightarrow> (ThreadType \<times> collector_view) list \<Rightarrow> (ThreadType \<times> collector_view) list" where
  "set_state ty sn s V = map (\<lambda>(ty', a, ts). (ty', a, map (\<lambda>(sn', s', j). (sn', if ty' = ty \<and> sn' = sn then s else s', j)) ts)) V"

lemma tview_on_thread:
  assumes "\<And>t. th_state (f t) = s \<and> th_joinable (f t) = th_joinable t"
  shows "tview (tm_threads (on_thread ty sn f m)) = set_state ty sn s (tview (tm_threads m))"
  using assms by (auto simp: tview_def on_thread_def set_state_def cview_def set_threads_def Collector_threads_def split: if_splits)

lemma tview_set_queues: "tview (tm_threads (set_queues qs m)) = tview (tm_threads m)"
  by (auto simp: tview_def set_queues_def cview_def set_threads_def Collector_threads_def)

lemma has_thread_simps [simp]:
  "\<not> has_thread [] ty sn s j"
  "has_thread (r # V) ty sn s j \<longleftrightarrow> fst r = ty \<and> (sn, s, j) \<in> set (snd (snd r)) \<or> has_thread V ty sn s j"
  by (auto simp: has_thread_def)

lemma cview_row: "(sn, s, j) \<in> set (snd (cview c)) \<longleftrightarrow>
    (\<exists>t. (sn, t) \<in> set (Collector_threads c) \<and> s = th_state t \<and> j = th_joinable t)"
  by (simp add: cview_def image_iff case_prod_unfold) force

lemma has_thread_tview: "has_thread (tview cs) ty sn s j \<longleftrightarrow>
    (\<exists>(ty', c)\<in>set cs. ty' = ty \<and> (\<exists>t. (sn, t) \<in> set (Collector_threads c) \<and> s = th_state t \<and> j = th_joinable t))"
  by (induction cs) (auto simp: cview_row)

lemma thread_at_view:
  assumes "thread_at m ty sn = Some t"
  shows "has_thread (tview (tm_threads m)) ty sn (th_state t) (th_joinable t)"
proof -
  obtain c where "sm_find (tm_threads m) ty = Some c" "sm_find (Collector_threads c) sn = Some t"
    using assms by (auto simp: thread_at_def split: bind_splits)
  then have "(ty, c) \<in> set (tm_threads m)" "(sn, t) \<in> set (Collector_threads c)" by (auto dest: map_of_SomeD)
  then show ?thesis unfolding has_thread_tview by blast
qed

lemma threads_okD:
  assumes "threads_ok p V"
  shows "has_thread V ty sn s j \<Longrightarrow> state_ok p s j"
    and "has_thread V ty sn s j \<Longrightarrow> has_thread V ty sn s' j' \<Longrightarrow> s' = s \<and> j' = j"
proof -
  show "has_thread V ty sn s j \<Longrightarrow> state_ok p s j" using assms by (simp add: threads_ok_def)
  assume "has_thread V ty sn s j" "has_thread V ty sn s' j'"
  then obtain x x' where h: "(ty, x) \<in> set V" "(sn, s, j) \<in> set (snd x)" "(ty, x') \<in> set V" "(sn, s', j') \<in> set (snd x')"
    by (auto simp: has_thread_def)
  have wf: "sm_wf V" "sm_wf (snd x)" using assms h by (auto simp: threads_ok_def list_all_iff row_ok_def)
  have "sm_find V ty = Some x" "sm_find V ty = Some x'" using h wf by (simp_all add: sm_find_in_set [symmetric])
  then have "x' = x" by simp
  then have "sm_find (snd x) sn = Some (s, j)" "sm_find (snd x) sn = Some (s', j')"
    using h wf by (simp_all add: sm_find_in_set [symmetric])
  then show "s' = s \<and> j' = j" by simp
qed

lemma set_state_row:
  "(sn', s', j') \<in> set (map (\<lambda>(k, x, j). (k, if P k then s else x, j)) ts) \<longleftrightarrow>
     (if P sn' then s' = s \<and> (\<exists>s0. (sn', s0, j') \<in> set ts) else (sn', s', j') \<in> set ts)"
  by (induction ts) auto

lemma set_state_Cons: "set_state ty sn s ((ty', a, ts) # V) =
    (ty', a, map (\<lambda>(k, x, j). (k, if ty' = ty \<and> k = sn then s else x, j)) ts) # set_state ty sn s V"
  by (simp add: set_state_def)

lemma has_thread_set_state:
  "has_thread (set_state ty sn s V) ty sn s' j' \<longleftrightarrow> s' = s \<and> (\<exists>s0. has_thread V ty sn s0 j')"
  "\<not> (ty' = ty \<and> sn' = sn) \<Longrightarrow> has_thread (set_state ty sn s V) ty' sn' = has_thread V ty' sn'"
proof -
  show "has_thread (set_state ty sn s V) ty sn s' j' \<longleftrightarrow> s' = s \<and> (\<exists>s0. has_thread V ty sn s0 j')"
  proof (induction V)
    case (Cons r V)
    obtain ty1 a ts where r: "r = (ty1, a, ts)" by (cases r)
    show ?case using Cons unfolding r set_state_Cons has_thread_simps fst_conv snd_conv set_state_row by auto
  qed (simp add: set_state_def)
  assume n: "\<not> (ty' = ty \<and> sn' = sn)"
  show "has_thread (set_state ty sn s V) ty' sn' = has_thread V ty' sn'"
  proof (intro ext, induction V)
    case (Cons r V)
    obtain ty1 a ts where r: "r = (ty1, a, ts)" by (cases r)
    show ?case using Cons n unfolding r set_state_Cons has_thread_simps fst_conv snd_conv set_state_row by auto
  qed (simp add: set_state_def)
qed

lemma sm_wf_set_state [simp]: "sm_wf (set_state ty sn s V) = sm_wf V"
  "sm_wf (map (\<lambda>(k, x, j). (k, f k x, j)) ts) = sm_wf ts"
  by (simp_all add: sm_wf_keys set_state_def comp_def case_prod_unfold)

lemma threads_ok_set_state:
  assumes ok: "threads_ok p V" and at: "has_thread V ty sn s0 j0" and s: "state_ok p s j0"
  shows "threads_ok p (set_state ty sn s V)"
proof -
  have "state_ok p s' j'" if h: "has_thread (set_state ty sn s V) ty' sn' s' j'" for ty' sn' s' j'
  proof (cases "ty' = ty \<and> sn' = sn")
    case True
    then obtain s1 where "s' = s" "has_thread V ty sn s1 j'" using h has_thread_set_state(1) by blast
    then show ?thesis using threads_okD(2) [OF ok at] s by blast
  next
    case False
    then have "has_thread V ty' sn' s' j'" using h has_thread_set_state(2) by metis
    then show ?thesis by (rule threads_okD(1) [OF ok])
  qed
  moreover have "list_all row_ok (set_state ty sn s V)"
    using ok by (auto simp: threads_ok_def set_state_def row_ok_def list_all_iff)
  ultimately show ?thesis using ok by (simp add: threads_ok_def)
qed

lemma live_iff: "(ty, sn) \<in> live V \<longleftrightarrow> (\<exists>s j. has_thread V ty sn s j \<and> s \<noteq> TS_Stop \<and> s \<noteq> TS_Destroy)"
  by (simp add: live_def)

lemma live_set_state:
  assumes at: "has_thread V ty sn s0 j0"
  shows "s \<noteq> TS_Stop \<Longrightarrow> s \<noteq> TS_Destroy \<Longrightarrow> live (set_state ty sn s V) = insert (ty, sn) (live V)"
    and "live (set_state ty sn TS_Stop V) = live V - {(ty, sn)}"
proof -
  have here: "(ty, sn) \<in> live (set_state ty sn s V) \<longleftrightarrow> s \<noteq> TS_Stop \<and> s \<noteq> TS_Destroy" for s
    using at by (auto simp: live_iff has_thread_set_state(1))
  have others: "k \<in> live (set_state ty sn s V) \<longleftrightarrow> k \<in> live V" if "k \<noteq> (ty, sn)" for k s
    using that by (cases k) (simp add: live_iff has_thread_set_state(2))
  show "s \<noteq> TS_Stop \<Longrightarrow> s \<noteq> TS_Destroy \<Longrightarrow> live (set_state ty sn s V) = insert (ty, sn) (live V)"
    by (intro set_eqI) (metis here others insert_iff)
  show "live (set_state ty sn TS_Stop V) = live V - {(ty, sn)}"
    by (intro set_eqI) (metis here others Diff_iff insert_iff empty_iff)
qed

lemma threads_rank_set_state:
  assumes ok: "threads_ok p V" and at: "has_thread V ty sn s0 j0" and less: "state_rank s < state_rank s0"
  shows "threads_rank (set_state ty sn s V) < threads_rank V"
proof -
  have same: "s' = s0" if "(ty, a, ts) \<in> set V" "(sn, s', j') \<in> set ts" for a ts s' j'
  proof -
    have "has_thread V ty sn s' j'" unfolding has_thread_def using that by force
    then show ?thesis using threads_okD(2) [OF ok at] by blast
  qed
  obtain a0 ts0 where in0: "(ty, a0, ts0) \<in> set V" "(sn, s0, j0) \<in> set ts0" using at by (auto simp: has_thread_def)
  let ?row = "\<lambda>(ty' :: ThreadType, a :: bool, ts). \<Sum>(sn', s', j :: bool)\<leftarrow>ts. state_rank (if ty' = ty \<and> sn' = sn then s else s')"
  let ?was = "\<lambda>(ty' :: ThreadType, a :: bool, ts). \<Sum>(sn' :: u64, s', j :: bool)\<leftarrow>ts. state_rank s'"
  have le: "state_rank (if ty' = ty \<and> sn' = sn then s else s') \<le> state_rank s'"
    if "(ty', a, ts) \<in> set V" "(sn', s', j') \<in> set ts" for ty' a ts sn' s' j'
    using that same less by auto
  have "?row x \<le> ?was x" if "x \<in> set V" for x
  proof -
    obtain ty' a ts where x: "x = (ty', a, ts)" by (cases x)
    have "(\<Sum>(sn', s', j)\<leftarrow>ts. state_rank (if ty' = ty \<and> sn' = sn then s else s')) \<le> (\<Sum>(sn', s', j)\<leftarrow>ts. state_rank s')"
    proof (intro sum_list_mono)
      fix y assume "y \<in> set ts"
      with le [of ty' a ts "fst y" "fst (snd y)" "snd (snd y)"] that x
      show "(case y of (sn', s', j) \<Rightarrow> state_rank (if ty' = ty \<and> sn' = sn then s else s')) \<le> (case y of (sn', s', j) \<Rightarrow> state_rank s')"
        by (simp add: case_prod_unfold)
    qed
    then show ?thesis by (simp add: x)
  qed
  moreover have "?row (ty, a0, ts0) < ?was (ty, a0, ts0)"
  proof -
    let ?f = "\<lambda>(sn', s', j :: bool). state_rank (if ty = ty \<and> sn' = sn then s else s')"
    let ?g = "\<lambda>(sn' :: u64, s', j :: bool). state_rank s'"
    have "?f x \<le> ?g x" if "x \<in> set ts0" for x
      using le [OF in0(1), of "fst x" "fst (snd x)" "snd (snd x)"] that by (simp add: case_prod_unfold)
    moreover have "?f (sn, s0, j0) < ?g (sn, s0, j0)" using less by simp
    ultimately have "sum_list (map ?f ts0) < sum_list (map ?g ts0)" by (rule sum_list_one_less [OF _ in0(2)])
    then show ?thesis unfolding prod.case .
  qed
  ultimately have "sum_list (map ?row V) < sum_list (map ?was V)"
    by (intro sum_list_one_less [OF _ in0(1)]) auto
  moreover have "threads_rank (set_state ty sn s V) = sum_list (map ?row V)"
    by (simp add: threads_rank_def set_state_def comp_def case_prod_unfold)
  ultimately show ?thesis by (simp add: threads_rank_def)
qed

section \<open>Every step keeps the invariant\<close>

lemma all_threads_tview:
  "list_all (\<lambda>(ty, c). list_all (\<lambda>(sn, t). P (th_state t)) (Collector_threads c)) cs
     \<longleftrightarrow> (\<forall>ty sn s j. has_thread (tview cs) ty sn s j \<longrightarrow> P s)" (is "?all \<longleftrightarrow> ?view")
proof
  assume ?all
  then show ?view unfolding has_thread_tview by (fastforce simp: list_all_iff)
next
  assume ?view
  moreover have "has_thread (tview cs) ty sn (th_state t) (th_joinable t)"
    if "(ty, c) \<in> set cs" "(sn, t) \<in> set (Collector_threads c)" for ty c sn t
    using that unfolding has_thread_tview by blast
  ultimately show ?all unfolding list_all_iff by blast
qed

lemma IsAll_view:
  "ThreadMgr_IsStopAll m \<longleftrightarrow> (\<forall>ty sn s j. has_thread (tview (tm_threads m)) ty sn s j \<longrightarrow> s = TS_Stop)"
  "ThreadMgr_IsDestroyAll m \<longleftrightarrow> (\<forall>ty sn s j. has_thread (tview (tm_threads m)) ty sn s j \<longrightarrow> s = TS_Destroy)"
  unfolding all_threads_tview [symmetric] ThreadMgr_IsStopAll_def Collector_IsStopAll_def Thread_IsStop_def
    ThreadMgr_IsDestroyAll_def Collector_IsDestroyAll_def Thread_IsDestroy_def
  by (rule refl)+

lemma Collector_DestroyThread_view:
  "row_ok (ty, cview (Collector_DestroyThread c)) = row_ok (ty, cview c)"
  by (simp add: row_ok_def cview_def sm_wf_keys Collector_DestroyThread_def set_threads_def Collector_threads_def case_prod_unfold comp_def)

lemma DestroyThread_view:
  "sm_wf (tview (tm_threads (ThreadMgr_DestroyThread m))) = sm_wf (tview (tm_threads m))"
  "list_all row_ok (tview (tm_threads (ThreadMgr_DestroyThread m))) = list_all row_ok (tview (tm_threads m))"
  "has_thread (tview (tm_threads (ThreadMgr_DestroyThread m))) ty sn s j \<Longrightarrow>
     \<exists>s0 j0. has_thread (tview (tm_threads m)) ty sn s0 j0 \<and> (j0 \<and> s0 \<noteq> TS_Destroy \<longrightarrow> s = TS_Destroy \<and> \<not> j)"
proof -
  show "sm_wf (tview (tm_threads (ThreadMgr_DestroyThread m))) = sm_wf (tview (tm_threads m))"
    by (simp add: sm_wf_keys tview_def ThreadMgr_DestroyThread_def comp_def case_prod_unfold)
  show "list_all row_ok (tview (tm_threads (ThreadMgr_DestroyThread m))) = list_all row_ok (tview (tm_threads m))"
    by (simp add: tview_def ThreadMgr_DestroyThread_def list_all_iff case_prod_unfold Collector_DestroyThread_view)
  assume "has_thread (tview (tm_threads (ThreadMgr_DestroyThread m))) ty sn s j"
  then obtain c t where "(ty, c) \<in> set (tm_threads m)" "(sn, t) \<in> set (Collector_threads c)"
      "s = th_state (Thread_DestroyThread t)" "j = th_joinable (Thread_DestroyThread t)"
    unfolding has_thread_tview by (auto simp: ThreadMgr_DestroyThread_def Collector_DestroyThread_def)
  moreover from this(1,2) have "has_thread (tview (tm_threads m)) ty sn (th_state t) (th_joinable t)"
    unfolding has_thread_tview by blast
  ultimately show "\<exists>s0 j0. has_thread (tview (tm_threads m)) ty sn s0 j0 \<and> (j0 \<and> s0 \<noteq> TS_Destroy \<longrightarrow> s = TS_Destroy \<and> \<not> j)"
    by (intro exI [of _ "th_state t"] exI [of _ "th_joinable t"]) (simp add: Thread_DestroyThread_def)
qed

text \<open>Disposing destroyed and joined threads disposes nothing a second time.\<close>

lemma dispose_threads_destroyed:
  "\<forall>(sn, t)\<in>set ts. th_state t = TS_Destroy \<and> \<not> th_joinable t \<Longrightarrow> dispose_threads ty ts S = Some S"
  by (induction ts) (auto simp: Thread_Dispose_def)

lemma dispose_collectors_destroyed:
  assumes "\<And>ty sn s j. has_thread (tview cs) ty sn s j \<Longrightarrow> s = TS_Destroy \<and> \<not> j"
    and "\<And>ty c. (ty, c) \<in> set cs \<Longrightarrow> cr_adds (tc_threads c) = []"
  shows "dispose_collectors cs S = Some S"
  using assms
proof (induction cs)
  case (Cons x cs)
  obtain ty c where x: "x = (ty, c)" by (cases x)
  have "dispose_threads ty (cr_objs (tc_threads c)) S = Some S"
  proof (rule dispose_threads_destroyed, clarify)
    fix sn t assume "(sn, t) \<in> set (cr_objs (tc_threads c))"
    then have "has_thread (tview (x # cs)) ty sn (th_state t) (th_joinable t)"
      by (auto simp: x cview_row Collector_threads_def)
    then show "th_state t = TS_Destroy \<and> \<not> th_joinable t" by (rule Cons.prems(1))
  qed
  moreover have "cr_adds (tc_threads c) = []" using Cons.prems(2) [of ty c] by (simp add: x)
  moreover have "dispose_collectors cs S = Some S"
  proof (rule Cons.IH)
    show "has_thread (tview cs) ty sn s j \<Longrightarrow> s = TS_Destroy \<and> \<not> j" for ty sn s j
      using Cons.prems(1) [of ty sn s j] by (simp add: x)
    show "(ty, c) \<in> set cs \<Longrightarrow> cr_adds (tc_threads c) = []" for ty c using Cons.prems(2) [of ty c] by simp
  qed
  ultimately show ?case by (simp add: x ThreadCollector_Dispose_def)
qed simp

lemma no_adds: "threads_ok p (pview p) \<Longrightarrow> (ty, c) \<in> set (tm_threads (pr_mgr p)) \<Longrightarrow> cr_adds (tc_threads c) = []"
  by (auto simp: threads_ok_def tview_def cview_def list_all_iff row_ok_def)

lemma ThreadMgr_Dispose_ok:
  assumes "proc_inv p" and "pr_phase p = Destroying"
  shows "ThreadMgr_Dispose p = Some (p\<lparr>pr_main := False, pr_systems := {}, pr_mgr := (pr_mgr p)\<lparr>tm_threads := []\<rparr>\<rparr>)"
proof -
  have ok: "threads_ok p (pview p)" and sys: "pr_systems p = live (pview p)" and "pr_main p"
    using assms by (simp_all add: proc_inv_def)
  have all: "s = TS_Destroy \<and> \<not> j" if "has_thread (pview p) ty sn s j" for ty sn s j
    using threads_okD(1) [OF ok that] assms(2) by (simp add: state_ok_def)
  then have "live (pview p) = {}" by (auto simp: live_iff)
  moreover have "dispose_collectors (tm_threads (pr_mgr p)) (pr_systems p) = Some (pr_systems p)"
    by (rule dispose_collectors_destroyed [OF all no_adds [OF ok]])
  ultimately show ?thesis using \<open>pr_main p\<close> sys by (simp add: ThreadMgr_Dispose_def)
qed


lemma threads_ok_cong: "state_ok p' = state_ok p \<Longrightarrow> threads_ok p' V = threads_ok p V"
  by (simp add: threads_ok_def)

lemma threads_rank_0:
  "(\<And>ty sn s j. has_thread V ty sn s j \<Longrightarrow> state_rank s = 0) \<Longrightarrow> threads_rank V = 0"
proof (induction V)
  case (Cons r V)
  have "threads_rank V = 0" by (rule Cons.IH) (use Cons.prems in \<open>simp add: has_thread_def\<close>, blast)
  moreover have "(\<Sum>(sn, s, j)\<leftarrow>snd (snd r). state_rank s) = 0"
  proof -
    have "state_rank s = 0" if "(sn, s, j) \<in> set (snd (snd r))" for sn s j
      using Cons.prems [of "fst r" sn s j] that by simp
    then show ?thesis by (auto simp: sum_list_eq_0_iff)
  qed
  ultimately show ?case by (simp add: threads_rank_def case_prod_unfold)
qed (simp add: threads_rank_def)

text \<open>What the main thread does next is defined, and brings the end nearer once all bodies have ended.\<close>

lemma main_step_running:
  assumes inv: "proc_inv p" and ph: "pr_phase p = Running" and go: "\<not> g_IsStop (pr_global p)"
  shows "\<exists>p'. main_step dec now p = Some p' \<and> proc_inv p' \<and> steps_to_exit p' = steps_to_exit p"
proof -
  have wf: "threads_wf (tm_threads (pr_mgr p))" "sm_wf (tm_threads (pr_mgr p))"
    using inv threads_ok_wf by (auto simp: proc_inv_def)
  from UpdateCreatePacket_view [OF wf] obtain m h where
    m: "UpdateCreatePacket dec (pr_mgr p, pr_packets p) = Some (m, h)" "tview (tm_threads m) = pview p" by blast
  have "threads_wf (tm_threads m)" using wf(1) m(2) by (simp add: threads_wf_tview)
  from UpdateDispatchPacket_view [OF this] obtain m1 h1 where
    m1: "UpdateDispatchPacket (m, h) = Some (m1, h1)" "tview (tm_threads m1) = pview p" using m(2) by metis
  let ?p = "p\<lparr>pr_global := UpdateTime now (pr_global p), pr_mgr := m1, pr_packets := h1\<rparr>"
  have "main_step dec now p = Some ?p" using ph go m(1) m1(1) by (simp add: main_step_def)
  moreover have "state_ok ?p = state_ok p" by (intro ext) (simp add: state_ok_def UpdateTime_def)
  ultimately show ?thesis
    using inv m1(2) threads_ok_cong [of ?p p] by (auto simp: proc_inv_def steps_to_exit_def UpdateTime_def)
qed

lemma main_step_stopping:
  assumes inv: "proc_inv p" and ph: "pr_phase p = Stopping" and all: "ThreadMgr_IsStopAll (pr_mgr p)"
  shows "\<exists>p'. main_step dec now p = Some p' \<and> proc_inv p' \<and> steps_to_exit p' < steps_to_exit p"
proof -
  let ?p = "p\<lparr>pr_mgr := ThreadMgr_DestroyThread (pr_mgr p), pr_phase := Destroying\<rparr>"
  have ok: "threads_ok p (pview p)" and stop: "g_IsStop (pr_global p)" using inv ph by (auto simp: proc_inv_def)
  have stopped: "s = TS_Stop \<and> j" if "has_thread (pview p) ty sn s j" for ty sn s j
    using threads_okD(1) [OF ok that] that all ph by (auto simp: IsAll_view state_ok_def)
  have destroyed: "s = TS_Destroy \<and> \<not> j" if "has_thread (pview ?p) ty sn s j" for ty sn s j
    using DestroyThread_view(3) [of "pr_mgr p" ty sn s j] that stopped by fastforce
  then have "threads_ok ?p (pview ?p)"
    using ok by (auto simp: threads_ok_def DestroyThread_view(1,2) state_ok_def)
  moreover have "live (pview ?p) = {}" "live (pview p) = {}" using destroyed stopped by (auto simp: live_def)
  moreover have "threads_rank (pview ?p) = 0" by (rule threads_rank_0) (use destroyed in fastforce)
  ultimately have "proc_inv ?p" "steps_to_exit ?p < steps_to_exit p"
    using inv ph stop by (simp_all add: proc_inv_def steps_to_exit_def)
  then show ?thesis using ph all by (auto simp: main_step_def)
qed

lemma main_step_destroying:
  assumes inv: "proc_inv p" and ph: "pr_phase p = Destroying"
  shows "\<exists>p'. main_step dec now p = Some p' \<and> proc_inv p' \<and> steps_to_exit p' < steps_to_exit p"
proof -
  have ok: "threads_ok p (pview p)" using inv by (simp add: proc_inv_def)
  have "s = TS_Destroy" if "has_thread (pview p) ty sn s j" for ty sn s j
    using threads_okD(1) [OF ok that] ph by (simp add: state_ok_def)
  then have all: "ThreadMgr_IsDestroyAll (pr_mgr p)" by (auto simp: IsAll_view)
  let ?p = "p\<lparr>pr_main := False, pr_systems := {}, pr_mgr := (pr_mgr p)\<lparr>tm_threads := []\<rparr>, pr_phase := Exited\<rparr>"
  have "main_step dec now p = Some ?p"
    using ph all ThreadMgr_Dispose_ok [OF inv ph] by (simp add: main_step_def)
  moreover have "proc_inv ?p" using inv ph by (simp add: proc_inv_def threads_ok_def live_def)
  moreover have "steps_to_exit ?p < steps_to_exit p" using ph by (simp add: steps_to_exit_def threads_rank_def)
  ultimately show ?thesis by blast
qed

lemma main_step_ok:
  assumes inv: "proc_inv p"
  shows "\<exists>p'. main_step dec now p = Some p' \<and> proc_inv p' \<and> steps_to_exit p' \<le> steps_to_exit p"
proof (cases "pr_phase p")
  case Running
  show ?thesis
  proof (cases "g_IsStop (pr_global p)")
    case True
    let ?p = "p\<lparr>pr_phase := Stopping\<rparr>"
    have "state_ok ?p = state_ok p" using Running by (intro ext) (simp add: state_ok_def)
    then show ?thesis
      using inv Running True threads_ok_cong [of ?p p] by (simp add: main_step_def proc_inv_def steps_to_exit_def)
  next
    case False
    then show ?thesis using main_step_running [OF inv Running False] by (metis order_refl)
  qed
next
  case Stopping
  show ?thesis
  proof (cases "ThreadMgr_IsStopAll (pr_mgr p)")
    case True
    then show ?thesis using main_step_stopping [OF inv Stopping True] by (metis less_imp_le)
  qed (use inv Stopping in \<open>simp add: main_step_def\<close>)
next
  case Destroying
  then show ?thesis using main_step_destroying [OF inv Destroying] by (metis less_imp_le)
next
  case Exited
  then show ?thesis using inv by (simp add: main_step_def)
qed


text \<open>The bodies of the threads.\<close>

lemma Start_begins_ok:
  assumes inv: "proc_inv p" and t: "thread_at (pr_mgr p) ty sn = Some t" "th_state t = TS_Init"
  shows "proc_inv (Start_begins ty sn p) \<and> steps_to_exit (Start_begins ty sn p) < steps_to_exit p"
proof -
  let ?V = "set_state ty sn TS_Run (pview p)"
  have at: "has_thread (pview p) ty sn TS_Init (th_joinable t)" using thread_at_view [OF t(1)] t(2) by simp
  have ok: "threads_ok p (pview p)" using inv by (simp add: proc_inv_def)
  have V: "pview (Start_begins ty sn p) = ?V"
    by (simp add: Start_begins_def tview_on_thread Thread_body_begins_def)
  have st: "state_ok (Start_begins ty sn p) = state_ok p" by (intro ext) (simp add: state_ok_def Start_begins_def)
  have "state_ok p TS_Run (th_joinable t)"
    using threads_okD(1) [OF ok at] by (simp add: state_ok_def split: if_splits)
  from threads_ok_set_state [OF ok at this] have "threads_ok (Start_begins ty sn p) ?V"
    using threads_ok_cong [OF st] by simp
  moreover have "live ?V = live (pview p)"
  proof -
    have "(ty, sn) \<in> live (pview p)" using at unfolding live_iff by blast
    then show ?thesis using live_set_state(1) [OF at, of TS_Run] by auto
  qed
  moreover have "?V = []" if "pview p = []" using that by (simp add: set_state_def)
  moreover have "threads_rank ?V < threads_rank (pview p)" by (rule threads_rank_set_state [OF ok at]) simp
  ultimately show ?thesis
    using inv unfolding proc_inv_def steps_to_exit_def V by (simp add: Start_begins_def)
qed

lemma Start_ends_ok:
  assumes inv: "proc_inv p" and t: "thread_at (pr_mgr p) ty sn = Some t" "th_state t = TS_Run"
    and stop: "g_IsStop (pr_global p)"
  shows "\<exists>p'. Start_ends ty sn t p = Some p' \<and> proc_inv p' \<and> steps_to_exit p' < steps_to_exit p
    \<and> g_IsStop (pr_global p')"
proof -
  let ?V = "set_state ty sn TS_Stop (pview p)"
  have at: "has_thread (pview p) ty sn TS_Run (th_joinable t)" using thread_at_view [OF t(1)] t(2) by simp
  have ok: "threads_ok p (pview p)" and sys: "pr_systems p = live (pview p)" using inv by (simp_all add: proc_inv_def)
  have "(ty, sn) \<in> pr_systems p" using at sys by (auto simp: live_iff)
  let ?p = "p\<lparr>pr_systems := live (pview p) - {(ty, sn)}, pr_mgr := on_thread ty sn Thread_body_ends (pr_mgr p)\<rparr>"
  have "Start_ends ty sn t p = Some ?p"
    using t(2) sys \<open>(ty, sn) \<in> pr_systems p\<close> by (simp add: Start_ends_def Thread_Dispose_def SystemManager_Dispose_def)
  moreover have V: "tview (tm_threads (on_thread ty sn Thread_body_ends (pr_mgr p))) = ?V"
    by (simp add: tview_on_thread Thread_body_ends_def)
  have st: "state_ok ?p = state_ok p" by (intro ext) (simp add: state_ok_def)
  have "state_ok p TS_Stop (th_joinable t)"
    using threads_okD(1) [OF ok at] stop by (simp add: state_ok_def split: if_splits)
  from threads_ok_set_state [OF ok at this] have "threads_ok ?p ?V" using threads_ok_cong [OF st] by simp
  moreover have "live ?V = live (pview p) - {(ty, sn)}" by (rule live_set_state(2) [OF at])
  moreover have "?V = []" if "pview p = []" using that by (simp add: set_state_def)
  moreover have "threads_rank ?V < threads_rank (pview p)" by (rule threads_rank_set_state [OF ok at]) simp
  ultimately show ?thesis
    using inv stop unfolding proc_inv_def steps_to_exit_def by (intro exI [of _ ?p]) (simp add: V)
qed

lemma set_stop_ok:
  assumes "proc_inv p"
  shows "proc_inv (set_stop p) \<and> steps_to_exit (set_stop p) = steps_to_exit p"
proof -
  have "state_ok p s j \<Longrightarrow> state_ok (set_stop p) s j" for s j by (simp add: state_ok_def set_stop_def split: if_splits)
  then have "threads_ok p V \<Longrightarrow> threads_ok (set_stop p) V" for V unfolding threads_ok_def by blast
  then show ?thesis using assms by (auto simp: proc_inv_def steps_to_exit_def set_stop_def)
qed

lemma process_step_inv:
  assumes "process_step dec p p'" and "proc_inv p"
  shows "proc_inv p' \<and> steps_to_exit p' \<le> steps_to_exit p"
  using assms
proof (cases rule: process_step.cases)
  case (step_main now)
  then show ?thesis using main_step_ok [OF assms(2), of dec now] by auto
next
  case (step_signal v)
  then show ?thesis using set_stop_ok [OF assms(2)] assms(2) by (simp add: Signalhandler_def)
next
  case step_exit_line
  then show ?thesis using set_stop_ok [OF assms(2)] by simp
next
  case (step_begins ty sn t)
  then show ?thesis using Start_begins_ok [OF assms(2)] by (simp add: less_imp_le)
next
  case (step_ends ty sn t)
  then show ?thesis using Start_ends_ok [OF assms(2)] by (metis less_imp_le option.inject)
next
  case (step_work h qs a b c)
  have "state_ok p' = state_ok p" unfolding step_work by (intro ext) (simp add: state_ok_def)
  moreover have "pview p' = pview p" unfolding step_work by (simp add: tview_set_queues)
  ultimately show ?thesis
    using assms(2) threads_ok_cong [of p' p] step_work by (simp add: proc_inv_def steps_to_exit_def)
qed

text \<open>In a stopping process something is always left to do.\<close>

lemma thread_of_view:
  assumes "threads_ok p (pview p)" and "has_thread (pview p) ty sn s j"
  shows "\<exists>t. thread_at (pr_mgr p) ty sn = Some t \<and> th_state t = s \<and> th_joinable t = j"
proof -
  obtain c t where c: "(ty, c) \<in> set (tm_threads (pr_mgr p))" and t: "(sn, t) \<in> set (Collector_threads c)" "s = th_state t" "j = th_joinable t"
    using assms(2) unfolding has_thread_tview by auto
  have "sm_wf (tm_threads (pr_mgr p))" "collector_wf c"
    using threads_ok_wf [OF assms(1)] c by (auto simp: threads_wf_def)
  then have "sm_find (tm_threads (pr_mgr p)) ty = Some c" "sm_find (Collector_threads c) sn = Some t"
    using c t(1) by (simp_all add: sm_find_in_set collector_wf_def)
  then show ?thesis using t by (simp add: thread_at_def)
qed

lemma stopping_progress:
  assumes inv: "proc_inv p" and stop: "g_IsStop (pr_global p)" and "pr_phase p \<noteq> Exited"
  shows "\<exists>p'. process_step dec p p' \<and> steps_to_exit p' < steps_to_exit p"
proof (cases "pr_phase p")
  case Running
  have "main_step dec 0 p = Some (p\<lparr>pr_phase := Stopping\<rparr>)" using Running stop by (simp add: main_step_def)
  then show ?thesis using step_main Running by (fastforce simp: steps_to_exit_def)
next
  case Destroying
  then show ?thesis using main_step_destroying [OF inv Destroying] step_main by blast
next
  case Stopping
  show ?thesis
  proof (cases "ThreadMgr_IsStopAll (pr_mgr p)")
    case True
    then show ?thesis using main_step_stopping [OF inv Stopping] step_main by blast
  next
    case False
    then obtain ty sn s j where at: "has_thread (pview p) ty sn s j" "s \<noteq> TS_Stop" by (auto simp: IsAll_view)
    have ok: "threads_ok p (pview p)" using inv by (simp add: proc_inv_def)
    from thread_of_view [OF ok at(1)] obtain t where t: "thread_at (pr_mgr p) ty sn = Some t" "th_state t = s" "th_joinable t = j" by blast
    have "j" "s \<noteq> TS_Destroy" using threads_okD(1) [OF ok at(1)] Stopping by (simp_all add: state_ok_def)
    then consider "s = TS_Init" | "s = TS_Run" using at(2) by (cases s) auto
    then show ?thesis
    proof cases
      case 1
      then show ?thesis using Start_begins_ok [OF inv t(1)] step_begins [OF t(1)] t \<open>j\<close> by blast
    next
      case 2
      then show ?thesis using Start_ends_ok [OF inv t(1)] step_ends [OF t(1)] t stop by blast
    qed
  qed
qed (use assms(3) in simp)


section \<open>A new process\<close>

definition fresh_threads :: "(u64, Thread) smap \<Rightarrow> bool" where
  "fresh_threads m \<longleftrightarrow> (\<forall>(sn, t)\<in>set m. th_state t = TS_Init \<and> \<not> th_joinable t)"

lemma sm_insert_set: "set (sm_insert k v m) \<subseteq> insert (k, v) (set m)" "sm_insert k v m \<noteq> []"
proof -
  have "set (sm_assign k v m) \<subseteq> insert (k, v) (set m)" by (induction m) auto
  then show "set (sm_insert k v m) \<subseteq> insert (k, v) (set m)" by (auto simp: sm_insert_def split: option.splits)
  show "sm_insert k v m \<noteq> []" by (auto simp: sm_insert_def split: option.splits)
qed

lemma add_threads_fresh:
  assumes "cr_wf c" and "fresh_threads (cr_adds c)"
  shows "\<exists>g1 c1. add_threads n ty (g, c) = (g1, c1) \<and> cr_wf c1 \<and> fresh_threads (cr_adds c1) \<and> cr_objs c1 = cr_objs c
    \<and> cr_removes c1 = cr_removes c \<and> (0 < n \<or> cr_adds c \<noteq> [] \<longrightarrow> cr_adds c1 \<noteq> []) \<and> g_IsStop g1 = g_IsStop g"
  using assms
proof (induction n arbitrary: g c)
  case (Suc n)
  obtain sn g0 where sn: "SnObject_new g = (sn, g0)" by fastforce
  have stop: "g_IsStop g0 = g_IsStop g" using sn by (auto simp: SnObject_new_def GenerateSN_def Let_def)
  let ?c = "AddObj sn (Thread_new ty) c"
  have "fresh_threads (cr_adds ?c)"
    using Suc.prems(2) sm_insert_set(1) [of sn "Thread_new ty" "cr_adds c"]
    by (auto simp: fresh_threads_def AddObj_def Thread_new_def)
  then obtain g1 c1 where "add_threads n ty (g0, ?c) = (g1, c1)" "cr_wf c1" "fresh_threads (cr_adds c1)" "cr_objs c1 = cr_objs ?c"
      "cr_removes c1 = cr_removes ?c" "cr_adds ?c \<noteq> [] \<longrightarrow> cr_adds c1 \<noteq> []" "g_IsStop g1 = g_IsStop g0"
    using Suc.IH [of ?c g0] cr_wf_AddObj [OF Suc.prems(1)] by blast
  then show ?case using sn stop by (simp add: AddObj_def sm_insert_set(2))
qed simp

lemma start_threads_fresh:
  "fresh_threads m \<Longrightarrow> start_threads m = Some (map (\<lambda>(sn, t). (sn, t\<lparr>th_joinable := True\<rparr>)) m)"
  by (induction m) (auto simp: fresh_threads_def Thread_Start_def)

definition started :: "ThreadType \<times> ThreadCollector \<Rightarrow> bool" where
  "started tc \<longleftrightarrow> row_ok (fst tc, cview (snd tc))
     \<and> (\<forall>(sn, t)\<in>set (Collector_threads (snd tc)). th_state t = TS_Init \<and> th_joinable t)"

lemma ThreadCollector_new_started:
  assumes "0 < num"
  shows "\<exists>g1 c. ThreadCollector_new ex ty num g = Some (g1, c) \<and> started (ty, c) \<and> g_IsStop g1 = g_IsStop g"
proof -
  have "fresh_threads (cr_adds (CacheRefresh_new :: Thread CacheRefresh))"
    by (simp add: CacheRefresh_new_def fresh_threads_def)
  from add_threads_fresh [OF cr_wf_new this, of "nat num" ty g] assms obtain g1 d where
    d: "add_threads (nat num) ty (g, CacheRefresh_new) = (g1, d)" "cr_wf d" "fresh_threads (cr_adds d)" "cr_objs d = []"
      "cr_removes d = []" "cr_adds d \<noteq> []" "g_IsStop g1 = g_IsStop g"
    by (auto simp: CacheRefresh_new_def)
  let ?m = "cr_objs (fst (CacheRefresh_Swap d))"
  have wf: "sm_wf ?m" using cr_wf_Swap [OF d(2)] by (simp add: cr_wf_def)
  have "(sn, t) \<in> set ?m \<longleftrightarrow> (sn, t) \<in> set (cr_adds d)" for sn t
  proof -
    have "sm_wf (cr_adds d)" using d(2) by (simp add: cr_wf_def)
    then show ?thesis using wf d(4,5) by (simp add: sm_find_in_set find_Swap [OF d(2)])
  qed
  then have m: "set ?m = set (cr_adds d)" by auto
  then have fresh: "fresh_threads ?m" and ne: "?m \<noteq> []" using d(3,6) by (auto simp: fresh_threads_def)
  let ?c = "\<lparr>tc_exclusive = ex, tc_threadType = ty, tc_threads = (fst (CacheRefresh_Swap d))\<lparr>cr_objs :=
      map (\<lambda>(sn, t). (sn, t\<lparr>th_joinable := True\<rparr>)) ?m\<rparr>, tc_nextThreadSn = 0\<rparr>"
  have "ThreadCollector_new ex ty num g = Some (g1, ?c)"
    using d(1) start_threads_fresh [OF fresh] by (simp add: ThreadCollector_new_def Collector_CreateThread_def Let_def)
  moreover have "started (ty, ?c)"
    using wf fresh ne by (auto simp: started_def row_ok_def cview_def Collector_threads_def sm_wf_keys comp_def case_prod_unfold fresh_threads_def)
  ultimately show ?thesis using d(7) by blast
qed

definition mgr_started :: "Global \<times> ThreadMgr \<Rightarrow> bool" where
  "mgr_started gm \<longleftrightarrow> sm_wf (tm_threads (snd gm)) \<and> (\<forall>ty c. sm_find (tm_threads (snd gm)) ty = Some c \<longrightarrow> started (ty, c))
     \<and> \<not> g_IsStop (fst gm)"

definition has_types :: "Global \<times> ThreadMgr \<Rightarrow> ThreadType set" where
  "has_types gm = dom (sm_find (tm_threads (snd gm)))"

lemma CreateThread_started:
  assumes "mgr_started gm" and "0 < num" and "ty \<notin> has_types gm"
    and "ac_LogicThreadNum cfg > 0 \<or> ac_MysqlThreadNum cfg > 0"
  shows "\<exists>gm1. CreateThread cfg ty num gm = Some gm1 \<and> mgr_started gm1 \<and> has_types gm1 = insert ty (has_types gm)"
proof -
  obtain g m where p: "gm = (g, m)" by (cases gm)
  from ThreadCollector_new_started [OF assms(2), of "ty = MysqlThread" ty g] obtain g1 c where
    c: "ThreadCollector_new (ty = MysqlThread) ty num g = Some (g1, c)" "started (ty, c)" "g_IsStop g1 = g_IsStop g" by blast
  have "sm_find (tm_threads m) ty = None" using assms(3) by (auto simp: has_types_def p)
  then have "CreateThread cfg ty num gm = Some (g1, m\<lparr>tm_threads := sm_assign ty c (tm_threads m)\<rparr>)"
    using c(1) assms(4) by (auto simp: CreateThread_def p)
  then show ?thesis using assms(1) c(2,3) by (auto simp: mgr_started_def has_types_def p)
qed

lemma CreateThread_if_started:
  assumes "mgr_started gm" and "ty \<notin> has_types gm"
    and "ac_LogicThreadNum cfg > 0 \<or> ac_MysqlThreadNum cfg > 0"
  shows "\<exists>gm1. (if 0 < num then CreateThread cfg ty num gm else Some gm) = Some gm1 \<and> mgr_started gm1
    \<and> has_types gm1 \<subseteq> insert ty (has_types gm)"
  using CreateThread_started [OF assms(1) _ assms(2,3), of num] assms(1) by (cases "0 < num") (simp, blast, auto)

lemma InitializeThread_started:
  assumes "mgr_started gm" and "has_types gm = {}"
  shows "\<exists>gm1. InitializeThread cfg gm = Some gm1 \<and> mgr_started gm1"
proof (cases "ac_LogicThreadNum cfg > 0 \<or> ac_MysqlThreadNum cfg > 0")
  case False
  then show ?thesis using assms(1) by (simp add: InitializeThread_def)
next
  case True
  note step = CreateThread_if_started [OF _ _ True]
  from step [OF assms(1), of LogicThread "ac_LogicThreadNum cfg"] assms(2) obtain gm1 where
    1: "(if 0 < ac_LogicThreadNum cfg then CreateThread cfg LogicThread (ac_LogicThreadNum cfg) gm else Some gm) = Some gm1"
      "mgr_started gm1" "has_types gm1 \<subseteq> {LogicThread}" by auto
  have "MysqlThread \<notin> has_types gm1" using 1(3) by auto
  from step [OF 1(2) this, of "ac_MysqlThreadNum cfg"] 1(3) obtain gm2 where
    2: "(if 0 < ac_MysqlThreadNum cfg then CreateThread cfg MysqlThread (ac_MysqlThreadNum cfg) gm1 else Some gm1) = Some gm2"
      "mgr_started gm2" "has_types gm2 \<subseteq> {LogicThread, MysqlThread}" by blast
  have "ListenThread \<notin> has_types gm2" using 2(3) by auto
  from step [OF 2(2) this, of "ac_ListenThreadNum cfg"] 2(3) obtain gm3 where
    3: "(if 0 < ac_ListenThreadNum cfg then CreateThread cfg ListenThread (ac_ListenThreadNum cfg) gm2 else Some gm2) = Some gm3"
      "mgr_started gm3" "has_types gm3 \<subseteq> {LogicThread, MysqlThread, ListenThread}" by blast
  have "ConnectThread \<notin> has_types gm3" using 3(3) by auto
  from step [OF 3(2) this, of "ac_ConnectThreadNum cfg"] obtain gm4 where
    4: "(if 0 < ac_ConnectThreadNum cfg then CreateThread cfg ConnectThread (ac_ConnectThreadNum cfg) gm3 else Some gm3) = Some gm4"
      "mgr_started gm4" by blast
  have "InitializeThread cfg gm = Some gm4"
    unfolding InitializeThread_def if_P [OF True] 1(1) bind.bind_lunit 2(1) 3(1) 4(1) ..
  then show ?thesis using 4(2) by blast
qed

lemma live_started:
  assumes "mgr_started (g, m)"
  shows "live (tview (tm_threads m)) = thread_keys m"
proof -
  have init: "th_state t = TS_Init" if "(ty, c) \<in> set (tm_threads m)" "(sn, t) \<in> set (Collector_threads c)" for ty c sn t
  proof -
    have "started (ty, c)" using that(1) assms by (simp add: mgr_started_def sm_find_in_set)
    then show ?thesis using that(2) by (auto simp: started_def)
  qed
  have live: "(ty, sn) \<in> live (tview (tm_threads m))" if "(ty, c) \<in> set (tm_threads m)" "(sn, t) \<in> set (Collector_threads c)"
    for ty c sn t
  proof -
    have "has_thread (tview (tm_threads m)) ty sn (th_state t) (th_joinable t)" unfolding has_thread_tview using that by blast
    then show ?thesis unfolding live_iff using init [OF that] by force
  qed
  show ?thesis
  proof (intro set_eqI iffI)
    fix k assume "k \<in> thread_keys m"
    then show "k \<in> live (tview (tm_threads m))" by (auto simp: thread_keys_def live)
  next
    fix k assume "k \<in> live (tview (tm_threads m))"
    then obtain ty sn s j where "k = (ty, sn)" "has_thread (tview (tm_threads m)) ty sn s j" by (cases k) (auto simp: live_iff)
    then show "k \<in> thread_keys m" unfolding has_thread_tview thread_keys_def by force
  qed
qed

lemma ServerApp_Initialize_inv:
  assumes "ServerApp_Initialize appType argv cfg now = Some p"
  shows "proc_inv p \<and> pr_phase p = Running"
proof -
  obtain appId g m where gm: "InitializeThread cfg (Global_new appType appId now, ThreadMgr_new) = Some (g, m)"
    and p: "p = \<lparr>pr_global = g, pr_mgr = m, pr_packets = \<lambda>_. Packet_new, pr_systems = thread_keys m, pr_main = True, pr_phase = Running\<rparr>"
    using assms by (auto simp: ServerApp_Initialize_def split: bind_splits)
  have "mgr_started (Global_new appType appId now, ThreadMgr_new)" "has_types (Global_new appType appId now, ThreadMgr_new) = {}"
    by (simp_all add: mgr_started_def has_types_def ThreadMgr_new_def Global_new_def)
  from InitializeThread_started [OF this, of cfg] gm have st: "mgr_started (g, m)" by simp
  have row: "started (ty, c)" if "(ty, c) \<in> set (tm_threads m)" for ty c
    using that st by (simp add: mgr_started_def sm_find_in_set)
  then have "list_all row_ok (tview (tm_threads m))" by (auto simp: list_all_iff tview_def started_def)
  moreover have "state_ok p s j" if "has_thread (tview (tm_threads m)) ty sn s j" for ty sn s j
    using that row unfolding has_thread_tview by (fastforce simp: started_def state_ok_def p)
  moreover have "sm_wf (tview (tm_threads m))" using st by (simp add: mgr_started_def sm_wf_tview)
  ultimately show ?thesis
    using live_started [OF st] by (simp add: proc_inv_def threads_ok_def p)
qed


lemma ServerApp_Initialize_total:
  assumes "parse_sid (tl argv) = Some i"
  shows "\<exists>p. ServerApp_Initialize appType argv cfg now = Some p"
proof -
  have "mgr_started (Global_new appType i now, ThreadMgr_new)" "has_types (Global_new appType i now, ThreadMgr_new) = {}"
    by (simp_all add: mgr_started_def has_types_def ThreadMgr_new_def Global_new_def)
  from InitializeThread_started [OF this, of cfg] assms show ?thesis by (auto simp: ServerApp_Initialize_def)
qed

lemma process_step_stop:
  assumes "process_step dec p p'" and "g_IsStop (pr_global p)"
  shows "g_IsStop (pr_global p')"
  using assms
proof (cases rule: process_step.cases)
  case (step_main now)
  then show ?thesis using assms(2)
    by (auto simp: main_step_def ThreadMgr_Dispose_def split: Phase.splits if_splits)
qed (auto simp: Signalhandler_def set_stop_def Start_begins_def Start_ends_def)

interpretation process: invariant_system "process_step dec" proc_inv for dec
  by unfold_locales (blast dest: process_step_inv)

interpretation stopping: progress_system "process_step dec" "\<lambda>p. proc_inv p \<and> g_IsStop (pr_global p)"
    "\<lambda>p. pr_phase p = Exited" steps_to_exit for dec
  by unfold_locales (blast dest: process_step_inv process_step_stop, blast dest: stopping_progress)

section \<open>Properties\<close>


text \<open>A process with two logic threads and a listening one, and number 3.\<close>

definition sample_config :: AppConfig where
  "sample_config = \<lparr>ac_LogicThreadNum = 2, ac_MysqlThreadNum = 0, ac_ListenThreadNum = 1, ac_ConnectThreadNum = 0\<rparr>"

lemma sample_sid: "parse_sid (tl [''space'', ''-sid=3'']) = Some 3"
  by code_simp




text \<open>Every signal but \<open>SIGINT\<close> has its default action: the handler's other cases are never reached.\<close>

lemma other_signals_unhandled: "SIGTERM \<notin> set registered_signals \<and> SIGQUIT \<notin> set registered_signals"
  by (simp add: registered_signals_def)

end
