(* ===== verification/Console.thy ===== *)
theory Console
  imports Server_App Robots Http_Message
begin

text \<open>
  \<open>console.{h,cpp}\<close>: the commands typed at a process. A thread reads lines from the standard
  input into a queue; the main thread takes one a frame, splits it and calls the handler of the
  command. \<open>console_cmd_thread.cpp\<close>, \<open>console_cmd_app.cpp\<close>, \<open>console_cmd_efficiency.cpp\<close> and the
  robots' \<open>robot_console_login.cpp\<close>, \<open>robot_console_world.cpp\<close> register the commands. The input is
  the text up to its end; the lock is held for the whole of each operation on the queue. \<open>None\<close> is
  an exception nobody catches.
\<close>

section \<open>Reading lines\<close>

text \<open>\<open>std::cin\<close>: the text that is left, and whether no error or end was met. \<open>getline(buf, n)\<close> takes at
  most \<open>n - 1\<close> characters; a longer line, like the end of the input, puts the stream in a state in
  which every later call returns at once with an empty buffer.\<close>

record istream =
  in_rest :: string
  in_good :: bool

definition LF :: char where "LF = CHR 0x0A"

definition cin_getline :: "nat \<Rightarrow> istream \<Rightarrow> string \<times> istream" where
  "cin_getline n s =
     (if \<not> in_good s then ([], s)
      else let buf = takeWhile (\<lambda>c. c \<noteq> LF) (take (n - 1) (in_rest s)); rest = drop (length buf) (in_rest s)
           in (buf, if rest = [] then \<lparr>in_rest = [], in_good = False\<rparr>
                    else if hd rest = LF then s\<lparr>in_rest := tl rest\<rparr>
                    else \<lparr>in_rest = rest, in_good = False\<rparr>))"

definition ConsoleMaxBuffer :: nat where "ConsoleMaxBuffer = 512"

section \<open>\<open>class ConsoleCmd\<close>\<close>

text \<open>A handler takes its parameters and the state it works on, and gives what it prints.\<close>

type_synonym 'w HandleConsole = "string list \<Rightarrow> 'w \<Rightarrow> ('w \<times> string list) option"

record 'w ConsoleCmd =
  cc_handles :: "(string, 'w HandleConsole) smap"
  cc_help :: "string list"

definition OnRegisterHandler :: "string \<Rightarrow> 'w HandleConsole \<Rightarrow> 'w ConsoleCmd \<Rightarrow> 'w ConsoleCmd" where
  "OnRegisterHandler key handler c = c\<lparr>cc_handles := sm_assign key handler (cc_handles c)\<rparr>"

definition CheckParamCnt :: "string list \<Rightarrow> nat \<Rightarrow> 'w HandleConsole \<Rightarrow> 'w \<Rightarrow> ('w \<times> string list) option" where
  "CheckParamCnt params cnt body w =
     (if length params = cnt then body params w else Some (w, [''input param size is error. see: -help'']))"

definition ConsoleCmd_Dispose :: "'w ConsoleCmd \<Rightarrow> 'w ConsoleCmd" where
  "ConsoleCmd_Dispose c = c\<lparr>cc_handles := []\<rparr>"

definition ConsoleCmd_Process :: "'w ConsoleCmd \<Rightarrow> string list \<Rightarrow> 'w \<Rightarrow> ('w \<times> string list) option" where
  "ConsoleCmd_Process c params w =
     (if length params \<le> 1 then Some (w, [])
      else let key = params ! 1 in
        case sm_find (cc_handles c) key of
          None \<Rightarrow> (if key = ''-help'' then Some (w, cc_help c)
                   else Some (w, [''input error. can't find cmd:'' @ c_str key]))
        | Some f \<Rightarrow> f (drop 2 params) w)"

section \<open>\<open>class Console\<close>\<close>

record 'w Console =
  co_handles :: "(string, 'w ConsoleCmd) smap"
  co_commands :: "string list"
  co_isRun :: bool

definition Console_new :: "'w Console" where
  "Console_new = \<lparr>co_handles = [], co_commands = [], co_isRun = True\<rparr>"

definition Console_Register :: "string \<Rightarrow> 'w ConsoleCmd \<Rightarrow> 'w Console \<Rightarrow> 'w Console" where
  "Console_Register cmd c co = co\<lparr>co_handles := sm_assign cmd c (co_handles co)\<rparr>"

text \<open>One turn of the reading thread (\<open>do ... while (_isRun)\<close>).\<close>

definition reader_turn :: "istream \<times> 'w Console \<times> Global \<Rightarrow> istream \<times> 'w Console \<times> Global" where
  "reader_turn sc = (case sc of (s, co, g) \<Rightarrow>
     (let (buf, s1) = cin_getline ConsoleMaxBuffer s; cmdMsg = c_str buf;
          co1 = co\<lparr>co_commands := co_commands co @ [cmdMsg]\<rparr>
      in if find_text ''-exit'' cmdMsg \<noteq> None then (s1, co1\<lparr>co_isRun := False\<rparr>, g\<lparr>g_IsStop := True\<rparr>)
         else (s1, co1, g)))"

text \<open>The first \<open>n\<close> turns; the thread ends when \<open>_isRun\<close> is false.\<close>

fun reader_turns :: "nat \<Rightarrow> istream \<times> 'w Console \<times> Global \<Rightarrow> istream \<times> 'w Console \<times> Global" where
  "reader_turns 0 sc = sc"
| "reader_turns (Suc n) sc = (let sc1 = reader_turn sc in if co_isRun (fst (snd sc1)) then reader_turns n sc1 else sc1)"

text \<open>The list of commands with their help.\<close>

fun all_help :: "(string, 'w ConsoleCmd) smap \<Rightarrow> string list" where
  "all_help [] = []"
| "all_help ((name, c) # m) = (([CHR 0x0D] @ [LF] @ c_str name) # cc_help c) @ all_help m"

definition Console_Update :: "'w Console \<Rightarrow> 'w \<Rightarrow> ('w Console \<times> 'w \<times> string list) option" where
  "Console_Update co w = (case co_commands co of
     [] \<Rightarrow> Some (co, w, [])
   | cmd # rest \<Rightarrow>
       (let co1 = co\<lparr>co_commands := rest\<rparr>; params = strutil_split cmd (CHR '' '') in
        if params = [] then Some (co1, w, [])
        else case sm_find (co_handles co) (hd params) of
            None \<Rightarrow> (if hd params = ''help'' then Some (co1, w, all_help (co_handles co))
                     else Some (co1, w, [''input error. cmd:'' @ c_str cmd]))
          | Some c \<Rightarrow> map_option (\<lambda>(w1, out). (co1, w1, out)) (ConsoleCmd_Process c params w)))"

text \<open>\<open>BackToPool\<close>: the commands are disposed; the reading thread is joined when it has ended, else
  left to itself. The second result tells whether it is joined.\<close>

definition Console_BackToPool :: "'w Console \<Rightarrow> 'w Console \<times> bool" where
  "Console_BackToPool co = (co\<lparr>co_handles := []\<rparr>, \<not> co_isRun co)"


section \<open>The commands\<close>

text \<open>What the handlers change: the packets dispatched to all threads (number of the message, type of
  the command), and in a process of robots the collections it creates, \<open>GlobalRobots\<close>, the HTTP
  clients it creates (account, password), and the packets sent. Tabs and line breaks inside the texts of the help are left out.\<close>

record shell =
  sh_dispatched :: "(int \<times> int option) list"
  sh_collections :: "collection list"
  sh_robotsCount :: nat
  sh_clients :: "(string \<times> string) list"
  sh_sent :: "robot_send list"

definition shell_new :: shell where
  "shell_new = \<lparr>sh_dispatched = [], sh_collections = [], sh_robotsCount = 0, sh_clients = [], sh_sent = []\<rparr>"

abbreviation (input) MI_CmdApp :: int where "MI_CmdApp \<equiv> 20002"
abbreviation (input) MI_CmdEfficiency :: int where "MI_CmdEfficiency \<equiv> 20006"

definition shell_dispatch :: "int \<Rightarrow> int option \<Rightarrow> shell \<Rightarrow> shell" where
  "shell_dispatch msgId cmdType w = w\<lparr>sh_dispatched := sh_dispatched w @ [(msgId, cmdType)]\<rparr>"

definition HandleEntity :: "shell HandleConsole" where
  "HandleEntity params w = Some (shell_dispatch MI_CmdThread (Some 0) w, [])"

text \<open>\<open>show\<close>: what \<open>DynamicPacketPool::Show\<close> logs.\<close>

definition HandlePool :: "string list \<Rightarrow> shell HandleConsole" where
  "HandlePool show params w =
     Some (shell_dispatch MI_CmdThread (Some 1) w, ''------------------------------------'' # show)"

definition HandleConnect :: "shell HandleConsole" where
  "HandleConnect params w = Some (shell_dispatch MI_CmdThread (Some 2) w, [])"

definition ConsoleCmdThread :: "string list \<Rightarrow> shell ConsoleCmd" where
  "ConsoleCmdThread show = OnRegisterHandler ''-connect'' HandleConnect (OnRegisterHandler ''-pool'' (HandlePool show)
     (OnRegisterHandler ''-entity'' HandleEntity
       \<lparr>cc_handles = [], cc_help = [''-entity.    show entities in thread.'',
          ''-pool.      show the information of pools in thread.'',
          ''-connect.   show the information of connect in thread.'']\<rparr>))"

definition HandleAppInfo :: "shell HandleConsole" where
  "HandleAppInfo params w = Some (shell_dispatch MI_CmdApp (Some 0) w, [])"

definition ConsoleCmdApp :: "shell ConsoleCmd" where
  "ConsoleCmdApp = OnRegisterHandler ''-info'' HandleAppInfo
     \<lparr>cc_handles = [], cc_help = [''-info.  show information of app.'']\<rparr>"

definition Efficiency_HandleThread :: "shell HandleConsole" where
  "Efficiency_HandleThread params w = Some (shell_dispatch MI_CmdEfficiency None w, [])"

definition ConsoleCmdEfficiency :: "shell ConsoleCmd" where
  "ConsoleCmdEfficiency = OnRegisterHandler ''-thread'' Efficiency_HandleThread
     \<lparr>cc_handles = [], cc_help = [''-thread.  thread info'']\<rparr>"

text \<open>\<open>atoi\<close> on a string.\<close>

definition str_atoi :: "string \<Rightarrow> int" where
  "str_atoi s = atoi (bytes_of (c_str s))"

definition Login_HandleLogin :: "shell HandleConsole" where
  "Login_HandleLogin params = CheckParamCnt params 1 (\<lambda>params w.
     (case HandleLogin (params ! 0) of (cs, n) \<Rightarrow>
        Some (w\<lparr>sh_collections := sh_collections w @ cs, sh_robotsCount := n\<rparr>, [])))"

definition Login_HandleLoginEx :: "int \<Rightarrow> shell HandleConsole" where
  "Login_HandleLoginEx LogicThreadNum params = CheckParamCnt params 2 (\<lambda>params w.
     (case HandleLoginEx LogicThreadNum (params ! 0) (str_atoi (params ! 1)) of
        None \<Rightarrow> Some (w, [''input is error. see: -help''])
      | Some (cs, n) \<Rightarrow> Some (w\<lparr>sh_collections := sh_collections w @ cs, sh_robotsCount := n\<rparr>, [])))"

definition RobotConsoleLogin :: "int \<Rightarrow> shell ConsoleCmd" where
  "RobotConsoleLogin LogicThreadNum = OnRegisterHandler ''-ex'' (Login_HandleLoginEx LogicThreadNum)
     (OnRegisterHandler ''-a'' Login_HandleLogin
       \<lparr>cc_handles = [], cc_help = [''-a account.  login by account'',
          ''-ex account count.  batch login, account is prefix, count as number'',
          ''-clean.  clean all logined account.'']\<rparr>)"

definition Http_HandleRequest :: "shell HandleConsole" where
  "Http_HandleRequest params = CheckParamCnt params 2 (\<lambda>params w.
     Some (w\<lparr>sh_clients := sh_clients w @ [(params ! 0, params ! 1)]\<rparr>, []))"

definition RobotConsoleHttp :: "shell ConsoleCmd" where
  "RobotConsoleHttp = OnRegisterHandler ''-check'' Http_HandleRequest
     \<lparr>cc_handles = [], cc_help = [''-check test password.  check account.'']\<rparr>"

text \<open>\<open>std::stoi\<close> throws on a parameter that is not a number, and nobody catches it.\<close>

definition World_HandleEnter :: "ResourceWorldMgr \<Rightarrow> RobotLocator \<Rightarrow> shell HandleConsole" where
  "World_HandleEnter worlds loc params = CheckParamCnt params 1 (\<lambda>params w. do {
     worldId \<leftarrow> stoi (params ! 0);
     Some (w\<lparr>sh_sent := sh_sent w @ Robot_HandleEnter worlds loc worldId\<rparr>,
       if GetResource worlds worldId = None then [''input error. can't find world'res.'']
       else if GetRobotNetIdentify loc = None then [''input error. can't find robot. login first.''] else []) })"

definition RobotConsoleWorld :: "ResourceWorldMgr \<Rightarrow> RobotLocator \<Rightarrow> shell ConsoleCmd" where
  "RobotConsoleWorld worlds loc = OnRegisterHandler ''-enter'' (World_HandleEnter worlds loc)
     \<lparr>cc_handles = [], cc_help = [''-enter {0}. enter world  {0} = world id'']\<rparr>"

text \<open>\<open>ThreadMgr::InitializeGlobalComponent\<close>, and what \<open>tools/robots/main.cpp\<close> adds.\<close>

definition InitializeGlobalComponent_console :: "app_type \<Rightarrow> string list \<Rightarrow> shell Console" where
  "InitializeGlobalComponent_console appType show =
     (let co = Console_Register ''efficiency'' ConsoleCmdEfficiency
                 (Console_Register ''thread'' (ConsoleCmdThread show) Console_new)
      in if appType AND APP_APPMGR \<noteq> 0 \<or> appType AND APP_GAME \<noteq> 0
         then Console_Register ''app'' ConsoleCmdApp co else co)"

definition robots_console :: "string list \<Rightarrow> int \<Rightarrow> ResourceWorldMgr \<Rightarrow> RobotLocator \<Rightarrow> shell Console" where
  "robots_console show LogicThreadNum worlds loc =
     Console_Register ''world'' (RobotConsoleWorld worlds loc)
       (Console_Register ''http'' RobotConsoleHttp
         (Console_Register ''login'' (RobotConsoleLogin LogicThreadNum)
           (InitializeGlobalComponent_console APP_ROBOT show)))"

section \<open>The HTTP client of the robots\<close>

text \<open>\<open>test_http_login.{h,cpp}\<close>: a component that checks an account over HTTP once and logs the
  answer. \<open>ParseUrl\<close> (mongoose) is an argument, the URL is the one of the configuration.\<close>

record TestHttpLogin =
  tl_identify :: NetIdentify
  tl_account :: string
  tl_password :: string
  tl_ip :: string
  tl_port :: int
  tl_mothed :: string

definition TestHttpLogin_Awake :: "(string \<Rightarrow> (string \<times> int \<times> string) option) \<Rightarrow> string \<Rightarrow> string \<Rightarrow> string
    \<Rightarrow> TestHttpLogin \<Rightarrow> TestHttpLogin \<times> send list" where
  "TestHttpLogin_Awake ParseUrl UrlLogin account password t =
     (let t1 = t\<lparr>tl_account := account, tl_password := password,
            tl_identify := (tl_identify t)\<lparr>ni_tagKey := AddTag_str TagAccount account (ni_tagKey (tl_identify t))\<rparr>\<rparr>
      in case ParseUrl UrlLogin of
           None \<Rightarrow> (t1, [])
         | Some (host, port, mothed) \<Rightarrow>
             (t1\<lparr>tl_ip := host, tl_port := port, tl_mothed := mothed\<rparr>,
              [Connect_to (CreateConnect HttpConnector TagAccount \<lparr>KeyStr = account, KeyInt64 = 0\<rparr> host port)]))"

definition GetTestHttpLogin :: "NetIdentify \<Rightarrow> TestHttpLogin \<Rightarrow> bool" where
  "GetTestHttpLogin i t = (case GetTagValue TagAccount (ni_tagKey i) of
     None \<Rightarrow> False | Some pTagValue \<Rightarrow> KeyStr pTagValue = tl_account t)"

definition TestHttpLogin_HandleNetworkConnected :: "SocketKey \<Rightarrow> TestHttpLogin \<Rightarrow> TestHttpLogin \<times> send list" where
  "TestHttpLogin_HandleNetworkConnected key t =
     (let t1 = t\<lparr>tl_identify := (tl_identify t)\<lparr>ni_socketKey := key\<rparr>\<rparr> in
      (t1, [HttpRequest (tl_identify t1) (tl_ip t1) (tl_port t1) (tl_mothed t1)
              (sm_assign ''password'' (tl_password t1) (sm_assign ''account'' (tl_account t1) []))]))"

section \<open>Facts\<close>

text \<open>Words with one blank between them are split again.\<close>

fun unwords :: "string list \<Rightarrow> string" where
  "unwords [] = []"
| "unwords [x] = x"
| "unwords (x # xs) = x @ CHR '' '' # unwords xs"

definition is_word :: "string \<Rightarrow> bool" where
  "is_word x \<longleftrightarrow> x \<noteq> [] \<and> CHR '' '' \<notin> set x \<and> LF \<notin> set x \<and> CHR 0x00 \<notin> set x"

lemma unwords_not_empty: "\<forall>x\<in>set xs. is_word x \<Longrightarrow> xs \<noteq> [] \<Longrightarrow> unwords xs \<noteq> []"
  by (cases xs rule: unwords.cases) (auto simp: is_word_def)

lemma split_from_unwords: "\<forall>x\<in>set xs. is_word x \<Longrightarrow> xs \<noteq> [] \<Longrightarrow> split_from (unwords xs) (CHR '' '') = xs"
proof (induction xs rule: unwords.induct)
  case (2 x)
  then show ?case by (subst split_from.simps) (simp add: is_word_def str_find_none)
next
  case (3 x y ys)
  then have x: "is_word x" and rest: "split_from (unwords (y # ys)) (CHR '' '') = y # ys" by auto
  have f: "str_find (CHR '' '') (x @ CHR '' '' # unwords (y # ys)) = Some (length x)"
    using x by (simp add: is_word_def str_find_append)
  show ?case
    unfolding unwords.simps(3) by (subst split_from.simps) (use x rest in \<open>simp add: f is_word_def\<close>)
qed simp

lemma strutil_split_unwords:
  "\<forall>x\<in>set xs. is_word x \<Longrightarrow> xs \<noteq> [] \<Longrightarrow> strutil_split (unwords xs) (CHR '' '') = xs"
  using unwords_not_empty by (simp add: strutil_split_def split_from_unwords)

lemma unwords_chars: "\<forall>x\<in>set xs. is_word x \<Longrightarrow> LF \<notin> set (unwords xs) \<and> CHR 0x00 \<notin> set (unwords xs)"
proof (induction xs rule: unwords.induct)
  case (3 x y ys)
  then show ?case by (simp add: is_word_def LF_def)
qed (simp_all add: is_word_def)

text \<open>A line that fits into the buffer is read as it is.\<close>

lemma cin_getline_line:
  assumes "in_good s" and "in_rest s = line @ LF # rest" and "LF \<notin> set line" and "length line < n"
  shows "cin_getline n s = (line, s\<lparr>in_rest := rest\<rparr>)"
proof -
  have "takeWhile (\<lambda>c. c \<noteq> LF) (take (n - 1) (line @ LF # rest)) = line"
  proof (cases "length line = n - 1")
    case True
    then show ?thesis using assms(3) by (auto simp: takeWhile_eq_all_conv)
  next
    case False
    then have "take (n - 1) (line @ LF # rest) = line @ LF # take (n - 2 - length line) rest"
      using assms(4) by (simp add: take_Cons' diff_diff_eq)
    then show ?thesis using assms(3) by (auto simp: takeWhile_append takeWhile_eq_all_conv)
  qed
  then show ?thesis using assms(1,2) by (simp add: cin_getline_def Let_def)
qed



lemma reader_turn_line:
  assumes "in_good s" and "in_rest s = line @ LF # rest" and "LF \<notin> set line" and "CHR 0x00 \<notin> set line"
    and "length line < ConsoleMaxBuffer" and "find_text ''-exit'' line = None"
  shows "reader_turn (s, co, g) = (s\<lparr>in_rest := rest\<rparr>, co\<lparr>co_commands := co_commands co @ [line]\<rparr>, g)"
  using cin_getline_line [OF assms(1-3,5)] assms(4,6) by (simp add: reader_turn_def Let_def c_str_id)

lemma Console_Update_handler:
  assumes "co_commands co = unwords (cmd # sub # args) # rest" and "\<forall>x\<in>set (cmd # sub # args). is_word x"
    and "sm_find (co_handles co) cmd = Some c" and "sm_find (cc_handles c) sub = Some f"
  shows "Console_Update co w = map_option (\<lambda>(w1, out). (co\<lparr>co_commands := rest\<rparr>, w1, out)) (f args w)"
proof -
  have "strutil_split (unwords (cmd # sub # args)) (CHR '' '') = cmd # sub # args"
    using assms(2) by (intro strutil_split_unwords) auto
  then show ?thesis using assms(1,3,4)
    by (simp del: unwords.simps add: Console_Update_def Let_def ConsoleCmd_Process_def)
qed

text \<open>A reader whose stream has failed.\<close>

lemma find_exit_empty [simp]: "find_text ''-exit'' [] = None"
  by simp

lemma reader_turns_failed:
  assumes "\<not> in_good s" and "co_isRun co"
  shows "reader_turns n (s, co, g) = (s, co\<lparr>co_commands := co_commands co @ replicate n []\<rparr>, g)"
  using assms(2)
proof (induction n arbitrary: co)
  case (Suc n)
  have "reader_turn (s, co, g) = (s, co\<lparr>co_commands := co_commands co @ [[]]\<rparr>, g)"
    using assms(1) by (simp add: reader_turn_def cin_getline_def c_str_def)
  then show ?case using Suc.prems Suc.IH [of "co\<lparr>co_commands := co_commands co @ [[]]\<rparr>"] by (simp add: Let_def)
qed simp

lemma cin_getline_no_line:
  assumes "in_good s" and "LF \<notin> set (take n (in_rest s))" and "0 < n"
  shows "fst (cin_getline n s) = take (n - 1) (in_rest s) \<and> \<not> in_good (snd (cin_getline n s))"
proof -
  let ?r = "in_rest s"
  have "set (take (n - 1) ?r) \<subseteq> set (take n ?r)" by (rule set_take_subset_set_take) simp
  then have buf: "takeWhile (\<lambda>c. c \<noteq> LF) (take (n - 1) ?r) = take (n - 1) ?r"
    using assms(2) by (auto simp: takeWhile_eq_all_conv)
  have rest: "drop (length (take (n - 1) ?r)) ?r = drop (n - 1) ?r" by (cases "n - 1 \<le> length ?r") auto
  have "hd (drop (n - 1) ?r) \<noteq> LF" if "drop (n - 1) ?r \<noteq> []"
  proof
    assume lf: "hd (drop (n - 1) ?r) = LF"
    have "n - 1 < length ?r" using that by simp
    then have "hd (drop (n - 1) ?r) = take n ?r ! (n - 1)" "n - 1 < length (take n ?r)"
      using assms(3) by (auto simp: hd_drop_conv_nth)
    then have "LF \<in> set (take n ?r)" using lf nth_mem by metis
    then show False using assms(2) by simp
  qed
  then show ?thesis using assms(1) unfolding cin_getline_def Let_def buf rest by simp
qed

section \<open>Properties\<close>

text \<open>C28: a typed command reaches its handler. The line of a command with its options, separated by
  blanks, makes the next frame of the main thread call the handler that is registered for the
  command and its first option, with the rest of the words; the process and the other commands are
  left alone.\<close>

theorem console_line_reaches_handler:
  assumes "in_good s" and "in_rest s = unwords (cmd # sub # args) @ LF # rest"
    and "\<forall>x\<in>set (cmd # sub # args). is_word x" and "length (unwords (cmd # sub # args)) < ConsoleMaxBuffer"
    and "find_text ''-exit'' (unwords (cmd # sub # args)) = None" and "co_commands co = []"
    and "sm_find (co_handles co) cmd = Some c" and "sm_find (cc_handles c) sub = Some f"
  shows "\<exists>co1. reader_turn (s, co, g) = (s\<lparr>in_rest := rest\<rparr>, co1, g)
    \<and> Console_Update co1 w = map_option (\<lambda>(w1, out). (co, w1, out)) (f args w)"
proof -
  let ?line = "unwords (cmd # sub # args)" and ?co = "co\<lparr>co_commands := [unwords (cmd # sub # args)]\<rparr>"
  have empty: "co\<lparr>co_commands := []\<rparr> = co" using assms(6) by (cases co) simp
  have chars: "LF \<notin> set ?line" "CHR 0x00 \<notin> set ?line" using unwords_chars [OF assms(3)] by auto
  have "reader_turn (s, co, g) = (s\<lparr>in_rest := rest\<rparr>, ?co, g)"
    using reader_turn_line [OF assms(1,2) chars assms(4,5), of co g] unfolding assms(6) by (simp del: unwords.simps)
  moreover have "Console_Update ?co w = map_option (\<lambda>(w1, out). (co, w1, out)) (f args w)"
    using Console_Update_handler [of ?co cmd sub args "[]" c f w] assms(3,6-8) by (simp add: empty)
  ultimately show ?thesis by blast
qed

text \<open>A test run of robots started from the console: two threads get two robots each, the fifth one is
  never created.\<close>

theorem console_line_reaches_handler_witness:
  "\<exists>co1. reader_turn (\<lparr>in_rest = ''login -ex bob 5'' @ [LF], in_good = True\<rparr>, robots_console [] 2 ResourceWorldMgr_new [], Global_new APP_ROBOT 1 0)
       = (\<lparr>in_rest = [], in_good = True\<rparr>, co1, Global_new APP_ROBOT 1 0)
     \<and> map_option (\<lambda>(co2, w, out). (sh_collections w, sh_robotsCount w, out)) (Console_Update co1 shell_new)
       = Some ([(False, ''bob'', 0, 2), (False, ''bob'', 2, 4)], 5, [])"
proof -
  let ?co = "robots_console [] 2 ResourceWorldMgr_new []" and ?s = "\<lparr>in_rest = ''login -ex bob 5'' @ [LF], in_good = True\<rparr>"
  let ?f = "Login_HandleLoginEx 2"
  have f: "?f [''bob'', ''5''] shell_new = Some (shell_new\<lparr>sh_collections := [(False, ''bob'', 0, 2), (False, ''bob'', 2, 4)], sh_robotsCount := 5\<rparr>, [])"
    by code_simp
  have find: "sm_find (co_handles ?co) ''login'' = Some (RobotConsoleLogin 2)"
    by (simp add: robots_console_def InitializeGlobalComponent_console_def Console_Register_def Console_new_def Let_def)
  have sub: "sm_find (cc_handles (RobotConsoleLogin 2)) ''-ex'' = Some ?f"
    by (simp add: RobotConsoleLogin_def OnRegisterHandler_def)
  have line: "unwords (''login'' # ''-ex'' # [''bob'', ''5'']) = ''login -ex bob 5''" by simp
  have "\<exists>co1. reader_turn (?s, ?co, Global_new APP_ROBOT 1 0) = (?s\<lparr>in_rest := []\<rparr>, co1, Global_new APP_ROBOT 1 0)
    \<and> Console_Update co1 shell_new = map_option (\<lambda>(w1, out). (?co, w1, out)) (?f [''bob'', ''5''] shell_new)"
  proof (rule console_line_reaches_handler [of _ "''login''" "''-ex''" "[''bob'', ''5'']", OF _ _ _ _ _ _ find sub])
    show "\<forall>x\<in>set (''login'' # ''-ex'' # [''bob'', ''5'']). is_word x" by (simp add: is_word_def LF_def)
    show "find_text ''-exit'' (unwords (''login'' # ''-ex'' # [''bob'', ''5''])) = None" unfolding line by code_simp
    show "co_commands ?co = []"
      by (simp add: robots_console_def InitializeGlobalComponent_console_def Console_Register_def Console_new_def Let_def)
  qed (simp_all only: line, simp_all add: ConsoleMaxBuffer_def)
  then show ?thesis unfolding f by (force simp: shell_new_def)
qed

text \<open>C26: the end of the input and a line that is too long make the reading thread spin. It queues what
  it got and then an empty command in every further turn, for ever: the thread is not stopped and
  nothing typed later, \<open>-exit\<close> included, is read, while the main thread takes one command a frame.\<close>

theorem console_reader_spins:
  assumes "in_good s" and "LF \<notin> set (take ConsoleMaxBuffer (in_rest s))" and "co_isRun co"
    and "find_text ''-exit'' (c_str (take (ConsoleMaxBuffer - 1) (in_rest s))) = None"
  shows "\<exists>s1. reader_turns (Suc n) (s, co, g)
    = (s1, co\<lparr>co_commands := co_commands co @ c_str (take (ConsoleMaxBuffer - 1) (in_rest s)) # replicate n []\<rparr>, g)"
proof -
  let ?line = "c_str (take (ConsoleMaxBuffer - 1) (in_rest s))" and ?s1 = "snd (cin_getline ConsoleMaxBuffer s)"
  let ?co = "co\<lparr>co_commands := co_commands co @ [?line]\<rparr>"
  have get: "fst (cin_getline ConsoleMaxBuffer s) = take (ConsoleMaxBuffer - 1) (in_rest s)" "\<not> in_good ?s1"
    using cin_getline_no_line [OF assms(1,2)] by (simp_all add: ConsoleMaxBuffer_def)
  have "reader_turn (s, co, g) = (?s1, ?co, g)"
    using assms(4) get(1) by (simp add: reader_turn_def Let_def case_prod_unfold)
  then show ?thesis using assms(3) reader_turns_failed [OF get(2), of ?co n g] by (simp add: Let_def)
qed

text \<open>A process started with its input closed.\<close>

theorem console_reader_spins_witness:
  "\<exists>s1. reader_turns 4 (\<lparr>in_rest = [], in_good = True\<rparr>, Console_new :: shell Console, Global_new APP_ROBOT 1 0)
     = (s1, Console_new\<lparr>co_commands := [[], [], [], []]\<rparr>, Global_new APP_ROBOT 1 0)"
proof -
  let ?s = "\<lparr>in_rest = [], in_good = True\<rparr>"
  have "\<exists>s1. reader_turns (Suc 3) (?s, Console_new :: shell Console, Global_new APP_ROBOT 1 0) = (s1, Console_new\<lparr>co_commands := co_commands (Console_new :: shell Console)
      @ c_str (take (ConsoleMaxBuffer - 1) (in_rest ?s)) # replicate 3 []\<rparr>, Global_new APP_ROBOT 1 0)"
    by (rule console_reader_spins) (simp_all add: Console_new_def c_str_def)
  moreover have "Suc 3 = 4" by simp
  ultimately show ?thesis by (simp only: Console_new_def) (simp add: c_str_def numeral_3_eq_3 del: reader_turns.simps)
qed

text \<open>A world that is not a number ends the process of robots.\<close>

lemma enter_not_a_number:
  "World_HandleEnter worlds loc [''east''] w = None"
proof -
  have "stoi ''east'' = None" by code_simp
  then show ?thesis by (simp add: World_HandleEnter_def CheckParamCnt_def)
qed

end
