(* ===== verification/Res_Path.thy ===== *)
theory Res_Path
  imports Server_App
begin

text \<open>
  \<open>res_path.{h,cpp}\<close> on Linux, and \<open>strutil::replace\<close>: the directory of the resources, from the
  environment or from the path of the executable, and the names of files in it.
\<close>

lemma find_text_bound: "find_text pat s = Some i \<Longrightarrow> i + length pat \<le> length s"
proof (induction s arbitrary: i)
  case (Cons c s)
  show ?case
  proof (cases "take (length pat) (c # s) = pat")
    case True
    then have "length pat \<le> length (c # s)" by (metis length_take min.absorb_iff1 min.commute)
    then show ?thesis using Cons.prems True by simp
  next
    case False
    then show ?thesis using Cons by auto
  qed
qed (simp split: if_splits)

text \<open>The search goes on behind the replacement. An empty pattern is found for ever: \<open>None\<close>.\<close>

function strutil_replace :: "string \<Rightarrow> string \<Rightarrow> string \<Rightarrow> string option" where
  "strutil_replace pattern newpat str =
     (if pattern = [] then None
      else case find_text pattern str of
          None \<Rightarrow> Some str
        | Some pos \<Rightarrow> map_option (\<lambda>rest. take pos str @ newpat @ rest)
                        (strutil_replace pattern newpat (drop (pos + length pattern) str)))"
  by pat_completeness auto
termination
proof (relation "measure (\<lambda>(pattern, newpat, str). length str)")
  fix pattern newpat str :: string and pos
  assume "pattern \<noteq> []" "find_text pattern str = Some pos"
  then show "((pattern, newpat, drop (pos + length pattern) str), (pattern, newpat, str)) \<in> measure (\<lambda>(pattern, newpat, str). length str)"
    using find_text_bound [of pattern str pos] by (cases pattern) auto
qed simp

declare strutil_replace.simps [simp del]

definition parent_path :: "string \<Rightarrow> string" where
  "parent_path s = (if CHR ''/'' \<in> set s then rev (tl (dropWhile (\<lambda>c. c \<noteq> CHR ''/'') (rev s))) else s)"

text \<open>\<open>env\<close> is the variable \<open>GENGINE_RES_PATH\<close>, \<open>exe\<close> the result of \<open>readlink\<close>; when both fail the
  path stays empty.\<close>

definition ResPath_Awake :: "string option \<Rightarrow> string option \<Rightarrow> string" where
  "ResPath_Awake env exe =
     (let resPath = (case env of None \<Rightarrow> '''' | Some v \<Rightarrow> v) in
      if resPath \<noteq> [] then resPath @ ''/res''
      else case exe of None \<Rightarrow> '''' | Some name \<Rightarrow> parent_path (parent_path name) @ ''/res'')"

definition FindResPath :: "string \<Rightarrow> string \<Rightarrow> string option" where
  "FindResPath resPath res =
     Option.bind (strutil_replace [CHR 0x5C] ''/'' (resPath @ res)) (strutil_replace ''//'' ''/'')"

lemma replace_char:
  assumes "c \<noteq> d"
  shows "strutil_replace [c] [d] s = Some (map (\<lambda>x. if x = c then d else x) s)"
proof (induction s rule: length_induct)
  case (1 s)
  show ?case
  proof (cases "c \<in> set s")
    case False
    have "find_text [c] s = None" using False by (induction s) auto
    moreover have "map (\<lambda>x. if x = c then d else x) s = s" using False by (intro map_idI) auto
    ultimately show ?thesis by (simp add: strutil_replace.simps)
  next
    case True
    then obtain a b where s: "s = a @ c # b" "c \<notin> set a" by (meson split_list_first)
    have "find_text [c] (a @ c # b) = Some (length a)" using s(2) by (induction a) auto
    moreover have "map (\<lambda>x. if x = c then d else x) a = a" using s(2) by (intro map_idI) auto
    ultimately show ?thesis using 1 s(1) by (subst strutil_replace.simps) simp
  qed
qed

text \<open>Each search begins behind the last replacement, so of four slashes in a row two are left.\<close>

lemma FindResPath_four_slashes: "FindResPath ''/srv'' ''////a'' = Some ''/srv//a''"
  by (simp add: FindResPath_def replace_char strutil_replace.simps)

lemma ResPath_of_executable: "ResPath_Awake None (Some ''/srv/bin/spaced'') = ''/srv/res''"
  by (simp add: ResPath_Awake_def parent_path_def)

end
